(* ===== verification/Prelude.thy ===== *)
theory Prelude
  imports Main "HOL-Library.AList" "HOL-Library.Char_ord" "HOL-Library.List_Lexorder"
    "HOL-Library.Product_Lexorder" "HOL-Library.Multiset"
begin

text \<open>
  Vocabulary shared by every component: JavaScript strings, ordered \<open>Map\<close>s and \<open>Set\<close>s,
  comparator sorts, and the generic lemmas about them.

  A TypeScript string is the list of its UTF-8 bytes.  A literal of the source outside ASCII
  is written out as its bytes (\<open>emdash\<close>, \<open>endash\<close>, \<open>rsquo\<close>, \<open>hline\<close>).  Searching,
  splitting on ASCII characters, prefix tests and replacement agree with the UTF-16 semantics
  of JavaScript; the operations that count (\<open>slice\<close>, \<open>length\<close>) agree on ASCII text and count
  bytes otherwise.

  A JavaScript \<open>Map\<close> is an association list in insertion order: \<open>set\<close> is \<open>AList.update\<close>
  (an existing key keeps its place), \<open>get\<close> is \<open>map_of\<close>.  A \<open>Set\<close> is a distinct list in
  insertion order, extended by \<open>set_add\<close>.
\<close>

named_theorems js_text \<open>facts about the string operations\<close>
named_theorems sort_facts \<open>facts about the comparator sort\<close>

subsection \<open>Characters\<close>

definition backslash :: char where "backslash = CHR 0x5C"
definition emdash :: string where "emdash = [CHR 0xE2, CHR 0x80, CHR 0x94]"
definition endash :: string where "endash = [CHR 0xE2, CHR 0x80, CHR 0x93]"
definition rsquo :: string where "rsquo = [CHR 0xE2, CHR 0x80, CHR 0x99]"
definition hline :: string where "hline = [CHR 0xE2, CHR 0x94, CHR 0x80]"

definition in_range :: "char \<Rightarrow> char \<Rightarrow> char \<Rightarrow> bool" where
  "in_range a b c \<longleftrightarrow> (of_char a :: nat) \<le> of_char c \<and> (of_char c :: nat) \<le> of_char b"

definition is_digit :: "char \<Rightarrow> bool" where
  "is_digit c \<longleftrightarrow> in_range (CHR ''0'') (CHR ''9'') c"

definition is_upper :: "char \<Rightarrow> bool" where
  "is_upper c \<longleftrightarrow> in_range (CHR ''A'') (CHR ''Z'') c"

definition is_lower :: "char \<Rightarrow> bool" where
  "is_lower c \<longleftrightarrow> in_range (CHR ''a'') (CHR ''z'') c"

text \<open>The word characters of \<open>\w\<close> and \<open>\b\<close>, and the white space of \<open>\s\<close> and \<open>trim\<close>.\<close>

definition is_word :: "char \<Rightarrow> bool" where
  "is_word c \<longleftrightarrow> is_digit c \<or> is_upper c \<or> is_lower c \<or> c = CHR ''_''"

definition is_space :: "char \<Rightarrow> bool" where
  "is_space c \<longleftrightarrow> c = CHR '' '' \<or> in_range (CHR 0x09) (CHR 0x0D) c"

definition lower_char :: "char \<Rightarrow> char" where
  "lower_char c = (if is_upper c then char_of ((of_char c :: nat) + 32) else c)"

definition upper_char :: "char \<Rightarrow> char" where
  "upper_char c = (if is_lower c then char_of ((of_char c :: nat) - 32) else c)"

abbreviation to_lower :: "string \<Rightarrow> string" where "to_lower \<equiv> map lower_char"
abbreviation to_upper :: "string \<Rightarrow> string" where "to_upper \<equiv> map upper_char"

subsection \<open>Strings\<close>

fun starts_with :: "'a list \<Rightarrow> 'a list \<Rightarrow> bool" where
  "starts_with [] s = True"
| "starts_with (p # ps) [] = False"
| "starts_with (p # ps) (c # cs) = (p = c \<and> starts_with ps cs)"

definition ends_with :: "'a list \<Rightarrow> 'a list \<Rightarrow> bool" where
  "ends_with p s = starts_with (rev p) (rev s)"

fun contains :: "'a list \<Rightarrow> 'a list \<Rightarrow> bool" where
  "contains p [] = (p = [])"
| "contains p (c # cs) = (starts_with p (c # cs) \<or> contains p cs)"

definition trim_start :: "string \<Rightarrow> string" where "trim_start = dropWhile is_space"
definition trim :: "string \<Rightarrow> string" where "trim s = rev (trim_start (rev (trim_start s)))"

text \<open>\<open>s.split(c)\<close> for a one-character separator, \<open>xs.join(sep)\<close>, \<open>s.slice(-n)\<close>.\<close>

fun split_on :: "char \<Rightarrow> string \<Rightarrow> string list" where
  "split_on d [] = [[]]"
| "split_on d (c # cs) =
     (if c = d then [] # split_on d cs
      else case split_on d cs of [] \<Rightarrow> [[c]] | w # ws \<Rightarrow> (c # w) # ws)"

fun join :: "string \<Rightarrow> string list \<Rightarrow> string" where
  "join sep [] = []"
| "join sep [x] = x"
| "join sep (x # y # ys) = x @ sep @ join sep (y # ys)"

abbreviation lines_of :: "string \<Rightarrow> string list" where "lines_of \<equiv> split_on (CHR 0x0A)"
abbreviation unlines :: "string list \<Rightarrow> string" where "unlines \<equiv> join [CHR 0x0A]"

definition take_last :: "nat \<Rightarrow> 'a list \<Rightarrow> 'a list" where
  "take_last n xs = drop (length xs - n) xs"

text \<open>\<open>s.replaceAll(from, to)\<close> for a non-empty \<open>from\<close>: occurrences from the left, not rescanned.\<close>

fun replace_skip :: "nat \<Rightarrow> string \<Rightarrow> string \<Rightarrow> string \<Rightarrow> string" where
  "replace_skip k p q [] = []"
| "replace_skip (Suc k) p q (c # cs) = replace_skip k p q cs"
| "replace_skip 0 p q (c # cs) =
     (if starts_with p (c # cs) then q @ replace_skip (length p - 1) p q cs
      else c # replace_skip 0 p q cs)"

definition replace_all :: "string \<Rightarrow> string \<Rightarrow> string \<Rightarrow> string" where
  "replace_all p q s = replace_skip 0 p q s"

text \<open>Template interpolation of a number.\<close>

fun dec :: "nat \<Rightarrow> string" where
  "dec n = (if n < 10 then [char_of (48 + n)] else dec (n div 10) @ [char_of (48 + n mod 10)])"

declare dec.simps [simp del]

text \<open>\<open>Number(digits)\<close> on a string of decimal digits.\<close>

definition digit_value :: "char \<Rightarrow> nat" where "digit_value c = of_char c - 48"

definition undec :: "string \<Rightarrow> nat" where
  "undec = foldl (\<lambda>n c. 10 * n + digit_value c) 0"

subsection \<open>Ordered sets and comparator sorts\<close>

definition set_add :: "'a \<Rightarrow> 'a list \<Rightarrow> 'a list" where
  "set_add x xs = (if x \<in> set xs then xs else xs @ [x])"

definition set_of_list :: "'a list \<Rightarrow> 'a list" where
  "set_of_list xs = foldl (\<lambda>acc x. set_add x acc) [] xs"

text \<open>A stable sort for a comparator given as \<open>le\<close> (\<open>Array.prototype.sort\<close> is stable).\<close>

fun insert_by :: "('a \<Rightarrow> 'a \<Rightarrow> bool) \<Rightarrow> 'a \<Rightarrow> 'a list \<Rightarrow> 'a list" where
  "insert_by le x [] = [x]"
| "insert_by le x (y # ys) = (if le x y then x # y # ys else y # insert_by le x ys)"

definition sort_by :: "('a \<Rightarrow> 'a \<Rightarrow> bool) \<Rightarrow> 'a list \<Rightarrow> 'a list" where
  "sort_by le xs = foldr (insert_by le) xs []"

text \<open>\<open>xs.find(p)\<close> is \<open>List.find\<close>; the first index of a member, else the length.\<close>

fun index_of :: "('a \<Rightarrow> bool) \<Rightarrow> 'a list \<Rightarrow> nat" where
  "index_of p [] = 0"
| "index_of p (x # xs) = (if p x then 0 else Suc (index_of p xs))"

subsection \<open>Lemmas\<close>

lemma starts_with_iff [js_text]: "starts_with p s \<longleftrightarrow> (\<exists>r. s = p @ r)"
  by (induction p s rule: starts_with.induct) auto

lemma starts_with_append [simp]: "starts_with p (p @ r)"
  by (simp add: starts_with_iff)

lemma contains_iff [js_text]: "contains p s \<longleftrightarrow> (\<exists>a b. s = a @ p @ b)"
proof (induction s)
  case Nil
  show ?case by simp
next
  case (Cons c cs)
  have "(\<exists>a b. c # cs = a @ p @ b) \<longleftrightarrow> starts_with p (c # cs) \<or> (\<exists>a b. cs = a @ p @ b)"
    (is "?l \<longleftrightarrow> ?r")
  proof
    assume ?l
    then obtain a b where ab: "c # cs = a @ p @ b" by blast
    show ?r
    proof (cases a)
      case Nil
      with ab show ?thesis by (auto simp: starts_with_iff)
    next
      case (Cons x a')
      with ab show ?thesis by auto
    qed
  next
    assume ?r
    then show ?l
    proof
      assume "starts_with p (c # cs)"
      then obtain r where "c # cs = p @ r" by (auto simp: starts_with_iff)
      then have "c # cs = [] @ p @ r" by simp
      then show ?thesis by blast
    next
      assume "\<exists>a b. cs = a @ p @ b"
      then obtain a b where "cs = a @ p @ b" by blast
      then have "c # cs = (c # a) @ p @ b" by simp
      then show ?thesis by blast
    qed
  qed
  with Cons.IH show ?case by simp
qed

lemma split_on_nonempty [simp]: "split_on d s \<noteq> []"
  by (cases s) (auto split: list.splits)

lemma join_split_on: "join [d] (split_on d s) = s"
proof (induction s)
  case (Cons c cs)
  then show ?case
    by (cases "split_on d cs"; cases "tl (split_on d cs)") (auto split: list.splits)
qed simp

lemma split_on_no_sep: "w \<in> set (split_on d s) \<Longrightarrow> d \<notin> set w"
  by (induction s arbitrary: w) (force split: list.splits if_splits)+

lemma split_on_word: "d \<notin> set s \<Longrightarrow> split_on d s = [s]"
  by (induction s) auto

lemma split_on_append: "d \<notin> set w \<Longrightarrow> split_on d (w @ d # s) = w # split_on d s"
  by (induction w) auto

lemma split_on_join:
  "ws \<noteq> [] \<Longrightarrow> (\<And>w. w \<in> set ws \<Longrightarrow> d \<notin> set w) \<Longrightarrow> split_on d (join [d] ws) = ws"
proof (induction ws)
  case (Cons w ws)
  then show ?case
    by (cases ws) (auto simp: split_on_word split_on_append)
qed simp

lemma set_set_add [simp]: "set (set_add x xs) = insert x (set xs)"
  by (auto simp: set_add_def)

lemma distinct_set_add: "distinct xs \<Longrightarrow> distinct (set_add x xs)"
  by (simp add: set_add_def)

lemma foldl_set_add:
  "set (foldl (\<lambda>acc x. set_add x acc) ys xs) = set ys \<union> set xs"
  "distinct ys \<Longrightarrow> distinct (foldl (\<lambda>acc x. set_add x acc) ys xs)"
  by (induction xs arbitrary: ys) (auto simp: distinct_set_add)

lemma set_set_of_list [simp]: "set (set_of_list xs) = set xs"
  by (simp add: set_of_list_def foldl_set_add)

lemma distinct_set_of_list [simp]: "distinct (set_of_list xs)"
  by (simp add: set_of_list_def foldl_set_add)

lemma mset_insert_by [sort_facts]: "mset (insert_by le x xs) = add_mset x (mset xs)"
  by (induction xs) auto

lemma mset_sort_by [sort_facts]: "mset (sort_by le xs) = mset xs"
  by (induction xs) (auto simp: sort_by_def mset_insert_by)

lemma set_sort_by [simp]: "set (sort_by le xs) = set xs"
  by (rule mset_eq_setD) (rule mset_sort_by)

lemma set_insert_by [simp]: "set (insert_by le x xs) = insert x (set xs)"
  by (induction xs) auto

lemma length_sort_by [simp]: "length (sort_by le xs) = length xs"
  by (metis mset_sort_by size_mset)

lemma sorted_wrt_insert_by:
  assumes total: "\<And>x y. \<not> le x y \<Longrightarrow> le y x"
    and trans: "\<And>x y z. le x y \<Longrightarrow> le y z \<Longrightarrow> le x z"
    and "sorted_wrt le xs"
  shows "sorted_wrt le (insert_by le x xs)"
  using assms(3)
proof (induction xs)
  case (Cons y ys)
  show ?case
  proof (cases "le x y")
    case True
    with Cons.prems show ?thesis by (simp, blast intro: trans)
  next
    case False
    with Cons total show ?thesis by simp
  qed
qed simp

lemma sorted_wrt_sort_by [sort_facts]:
  assumes "\<And>x y. \<not> le x y \<Longrightarrow> le y x" and "\<And>x y z. le x y \<Longrightarrow> le y z \<Longrightarrow> le x z"
  shows "sorted_wrt le (sort_by le xs)"
proof (induction xs)
  case (Cons x xs)
  have "sorted_wrt le (insert_by le x (sort_by le xs))"
    by (rule sorted_wrt_insert_by [OF assms Cons.IH])
  then show ?case by (simp add: sort_by_def)
qed (simp add: sort_by_def)

lemma find_Some_mem: "List.find p xs = Some x \<Longrightarrow> x \<in> set xs \<and> p x"
  by (auto simp: find_Some_iff)

lemma find_None_all: "List.find p xs = None \<longleftrightarrow> (\<forall>x \<in> set xs. \<not> p x)"
  by (auto simp: find_None_iff)

lemma find_append:
  "List.find p (xs @ ys) = (case List.find p xs of Some x \<Rightarrow> Some x | None \<Rightarrow> List.find p ys)"
  by (induction xs) auto

lemma length_take_last [simp]: "length (take_last n xs) = min n (length xs)"
  by (simp add: take_last_def)

lemma set_take_last: "set (take_last n xs) \<subseteq> set xs"
  by (simp add: take_last_def set_drop_subset)

lemma take_last_short [simp]: "length xs \<le> n \<Longrightarrow> take_last n xs = xs"
  by (simp add: take_last_def)

lemma take_last_snoc: "0 < n \<Longrightarrow> \<exists>ys. take_last n (xs @ [x]) = ys @ [x]"
  by (simp add: take_last_def)

lemma foldl_sum: "foldl (\<lambda>t x. t + f x) (a :: nat) xs = a + sum_list (map f xs)"
  by (induction xs arbitrary: a) auto

subsection \<open>Replacement\<close>

lemma replace_skip_drop: "replace_skip k p q s = replace_skip 0 p q (drop k s)"
  by (induction k arbitrary: s) (simp, case_tac s, auto)

text \<open>Two texts that differ at a position both have.\<close>

definition clash :: "string \<Rightarrow> string \<Rightarrow> bool" where
  "clash a b \<longleftrightarrow> list_ex (\<lambda>(x, y). x \<noteq> y) (zip a b)"

definition tails :: "'a list \<Rightarrow> 'a list list" where
  "tails xs = map (\<lambda>n. drop n xs) [0..<length xs]"

text \<open>No occurrence of \<open>w\<close> can overlap an inserted \<open>q\<close>.\<close>

definition apart :: "string \<Rightarrow> string \<Rightarrow> bool" where
  "apart w q \<longleftrightarrow> list_all (\<lambda>w'. clash w' q) (tails w) \<and> list_all (\<lambda>q'. clash w q') (tails q)"

lemma clash_not_prefix: "clash a b \<Longrightarrow> \<not> starts_with a (b @ c)"
  by (induction a b rule: list_induct2') (auto simp: clash_def)

lemma tails_simps [simp]: "tails [] = []" "tails (x # xs) = (x # xs) # tails xs"
  by (simp_all add: tails_def upt_conv_Cons map_Suc_upt [symmetric] o_def del: upt_Suc)

lemma starts_with_replaced:
  assumes "list_all (\<lambda>w'. clash w' q) (tails w)" and "starts_with w (replace_skip 0 p q s)"
  shows "starts_with w s"
  using assms
proof (induction s arbitrary: w)
  case (Cons c cs)
  show ?case
  proof (cases w)
    case (Cons x w')
    show ?thesis
    proof (cases "starts_with p (c # cs)")
      case True
      then show ?thesis using Cons.prems Cons clash_not_prefix [of w q] by simp
    next
      case False
      then show ?thesis using Cons.prems Cons.IH [of w'] Cons by simp
    qed
  qed simp
qed simp

lemma contains_after_apart:
  "list_all (\<lambda>q'. clash w q') (tails q) \<Longrightarrow> contains w (q @ r) \<Longrightarrow> contains w r"
  by (induction q) (auto dest: clash_not_prefix)

lemma contains_drop: "contains w (drop n s) \<Longrightarrow> contains w s"
proof -
  assume "contains w (drop n s)"
  then obtain a b where "drop n s = a @ w @ b" by (auto simp: contains_iff)
  then have "s = (take n s @ a) @ w @ b" by (metis append_assoc append_take_drop_id)
  then show ?thesis unfolding contains_iff by blast
qed

lemma replace_all_keeps_out:
  assumes "apart w q" and "\<not> contains w s" and "w \<noteq> []"
  shows "\<not> contains w (replace_all p q s)"
proof -
  have "contains w (replace_skip 0 p q s) \<Longrightarrow> contains w s"
  proof (induction s rule: length_induct)
    case (1 s)
    show ?case
    proof (cases s)
      case (Cons c cs)
      show ?thesis
      proof (cases "starts_with p s")
        case True
        then have "contains w (replace_skip 0 p q (drop (length p - 1) cs))"
          using 1(2) Cons assms(1) by (auto simp: apart_def replace_skip_drop [of "length p - Suc 0"] dest: contains_after_apart)
        then have "contains w (drop (length p - 1) cs)" using 1(1) Cons by auto
        then show ?thesis using Cons by (auto dest: contains_drop)
      next
        case False
        then consider "starts_with w (replace_skip 0 p q s)" | "contains w (replace_skip 0 p q cs)"
          using 1(2) Cons by auto
        then show ?thesis
        proof cases
          case 1
          then have "starts_with w s" using starts_with_replaced assms(1) by (auto simp: apart_def)
          then show ?thesis using Cons by simp
        next
          case 2
          then show ?thesis using 1(1) Cons by auto
        qed
      qed
    qed (use 1(2) assms in simp)
  qed
  with assms(2) show ?thesis by (auto simp: replace_all_def)
qed

lemma replace_all_removes:
  assumes "apart p q" and "p \<noteq> []"
  shows "\<not> contains p (replace_all p q s)"
proof -
  have "\<not> contains p (replace_skip 0 p q s)"
  proof (induction s rule: length_induct)
    case (1 s)
    show ?case
    proof (cases s)
      case (Cons c cs)
      show ?thesis
      proof (cases "starts_with p s")
        case True
        have "\<not> contains p (replace_skip 0 p q (drop (length p - 1) cs))"
          using 1 Cons by auto
        then show ?thesis
          using True Cons assms(1)
          by (auto simp: apart_def replace_skip_drop [of "length p - Suc 0"] dest: contains_after_apart)
      next
        case False
        then show ?thesis
          using starts_with_replaced [of q p p s] assms(1) 1 Cons by (auto simp: apart_def)
      qed
    qed (use assms in simp)
  qed
  then show ?thesis by (simp add: replace_all_def)
qed

lemma set_replace_all: "set (replace_all p q s) \<subseteq> set q \<union> set s"
proof -
  have "set (replace_skip k p q s) \<subseteq> set q \<union> set s" for k
    by (induction k p q s rule: replace_skip.induct) auto
  then show ?thesis by (simp add: replace_all_def)
qed

text \<open>A text no part of which both begins and ends it cannot straddle a place where it starts.\<close>

definition border_free :: "string \<Rightarrow> bool" where
  "border_free p \<longleftrightarrow> list_all (\<lambda>t. \<not> starts_with t p) (tl (tails p))"

lemma tails_drop: "0 < n \<Longrightarrow> n < length xs \<Longrightarrow> drop n xs \<in> set (tl (tails xs))"
  unfolding tails_def map_tl [symmetric] tl_upt by auto

lemma no_crossing:
  assumes "border_free p" and "\<not> contains p (v @ u)" and "u \<noteq> []"
  shows "\<not> starts_with p (u @ p @ r)"
proof
  assume "starts_with p (u @ p @ r)"
  then obtain z where z: "u @ p @ r = p @ z" by (auto simp: starts_with_iff)
  show False
  proof (cases "length p \<le> length u")
    case True
    then have "p = take (length p) u" using arg_cong [OF z, of "take (length p)"] by simp
    then have "u = p @ drop (length p) u" by (metis append_take_drop_id)
    then have "v @ u = v @ p @ drop (length p) u" by simp
    with assms(2) show False unfolding contains_iff by blast
  next
    case False
    define q where "q = drop (length u) p"
    have "u = take (length u) p" using arg_cong [OF z, of "take (length u)"] False by simp
    then have p: "p = u @ q" by (metis append_take_drop_id q_def)
    have "p @ r = q @ z" using z p by (metis append_assoc same_append_eq)
    then have "q = take (length q) p" using p by (metis append_eq_append_conv_if length_append le_add2)
    then have "starts_with q p" unfolding starts_with_iff by (metis append_take_drop_id)
    moreover have "q \<in> set (tl (tails p))"
      unfolding q_def using False assms(3) by (intro tails_drop) auto
    ultimately show False using assms(1) by (auto simp: border_free_def list_all_iff)
  qed
qed

end
