(* ===== verification/Json.thy ===== *)
theory Json
  imports Prelude
begin

text \<open>
  \<open>JSON.parse\<close> and \<open>JSON.stringify\<close> of the language, on a datatype of JSON values.

  A number written as an integer is \<open>JNum\<close>; one with a fraction or an exponent keeps its text
  (\<open>JDec\<close>).  The rounding of integers beyond 2 to the 53 is not modelled.  An object is its list
  of members; a repeated key takes the last value at the place of the first, as in an object.
  The order JavaScript gives to integer-like keys is not modelled.  An escaped code point is
  read into its UTF-8 bytes, a surrogate one unit at a time.

  \<open>stringify\<close> has the layout argument of the language: \<open>None\<close> for compact text, \<open>Some n\<close> for an
  indentation of \<open>n\<close> blanks.  \<open>json_parse_stringify\<close> is the round trip.
\<close>

datatype json = JNull | JBool bool | JNum int | JDec string | JStr string
  | JArr "json list" | JObj "(string \<times> json) list"

subsection \<open>Printing\<close>

definition hex_digit :: "nat \<Rightarrow> char" where
  "hex_digit n = (if n < 10 then char_of (48 + n) else char_of (87 + n))"

definition quote :: char where "quote = CHR 0x22"

definition escape_char :: "char \<Rightarrow> string" where
  "escape_char c =
     (if c = quote \<or> c = backslash then [backslash, c]
      else if c = CHR 0x08 then [backslash, CHR ''b''] else if c = CHR 0x0C then [backslash, CHR ''f'']
      else if c = CHR 0x0A then [backslash, CHR ''n''] else if c = CHR 0x0D then [backslash, CHR ''r'']
      else if c = CHR 0x09 then [backslash, CHR ''t'']
      else if (of_char c :: nat) < 32 then
        [backslash, CHR ''u'', CHR ''0'', CHR ''0'', hex_digit (of_char c div 16), hex_digit (of_char c mod 16)]
      else [c])"

definition json_string :: "string \<Rightarrow> string" where
  "json_string s = quote # concat (map escape_char s) @ [quote]"

definition json_int :: "int \<Rightarrow> string" where
  "json_int i = (if i < 0 then CHR ''-'' # dec (nat (- i)) else dec (nat i))"

definition layout :: "nat option \<Rightarrow> nat \<Rightarrow> string" where
  "layout ind l = (case ind of None \<Rightarrow> [] | Some n \<Rightarrow> CHR 0x0A # replicate (n * l) (CHR '' ''))"

definition colon :: "nat option \<Rightarrow> string" where
  "colon ind = (case ind of None \<Rightarrow> '':'' | Some n \<Rightarrow> '': '')"

fun stringify :: "nat option \<Rightarrow> nat \<Rightarrow> json \<Rightarrow> string"
and stringify_items :: "nat option \<Rightarrow> nat \<Rightarrow> json list \<Rightarrow> string"
and stringify_members :: "nat option \<Rightarrow> nat \<Rightarrow> (string \<times> json) list \<Rightarrow> string" where
  "stringify ind l JNull = ''null''"
| "stringify ind l (JBool b) = (if b then ''true'' else ''false'')"
| "stringify ind l (JNum i) = json_int i"
| "stringify ind l (JDec t) = t"
| "stringify ind l (JStr s) = json_string s"
| "stringify ind l (JArr xs) = (if xs = [] then ''[]''
     else ''['' @ layout ind (Suc l) @ stringify_items ind (Suc l) xs @ layout ind l @ '']'')"
| "stringify ind l (JObj ms) = (if ms = [] then ''{}''
     else ''{'' @ layout ind (Suc l) @ stringify_members ind (Suc l) ms @ layout ind l @ ''}'')"
| "stringify_items ind l [] = []"
| "stringify_items ind l (x # xs) = stringify ind l x @
     (if xs = [] then [] else '','' @ layout ind l @ stringify_items ind l xs)"
| "stringify_members ind l [] = []"
| "stringify_members ind l (m # ms) = json_string (fst m) @ colon ind @ stringify ind l (snd m) @
     (if ms = [] then [] else '','' @ layout ind l @ stringify_members ind l ms)"

abbreviation json_compact :: "json \<Rightarrow> string" where "json_compact \<equiv> stringify None 0"
abbreviation json_pretty :: "json \<Rightarrow> string" where "json_pretty \<equiv> stringify (Some 2) 0"

subsection \<open>Parsing\<close>

definition json_ws :: "char \<Rightarrow> bool" where
  "json_ws c \<longleftrightarrow> c = CHR '' '' \<or> c = CHR 0x09 \<or> c = CHR 0x0A \<or> c = CHR 0x0D"

definition skip_ws :: "string \<Rightarrow> string" where "skip_ws = dropWhile json_ws"

definition hex_val :: "char \<Rightarrow> nat option" where
  "hex_val c = (if is_digit c then Some (of_char c - 48)
     else if in_range (CHR ''a'') (CHR ''f'') c then Some (of_char c - 87)
     else if in_range (CHR ''A'') (CHR ''F'') c then Some (of_char c - 55) else None)"

definition utf8 :: "nat \<Rightarrow> string" where
  "utf8 n = (if n < 128 then [char_of n]
     else if n < 2048 then [char_of (192 + n div 64), char_of (128 + n mod 64)]
     else [char_of (224 + n div 4096), char_of (128 + n div 64 mod 64), char_of (128 + n mod 64)])"

definition escape_value :: "char \<Rightarrow> char option" where
  "escape_value c =
     (if c = quote \<or> c = backslash \<or> c = CHR ''/'' then Some c
      else if c = CHR ''b'' then Some (CHR 0x08) else if c = CHR ''f'' then Some (CHR 0x0C)
      else if c = CHR ''n'' then Some (CHR 0x0A) else if c = CHR ''r'' then Some (CHR 0x0D)
      else if c = CHR ''t'' then Some (CHR 0x09) else None)"

definition code_unit :: "char \<Rightarrow> char \<Rightarrow> char \<Rightarrow> char \<Rightarrow> nat option" where
  "code_unit a b c d = (case (hex_val a, hex_val b, hex_val c, hex_val d) of
       (Some w, Some x, Some y, Some z) \<Rightarrow> Some (4096 * w + 256 * x + 16 * y + z)
     | _ \<Rightarrow> None)"

text \<open>The characters of a string literal after its opening quote.\<close>

fun p_string :: "string \<Rightarrow> (string \<times> string) option" where
  "p_string [] = None"
| "p_string (c # s) =
     (if c = quote then Some ([], s)
      else if c = backslash then
        (case s of
           [] \<Rightarrow> None
         | e # s' \<Rightarrow>
             (if e = CHR ''u'' then
                (case s' of
                   a # b # c' # d # r \<Rightarrow>
                     (case code_unit a b c' d of
                        None \<Rightarrow> None
                      | Some n \<Rightarrow> map_option (\<lambda>(w, t). (utf8 n @ w, t)) (p_string r))
                 | _ \<Rightarrow> None)
              else case escape_value e of
                None \<Rightarrow> None
              | Some x \<Rightarrow> map_option (\<lambda>(w, t). (x # w, t)) (p_string s')))
      else if (of_char c :: nat) < 32 then None
      else map_option (\<lambda>(w, t). (c # w, t)) (p_string s))"

fun split_digits :: "string \<Rightarrow> string \<times> string" where
  "split_digits [] = ([], [])"
| "split_digits (c # s) =
     (if is_digit c then (let (d, r) = split_digits s in (c # d, r)) else ([], c # s))"

text \<open>An integer part has no leading zero; a fraction and an exponent have digits.\<close>

definition p_fraction :: "string \<Rightarrow> (string \<times> string) option" where
  "p_fraction s =
     (if starts_with ''.'' s then
        (case split_digits (tl s) of ([], _) \<Rightarrow> None | (d, r) \<Rightarrow> Some (CHR ''.'' # d, r))
      else Some ([], s))"

definition p_exponent :: "string \<Rightarrow> (string \<times> string) option" where
  "p_exponent s = (case s of
       e # r \<Rightarrow>
         (if e = CHR ''e'' \<or> e = CHR ''E'' then
            (let (sg, r') = (case r of c # r'' \<Rightarrow> (if c = CHR ''+'' \<or> c = CHR ''-'' then ([c], r'') else ([], r))
                                     | [] \<Rightarrow> ([], r))
             in case split_digits r' of ([], _) \<Rightarrow> None | (d, t) \<Rightarrow> Some (e # sg @ d, t))
          else Some ([], s))
     | [] \<Rightarrow> Some ([], s))"

definition p_number :: "string \<Rightarrow> (json \<times> string) option" where
  "p_number s =
     (let neg = starts_with ''-'' s;
          body = (if neg then tl s else s);
          (d, r) = split_digits body
      in if d = [] \<or> (hd d = CHR ''0'' \<and> length d > 1) then None
         else case p_fraction r of
           None \<Rightarrow> None
         | Some (fr, r') \<Rightarrow>
             (case p_exponent r' of
                None \<Rightarrow> None
              | Some (ex, t) \<Rightarrow>
                  Some (if fr = [] \<and> ex = [] then JNum (if neg then - int (undec d) else int (undec d))
                        else JDec ((if neg then ''-'' else []) @ d @ fr @ ex), t)))"

definition members_object :: "(string \<times> json) list \<Rightarrow> json" where
  "members_object ms = JObj (foldl (\<lambda>acc m. AList.update (fst m) (snd m) acc) [] ms)"

fun p_value :: "nat \<Rightarrow> string \<Rightarrow> (json \<times> string) option"
and p_items :: "nat \<Rightarrow> string \<Rightarrow> (json list \<times> string) option"
and p_members :: "nat \<Rightarrow> string \<Rightarrow> ((string \<times> json) list \<times> string) option" where
  "p_value 0 s = None"
| "p_value (Suc f) s =
     (case skip_ws s of
        [] \<Rightarrow> None
      | c # t \<Rightarrow>
          (if c = quote then map_option (\<lambda>(w, r). (JStr w, r)) (p_string t)
           else if c = CHR ''['' then
             (if starts_with '']'' (skip_ws t) then Some (JArr [], tl (skip_ws t))
              else map_option (\<lambda>(xs, r). (JArr xs, r)) (p_items f t))
           else if c = CHR ''{'' then
             (if starts_with ''}'' (skip_ws t) then Some (JObj [], tl (skip_ws t))
              else map_option (\<lambda>(ms, r). (members_object ms, r)) (p_members f t))
           else if starts_with ''null'' (c # t) then Some (JNull, drop 4 (c # t))
           else if starts_with ''true'' (c # t) then Some (JBool True, drop 4 (c # t))
           else if starts_with ''false'' (c # t) then Some (JBool False, drop 5 (c # t))
           else p_number (c # t)))"
| "p_items 0 s = None"
| "p_items (Suc f) s =
     (case p_value f s of
        None \<Rightarrow> None
      | Some (v, r) \<Rightarrow>
          (case skip_ws r of
             [] \<Rightarrow> None
           | c # t \<Rightarrow>
               (if c = CHR '','' then map_option (\<lambda>(vs, u). (v # vs, u)) (p_items f t)
                else if c = CHR '']'' then Some ([v], t) else None)))"
| "p_members 0 s = None"
| "p_members (Suc f) s =
     (case skip_ws s of
        [] \<Rightarrow> None
      | q # s1 \<Rightarrow>
          (if q \<noteq> quote then None
           else case p_string s1 of
             None \<Rightarrow> None
           | Some (k, s2) \<Rightarrow>
               (if \<not> starts_with '':'' (skip_ws s2) then None
                else case p_value f (tl (skip_ws s2)) of
                  None \<Rightarrow> None
                | Some (v, r) \<Rightarrow>
                    (case skip_ws r of
                       [] \<Rightarrow> None
                     | c # t \<Rightarrow>
                         (if c = CHR '','' then map_option (\<lambda>(ms, u). ((k, v) # ms, u)) (p_members f t)
                          else if c = CHR ''}'' then Some ([(k, v)], t) else None)))))"

definition json_parse :: "string \<Rightarrow> json option" where
  "json_parse s = (case p_value (2 * length s + 2) s of
       Some (v, r) \<Rightarrow> (if skip_ws r = [] then Some v else None)
     | None \<Rightarrow> None)"

definition json_field :: "string \<Rightarrow> json \<Rightarrow> json option" where
  "json_field k v = (case v of JObj ms \<Rightarrow> map_of ms k | _ \<Rightarrow> None)"

subsection \<open>The round trip\<close>

text \<open>Values whose printed form is read back: no repeated key and no kept number text.\<close>

fun json_canonical :: "json \<Rightarrow> bool" where
  "json_canonical (JArr xs) = list_all json_canonical xs"
| "json_canonical (JObj ms) = (distinct (map fst ms) \<and> list_all (\<lambda>m. json_canonical (snd m)) ms)"
| "json_canonical (JDec t) = False"
| "json_canonical v = True"

lemma skip_ws_simps [simp]:
  "skip_ws [] = []" "json_ws c \<Longrightarrow> skip_ws (c # s) = skip_ws s"
  "\<not> json_ws c \<Longrightarrow> skip_ws (c # s) = c # s"
  by (simp_all add: skip_ws_def)

lemma skip_layout [simp]: "skip_ws (layout ind l @ s) = skip_ws s"
proof -
  have "skip_ws (replicate n (CHR '' '') @ s) = skip_ws s" for n
    by (induction n) (simp_all add: json_ws_def)
  then show ?thesis by (simp add: layout_def json_ws_def split: option.split)
qed

lemma hex_digit_val: "n < 16 \<Longrightarrow> hex_val (hex_digit n) = Some n"
proof -
  assume "n < 16"
  then have "n \<in> {0,1,2,3,4,5,6,7,8,9,10,11,12,13,14,15}" by (simp, arith)
  then show ?thesis by (elim insertE) (simp_all add: hex_val_def hex_digit_def is_digit_def in_range_def)
qed

lemma p_string_escape: "p_string (escape_char c @ s) = map_option (\<lambda>(w, t). (c # w, t)) (p_string s)"
proof -
  consider "c = quote \<or> c = backslash" | "c \<in> {CHR 0x08, CHR 0x0C, CHR 0x0A, CHR 0x0D, CHR 0x09}"
    | "c \<noteq> quote" "c \<noteq> backslash" "c \<notin> {CHR 0x08, CHR 0x0C, CHR 0x0A, CHR 0x0D, CHR 0x09}"
      "(of_char c :: nat) < 32"
    | "c \<noteq> quote" "c \<noteq> backslash" "c \<notin> {CHR 0x08, CHR 0x0C, CHR 0x0A, CHR 0x0D, CHR 0x09}"
      "\<not> (of_char c :: nat) < 32" by blast
  then show ?thesis
  proof cases
    case 3
    have "code_unit (CHR ''0'') (CHR ''0'') (hex_digit (of_char c div 16)) (hex_digit (of_char c mod 16)) = Some (of_char c)"
      using 3(4) by (simp add: code_unit_def hex_digit_val) (simp add: hex_val_def is_digit_def in_range_def)
    with 3 show ?thesis
      by (simp add: escape_char_def utf8_def quote_def backslash_def)
  qed (auto simp: escape_char_def escape_value_def quote_def backslash_def)
qed

lemma p_string_print: "p_string (concat (map escape_char w) @ quote # s) = Some (w, s)"
  by (induction w) (simp_all add: p_string_escape)

lemma dec_digits: "list_all is_digit (dec n) \<and> dec n \<noteq> [] \<and> (hd (dec n) = CHR ''0'' \<longrightarrow> n = 0)"
proof (induction n rule: dec.induct)
  case (1 n)
  have digit: "is_digit (char_of (48 + k))" if "k < 10" for k :: nat
    using that by (simp add: is_digit_def in_range_def)
  have nonzero: "char_of (48 + k) \<noteq> CHR ''0''" if "k < 10" "k \<noteq> 0" for k :: nat
  proof
    assume "char_of (48 + k) = CHR ''0''"
    then have "(of_char (char_of (48 + k)) :: nat) = of_char (CHR ''0'')" by simp
    with that show False by simp
  qed
  note dig = digit nonzero
  show ?case
  proof (cases "n < 10")
    case True
    with dig [of n] show ?thesis by (auto simp: dec.simps [of n])
  next
    case False
    with 1 dig [of "n mod 10"] show ?thesis
      by (subst (1 2 3) dec.simps) (auto simp: hd_append)
  qed
qed

lemma undec_dec [simp]: "undec (dec n) = n"
proof (induction n rule: dec.induct)
  case (1 n)
  have dv: "digit_value (char_of (48 + k)) = k" if "k < 10" for k
    using that by (simp add: digit_value_def)
  show ?case
  proof (cases "n < 10")
    case True
    then show ?thesis using dv [of n] by (simp add: dec.simps [of n] undec_def)
  next
    case False
    then have "undec (dec n) = 10 * undec (dec (n div 10)) + digit_value (char_of (48 + n mod 10))"
      by (subst dec.simps) (simp add: undec_def)
    with 1 [OF False] dv [of "n mod 10"] show ?thesis by simp
  qed
qed

lemma split_digits_append:
  "list_all is_digit d \<Longrightarrow> (s = [] \<or> \<not> is_digit (hd s)) \<Longrightarrow> split_digits (d @ s) = (d, s)"
  by (induction d) (cases s; simp)+

text \<open>What may follow a number so that it is not read further.\<close>

definition stops_number :: "string \<Rightarrow> bool" where
  "stops_number s \<longleftrightarrow> (case s of [] \<Rightarrow> True | c # _ \<Rightarrow> \<not> is_digit c \<and> c \<noteq> CHR ''.'' \<and> c \<noteq> CHR ''e'' \<and> c \<noteq> CHR ''E'')"

lemma p_number_print:
  assumes "stops_number s"
  shows "p_number (json_int i @ s) = Some (JNum i, s)"
proof -
  have tail: "p_fraction s = Some ([], s)" "p_exponent s = Some ([], s)"
    using assms by (auto simp: stops_number_def p_fraction_def p_exponent_def split: list.splits)
  have sd: "split_digits (dec n @ s) = (dec n, s)" for n
    using assms dec_digits [of n] by (intro split_digits_append) (auto simp: stops_number_def split: list.splits)
  have ok: "\<not> (dec n = [] \<or> hd (dec n) = CHR ''0'' \<and> 1 < length (dec n))" for n
    using dec_digits [of n] by (cases "n = 0") (auto simp: dec.simps [of 0])
  have neg: "\<not> starts_with ''-'' (dec n @ s)" for n
    using dec_digits [of n] by (cases "dec n") (auto simp: is_digit_def in_range_def)
  show ?thesis
    using ok neg by (auto simp: p_number_def json_int_def sd tail Let_def)
qed

lemma update_fresh: "k \<notin> fst ` set acc \<Longrightarrow> AList.update k v acc = acc @ [(k, v)]"
  by (induction acc) auto

lemma members_object_distinct: "distinct (map fst ms) \<Longrightarrow> members_object ms = JObj ms"
proof -
  have "distinct (map fst (acc @ ms)) \<Longrightarrow>
      foldl (\<lambda>acc m. AList.update (fst m) (snd m) acc) acc ms = acc @ ms" for acc
    by (induction ms arbitrary: acc) (auto simp: update_fresh)
  from this [of "[]"] show "distinct (map fst ms) \<Longrightarrow> ?thesis" by (simp add: members_object_def)
qed

lemma p_value_skip: "skip_ws s = skip_ws t \<Longrightarrow> p_value f s = p_value f t"
  by (cases f) simp_all

lemma p_items_skip: "skip_ws s = skip_ws t \<Longrightarrow> p_items f s = p_items f t"
proof (cases f)
  case (Suc k)
  assume "skip_ws s = skip_ws t"
  then have "p_value k s = p_value k t" by (rule p_value_skip)
  with Suc show ?thesis by simp
qed simp

lemma p_members_skip: "skip_ws s = skip_ws t \<Longrightarrow> p_members f s = p_members f t"
  by (cases f) simp_all

lemma p_value_colon: "p_value f (tl (skip_ws (colon ind @ s))) = p_value f s"
  by (rule p_value_skip) (simp add: colon_def json_ws_def split: option.split)

lemma colon_start: "starts_with '':'' (skip_ws (colon ind @ s))"
  by (simp add: colon_def json_ws_def split: option.split)

lemma json_int_start: "\<exists>c r. json_int i = c # r \<and> (c = CHR ''-'' \<or> is_digit c)"
proof (cases "i < 0")
  case False
  then show ?thesis
    using dec_digits [of "nat i"] by (cases "dec (nat i)") (auto simp: json_int_def)
qed (simp add: json_int_def)

lemma digit_apart:
  "c = CHR ''-'' \<or> is_digit c \<Longrightarrow> \<not> json_ws c \<and>
     c \<notin> {quote, CHR ''['', CHR '']'', CHR ''{'', CHR ''}'', CHR ''n'', CHR ''t'', CHR ''f'', CHR ''`''}"
  by (auto simp: is_digit_def in_range_def quote_def json_ws_def)

lemma p_value_int:
  assumes "stops_number s"
  shows "p_value (Suc f) (json_int i @ s) = Some (JNum i, s)"
proof -
  obtain c r where c: "json_int i = c # r" "c = CHR ''-'' \<or> is_digit c"
    using json_int_start by blast
  note digit_apart [OF c(2)]
  moreover have "p_number (c # r @ s) = Some (JNum i, s)"
    using p_number_print [OF assms, of i] c(1) by simp
  ultimately show ?thesis using c(1) by auto
qed

lemma first_chars [simp]:
  "\<not> json_ws quote" "\<not> json_ws (CHR ''['')" "\<not> json_ws (CHR ''{'')" "\<not> json_ws (CHR '','')"
  "\<not> json_ws (CHR '']'')" "\<not> json_ws (CHR ''}'')" "\<not> json_ws (CHR ''n'')" "\<not> json_ws (CHR ''t'')"
  "\<not> json_ws (CHR ''f'')"
  by (simp_all add: json_ws_def quote_def)

lemma stops_number_simps [simp]:
  "stops_number (layout ind l @ CHR '']'' # s)" "stops_number (layout ind l @ CHR ''}'' # s)"
  "stops_number (CHR '','' # s)" "stops_number []"
  by (auto simp: stops_number_def layout_def is_digit_def in_range_def split: option.split)

lemma stringify_start:
  assumes "json_canonical v"
  shows "\<exists>c r. stringify ind l v = c # r \<and> \<not> json_ws c \<and> c \<noteq> CHR '']'' \<and> c \<noteq> CHR ''}''
    \<and> c \<noteq> CHR ''`''"
proof (cases v)
  case (JNum i)
  obtain c r where "json_int i = c # r" "c = CHR ''-'' \<or> is_digit c"
    using json_int_start by blast
  with JNum digit_apart [of c] show ?thesis by simp
qed (use assms in \<open>auto simp: json_string_def quote_def json_ws_def\<close>)

lemma parse_print:
  "json_canonical v \<Longrightarrow> 2 * length (stringify ind l v) \<le> f \<Longrightarrow> stops_number s \<Longrightarrow>
     p_value f (stringify ind l v @ s) = Some (v, s)"
  "list_all json_canonical xs \<Longrightarrow> xs \<noteq> [] \<Longrightarrow> 2 * length (stringify_items ind l xs) < f \<Longrightarrow>
     p_items f (stringify_items ind l xs @ layout ind k @ CHR '']'' # s) = Some (xs, s)"
  "list_all (\<lambda>m. json_canonical (snd m)) ms \<Longrightarrow> ms \<noteq> [] \<Longrightarrow> 2 * length (stringify_members ind l ms) < f \<Longrightarrow>
     p_members f (stringify_members ind l ms @ layout ind k @ CHR ''}'' # s) = Some (ms, s)"
proof (induction ind l v and ind l xs and ind l ms arbitrary: f s and f k s and f k s
    rule: stringify_stringify_items_stringify_members.induct)
  case (3 ind l i)
  then obtain g where "f = Suc g"
    using dec_digits [of "nat i"] dec_digits [of "nat (- i)"]
    by (cases f) (auto simp: json_int_def split: if_splits)
  with 3 show ?case by (simp only: stringify.simps p_value_int)
next
  case (1 ind l)
  then show ?case by (cases f) (simp_all add: quote_def)
next
  case (2 ind l b)
  then show ?case by (cases f) (auto simp: quote_def split: if_splits)
next
  case (5 ind l w)
  then obtain g where "f = Suc g" by (cases f) (auto simp: json_string_def)
  then show ?case by (simp add: json_string_def p_string_print)
next
  case (6 ind l xs)
  then obtain g where f: "f = Suc g" by (cases f) (auto split: if_splits)
  show ?case
  proof (cases xs)
    case Nil
    then show ?thesis by (simp add: f quote_def)
  next
    case (Cons y ys)
    obtain c r where cr: "stringify ind (Suc l) y = c # r" "\<not> json_ws c" "c \<noteq> CHR '']''"
      using 6(2) Cons stringify_start [of y ind "Suc l"] by auto
    have "p_items g (stringify_items ind (Suc l) xs @ layout ind l @ CHR '']'' # s) = Some (xs, s)"
      using 6 Cons by (intro 6(1)) (auto simp: f)
    moreover have "p_items g (layout ind (Suc l) @ t) = p_items g t" for t
      by (rule p_items_skip) simp
    ultimately show ?thesis
      using Cons cr by (simp add: f quote_def)
  qed
next
  case (7 ind l ms)
  then obtain g where f: "f = Suc g" by (cases f) (auto split: if_splits)
  show ?case
  proof (cases ms)
    case Nil
    then show ?thesis by (simp add: f quote_def)
  next
    case (Cons m mt)
    obtain r where r: "stringify_members ind (Suc l) ms = quote # r"
      using Cons by (simp add: json_string_def)
    have "p_members g (stringify_members ind (Suc l) ms @ layout ind l @ CHR ''}'' # s) = Some (ms, s)"
      using 7 Cons by (intro 7(1)) (auto simp: f)
    moreover have "p_members g (layout ind (Suc l) @ t) = p_members g t" for t
      by (rule p_members_skip) simp
    moreover have "members_object ms = JObj ms"
      using 7 by (intro members_object_distinct) simp
    moreover have "ms \<noteq> []" using Cons by simp
    ultimately show ?thesis
      by (simp add: f r del: stringify_members.simps) (simp add: quote_def)
  qed
next
  case (9 ind l x xs)
  then obtain g where f: "f = Suc g" by (cases f) auto
  have head: "p_value g (stringify ind l x @ t) = Some (x, t)" if "stops_number t" for t
    using 9 that by (intro 9(1)) (auto simp: f)
  show ?case
  proof (cases "xs = []")
    case True
    then show ?thesis by (simp add: f head)
  next
    case False
    have "p_items g (stringify_items ind l xs @ layout ind k @ CHR '']'' # s) = Some (xs, s)"
      using 9 False by (intro 9(2)) (auto simp: f)
    moreover have "p_items g (layout ind l @ t) = p_items g t" for t
      by (rule p_items_skip) simp
    ultimately show ?thesis using False by (simp add: f head)
  qed
next
  case (11 ind l m ms)
  then obtain g where f: "f = Suc g" by (cases f) auto
  have head: "p_value g (stringify ind l (snd m) @ t) = Some (snd m, t)" if "stops_number t" for t
    using 11 that by (intro 11(1)) (auto simp: f)
  show ?case
  proof (cases "ms = []")
    case True
    then show ?thesis
      by (simp add: f json_string_def p_string_print colon_start p_value_colon head)
  next
    case False
    have "p_members g (stringify_members ind l ms @ layout ind k @ CHR ''}'' # s) = Some (ms, s)"
      using 11 False by (intro 11(2)) (auto simp: f)
    moreover have "p_members g (layout ind l @ t) = p_members g t" for t
      by (rule p_members_skip) simp
    ultimately show ?thesis
      using False by (simp add: f json_string_def p_string_print colon_start p_value_colon head)
  qed
qed (auto simp: quote_def split: nat.splits)

theorem json_parse_stringify: "json_canonical v \<Longrightarrow> json_parse (stringify ind l v) = Some v"
  using parse_print(1) [of v ind l "2 * length (stringify ind l v) + 2" "[]"]
  by (simp add: json_parse_def)

subsection \<open>Printed text inside a fenced block\<close>

text \<open>A line break of the printed text is followed by a character that is not a backtick.\<close>

fun fence_free :: "string \<Rightarrow> bool" where
  "fence_free [] = True"
| "fence_free (c # s) = ((c = CHR 0x0A \<longrightarrow> s \<noteq> [] \<and> hd s \<noteq> CHR ''`'') \<and> fence_free s)"

lemma fence_free_append: "fence_free a \<Longrightarrow> fence_free b \<Longrightarrow> fence_free (a @ b)"
  by (induction a) auto

lemma fence_free_no_newline: "CHR 0x0A \<notin> set s \<Longrightarrow> fence_free s"
  by (induction s) auto

lemma fence_free_layout: "c \<noteq> CHR ''`'' \<Longrightarrow> fence_free (c # s) \<Longrightarrow> fence_free (layout ind l @ c # s)"
proof -
  assume c: "c \<noteq> CHR ''`''" "fence_free (c # s)"
  have "fence_free (replicate n (CHR '' '') @ c # s)" for n
    using c by (induction n) auto
  moreover have "hd (replicate n (CHR '' '') @ c # s) \<noteq> CHR ''`''" for n
    using c by (cases n) auto
  ultimately show ?thesis using c by (auto simp: layout_def split: option.split)
qed

lemma fence_free_string: "fence_free (json_string w)"
proof -
  have hex: "hex_digit n \<noteq> CHR 0x0A" if "n < 16" for n
    using hex_digit_val [OF that] by (auto simp: hex_val_def is_digit_def in_range_def)
  have "CHR 0x0A \<notin> set (escape_char c)" for c
  proof -
    have "hex_digit (of_char c mod 16) \<noteq> CHR 0x0A" by (rule hex) simp
    moreover have "(of_char c :: nat) < 32 \<Longrightarrow> hex_digit (of_char c div 16) \<noteq> CHR 0x0A" by (rule hex) simp
    ultimately show ?thesis by (auto simp: escape_char_def backslash_def quote_def)
  qed
  then show ?thesis
    by (intro fence_free_no_newline) (auto simp: json_string_def quote_def)
qed

lemma fence_free_int: "fence_free (json_int i)"
proof (rule fence_free_no_newline)
  have "CHR 0x0A \<notin> set (dec n)" for n
    using dec_digits [of n] by (auto simp: list_all_iff is_digit_def in_range_def dest!: bspec)
  then show "CHR 0x0A \<notin> set (json_int i)" by (auto simp: json_int_def)
qed

lemma items_start:
  "list_all json_canonical xs \<Longrightarrow> xs \<noteq> [] \<Longrightarrow> \<exists>c r. stringify_items ind l xs = c # r \<and> c \<noteq> CHR ''`''"
  using stringify_start [of "hd xs" ind l] by (cases xs) auto

lemma members_start:
  "ms \<noteq> [] \<Longrightarrow> \<exists>r. stringify_members ind l ms = quote # r"
  by (cases ms) (auto simp: json_string_def)

lemma fence_free_after_layout:
  "(\<exists>c r. t = c # r \<and> c \<noteq> CHR ''`'') \<Longrightarrow> fence_free t \<Longrightarrow> fence_free (layout ind l @ t)"
  using fence_free_layout by auto

lemma fence_free_stringify:
  "json_canonical v \<Longrightarrow> fence_free (stringify ind l v)"
  "list_all json_canonical xs \<Longrightarrow> fence_free (stringify_items ind l xs)"
  "list_all (\<lambda>m. json_canonical (snd m)) ms \<Longrightarrow> fence_free (stringify_members ind l ms)"
proof (induction ind l v and ind l xs and ind l ms rule: stringify_stringify_items_stringify_members.induct)
  case (3 ind l i)
  then show ?case by (simp add: fence_free_int)
next
  case (5 ind l w)
  then show ?case by (simp add: fence_free_string)
next
  case (6 ind l xs)
  show ?case
  proof (cases "xs = []")
    case False
    have close: "fence_free (layout ind l @ '']'')" by (rule fence_free_layout) simp_all
    have items: "fence_free (stringify_items ind (Suc l) xs @ layout ind l @ '']'')"
      by (rule fence_free_append) (use 6 False close in auto)
    have "fence_free (layout ind (Suc l) @ stringify_items ind (Suc l) xs @ layout ind l @ '']'')"
      using items items_start [of xs ind "Suc l"] 6(2) False by (intro fence_free_after_layout) auto
    with False show ?thesis by simp
  qed simp
next
  case (7 ind l ms)
  show ?case
  proof (cases "ms = []")
    case False
    have close: "fence_free (layout ind l @ ''}'')" by (rule fence_free_layout) simp_all
    have items: "fence_free (stringify_members ind (Suc l) ms @ layout ind l @ ''}'')"
      by (rule fence_free_append) (use 7 False close in auto)
    have "fence_free (layout ind (Suc l) @ stringify_members ind (Suc l) ms @ layout ind l @ ''}'')"
      using items members_start [of ms ind "Suc l"] False
      by (intro fence_free_after_layout) (auto simp: quote_def)
    with False show ?thesis by simp
  qed simp
next
  case (9 ind l x xs)
  show ?case
  proof (cases "xs = []")
    case True
    with 9 show ?thesis by simp
  next
    case False
    have "fence_free (layout ind l @ stringify_items ind l xs)"
      using 9 False items_start [of xs ind l] by (intro fence_free_after_layout) auto
    then have "fence_free (stringify ind l x @ '','' @ layout ind l @ stringify_items ind l xs)"
      by (intro fence_free_append [of "stringify ind l x"]) (use 9 in auto)
    with False show ?thesis by simp
  qed
next
  case (11 ind l m ms)
  have head: "fence_free (json_string (fst m) @ colon ind @ stringify ind l (snd m))"
    using 11 fence_free_string
    by (intro fence_free_append) (auto simp: colon_def split: option.split)
  show ?case
  proof (cases "ms = []")
    case True
    with head show ?thesis by simp
  next
    case False
    have "fence_free (layout ind l @ stringify_members ind l ms)"
      using 11 False members_start [of ms ind l] by (intro fence_free_after_layout) (auto simp: quote_def)
    then have "fence_free ((json_string (fst m) @ colon ind @ stringify ind l (snd m)) @ '','' @ layout ind l @ stringify_members ind l ms)"
      by (intro fence_free_append [of "json_string (fst m) @ colon ind @ stringify ind l (snd m)"]) (use head in auto)
    with False show ?thesis by simp
  qed
qed auto

lemma fence_free_inside:
  "fence_free j \<Longrightarrow> k < length j \<Longrightarrow> \<not> starts_with [CHR 0x0A, CHR ''`''] (drop k j @ t)"
proof (induction j arbitrary: k)
  case (Cons c j)
  then show ?case by (cases k; cases j) auto
qed simp

end
