(* ===== verification/Policy.thy ===== *)
theory Policy
  imports Json
begin

text \<open>
  \<open>tooling/loop/src/policy.ts\<close>: risk levels and severities with their order, the validated
  policy document as records, the steps and reviewers a risk level demands, and the stripping
  of comment keys before validation.

  The numeric tables \<open>RISK_ORDER\<close> and \<open>SEVERITY_ORDER\<close> are \<open>risk_order\<close> and
  \<open>severity_order\<close>; both types are made linear orders through them.  \<open>collect\<close> recurses along
  \<open>inherits\<close>, and nothing in the schema forbids a cycle through another tier, so it is a
  \<open>partial_function\<close> whose \<open>None\<close> is the stack overflow.  Schema validation belongs to the
  library zod and is the parameter \<open>safe_parse\<close> of \<open>parse_policy\<close>.
\<close>

subsection \<open>Ordered enumerations\<close>

datatype risk_level = Low | Medium | High
datatype severity = SInfo | SLow | SMedium | SHigh | SCritical

fun risk_order :: "risk_level \<Rightarrow> nat" where
  "risk_order Low = 0" | "risk_order Medium = 1" | "risk_order High = 2"

fun severity_order :: "severity \<Rightarrow> nat" where
  "severity_order SInfo = 0" | "severity_order SLow = 1" | "severity_order SMedium = 2"
| "severity_order SHigh = 3" | "severity_order SCritical = 4"

instantiation risk_level :: linorder
begin

definition less_eq_risk_level :: "risk_level \<Rightarrow> risk_level \<Rightarrow> bool" where
  "less_eq_risk_level a b = (risk_order a \<le> risk_order b)"

definition less_risk_level :: "risk_level \<Rightarrow> risk_level \<Rightarrow> bool" where
  "less_risk_level a b = (risk_order a < risk_order b)"

instance
proof
  fix a b :: risk_level
  assume "a \<le> b" and "b \<le> a"
  then show "a = b" by (cases a; cases b) (simp_all add: less_eq_risk_level_def)
qed (auto simp: less_eq_risk_level_def less_risk_level_def)

end

instantiation severity :: linorder
begin

definition less_eq_severity :: "severity \<Rightarrow> severity \<Rightarrow> bool" where
  "less_eq_severity a b = (severity_order a \<le> severity_order b)"

definition less_severity :: "severity \<Rightarrow> severity \<Rightarrow> bool" where
  "less_severity a b = (severity_order a < severity_order b)"

instance
proof
  fix a b :: severity
  assume "a \<le> b" and "b \<le> a"
  then show "a = b" by (cases a; cases b) (simp_all add: less_eq_severity_def)
qed (auto simp: less_eq_severity_def less_severity_def)

end

definition maxRisk :: "risk_level \<Rightarrow> risk_level \<Rightarrow> risk_level" where
  "maxRisk a b = (if risk_order a \<ge> risk_order b then a else b)"

definition isAtLeastRisk :: "risk_level \<Rightarrow> risk_level \<Rightarrow> bool" where
  "isAtLeastRisk v t \<longleftrightarrow> risk_order v \<ge> risk_order t"

definition isAtLeastSeverity :: "severity \<Rightarrow> severity \<Rightarrow> bool" where
  "isAtLeastSeverity v t \<longleftrightarrow> severity_order v \<ge> severity_order t"

fun risk_text :: "risk_level \<Rightarrow> string" where
  "risk_text Low = ''low''" | "risk_text Medium = ''medium''" | "risk_text High = ''high''"

fun severity_text :: "severity \<Rightarrow> string" where
  "severity_text SInfo = ''info''" | "severity_text SLow = ''low''"
| "severity_text SMedium = ''medium''" | "severity_text SHigh = ''high''"
| "severity_text SCritical = ''critical''"

subsection \<open>The policy document\<close>

record path_rule =
  rule_risk :: risk_level
  rule_reason :: string
  rule_patterns :: "string list"

record tier_step =
  step_name :: string
  step_command :: string
  step_args :: "string list"
  step_whenChanged :: "string list option"
  step_requires :: "string option"
  step_requiresProbe :: "string list option"
  step_timeoutMinutes :: nat

record tier =
  tier_inherits :: "risk_level option"
  tier_steps :: "tier_step list"
  tier_reviewers :: nat

record retry_policy =
  maxReviewAttempts :: nat
  codingFixRounds :: nat
  reviewFixRounds :: nat
  ciFixRounds :: nat
  reviewerRetryRounds :: nat
  conflictRounds :: nat

record escalations =
  maxChangedFiles :: nat
  maxDeletedLines :: nat
  destructiveMigrationGlobs :: "string list"
  publicContractGlobs :: "string list"

record risk_policy =
  risk_default :: risk_level
  risk_paths :: "path_rule list"
  risk_escalations :: escalations

record control_plane =
  cp_patterns :: "string list"
  cp_policySignals :: "string list"
  cp_alwaysPolicy :: "string list"

record loop_policy =
  pol_retry :: retry_policy
  pol_risk :: risk_policy
  pol_tiers :: "risk_level \<Rightarrow> tier"
  pol_controlPlane :: control_plane
  pol_blockingSeverity :: severity
  pol_requiredChecks :: "string list"

subsection \<open>Verification steps of a risk level\<close>

text \<open>The inner loop of \<open>collect\<close>, on the shared \<open>seen\<close> set and \<open>steps\<close> list.\<close>

definition add_step :: "tier_step \<Rightarrow> string list \<times> tier_step list \<Rightarrow> string list \<times> tier_step list" where
  "add_step s acc = (if step_name s \<in> set (fst acc) then acc
     else (set_add (step_name s) (fst acc), snd acc @ [s]))"

partial_function (option) collect ::
  "loop_policy \<Rightarrow> risk_level \<Rightarrow> string list \<times> tier_step list \<Rightarrow> (string list \<times> tier_step list) option" where
  "collect p level acc =
     (let t = pol_tiers p level in
      Option.bind
        (case tier_inherits t of
           None \<Rightarrow> Some acc
         | Some l \<Rightarrow> (if l \<noteq> level then collect p l acc else Some acc))
        (\<lambda>acc. Some (fold add_step (tier_steps t) acc)))"

definition stepsForRisk :: "loop_policy \<Rightarrow> risk_level \<Rightarrow> tier_step list option" where
  "stepsForRisk p r = map_option snd (collect p r ([], []))"

definition reviewersForRisk :: "loop_policy \<Rightarrow> risk_level \<Rightarrow> nat" where
  "reviewersForRisk p r = tier_reviewers (pol_tiers p r)"

subsection \<open>Reading the document\<close>

fun stripComments :: "json \<Rightarrow> json" where
  "stripComments (JArr xs) = JArr (map stripComments xs)"
| "stripComments (JObj kvs) = JObj (map (\<lambda>(k, v). (k, stripComments v)) (filter (\<lambda>(k, _). k \<noteq> ''$comment'') kvs))"
| "stripComments v = v"

text \<open>A validation issue is its path and its message.\<close>

type_synonym zod_issue = "string list \<times> string"

definition policy_error :: "zod_issue list \<Rightarrow> string" where
  "policy_error issues = ''Invalid loop policy:'' @ [CHR 0x0A] @
     unlines (map (\<lambda>i. ''  - '' @ i)
       (map (\<lambda>(path, msg). (let p = join ''.'' path in if p = [] then ''(root)'' else p) @ '': '' @ msg) issues))"

definition parsePolicy :: "(json \<Rightarrow> zod_issue list + loop_policy) \<Rightarrow> json \<Rightarrow> string + loop_policy" where
  "parsePolicy safe_parse raw = (case safe_parse (stripComments raw) of
       Inl issues \<Rightarrow> Inl (policy_error issues)
     | Inr p \<Rightarrow> Inr p)"

subsection \<open>Lemmas\<close>

named_theorems policy_simps \<open>the enumerations as orders\<close>

lemma maxRisk_max [policy_simps]: "maxRisk a b = max a b"
  by (cases a; cases b) (simp_all add: maxRisk_def max_def less_eq_risk_level_def)

lemma isAtLeastRisk_le [policy_simps]: "isAtLeastRisk v t \<longleftrightarrow> t \<le> v"
  by (simp add: isAtLeastRisk_def less_eq_risk_level_def)

lemma isAtLeastSeverity_le [policy_simps]: "isAtLeastSeverity v t \<longleftrightarrow> t \<le> v"
  by (simp add: isAtLeastSeverity_def less_eq_severity_def)

lemma risk_top [simp]: "r \<le> High" and risk_bot [simp]: "Low \<le> r"
  by (cases r; simp add: less_eq_risk_level_def)+

lemma risk_le_code [simp]:
  "High \<le> r \<longleftrightarrow> r = High" "r \<le> Low \<longleftrightarrow> r = Low" "Medium \<le> r \<longleftrightarrow> r \<noteq> Low" "r \<le> Medium \<longleftrightarrow> r \<noteq> High"
  by (cases r; simp add: less_eq_risk_level_def)+

definition seen_ok :: "string list \<times> tier_step list \<Rightarrow> bool" where
  "seen_ok acc \<longleftrightarrow> fst acc = map step_name (snd acc) \<and> distinct (fst acc)"

lemma seen_ok_add_step: "seen_ok acc \<Longrightarrow> seen_ok (add_step s acc)"
  by (auto simp: seen_ok_def add_step_def set_add_def)

lemma seen_ok_fold: "seen_ok acc \<Longrightarrow> seen_ok (fold add_step xs acc)"
  by (induction xs arbitrary: acc) (simp_all add: seen_ok_add_step)

lemma fold_add_step_prefix: "\<exists>ys. snd (fold add_step xs acc) = snd acc @ ys \<and> set ys \<subseteq> set xs"
proof (induction xs arbitrary: acc)
  case (Cons x xs)
  obtain ys where ys: "snd (fold add_step xs (add_step x acc)) = snd (add_step x acc) @ ys" "set ys \<subseteq> set xs"
    using Cons by blast
  then show ?case
    by (cases "step_name x \<in> set (fst acc)")
      (auto simp: add_step_def [of x acc] intro: exI [of _ ys] exI [of _ "x # ys"])
qed simp

lemma fold_add_step_names:
  "set (fst (fold add_step xs acc)) = set (fst acc) \<union> step_name ` set xs"
  by (induction xs arbitrary: acc) (auto simp: add_step_def)

text \<open>A traversal only appends, keeps \<open>seen\<close> in step with the list, and covers its own tier.\<close>

lemma collect_inv:
  "collect p level acc = Some acc' \<Longrightarrow>
    (seen_ok acc \<longrightarrow> seen_ok acc')
    \<and> step_name ` set (tier_steps (pol_tiers p level)) \<subseteq> set (fst acc')
    \<and> (\<exists>ys. snd acc' = snd acc @ ys \<and> set ys \<subseteq> (\<Union>l. set (tier_steps (pol_tiers p l))))"
proof (induction rule: collect.raw_induct [rotated, consumes 1])
  case (1 coll p level acc acc')
  obtain mid where mid: "(case tier_inherits (pol_tiers p level) of None \<Rightarrow> Some acc
         | Some l \<Rightarrow> if l \<noteq> level then coll p l acc else Some acc) = Some mid"
    and acc': "acc' = fold add_step (tier_steps (pol_tiers p level)) mid"
    using 1(2) by (auto simp: Let_def bind_eq_Some_conv)
  have step: "(seen_ok acc \<longrightarrow> seen_ok mid)
    \<and> (\<exists>ys. snd mid = snd acc @ ys \<and> set ys \<subseteq> (\<Union>l. set (tier_steps (pol_tiers p l))))"
    using mid 1(1) by (auto split: option.splits if_splits)
  then obtain ys where ys: "snd mid = snd acc @ ys" "set ys \<subseteq> (\<Union>l. set (tier_steps (pol_tiers p l)))"
    by blast
  obtain zs where "snd acc' = snd mid @ zs" "set zs \<subseteq> set (tier_steps (pol_tiers p level))"
    using fold_add_step_prefix acc' by metis
  with ys have "snd acc' = snd acc @ (ys @ zs) \<and> set (ys @ zs) \<subseteq> (\<Union>l. set (tier_steps (pol_tiers p l)))"
    by auto
  with step show ?case by (auto simp: acc' seen_ok_fold fold_add_step_names)
qed

text \<open>Whether the recursion along \<open>inherits\<close> ends, and that it then has a value.\<close>

inductive grounded :: "loop_policy \<Rightarrow> risk_level \<Rightarrow> bool" for p where
  grounded_none: "tier_inherits (pol_tiers p r) = None \<Longrightarrow> grounded p r"
| grounded_self: "tier_inherits (pol_tiers p r) = Some r \<Longrightarrow> grounded p r"
| grounded_some: "tier_inherits (pol_tiers p r) = Some l \<Longrightarrow> grounded p l \<Longrightarrow> grounded p r"

lemma collect_total: "grounded p r \<Longrightarrow> \<exists>acc'. collect p r acc = Some acc'"
proof (induction arbitrary: acc rule: grounded.induct)
  case (grounded_some r l)
  then obtain m where "collect p l acc = Some m" by blast
  with grounded_some.hyps show ?case by (subst collect.simps) (auto simp: Let_def)
qed (subst collect.simps, simp add: Let_def)+

lemma collect_grounded: "collect p r acc = Some acc' \<Longrightarrow> grounded p r"
proof (induction rule: collect.raw_induct [rotated, consumes 1])
  case (1 coll p level acc acc')
  show ?case
  proof (cases "tier_inherits (pol_tiers p level)")
    case None
    then show ?thesis by (rule grounded_none)
  next
    case (Some l)
    show ?thesis
    proof (cases "l = level")
      case True
      with Some show ?thesis by (simp add: grounded_self)
    next
      case False
      with 1(2) Some obtain m where "coll p l acc = Some m" by (auto simp: Let_def bind_eq_Some_conv)
      with Some 1(1) show ?thesis by (blast intro: grounded_some)
    qed
  qed
qed

text \<open>Inheriting only from a lower or the same level cannot loop.\<close>

definition inherits_downward :: "loop_policy \<Rightarrow> bool" where
  "inherits_downward p \<longleftrightarrow>
     list_all (\<lambda>r. case tier_inherits (pol_tiers p r) of None \<Rightarrow> True | Some l \<Rightarrow> l \<le> r) [Low, Medium, High]"

lemma inherits_downwardD:
  "inherits_downward p \<Longrightarrow> tier_inherits (pol_tiers p r) = Some l \<Longrightarrow> l \<le> r"
  by (cases r) (auto simp: inherits_downward_def split: option.splits)

lemma grounded_downward: "inherits_downward p \<Longrightarrow> grounded p r"
proof (induction "risk_order r" arbitrary: r rule: less_induct)
  case less
  show ?case
  proof (cases "tier_inherits (pol_tiers p r)")
    case None
    then show ?thesis by (rule grounded_none)
  next
    case (Some l)
    show ?thesis
    proof (cases "l = r")
      case True
      with Some show ?thesis by (simp add: grounded_self)
    next
      case False
      with inherits_downwardD [OF less.prems Some] have "risk_order l < risk_order r"
        by (metis less_eq_risk_level_def less_risk_level_def order_le_imp_less_or_eq)
      with less Some show ?thesis by (blast intro: grounded_some)
    qed
  qed
qed

lemma stepsForRisk_inherits:
  assumes "tier_inherits (pol_tiers p r) = Some l" "l \<noteq> r"
    and "stepsForRisk p l = Some xs" and "stepsForRisk p r = Some ys"
  shows "\<exists>zs. ys = xs @ zs"
proof -
  obtain m where m: "collect p l ([], []) = Some m" "xs = snd m"
    using assms(3) by (auto simp: stepsForRisk_def)
  have "collect p r ([], []) = Some (fold add_step (tier_steps (pol_tiers p r)) m)"
    using m(1) assms(1,2) by (subst collect.simps) (simp add: Let_def)
  then have "ys = snd (fold add_step (tier_steps (pol_tiers p r)) m)"
    using assms(4) by (simp add: stepsForRisk_def)
  with m(2) show ?thesis using fold_add_step_prefix by metis
qed

lemma stepsForRisk_distinct:
  "stepsForRisk p r = Some ys \<Longrightarrow> distinct (map step_name ys)
    \<and> step_name ` set (tier_steps (pol_tiers p r)) \<subseteq> step_name ` set ys"
  unfolding stepsForRisk_def by (auto simp: seen_ok_def dest!: collect_inv)

text \<open>Stripping leaves no comment key anywhere and strips nothing twice.\<close>

fun no_comments :: "json \<Rightarrow> bool" where
  "no_comments (JArr xs) = list_all no_comments xs"
| "no_comments (JObj kvs) = list_all (\<lambda>(k, v). k \<noteq> ''$comment'' \<and> no_comments v) kvs"
| "no_comments v = True"

lemma no_comments_strip: "no_comments (stripComments v)"
  by (induction v rule: stripComments.induct) (auto simp: list_all_iff)

lemma strip_id: "no_comments v \<Longrightarrow> stripComments v = v"
proof (induction v rule: stripComments.induct)
  case (1 xs)
  then show ?case by (simp add: list_all_iff map_idI)
next
  case (2 kvs)
  then have "filter (\<lambda>(k, _). k \<noteq> ''$comment'') kvs = kvs"
    by (auto simp: list_all_iff filter_id_conv)
  with 2 show ?case by (auto simp: list_all_iff intro!: map_idI)
qed simp_all

end
