(* ===== verification/Regexp.thy ===== *)
theory Regexp
  imports Prelude
begin

text \<open>
  JavaScript regular expressions, as far as the repository uses them: a syntax tree, the
  backtracking matcher of ECMA-262 as a list of successes in priority order, a parser for
  pattern sources, and \<open>exec\<close>, \<open>test\<close>, \<open>matchAll\<close> and \<open>replace\<close> on top.

  The matcher works on a position \<open>(before, rest, captures)\<close>, with the text already passed in
  reverse; the head of the result list is the match JavaScript reports.  Repetition follows
  RepeatMatcher: an optional iteration that consumes nothing fails, captures inside the body
  are reset at each iteration.  \<open>rep_match\<close> recurses on fuel; \<open>rxm_rep_unfold\<close> shows that the
  fuel given is enough, so that the recursion equation of the standard holds without it.

  HOL string literals cannot contain a backslash.  \<open>re\<close> reads a pattern whose backslashes are
  written as percent signs (no pattern of the repository contains one); \<open>rx_parse\<close> reads the
  pattern itself.  Patterns outside the fragment (look-behind, back references, named
  groups, code points above 255) are not parsed.
\<close>

subsection \<open>Syntax\<close>

datatype citem = CIChar char | CIRange char char
  | CIDigit | CIWord | CISpace | CINotDigit | CINotWord | CINotSpace

datatype rx = REps | RSet bool "citem list" | RDot
  | RSeq rx rx | RAlt rx rx
  | RRep bool nat "nat option" rx
  | RGroup nat rx
  | RBol | REol | RWordB bool | RNegLook rx

record rflags =
  icase :: bool
  dotall :: bool

definition noflags :: rflags where "noflags = \<lparr>icase = False, dotall = False\<rparr>"
definition flag_i :: rflags where "flag_i = \<lparr>icase = True, dotall = False\<rparr>"
definition flag_s :: rflags where "flag_s = \<lparr>icase = False, dotall = True\<rparr>"

primrec groups :: "rx \<Rightarrow> nat list" where
  "groups REps = []" | "groups (RSet n cs) = []" | "groups RDot = []"
| "groups (RSeq r s) = groups r @ groups s" | "groups (RAlt r s) = groups r @ groups s"
| "groups (RRep g mn mx r) = groups r" | "groups (RGroup n r) = n # groups r"
| "groups RBol = []" | "groups REol = []" | "groups (RWordB b) = []"
| "groups (RNegLook r) = groups r"

subsection \<open>Matching\<close>

type_synonym captures = "(nat \<times> string) list"
type_synonym mstate = "string \<times> string \<times> captures"

primrec item_match :: "citem \<Rightarrow> char \<Rightarrow> bool" where
  "item_match (CIChar d) c = (c = d)"
| "item_match (CIRange a b) c = in_range a b c"
| "item_match CIDigit c = is_digit c"
| "item_match CIWord c = is_word c"
| "item_match CISpace c = is_space c"
| "item_match CINotDigit c = (\<not> is_digit c)"
| "item_match CINotWord c = (\<not> is_word c)"
| "item_match CINotSpace c = (\<not> is_space c)"

definition class_match :: "bool \<Rightarrow> citem list \<Rightarrow> char \<Rightarrow> bool" where
  "class_match ic cs c \<longleftrightarrow> list_ex (\<lambda>i. item_match i c) cs
     \<or> ic \<and> (list_ex (\<lambda>i. item_match i (lower_char c)) cs \<or> list_ex (\<lambda>i. item_match i (upper_char c)) cs)"

definition word_boundary :: "string \<Rightarrow> string \<Rightarrow> bool" where
  "word_boundary b s \<longleftrightarrow>
     (case b of [] \<Rightarrow> False | c # _ \<Rightarrow> is_word c) \<noteq> (case s of [] \<Rightarrow> False | c # _ \<Rightarrow> is_word c)"

fun step_char :: "(char \<Rightarrow> bool) \<Rightarrow> mstate \<Rightarrow> mstate list" where
  "step_char p (b, [], cap) = []"
| "step_char p (b, c # s, cap) = (if p c then [(c # b, s, cap)] else [])"

fun rep_match :: "nat \<Rightarrow> bool \<Rightarrow> (mstate \<Rightarrow> mstate list) \<Rightarrow> nat \<Rightarrow> nat option \<Rightarrow> mstate \<Rightarrow> mstate list" where
  "rep_match 0 g m mn mx st = []"
| "rep_match (Suc f) g m mn mx st =
     (if mx = Some 0 then [st]
      else let more = concat (map (\<lambda>st'. if mn = 0 \<and> fst (snd st') = fst (snd st) then []
                                       else rep_match f g m (mn - 1) (map_option (\<lambda>k. k - 1) mx) st') (m st))
           in if 0 < mn then more else if g then more @ [st] else st # more)"

definition clear_groups :: "nat list \<Rightarrow> mstate \<Rightarrow> mstate" where
  "clear_groups ns st = (fst st, fst (snd st), filter (\<lambda>(n, _). n \<notin> set ns) (snd (snd st)))"

definition set_group :: "nat \<Rightarrow> string \<Rightarrow> mstate \<Rightarrow> mstate" where
  "set_group n s st = (fst st, fst (snd st),
     AList.update n (take (length s - length (fst (snd st))) s) (snd (snd st)))"

primrec rxm :: "rflags \<Rightarrow> rx \<Rightarrow> mstate \<Rightarrow> mstate list" where
  "rxm fl REps st = [st]"
| "rxm fl (RSet neg cs) st = step_char (\<lambda>c. class_match (icase fl) cs c \<noteq> neg) st"
| "rxm fl RDot st = step_char (\<lambda>c. dotall fl \<or> (c \<noteq> CHR 0x0A \<and> c \<noteq> CHR 0x0D)) st"
| "rxm fl (RSeq r s) st = concat (map (rxm fl s) (rxm fl r st))"
| "rxm fl (RAlt r s) st = rxm fl r st @ rxm fl s st"
| "rxm fl (RRep g mn mx r) st =
     rep_match (Suc (mn + length (fst (snd st)))) g (\<lambda>st'. rxm fl r (clear_groups (groups r) st')) mn mx st"
| "rxm fl (RGroup n r) st = map (set_group n (fst (snd st))) (rxm fl r st)"
| "rxm fl RBol st = (if fst st = [] then [st] else [])"
| "rxm fl REol st = (if fst (snd st) = [] then [st] else [])"
| "rxm fl (RWordB pos) st = (if word_boundary (fst st) (fst (snd st)) = pos then [st] else [])"
| "rxm fl (RNegLook r) st = (if rxm fl r st = [] then [st] else [])"

subsection \<open>Searching and replacing\<close>

record rmatch =
  m_before :: string \<comment> \<open>text before the match, reversed\<close>
  m_text :: string
  m_after :: string
  m_caps :: captures

fun find_from :: "rflags \<Rightarrow> rx \<Rightarrow> string \<Rightarrow> string \<Rightarrow> rmatch option" where
  "find_from fl r b s =
     (case rxm fl r (b, s, []) of
        (b', s', cap) # _ \<Rightarrow> Some \<lparr>m_before = b, m_text = take (length s - length s') s,
                                m_after = s', m_caps = cap\<rparr>
      | [] \<Rightarrow> (case s of [] \<Rightarrow> None | c # cs \<Rightarrow> find_from fl r (c # b) cs))"

declare find_from.simps [simp del]

definition rx_exec :: "rflags \<Rightarrow> rx \<Rightarrow> string \<Rightarrow> rmatch option" where
  "rx_exec fl r s = find_from fl r [] s"

definition rx_test :: "rflags \<Rightarrow> rx \<Rightarrow> string \<Rightarrow> bool" where
  "rx_test fl r s \<longleftrightarrow> rx_exec fl r s \<noteq> None"

text \<open>\<open>match[n]\<close>: \<open>None\<close> when there is no match or the group did not take part.\<close>

definition group :: "rmatch \<Rightarrow> nat \<Rightarrow> string option" where
  "group m n = map_of (m_caps m) n"

definition exec_group :: "rflags \<Rightarrow> rx \<Rightarrow> nat \<Rightarrow> string \<Rightarrow> string option" where
  "exec_group fl r n s = Option.bind (rx_exec fl r s) (\<lambda>m. group m n)"

text \<open>
  \<open>matchAll\<close> and global \<open>replace\<close> walk the text; after an empty match the next search starts
  one character further on.  Each round consumes a character, so the length is enough fuel.
\<close>

fun matches_from :: "nat \<Rightarrow> rflags \<Rightarrow> rx \<Rightarrow> string \<Rightarrow> string \<Rightarrow> rmatch list" where
  "matches_from 0 fl r b s = []"
| "matches_from (Suc f) fl r b s =
     (case find_from fl r b s of
        None \<Rightarrow> []
      | Some m \<Rightarrow> m # (case m_text m of
           [] \<Rightarrow> (case m_after m of [] \<Rightarrow> [] | c # cs \<Rightarrow> matches_from f fl r (c # m_before m) cs)
         | _ \<Rightarrow> matches_from f fl r (rev (m_text m) @ m_before m) (m_after m)))"

definition match_all :: "rflags \<Rightarrow> rx \<Rightarrow> string \<Rightarrow> rmatch list" where
  "match_all fl r s = matches_from (Suc (length s)) fl r [] s"

fun replace_from :: "nat \<Rightarrow> rflags \<Rightarrow> rx \<Rightarrow> (rmatch \<Rightarrow> string) \<Rightarrow> string \<Rightarrow> string \<Rightarrow> string" where
  "replace_from 0 fl r f b s = s"
| "replace_from (Suc k) fl r f b s =
     (case find_from fl r b s of
        None \<Rightarrow> s
      | Some m \<Rightarrow> take (length s - (length (m_text m) + length (m_after m))) s @ f m @
          (case m_text m of
             [] \<Rightarrow> (case m_after m of [] \<Rightarrow> [] | c # cs \<Rightarrow> c # replace_from k fl r f (c # m_before m) cs)
           | _ \<Rightarrow> replace_from k fl r f (rev (m_text m) @ m_before m) (m_after m)))"

definition rx_replace :: "rflags \<Rightarrow> rx \<Rightarrow> (rmatch \<Rightarrow> string) \<Rightarrow> string \<Rightarrow> string" where
  "rx_replace fl r f s = replace_from (Suc (length s)) fl r f [] s"

text \<open>Without the \<open>g\<close> flag only the first match is replaced.\<close>

definition rx_replace1 :: "rflags \<Rightarrow> rx \<Rightarrow> (rmatch \<Rightarrow> string) \<Rightarrow> string \<Rightarrow> string" where
  "rx_replace1 fl r f s =
     (case rx_exec fl r s of None \<Rightarrow> s | Some m \<Rightarrow> rev (m_before m) @ f m @ m_after m)"

text \<open>\<open>s.split(r)\<close> for a pattern that never matches the empty string.\<close>

fun split_from :: "nat \<Rightarrow> rflags \<Rightarrow> rx \<Rightarrow> string \<Rightarrow> string \<Rightarrow> string list" where
  "split_from 0 fl r b s = [s]"
| "split_from (Suc k) fl r b s =
     (case find_from fl r b s of
        None \<Rightarrow> [s]
      | Some m \<Rightarrow> take (length s - (length (m_text m) + length (m_after m))) s #
          split_from k fl r (rev (m_text m) @ m_before m) (m_after m))"

definition rx_split :: "rflags \<Rightarrow> rx \<Rightarrow> string \<Rightarrow> string list" where
  "rx_split fl r s = split_from (Suc (length s)) fl r [] s"

subsection \<open>Parsing pattern sources\<close>

definition hex_value :: "char \<Rightarrow> nat option" where
  "hex_value c = (if is_digit c then Some (of_char c - 48)
     else if in_range (CHR ''a'') (CHR ''f'') c then Some (of_char c - 87)
     else if in_range (CHR ''A'') (CHR ''F'') c then Some (of_char c - 55) else None)"

fun hex4 :: "string \<Rightarrow> (char \<times> string) option" where
  "hex4 (a # b # c # d # s) =
     (case (hex_value a, hex_value b, hex_value c, hex_value d) of
        (Some 0, Some 0, Some y, Some z) \<Rightarrow> Some (char_of (16 * y + z), s)
      | _ \<Rightarrow> None)"
| "hex4 _ = None"

fun class_escape :: "string \<Rightarrow> (citem \<times> string) option" where
  "class_escape [] = None"
| "class_escape (c # s) =
     (if c = CHR ''d'' then Some (CIDigit, s) else if c = CHR ''D'' then Some (CINotDigit, s)
      else if c = CHR ''w'' then Some (CIWord, s) else if c = CHR ''W'' then Some (CINotWord, s)
      else if c = CHR ''s'' then Some (CISpace, s) else if c = CHR ''S'' then Some (CINotSpace, s)
      else if c = CHR ''n'' then Some (CIChar (CHR 0x0A), s)
      else if c = CHR ''r'' then Some (CIChar (CHR 0x0D), s)
      else if c = CHR ''t'' then Some (CIChar (CHR 0x09), s)
      else if c = CHR ''u'' then map_option (\<lambda>(d, s'). (CIChar d, s')) (hex4 s)
      else if is_word c then None
      else Some (CIChar c, s))"

fun class_atom :: "string \<Rightarrow> (citem \<times> string) option" where
  "class_atom [] = None"
| "class_atom (c # s) = (if c = backslash then class_escape s else Some (CIChar c, s))"

text \<open>One member of a class: an atom, or a range when a hyphen and another atom follow.\<close>

definition class_member :: "string \<Rightarrow> (citem \<times> string) option" where
  "class_member s = (case class_atom s of
       Some (CIChar a, d # e # s') \<Rightarrow>
         (if d = CHR ''-'' \<and> e \<noteq> CHR '']'' then
            (case class_atom (e # s') of
               Some (CIChar b, s'') \<Rightarrow> Some (CIRange a b, s'')
             | _ \<Rightarrow> None)
          else Some (CIChar a, d # e # s'))
     | r \<Rightarrow> r)"

fun class_items :: "nat \<Rightarrow> string \<Rightarrow> (citem list \<times> string) option" where
  "class_items 0 s = None"
| "class_items (Suc f) s =
     (if starts_with '']'' s then Some ([], tl s)
      else case class_member s of
        None \<Rightarrow> None
      | Some (i, s') \<Rightarrow> map_option (\<lambda>(is, s''). (i # is, s'')) (class_items f s'))"

fun digits :: "string \<Rightarrow> string \<times> string" where
  "digits [] = ([], [])"
| "digits (c # s) = (if is_digit c then (let (d, r) = digits s in (c # d, r)) else ([], c # s))"

fun braces :: "string \<Rightarrow> ((nat \<times> nat option) \<times> string) option" where
  "braces s = (case digits s of ([], _) \<Rightarrow> None
     | (d, s') \<Rightarrow>
        (if starts_with ''}'' s' then Some ((undec d, Some (undec d)), tl s')
         else if starts_with '',}'' s' then Some ((undec d, None), drop 2 s')
         else if starts_with '','' s' then
           (case digits (tl s') of ([], _) \<Rightarrow> None
            | (e, s'') \<Rightarrow> (if starts_with ''}'' s'' then Some ((undec d, Some (undec e)), tl s'') else None))
         else None))"

definition quantify :: "nat \<Rightarrow> nat option \<Rightarrow> rx \<Rightarrow> string \<Rightarrow> rx \<times> string" where
  "quantify mn mx r s = (if starts_with ''?'' s then (RRep False mn mx r, tl s) else (RRep True mn mx r, s))"

fun quantifier :: "rx \<Rightarrow> string \<Rightarrow> rx \<times> string" where
  "quantifier r [] = (r, [])"
| "quantifier r (c # s) =
     (if c = CHR ''*'' then quantify 0 None r s
      else if c = CHR ''+'' then quantify 1 None r s
      else if c = CHR ''?'' then quantify 0 (Some 1) r s
      else if c = CHR ''{'' then
        (case braces s of Some ((mn, mx), s') \<Rightarrow> quantify mn mx r s' | None \<Rightarrow> (r, c # s))
      else (r, c # s))"

definition close_paren :: "(rx \<Rightarrow> rx) \<Rightarrow> (rx \<times> nat \<times> string) option \<Rightarrow> (rx \<times> nat \<times> string) option" where
  "close_paren k res = (case res of
       Some (r, n, s) \<Rightarrow> (if starts_with '')'' s then Some (k r, n, tl s) else None)
     | None \<Rightarrow> None)"

definition quantified :: "(rx \<times> nat \<times> string) option \<Rightarrow> (rx \<times> nat \<times> string) option" where
  "quantified res = map_option (\<lambda>(r, n, s). (let (r', s') = quantifier r s in (r', n, s'))) res"

definition is_meta_end :: "string \<Rightarrow> bool" where
  "is_meta_end s \<longleftrightarrow> (case s of [] \<Rightarrow> True | c # _ \<Rightarrow> c = CHR '')'' \<or> c = CHR ''|'')"

fun p_alt :: "nat \<Rightarrow> nat \<Rightarrow> string \<Rightarrow> (rx \<times> nat \<times> string) option"
and p_seq :: "nat \<Rightarrow> nat \<Rightarrow> string \<Rightarrow> (rx \<times> nat \<times> string) option"
and p_term :: "nat \<Rightarrow> nat \<Rightarrow> string \<Rightarrow> (rx \<times> nat \<times> string) option" where
  "p_alt 0 n s = None"
| "p_alt (Suc f) n s =
     (case p_seq f n s of
        None \<Rightarrow> None
      | Some (r, n', s') \<Rightarrow>
          (if starts_with ''|'' s' then
             (case p_alt f n' (tl s') of
                None \<Rightarrow> None
              | Some (r2, n2, s2) \<Rightarrow> Some (RAlt r r2, n2, s2))
           else Some (r, n', s')))"
| "p_seq 0 n s = None"
| "p_seq (Suc f) n s =
     (if is_meta_end s then Some (REps, n, s)
      else case p_term f n s of
        None \<Rightarrow> None
      | Some (r, n', s') \<Rightarrow>
          (case p_seq f n' s' of
             None \<Rightarrow> None
           | Some (r2, n2, s2) \<Rightarrow> Some ((if r2 = REps then r else RSeq r r2), n2, s2)))"
| "p_term 0 n s = None"
| "p_term (Suc f) n s =
     (case s of [] \<Rightarrow> None
      | c # s' \<Rightarrow>
        (if c = CHR ''^'' then Some (RBol, n, s')
         else if c = CHR ''$'' then Some (REol, n, s')
         else if starts_with ''(?!'' s then close_paren RNegLook (p_alt f n (drop 3 s))
         else if starts_with ''(?:'' s then quantified (close_paren (\<lambda>r. r) (p_alt f n (drop 3 s)))
         else if starts_with ''(?'' s then None
         else if c = CHR ''('' then quantified (close_paren (RGroup (Suc n)) (p_alt f (Suc n) s'))
         else if c = CHR ''.'' then quantified (Some (RDot, n, s'))
         else if starts_with ''[^'' s then
           quantified (map_option (\<lambda>(is, s2). (RSet True is, n, s2)) (class_items (length s) (drop 2 s)))
         else if c = CHR ''['' then
           quantified (map_option (\<lambda>(is, s2). (RSet False is, n, s2)) (class_items (length s) s'))
         else if c = CHR ''*'' \<or> c = CHR ''+'' \<or> c = CHR ''?'' then None
         else if c = backslash then
           (if starts_with ''b'' s' then Some (RWordB True, n, tl s')
            else if starts_with ''B'' s' then Some (RWordB False, n, tl s')
            else quantified (map_option (\<lambda>(i, s2). (RSet False [i], n, s2)) (class_escape s')))
         else quantified (Some (RSet False [CIChar c], n, s'))))"

definition rx_parse :: "string \<Rightarrow> rx option" where
  "rx_parse s = (case p_alt (3 * length s + 3) 0 s of
       Some (r, n, []) \<Rightarrow> Some r
     | _ \<Rightarrow> None)"

text \<open>A pattern literal of the source, with percent signs for backslashes.\<close>

definition unpercent :: "string \<Rightarrow> string" where
  "unpercent = map (\<lambda>c. if c = CHR ''%'' then backslash else c)"

definition re :: "string \<Rightarrow> rx" where
  "re s = (case rx_parse (unpercent s) of Some r \<Rightarrow> r | None \<Rightarrow> RSet False [])"

subsection \<open>What the matcher promises\<close>

text \<open>A match moves the position over a piece of the text, never back.\<close>

definition advances :: "mstate \<Rightarrow> mstate \<Rightarrow> bool" where
  "advances st st' \<longleftrightarrow> (\<exists>w. fst (snd st) = w @ fst (snd st') \<and> fst st' = rev w @ fst st)"

named_theorems advancing \<open>the position only moves forward\<close>

lemma advances_refl [advancing, simp]: "advances st st"
  by (simp add: advances_def)

lemma advances_trans [advancing]: "advances a b \<Longrightarrow> advances b c \<Longrightarrow> advances a c"
  by (fastforce simp: advances_def)

lemma advances_length: "advances a b \<Longrightarrow> length (fst (snd b)) \<le> length (fst (snd a))"
  by (auto simp: advances_def)

lemma advances_strict:
  "advances a b \<Longrightarrow> fst (snd b) \<noteq> fst (snd a) \<Longrightarrow> length (fst (snd b)) < length (fst (snd a))"
  by (auto simp: advances_def)

lemma advances_captures [simp]:
  "advances a (clear_groups ns b) = advances a b" "advances (clear_groups ns a) b = advances a b"
  "advances a (set_group n s b) = advances a b"
  by (simp_all add: advances_def clear_groups_def set_group_def)

lemma step_char_advances: "st' \<in> set (step_char p st) \<Longrightarrow> advances st st'"
  by (induction p st rule: step_char.induct) (auto simp: advances_def split: if_splits)

lemma rep_match_advances:
  assumes "\<And>st st'. st' \<in> set (m st) \<Longrightarrow> advances st st'"
  shows "st' \<in> set (rep_match f g m mn mx st) \<Longrightarrow> advances st st'"
proof (induction f arbitrary: mn mx st)
  case (Suc f)
  then show ?case
    by (auto simp: Let_def split: if_splits intro: advances_trans [OF assms])
qed simp

lemma rxm_advances: "st' \<in> set (rxm fl r st) \<Longrightarrow> advances st st'"
proof (induction r arbitrary: st st')
  case (RSeq r s)
  then obtain u where "u \<in> set (rxm fl r st)" "st' \<in> set (rxm fl s u)" by auto
  then show ?case by (rule advances_trans [OF RSeq.IH(1) RSeq.IH(2)])
next
  case (RRep g mn mx r)
  have "advances u u'" if "u' \<in> set (rxm fl r (clear_groups (groups r) u))" for u u'
    using RRep.IH [OF that] by simp
  from this RRep.prems show ?case unfolding rxm.simps by (rule rep_match_advances)
qed (auto simp: step_char_advances split: if_splits)

text \<open>The fuel of a repetition does not matter once it exceeds what the text allows.\<close>

lemma rep_match_fuel:
  assumes adv: "\<And>st st'. st' \<in> set (m st) \<Longrightarrow> advances st st'"
  shows "mn + length (fst (snd st)) < f \<Longrightarrow> mn + length (fst (snd st)) < f' \<Longrightarrow>
    rep_match f g m mn mx st = rep_match f' g m mn mx st"
proof (induction f arbitrary: f' mn mx st)
  case (Suc f)
  then obtain k where f': "f' = Suc k" by (cases f') auto
  have eq: "rep_match f g m (mn - 1) mx' st' = rep_match k g m (mn - 1) mx' st'"
    if "st' \<in> set (m st)" and "\<not> (mn = 0 \<and> fst (snd st') = fst (snd st))" for st' mx'
  proof -
    have "mn - 1 + length (fst (snd st')) < mn + length (fst (snd st))"
      using advances_length [OF adv [OF that(1)]] advances_strict [OF adv [OF that(1)]] that(2)
      by (cases mn) auto
    with Suc.prems show ?thesis unfolding f' by (intro Suc.IH) auto
  qed
  have "concat (map (\<lambda>st'. if mn = 0 \<and> fst (snd st') = fst (snd st) then []
            else rep_match f g m (mn - 1) (map_option (\<lambda>k. k - 1) mx) st') (m st))
      = concat (map (\<lambda>st'. if mn = 0 \<and> fst (snd st') = fst (snd st) then []
            else rep_match k g m (mn - 1) (map_option (\<lambda>k. k - 1) mx) st') (m st))"
    by (rule arg_cong [where f = concat], rule map_cong) (use eq in auto)
  then show ?case unfolding f' by (simp add: Let_def)
qed simp

lemma rxm_rep_unfold:
  "rxm fl (RRep g mn mx r) st =
    (if mx = Some 0 then [st]
     else let more = concat (map (\<lambda>st'. if mn = 0 \<and> fst (snd st') = fst (snd st) then []
                       else rxm fl (RRep g (mn - 1) (map_option (\<lambda>k. k - 1) mx) r) st')
                     (rxm fl r (clear_groups (groups r) st)))
          in if 0 < mn then more else if g then more @ [st] else st # more)"
proof -
  let ?m = "\<lambda>st'. rxm fl r (clear_groups (groups r) st')"
  have adv: "advances u u'" if "u' \<in> set (?m u)" for u u'
    using rxm_advances [OF that] by simp
  have eq: "rep_match (mn + length (fst (snd st))) g ?m (mn - 1) mx' st'
      = rep_match (Suc (mn - 1 + length (fst (snd st')))) g ?m (mn - 1) mx' st'"
    if "st' \<in> set (?m st)" and "\<not> (mn = 0 \<and> fst (snd st') = fst (snd st))" for st' mx'
  proof (rule rep_match_fuel [OF adv])
    show "mn - 1 + length (fst (snd st')) < mn + length (fst (snd st))"
      using advances_length [OF adv [OF that(1)]] advances_strict [OF adv [OF that(1)]] that(2)
      by (cases mn) auto
  qed auto
  have "concat (map (\<lambda>st'. if mn = 0 \<and> fst (snd st') = fst (snd st) then []
            else rep_match (mn + length (fst (snd st))) g ?m (mn - 1) (map_option (\<lambda>k. k - 1) mx) st') (?m st))
      = concat (map (\<lambda>st'. if mn = 0 \<and> fst (snd st') = fst (snd st) then []
            else rxm fl (RRep g (mn - 1) (map_option (\<lambda>k. k - 1) mx) r) st') (?m st))"
    by (rule arg_cong [where f = concat], rule map_cong) (use eq in \<open>auto simp del: rep_match.simps\<close>)
  then show ?thesis by (simp add: Let_def)
qed

declare rxm.simps(6) [simp del]

text \<open>A search finds a match exactly when some position of the text has one.\<close>

lemma find_from_iff:
  "find_from fl r b s \<noteq> None \<longleftrightarrow> (\<exists>a c. s = a @ c \<and> rxm fl r (rev a @ b, c, []) \<noteq> [])"
proof (induction s arbitrary: b)
  case Nil
  show ?case by (auto simp: find_from.simps split: list.splits)
next
  case (Cons x s)
  have "(\<exists>a c. x # s = a @ c \<and> rxm fl r (rev a @ b, c, []) \<noteq> []) \<longleftrightarrow>
      rxm fl r (b, x # s, []) \<noteq> [] \<or> (\<exists>a c. s = a @ c \<and> rxm fl r (rev a @ x # b, c, []) \<noteq> [])"
    (is "?l \<longleftrightarrow> ?r1 \<or> ?r2")
  proof
    assume ?l
    then obtain a c where ac: "x # s = a @ c" "rxm fl r (rev a @ b, c, []) \<noteq> []" by blast
    show "?r1 \<or> ?r2"
    proof (cases a)
      case Nil
      with ac show ?thesis by simp
    next
      case (Cons y a')
      with ac show ?thesis by auto
    qed
  next
    assume "?r1 \<or> ?r2"
    then show ?l
    proof
      assume ?r1
      then have "x # s = [] @ (x # s) \<and> rxm fl r (rev [] @ b, x # s, []) \<noteq> []" by simp
      then show ?l by blast
    next
      assume ?r2
      then obtain a c where "s = a @ c" "rxm fl r (rev a @ x # b, c, []) \<noteq> []" by blast
      then have "x # s = (x # a) @ c \<and> rxm fl r (rev (x # a) @ b, c, []) \<noteq> []" by simp
      then show ?l by blast
    qed
  qed
  moreover have "find_from fl r b (x # s) \<noteq> None \<longleftrightarrow>
      rxm fl r (b, x # s, []) \<noteq> [] \<or> find_from fl r (x # b) s \<noteq> None"
    by (simp add: find_from.simps [of fl r b "x # s"] split: list.split prod.split)
  ultimately show ?case by (simp only: Cons.IH [of "x # b"])
qed

lemma rx_test_iff:
  "rx_test fl r s \<longleftrightarrow> (\<exists>a c. s = a @ c \<and> rxm fl r (rev a, c, []) \<noteq> [])"
  using find_from_iff [of fl r "[]" s] by (simp add: rx_test_def rx_exec_def)

text \<open>A pattern anchored with \<open>^\<close> is tried at the start only.\<close>

lemma rx_test_anchored: "rx_test fl (RSeq RBol r) s \<longleftrightarrow> rxm fl r ([], s, []) \<noteq> []"
  by (auto simp: rx_test_iff)

lemma find_from_anchored: "b \<noteq> [] \<Longrightarrow> find_from fl (RSeq RBol r) b s = None"
  by (induction s arbitrary: b) (simp_all add: find_from.simps)

lemma rx_exec_anchored:
  "rx_exec fl (RSeq RBol r) s = (case rxm fl r ([], s, []) of
       [] \<Rightarrow> None
     | (b', s', cap) # _ \<Rightarrow> Some \<lparr>m_before = [], m_text = take (length s - length s') s,
                              m_after = s', m_caps = cap\<rparr>)"
  unfolding rx_exec_def
  by (subst find_from.simps) (simp add: find_from_anchored split: list.split)

text \<open>A starred character class: every run of matching characters, longest first.\<close>

lemma star_class_set:
  "set (rxm fl (RRep True 0 None (RSet neg cs)) (b, s, cap)) =
    {(rev w @ b, s', cap) |w s'. s = w @ s' \<and> (\<forall>c \<in> set w. class_match (icase fl) cs c \<noteq> neg)}"
proof (induction s arbitrary: b)
  case Nil
  then show ?case by (simp add: rxm_rep_unfold [of fl True 0] clear_groups_def)
next
  case (Cons x s)
  let ?p = "\<lambda>c. class_match (icase fl) cs c \<noteq> neg"
  let ?R = "\<lambda>b s. {(rev w @ b, s', cap) |w s'. s = w @ s' \<and> (\<forall>c \<in> set w. ?p c)}"
  have split: "?R b (x # s) = insert (b, x # s, cap) (if ?p x then ?R (x # b) s else {})"
    (is "?L = ?M")
  proof
    show "?L \<subseteq> ?M"
    proof
      fix t assume "t \<in> ?L"
      then obtain w s' where t: "t = (rev w @ b, s', cap)" "x # s = w @ s'" "\<forall>c \<in> set w. ?p c"
        by blast
      then show "t \<in> ?M" by (cases w) auto
    qed
    show "?M \<subseteq> ?L"
    proof
      fix t assume t: "t \<in> ?M"
      show "t \<in> ?L"
      proof (cases "t = (b, x # s, cap)")
        case True
        then have "t = (rev [] @ b, x # s, cap) \<and> x # s = [] @ x # s" by simp
        then show ?thesis by (intro CollectI exI [of _ "[]"] exI [of _ "x # s"]) simp
      next
        case False
        with t have px: "?p x" and "t \<in> ?R (x # b) s" by (auto split: if_splits)
        then obtain w s' where "t = (rev w @ x # b, s', cap)" "s = w @ s'" "\<forall>c \<in> set w. ?p c"
          by blast
        then show ?thesis using px by (intro CollectI exI [of _ "x # w"] exI [of _ s']) simp
      qed
    qed
  qed
  show ?case
    unfolding split
    using Cons.IH [of "x # b"]
    by (subst rxm_rep_unfold) (auto simp: clear_groups_def)
qed

text \<open>
  The successes of a repeated single-character pattern in priority order: the prefixes of the
  longest run of matching characters, shortest first when lazy and longest first when greedy.
\<close>

definition run_state :: "mstate \<Rightarrow> nat \<Rightarrow> mstate" where
  "run_state st n = (rev (take n (fst (snd st))) @ fst st, drop n (fst (snd st)), snd (snd st))"

lemma clear_no_groups [simp]: "clear_groups [] st = st"
  by (simp add: clear_groups_def)

lemma rep_single_runs:
  assumes "\<And>st. rxm fl r st = step_char p st" and "groups r = []"
  shows "rxm fl (RRep g 0 None r) (b, s, cap) =
    map (run_state (b, s, cap))
      ((if g then rev else (\<lambda>xs. xs)) [0..<Suc (length (takeWhile p s))])"
proof (induction s arbitrary: b)
  case Nil
  show ?case by (subst rxm_rep_unfold) (simp add: assms run_state_def)
next
  case (Cons c s)
  have shift: "run_state (c # b, s, cap) = run_state (b, c # s, cap) \<circ> Suc"
    by (simp add: fun_eq_iff run_state_def)
  have upt: "[0..<Suc (Suc n)] = 0 # map Suc [0..<Suc n]" for n
    unfolding map_Suc_upt by (rule upt_conv_Cons) simp
  have zero: "run_state (b, c # s, cap) 0 = (b, c # s, cap)"
    by (simp add: run_state_def)
  have "rxm fl (RRep g 0 None r) (b, c # s, cap) =
    (if p c then (if g then rxm fl (RRep g 0 None r) (c # b, s, cap) @ [(b, c # s, cap)]
                  else (b, c # s, cap) # rxm fl (RRep g 0 None r) (c # b, s, cap))
     else [(b, c # s, cap)])"
    by (subst rxm_rep_unfold) (simp add: assms)
  moreover have "(if g then rxm fl (RRep g 0 None r) (c # b, s, cap) @ [(b, c # s, cap)]
                  else (b, c # s, cap) # rxm fl (RRep g 0 None r) (c # b, s, cap)) =
      map (run_state (b, c # s, cap))
        ((if g then rev else (\<lambda>xs. xs)) [0..<Suc (Suc (length (takeWhile p s)))])"
    unfolding Cons.IH by (cases g) (simp_all only: upt shift zero if_True if_False rev.simps rev_map
        list.map map_append map_map)
  ultimately show ?case
    by (cases "p c") (simp_all only: takeWhile.simps if_True if_False list.size, auto simp: zero)
qed

lemma rep1_single_runs:
  assumes "\<And>st. rxm fl r st = step_char p st" and "groups r = []"
  shows "rxm fl (RRep g (Suc 0) None r) (b, s, cap) =
    (case s of [] \<Rightarrow> []
     | c # s' \<Rightarrow> if p c then rxm fl (RRep g 0 None r) (c # b, s', cap) else [])"
  by (subst rxm_rep_unfold) (simp add: assms split: list.split)

lemma class_match_single [simp]: "class_match False [i] c = item_match i c"
  by (simp add: class_match_def)

lemma noflags_simps [simp]: "icase noflags = False" "dotall noflags = False"
  by (simp_all add: noflags_def)

text \<open>A literal text, as the parser builds it, and when it is found.\<close>

primrec rlit :: "string \<Rightarrow> rx \<Rightarrow> rx" where
  "rlit [] r = r"
| "rlit (c # cs) r = RSeq (RSet False [CIChar c]) (rlit cs r)"

lemma rxm_rlit:
  "rxm noflags (rlit p r) (b, s, cap) =
    (if starts_with p s then rxm noflags r (rev p @ b, drop (length p) s, cap) else [])"
proof (induction p arbitrary: b s)
  case (Cons c p)
  then show ?case by (cases s) auto
qed simp

lemma rx_test_rlit: "rx_test noflags (rlit p REps) s \<longleftrightarrow> contains p s"
  by (auto simp: rx_test_iff rxm_rlit contains_iff starts_with_iff)

lemma rx_exec_anchored_lit:
  "\<not> starts_with p s \<Longrightarrow> rx_exec noflags (RSeq RBol (rlit p r)) s = None"
  by (simp add: rx_exec_anchored rxm_rlit)

subsection \<open>Lazy and greedy captures\<close>

text \<open>The characters a dot matches.\<close>

definition dot_ok :: "char \<Rightarrow> bool" where
  "dot_ok c \<longleftrightarrow> c \<noteq> CHR 0x0A \<and> c \<noteq> CHR 0x0D"

lemma rxm_RDot: "rxm noflags RDot st = step_char dot_ok st"
  unfolding dot_ok_def by simp

lemma concat_last:
  "(\<And>n. n < k \<Longrightarrow> f n = []) \<Longrightarrow> concat (map f (rev [0..<Suc k])) = f k"
  by (simp add: concat_eq_Nil_conv)

text \<open>\<open>(.+)$\<close> captures a non-empty line to its end.\<close>

lemma rest_of_line:
  assumes "list_all dot_ok w" and "w \<noteq> []"
  shows "rxm noflags (RSeq (RGroup n (RRep True 1 None RDot)) REol) (b, w, cap) =
    [(rev w @ b, [], AList.update n w cap)]"
proof -
  obtain c w' where w: "w = c # w'" using assms(2) by (cases w) auto
  have len: "length (takeWhile dot_ok w') = length w'"
    using assms(1) by (simp add: w list_all_iff takeWhile_eq_all_conv [THEN iffD2])
  have "concat (map (\<lambda>k. rxm noflags REol (set_group n w (run_state (c # b, w', cap) k))) (rev [0..<Suc (length w')]))
      = rxm noflags REol (set_group n w (run_state (c # b, w', cap) (length w')))"
    by (rule concat_last) (auto simp: run_state_def set_group_def)
  moreover have "rxm noflags (RRep True 1 None RDot) (b, w, cap) =
      map (run_state (c # b, w', cap)) (rev [0..<Suc (length w')])"
    using assms(1)
    by (simp add: w rep1_single_runs [OF rxm_RDot] rep_single_runs [OF rxm_RDot] len del: upt_Suc)
  ultimately have "rxm noflags (RSeq (RGroup n (RRep True 1 None RDot)) REol) (b, w, cap) =
      rxm noflags REol (set_group n w (run_state (c # b, w', cap) (length w')))"
    by (simp only: rxm.simps(4,7) map_map o_def fst_conv snd_conv)
  then show ?thesis by (simp add: w run_state_def set_group_def)
qed

text \<open>\<open>(.+?)\<close> stops at the first continuation that succeeds.\<close>

lemma lazy_until:
  assumes dot: "list_all dot_ok (p @ t)" and p: "p \<noteq> []"
    and cont: "rxm noflags R (rev p @ b, t, AList.update n p cap) = x # xs"
    and early: "\<And>k u. 0 < k \<Longrightarrow> k < length p \<Longrightarrow>
      rxm noflags R (rev (take k p) @ b, drop k (p @ t), u) = []"
  shows "\<exists>ys. rxm noflags (RSeq (RGroup n (RRep False 1 None RDot)) R) (b, p @ t, cap) = x # ys"
proof -
  obtain c q where q: "p = c # q" using p by (cases p) auto
  let ?s = "q @ t"
  let ?f = "\<lambda>k. rxm noflags R (set_group n (c # ?s) (run_state (c # b, ?s, cap) k))"
  have len: "length (takeWhile dot_ok ?s) = length ?s"
    using dot by (simp add: q list_all_iff takeWhile_eq_all_conv [THEN iffD2])
  have early': "concat (map ?f [0..<length q]) = []"
    using early [of "Suc _"] by (auto simp: q run_state_def set_group_def)
  have at: "?f (length q) = x # xs"
    using cont by (simp add: q run_state_def set_group_def)
  have "[0..<Suc (length ?s)] = [0..<length q] @ length q # [Suc (length q)..<Suc (length ?s)]"
    by (metis append_Cons append_Nil append_assoc length_append le_add1 less_Suc_eq_le upt_Suc_append
        upt_add_eq_append upt_conv_Cons zero_le add_Suc_right)
  then have "concat (map ?f [0..<Suc (length ?s)]) =
      x # xs @ concat (map ?f [Suc (length q)..<Suc (length ?s)])"
    using early' at by simp
  moreover have "rxm noflags (RRep False 1 None RDot) (b, p @ t, cap) =
      map (run_state (c # b, ?s, cap)) [0..<Suc (length ?s)]"
    using dot
    by (simp add: q rep1_single_runs [OF rxm_RDot] rep_single_runs [OF rxm_RDot] len del: upt_Suc)
  ultimately have "rxm noflags (RSeq (RGroup n (RRep False 1 None RDot)) R) (b, p @ t, cap) =
      x # xs @ concat (map ?f [Suc (length q)..<Suc (length ?s)])"
    by (simp only: rxm.simps(4,7) map_map o_def fst_conv snd_conv q append_Cons)
  then show ?thesis by blast
qed

text \<open>The same for a starred class: the lazy one stops early, the greedy one takes the whole run.\<close>

lemma lazy_class:
  assumes r: "\<And>st. rxm fl r st = step_char p st" "groups r = []" and w: "list_all p w"
    and cont: "f (rev w @ b, t, cap) = x # xs"
    and early: "\<And>k. k < length w \<Longrightarrow> f (rev (take k w) @ b, drop k (w @ t), cap) = []"
  shows "\<exists>ys. concat (map f (rxm fl (RRep False 0 None r) (b, w @ t, cap))) = x # ys"
proof -
  let ?n = "length (takeWhile p (w @ t))"
  let ?g = "\<lambda>k. f (run_state (b, w @ t, cap) k)"
  have tw: "takeWhile p (w @ t) = w @ takeWhile p t"
    using w by (simp add: list_all_iff takeWhile_append2)
  have "[0..<Suc ?n] = [0..<length w] @ [length w..<Suc ?n]"
    using upt_add_eq_append [of 0 "length w" "Suc (length (takeWhile p t))"] by (simp add: tw)
  also have "[length w..<Suc ?n] = length w # [Suc (length w)..<Suc ?n]"
    by (rule upt_conv_Cons) (simp add: tw)
  finally have split: "[0..<Suc ?n] = [0..<length w] @ length w # [Suc (length w)..<Suc ?n]" .
  have "concat (map ?g [0..<length w]) = []"
    using early by (auto simp: run_state_def)
  moreover have "?g (length w) = x # xs" using cont by (simp add: run_state_def)
  ultimately have "concat (map ?g [0..<Suc ?n]) = x # xs @ concat (map ?g [Suc (length w)..<Suc ?n])"
    by (simp only: split map_append list.map concat_append concat.simps append_Nil append_Cons)
  then show ?thesis
    unfolding rep_single_runs [OF r] by (simp only: if_False map_map o_def) blast
qed

lemma greedy_class:
  assumes r: "\<And>st. rxm fl r st = step_char p st" "groups r = []"
    and w: "list_all p w" and t: "t = [] \<or> \<not> p (hd t)"
    and cont: "f (rev w @ b, t, cap) = x # xs"
  shows "\<exists>ys. concat (map f (rxm fl (RRep True 0 None r) (b, w @ t, cap))) = x # ys"
proof -
  have "takeWhile p t = []" using t by (cases t) auto
  then have tw: "takeWhile p (w @ t) = w"
    using w by (simp add: list_all_iff takeWhile_append2)
  have "f (run_state (b, w @ t, cap) (length w)) = x # xs" using cont by (simp add: run_state_def)
  then show ?thesis
    unfolding rep_single_runs [OF r] tw by simp
qed

text \<open>Deleting a character class removes exactly its members.\<close>

lemma find_single:
  assumes "\<And>st. rxm fl r st = step_char p st"
  shows "find_from fl r b s =
    (case dropWhile (\<lambda>c. \<not> p c) s of
       [] \<Rightarrow> None
     | c # s' \<Rightarrow> Some \<lparr>m_before = rev (takeWhile (\<lambda>c. \<not> p c) s) @ b,
                       m_text = [c], m_after = s', m_caps = []\<rparr>)"
proof (induction s arbitrary: b)
  case Nil
  show ?case by (subst find_from.simps) (simp add: assms)
next
  case (Cons a s)
  show ?case
    by (subst find_from.simps) (cases "p a"; simp add: assms Cons.IH del: dropWhile_eq_Nil_conv cong: list.case_cong split: list.split)
qed

lemma find_class:
  "find_from fl (RSet neg cs) b s =
    (case dropWhile (\<lambda>c. \<not> (class_match (icase fl) cs c \<noteq> neg)) s of
       [] \<Rightarrow> None
     | c # s' \<Rightarrow> Some \<lparr>m_before = rev (takeWhile (\<lambda>c. \<not> (class_match (icase fl) cs c \<noteq> neg)) s) @ b,
                       m_text = [c], m_after = s', m_caps = []\<rparr>)"
  by (rule find_single) simp

lemma replace_class:
  "length s < k \<Longrightarrow> replace_from k fl (RSet neg cs) (\<lambda>_. []) b s =
     filter (\<lambda>c. \<not> (class_match (icase fl) cs c \<noteq> neg)) s"
proof (induction k arbitrary: b s)
  case (Suc k)
  let ?q = "\<lambda>c. \<not> (class_match (icase fl) cs c \<noteq> neg)"
  show ?case
  proof (cases "dropWhile ?q s")
    case Nil
    then have "filter ?q s = s" by (simp add: filter_id_conv)
    moreover have "find_from fl (RSet neg cs) b s = None"
      by (simp only: find_class Nil list.case)
    ultimately show ?thesis by simp
  next
    case (Cons c s')
    define w where "w = takeWhile ?q s"
    have s: "s = w @ c # s'"
      unfolding w_def using takeWhile_dropWhile_id [of ?q s] by (simp only: Cons)
    have nc: "\<not> ?q c" using Cons hd_dropWhile [of ?q s] by force
    have w: "\<forall>x \<in> set w. ?q x" by (auto simp: w_def dest: set_takeWhileD)
    have len: "length s' < k" using Suc.prems s by simp
    have "find_from fl (RSet neg cs) b s =
        Some \<lparr>m_before = rev w @ b, m_text = [c], m_after = s', m_caps = []\<rparr>"
      by (simp only: find_class Cons w_def list.case)
    then have "replace_from (Suc k) fl (RSet neg cs) (\<lambda>_. []) b s =
        w @ replace_from k fl (RSet neg cs) (\<lambda>_. []) (c # rev w @ b) s'"
      by (simp add: s)
    also have "\<dots> = w @ filter ?q s'" using Suc.IH [OF len] by simp
    also have "\<dots> = filter ?q s" using nc w by (simp add: s)
    finally show ?thesis .
  qed
qed simp

lemma rx_replace_class:
  "rx_replace fl (RSet neg cs) (\<lambda>_. []) s = filter (\<lambda>c. class_match (icase fl) cs c = neg) s"
  unfolding rx_replace_def by (subst replace_class) auto

end
