(* ===== verification/Review.thy ===== *)
theory Review
  imports Policy Regexp
begin

text \<open>
  \<open>tooling/loop/src/review.ts\<close>: findings, review results, the sanitising of model-written text,
  the validation of a review agent's output and its combination with the deterministic
  findings.  The zod schema \<open>ReviewResultSchema\<close> is the parameter \<open>safe_parse\<close>; the message
  of the host's JSON syntax error is the parameter \<open>syntax_message\<close>.  A missing or null
  \<open>file\<close> or \<open>line\<close> is \<open>None\<close>.
\<close>

subsection \<open>Results\<close>

record finding =
  f_severity :: severity
  f_file :: "string option"
  f_line :: "nat option"
  f_description :: string
  f_action :: string
  f_source :: string
  f_category :: string

datatype review_status = Approve | RequestChanges | Blocked

record review_result =
  r_status :: review_status
  r_findings :: "finding list"
  r_summary :: string

datatype parse_outcome = ParseOk review_result | ParseBad "string list" review_result

fun outcome_result :: "parse_outcome \<Rightarrow> review_result" where
  "outcome_result (ParseOk r) = r"
| "outcome_result (ParseBad es r) = r"

fun outcome_ok :: "parse_outcome \<Rightarrow> bool" where
  "outcome_ok (ParseOk r) = True"
| "outcome_ok (ParseBad es r) = False"

fun status_text :: "review_status \<Rightarrow> string" where
  "status_text Approve = ''approve''"
| "status_text RequestChanges = ''request_changes''"
| "status_text Blocked = ''blocked''"

text \<open>How strict a verdict is; the order the aggregation rules follow.\<close>

fun strictness :: "review_status \<Rightarrow> nat" where
  "strictness Approve = 0" | "strictness RequestChanges = 1" | "strictness Blocked = 2"

instantiation review_status :: linorder
begin

definition less_eq_review_status :: "review_status \<Rightarrow> review_status \<Rightarrow> bool" where
  "less_eq_review_status a b = (strictness a \<le> strictness b)"

definition less_review_status :: "review_status \<Rightarrow> review_status \<Rightarrow> bool" where
  "less_review_status a b = (strictness a < strictness b)"

instance
proof
  fix a b :: review_status
  assume "a \<le> b" and "b \<le> a"
  then show "a = b" by (cases a; cases b) (simp_all add: less_eq_review_status_def)
qed (auto simp: less_eq_review_status_def less_review_status_def)

end

subsection \<open>Sanitising\<close>

definition CONTROL_CHARACTERS :: rx where
  "CONTROL_CHARACTERS = re ''[%u0000-%u0008%u000B%u000C%u000E-%u001F%u007F]''"

definition sanitiseText :: "string \<Rightarrow> string" where
  "sanitiseText = rx_replace noflags CONTROL_CHARACTERS (\<lambda>_. [])"

definition open_mark :: string where "open_mark = ''<!--''"
definition close_mark :: string where "close_mark = ''-->''"

definition sanitiseForMarkdown :: "string \<Rightarrow> string" where
  "sanitiseForMarkdown v =
     replace_all close_mark (endash @ endash @ ''>'')
       (replace_all open_mark (''<!'' @ endash @ endash)
         (replace_all ''`'' [CHR 0x27] (sanitiseText v)))"

subsection \<open>Validation\<close>

definition blockedResult :: "string \<Rightarrow> string list \<Rightarrow> review_result" where
  "blockedResult summary errors =
     \<lparr>r_status = Blocked,
      r_findings = map (\<lambda>e. \<lparr>f_severity = SHigh, f_file = None, f_line = None,
        f_description = ''Review agent output was not usable: '' @ e,
        f_action = ''Re-run the review agent. If it keeps emitting an invalid result the loop is blocked and needs a human.'',
        f_source = ''review-validation'', f_category = ''automation''\<rparr>) errors,
      r_summary = summary\<rparr>"

definition issue_text :: "zod_issue \<Rightarrow> string" where
  "issue_text i = (let p = join ''.'' (fst i) in (if p = [] then ''(root)'' else p) @ '': '' @ snd i)"

definition sanitise_finding :: "finding \<Rightarrow> finding" where
  "sanitise_finding f = f\<lparr>f_description := sanitiseText (f_description f), f_action := sanitiseText (f_action f)\<rparr>"

definition parseReviewResult :: "(json \<Rightarrow> zod_issue list + review_result) \<Rightarrow> json \<Rightarrow> parse_outcome" where
  "parseReviewResult safe_parse raw = (case safe_parse raw of
       Inl issues \<Rightarrow>
         (let errors = map issue_text issues
          in ParseBad errors (blockedResult ''Review result failed validation.'' errors))
     | Inr d \<Rightarrow> ParseOk \<lparr>r_status = r_status d, r_findings = map sanitise_finding (r_findings d),
                         r_summary = sanitiseText (r_summary d)\<rparr>)"

definition FENCED_JSON :: rx where
  "FENCED_JSON = re ''```(?:json)?%s*%n([%s%S]*?)%n```''"

definition parseReviewText ::
  "(json \<Rightarrow> zod_issue list + review_result) \<Rightarrow> (string \<Rightarrow> string) \<Rightarrow> string \<Rightarrow> parse_outcome" where
  "parseReviewText safe_parse syntax_message text =
     (let candidate = (case exec_group noflags FENCED_JSON 1 text of Some c \<Rightarrow> c | None \<Rightarrow> text)
      in case json_parse candidate of
           None \<Rightarrow> (let reason = ''output was not JSON ('' @ syntax_message candidate @ '')''
                    in ParseBad [reason] (blockedResult ''Review agent did not return JSON.'' [reason]))
         | Some raw \<Rightarrow> parseReviewResult safe_parse raw)"

definition blockingFindings :: "finding list \<Rightarrow> severity \<Rightarrow> finding list" where
  "blockingFindings fs blocking = filter (\<lambda>f. isAtLeastSeverity (f_severity f) blocking) fs"

definition mergeReview :: "review_result \<Rightarrow> finding list \<Rightarrow> severity \<Rightarrow> review_result" where
  "mergeReview agent deterministic blocking =
     (let findings = deterministic @ r_findings agent;
          blockers = blockingFindings findings blocking;
          status = (if r_status agent = Blocked then Blocked
                    else if length blockers > 0 \<or> r_status agent = RequestChanges then RequestChanges
                    else Approve)
      in \<lparr>r_status = status, r_findings = findings, r_summary = r_summary agent\<rparr>)"

subsection \<open>Lemmas\<close>

text \<open>The control characters of the comment: all below the blank but tab, newline and return, and DEL.\<close>

definition is_control :: "char \<Rightarrow> bool" where
  "is_control c \<longleftrightarrow> (of_char c :: nat) < 32 \<and> c \<notin> {CHR 0x09, CHR 0x0A, CHR 0x0D} \<or> c = CHR 0x7F"

lemma CONTROL_CHARACTERS_rx:
  "CONTROL_CHARACTERS = RSet False [CIRange (CHR 0x00) (CHR 0x08), CIChar (CHR 0x0B), CIChar (CHR 0x0C),
     CIRange (CHR 0x0E) (CHR 0x1F), CIChar (CHR 0x7F)]"
  by code_simp

lemma control_class:
  "class_match False [CIRange (CHR 0x00) (CHR 0x08), CIChar (CHR 0x0B), CIChar (CHR 0x0C),
     CIRange (CHR 0x0E) (CHR 0x1F), CIChar (CHR 0x7F)] c \<longleftrightarrow> is_control c"
proof -
  have eq: "c = d \<longleftrightarrow> (of_char c :: nat) = of_char d" for d by simp
  have "(of_char c :: nat) < 32 \<and> (of_char c :: nat) \<notin> {9, 10, 13} \<longleftrightarrow>
     (of_char c :: nat) \<le> 8 \<or> (of_char c :: nat) \<in> {11, 12} \<or> 14 \<le> (of_char c :: nat) \<and> (of_char c :: nat) \<le> 31"
    by (simp, arith)
  then show ?thesis
    unfolding is_control_def class_match_def insert_iff empty_iff eq
    by (auto simp: in_range_def eq)
qed

lemma sanitiseText_filter: "sanitiseText s = filter (\<lambda>c. \<not> is_control c) s"
  unfolding sanitiseText_def CONTROL_CHARACTERS_rx rx_replace_class by (simp add: control_class)

lemma marks_apart:
  "apart ''`'' [CHR 0x27]" "apart ''`'' (''<!'' @ endash @ endash)" "apart ''`'' (endash @ endash @ ''>'')"
  "apart open_mark (''<!'' @ endash @ endash)" "apart open_mark (endash @ endash @ ''>'')"
  "apart close_mark (endash @ endash @ ''>'')"
  by code_simp+

lemma sanitiseForMarkdown_marks:
  "\<not> contains ''`'' (sanitiseForMarkdown v)" "\<not> contains open_mark (sanitiseForMarkdown v)"
  "\<not> contains close_mark (sanitiseForMarkdown v)"
  unfolding sanitiseForMarkdown_def
  by (intro replace_all_keeps_out replace_all_removes marks_apart; simp add: open_mark_def close_mark_def)+

lemma sanitiseForMarkdown_control: "c \<in> set (sanitiseForMarkdown v) \<Longrightarrow> \<not> is_control c"
proof -
  assume c: "c \<in> set (sanitiseForMarkdown v)"
  have "set (sanitiseForMarkdown v) \<subseteq>
      set (endash @ endash @ ''>'') \<union> (set (''<!'' @ endash @ endash) \<union> (set [CHR 0x27] \<union> set (sanitiseText v)))"
    unfolding sanitiseForMarkdown_def
    by (rule order_trans [OF set_replace_all], rule Un_mono [OF order_refl])+ (rule order_refl)
  with c have "c \<in> set (endash @ endash @ ''>'') \<union>
      (set (''<!'' @ endash @ endash) \<union> (set [CHR 0x27] \<union> set (sanitiseText v)))" by blast
  then show ?thesis
    by (auto simp: endash_def sanitiseText_filter) (simp_all add: is_control_def)
qed

text \<open>Unusable output is a blocked review with one blocking finding per error.\<close>

lemma parseReviewText_bad:
  "\<not> outcome_ok (parseReviewText sp sm t) \<Longrightarrow> r_status (outcome_result (parseReviewText sp sm t)) = Blocked"
  by (auto simp: parseReviewText_def parseReviewResult_def Let_def blockedResult_def
      split: option.splits sum.splits)

lemma status_order [simp]:
  "x \<le> Approve \<longleftrightarrow> x = Approve" "Approve \<le> x" "x \<le> Blocked" "Blocked \<le> x \<longleftrightarrow> x = Blocked"
  "RequestChanges \<le> x \<longleftrightarrow> x \<noteq> Approve"
  by (cases x; simp add: less_eq_review_status_def)+

lemma blockingFindings_empty:
  "blockingFindings fs b = [] \<longleftrightarrow> (\<forall>f \<in> set fs. f_severity f < b)"
  by (auto simp: blockingFindings_def filter_empty_conv policy_simps not_le)

lemma mergeReview_status:
  "r_status (mergeReview agent det b) = (if r_status agent = Blocked then Blocked
     else if (\<exists>f \<in> set det \<union> set (r_findings agent). b \<le> f_severity f) \<or> r_status agent = RequestChanges
     then RequestChanges else Approve)"
  using blockingFindings_empty [of "det @ r_findings agent" b]
  by (auto simp: mergeReview_def Let_def not_less)

lemma mergeReview_stricter: "r_status agent \<le> r_status (mergeReview agent det b)"
  by (cases "r_status agent") (auto simp: mergeReview_status)

lemma mergeReview_mono:
  "set det \<subseteq> set det' \<Longrightarrow> r_status (mergeReview agent det b) \<le> r_status (mergeReview agent det' b)"
  by (auto simp: mergeReview_status)

end
