(* ===== verification/Aggregate.thy ===== *)
theory Aggregate
  imports Review
begin

text \<open>
  \<open>tooling/loop/src/aggregate.ts\<close>: several independent reviews reduced to one verdict, and the
  collapsing of findings that two reviewers raised.  The \<open>Map\<close> by key is an association list, in
  which a replaced entry keeps its place.
\<close>

record aggregate_outcome =
  ag_status :: review_status
  ag_findings :: "finding list"
  ag_summary :: string
  ag_received :: nat
  ag_required :: nat
  ag_unanimous :: bool
  ag_reasons :: "string list"

definition letter :: "nat \<Rightarrow> string" where
  "letter i = [char_of (65 + i mod 26)]"

definition dedupe_key :: "finding \<Rightarrow> string" where
  "dedupe_key f = (case f_file f of Some p \<Rightarrow> p | None \<Rightarrow> []) @ '':'' @
     (case f_line f of Some n \<Rightarrow> dec n | None \<Rightarrow> []) @ '':'' @ to_lower (f_description f)"

definition dedupe_step :: "(string \<times> finding) list \<Rightarrow> finding \<Rightarrow> (string \<times> finding) list" where
  "dedupe_step m f =
     (case map_of m (dedupe_key f) of
        None \<Rightarrow> AList.update (dedupe_key f) f m
      | Some existing \<Rightarrow>
          (if severity_order (f_severity f) > severity_order (f_severity existing)
           then AList.update (dedupe_key f) f m else m))"

definition dedupe :: "finding list \<Rightarrow> finding list" where
  "dedupe fs = map snd (foldl dedupe_step [] fs)"

definition count_status :: "review_status \<Rightarrow> review_status list \<Rightarrow> nat" where
  "count_status s ss = length (filter (\<lambda>x. x = s) ss)"

definition blank_line :: string where "blank_line = [CHR 0x0A, CHR 0x0A]"

definition review_summaries :: "review_result list \<Rightarrow> string" where
  "review_summaries rs = join blank_line
     (map (\<lambda>(i, r). ''Reviewer '' @ letter i @ '': '' @ r_summary r) (enumerate 0 rs))"

definition aggregateReviews :: "review_result list \<Rightarrow> nat \<Rightarrow> severity \<Rightarrow> aggregate_outcome" where
  "aggregateReviews reviews required blockingSeverity =
     (let findings = dedupe (concat (map r_findings reviews));
          summary = review_summaries reviews;
          received = length reviews;
          statuses = map r_status reviews;
          unanimous = received > 0 \<and> list_all (\<lambda>s. s = hd statuses) statuses;
          base = \<lparr>ag_status = Blocked, ag_findings = findings, ag_summary = summary, ag_received = received,
                  ag_required = required, ag_unanimous = unanimous, ag_reasons = []\<rparr>
      in if received < required then
           base\<lparr>ag_summary := (if summary = [] then ''No reviewer produced a usable result.''
                  else summary @ blank_line @ ''Not enough independent reviews to decide.''),
                ag_reasons := [''only '' @ dec received @ '' of '' @ dec required
                  @ '' required independent review(s) produced a usable result'']\<rparr>
         else let blockedBy = count_status Blocked statuses in
         if blockedBy > 0 then
           base\<lparr>ag_reasons := [dec blockedBy @ '' reviewer(s) reported `blocked`'']\<rparr>
         else let blocking = blockingFindings findings blockingSeverity;
                  changesRequested = count_status RequestChanges statuses;
                  reasons = (if changesRequested > 0
                      then [dec changesRequested @ '' of '' @ dec received @ '' reviewer(s) requested changes''] else []) @
                    (if length blocking > 0
                      then [dec (length blocking) @ '' finding(s) at or above `'' @ severity_text blockingSeverity
                        @ ''` severity''] else [])
         in if changesRequested > 0 \<or> length blocking > 0 then
              base\<lparr>ag_status := RequestChanges, ag_reasons := reasons\<rparr>
            else base\<lparr>ag_status := Approve, ag_reasons := reasons @
              [if received = 1 then ''the reviewer approved with no blocking findings''
               else ''all '' @ dec received @ '' independent reviewers approved with no blocking findings'']\<rparr>)"

subsection \<open>Collapsing findings\<close>

text \<open>
  What the map holds after the findings \<open>fs\<close>: for each key one of them, of the highest severity
  among those with that key.
\<close>

definition covers :: "(string \<times> finding) list \<Rightarrow> finding set \<Rightarrow> bool" where
  "covers m fs \<longleftrightarrow> distinct (map fst m)
     \<and> (\<forall>k e. map_of m k = Some e \<longrightarrow> e \<in> fs \<and> dedupe_key e = k)
     \<and> (\<forall>f \<in> fs. \<exists>e. map_of m (dedupe_key f) = Some e \<and> f_severity f \<le> f_severity e)"

lemma covers_step:
  assumes "covers m fs"
  shows "covers (dedupe_step m f) (insert f fs)"
proof (cases "map_of m (dedupe_key f)")
  case None
  then show ?thesis
    using assms unfolding covers_def dedupe_step_def
    by (auto simp: distinct_update update_conv')
next
  case (Some e)
  have e: "e \<in> fs" "dedupe_key e = dedupe_key f" using assms Some by (auto simp: covers_def)
  show ?thesis
  proof (cases "f_severity e < f_severity f")
    case True
    have lt: "f_severity g \<le> f_severity f" if g: "g \<in> fs" "dedupe_key g = dedupe_key f" for g
    proof -
      obtain e' where "map_of m (dedupe_key g) = Some e'" "f_severity g \<le> f_severity e'"
        using assms g(1) unfolding covers_def by blast
      then have "f_severity g \<le> f_severity e" using Some g(2) by simp
      also have "f_severity e \<le> f_severity f" using True by (rule less_imp_le)
      finally show ?thesis .
    qed
    have "dedupe_step m f = AList.update (dedupe_key f) f m"
      using Some True by (simp add: dedupe_step_def less_severity_def)
    then show ?thesis
      using assms lt unfolding covers_def by (auto simp: distinct_update update_conv')
  next
    case False
    have "dedupe_step m f = m"
      using Some False by (simp add: dedupe_step_def less_severity_def)
    moreover have "f_severity f \<le> f_severity e" using False by simp
    ultimately show ?thesis using assms Some unfolding covers_def by auto
  qed
qed

lemma covers_foldl: "covers m A \<Longrightarrow> covers (foldl dedupe_step m fs) (A \<union> set fs)"
proof (induction fs arbitrary: m A)
  case (Cons f fs)
  from Cons.IH [OF covers_step [OF Cons.prems, of f]] show ?case by simp
qed simp

lemma covers_dedupe: "covers (foldl dedupe_step [] fs) (set fs)"
  using covers_foldl [of "[]" "{}" fs] by (simp add: covers_def [of "[]"])

lemma dedupe_subset: "set (dedupe fs) \<subseteq> set fs"
  using covers_dedupe [of fs] by (auto simp: dedupe_def covers_def)

lemma dedupe_mem: "f \<in> set (dedupe fs) \<longleftrightarrow> map_of (foldl dedupe_step [] fs) (dedupe_key f) = Some f"
proof
  assume "f \<in> set (dedupe fs)"
  then obtain k where "(k, f) \<in> set (foldl dedupe_step [] fs)" by (auto simp: dedupe_def)
  then show "map_of (foldl dedupe_step [] fs) (dedupe_key f) = Some f"
    using covers_dedupe [of fs] by (auto simp: covers_def)
next
  assume "map_of (foldl dedupe_step [] fs) (dedupe_key f) = Some f"
  then show "f \<in> set (dedupe fs)" by (force simp: dedupe_def dest: map_of_SomeD)
qed

lemma dedupe_represents:
  "f \<in> set fs \<Longrightarrow> \<exists>e \<in> set (dedupe fs). dedupe_key e = dedupe_key f \<and> f_severity f \<le> f_severity e"
proof -
  assume "f \<in> set fs"
  then obtain e where "map_of (foldl dedupe_step [] fs) (dedupe_key f) = Some e" "f_severity f \<le> f_severity e"
    using covers_dedupe [of fs] unfolding covers_def by blast
  moreover from this have "dedupe_key e = dedupe_key f" using covers_dedupe [of fs] unfolding covers_def by blast
  ultimately show ?thesis by (intro bexI [of _ e]) (auto simp: dedupe_mem)
qed

lemma dedupe_distinct: "distinct (map dedupe_key (dedupe fs))"
proof -
  have "map dedupe_key (dedupe fs) = map fst (foldl dedupe_step [] fs)"
    using covers_dedupe [of fs] by (auto simp: dedupe_def covers_def)
  with covers_dedupe [of fs] show ?thesis by (simp add: covers_def)
qed

lemma dedupe_blocking:
  "blockingFindings (dedupe fs) b = [] \<longleftrightarrow> (\<forall>f \<in> set fs. f_severity f < b)"
proof -
  have "(\<forall>f \<in> set (dedupe fs). f_severity f < b) \<longleftrightarrow> (\<forall>f \<in> set fs. f_severity f < b)"
  proof (intro iffI ballI)
    fix f assume all: "\<forall>f \<in> set (dedupe fs). f_severity f < b" and "f \<in> set fs"
    then show "f_severity f < b" using dedupe_represents [of f fs] by (blast intro: le_less_trans)
  qed (use dedupe_subset in blast)
  then show ?thesis by (simp add: blockingFindings_empty)
qed

subsection \<open>The verdict\<close>

lemma count_status_pos: "0 < count_status s ss \<longleftrightarrow> s \<in> set ss"
  by (auto simp: count_status_def filter_empty_conv)

lemma aggregate_status:
  "ag_status (aggregateReviews rs n b) =
    (if length rs < n \<or> (\<exists>r \<in> set rs. r_status r = Blocked) then Blocked
     else if (\<exists>r \<in> set rs. r_status r = RequestChanges \<or> (\<exists>f \<in> set (r_findings r). b \<le> f_severity f))
     then RequestChanges else Approve)"
proof -
  have block: "0 < length (blockingFindings (dedupe (concat (map r_findings rs))) b) \<longleftrightarrow>
      (\<exists>r \<in> set rs. \<exists>f \<in> set (r_findings r). b \<le> f_severity f)"
    using dedupe_blocking [of "concat (map r_findings rs)" b] by (auto simp: not_less)
  have st: "0 < count_status s (map r_status rs) \<longleftrightarrow> (\<exists>r \<in> set rs. r_status r = s)" for s
    by (auto simp: count_status_pos)
  show ?thesis
    unfolding aggregateReviews_def Let_def block st by auto
qed

lemma aggregate_stricter: "r \<in> set rs \<Longrightarrow> r_status r \<le> ag_status (aggregateReviews rs n b)"
  by (cases "r_status r") (auto simp: aggregate_status)

lemma aggregate_fields:
  "ag_findings (aggregateReviews rs n b) = dedupe (concat (map r_findings rs))"
  "ag_received (aggregateReviews rs n b) = length rs" "ag_required (aggregateReviews rs n b) = n"
  "ag_reasons (aggregateReviews rs n b) \<noteq> []"
  by (auto simp: aggregateReviews_def Let_def)

lemma aggregate_unanimous:
  "ag_unanimous (aggregateReviews rs n b) \<longleftrightarrow> rs \<noteq> [] \<and> (\<forall>r \<in> set rs. \<forall>r' \<in> set rs. r_status r = r_status r')"
proof -
  have "ag_unanimous (aggregateReviews rs n b) \<longleftrightarrow>
      length rs > 0 \<and> list_all (\<lambda>s. s = hd (map r_status rs)) (map r_status rs)"
    by (simp add: aggregateReviews_def Let_def)
  then show ?thesis by (cases rs) (auto simp: list_all_iff)
qed

text \<open>Dropping a review, or asking for more, never turns a verdict into an approval.\<close>

lemma aggregate_required_mono: "n \<le> m \<Longrightarrow> ag_status (aggregateReviews rs n b) \<le> ag_status (aggregateReviews rs m b)"
  by (auto simp: aggregate_status)

lemma aggregate_more_mono:
  "set rs \<subseteq> set rs' \<Longrightarrow> n \<le> length rs \<Longrightarrow> ag_status (aggregateReviews rs n b) \<le> ag_status (aggregateReviews rs' n b)"
  by (auto simp: aggregate_status)

end
