(* ===== verification/Glob.thy ===== *)
theory Glob
  imports Regexp
begin

text \<open>
  \<open>tooling/loop/src/glob.ts\<close>: the path matcher of the policy.  \<open>segmentToRegExp\<close> builds the
  source text of a regular expression and compiles it, as the code does; a pattern that did not
  compile would be a thrown \<open>SyntaxError\<close>, here \<open>None\<close>, and \<open>segment_compiles\<close> shows that it
  cannot happen.  The specification is \<open>wild\<close> for one segment and the relation \<open>glob_path\<close> for
  lists of segments.
\<close>

subsection \<open>The code\<close>

definition escape_special :: "char \<Rightarrow> string" where
  "escape_special c = rx_replace noflags (re ''[.+^${}()|[%]%%]'') (\<lambda>m. backslash # m_text m) [c]"

definition segment_char :: "char \<Rightarrow> string" where
  "segment_char c =
     (if c = CHR ''*'' then ''[^/]*''
      else if c = CHR ''?'' then ''[^/]''
      else escape_special c)"

definition segmentToRegExp :: "string \<Rightarrow> rx option" where
  "segmentToRegExp segment =
     rx_parse (foldl (\<lambda>source c. source @ segment_char c) ''^'' segment @ ''$'')"

fun matchSegments :: "string list \<Rightarrow> string list \<Rightarrow> bool" where
  "matchSegments [] path = (path = [])"
| "matchSegments (head # rest) path =
     (if head = ''**'' then list_ex (\<lambda>consumed. matchSegments rest (drop consumed path)) [0..<Suc (length path)]
      else if path = [] then False
      else (case segmentToRegExp head of
              None \<Rightarrow> False
            | Some r \<Rightarrow> rx_test noflags r (hd path) \<and> matchSegments rest (tl path)))"

definition glob_segments :: "string \<Rightarrow> string list" where
  "glob_segments s = filter (\<lambda>w. w \<noteq> [])
     (split_on (CHR ''/'') (rx_replace1 noflags (re ''^%.%/'') (\<lambda>_. []) s))"

definition matchesGlob :: "string \<Rightarrow> string \<Rightarrow> bool" where
  "matchesGlob pattern path = matchSegments (glob_segments pattern) (glob_segments path)"

definition matchesAnyGlob :: "string list \<Rightarrow> string \<Rightarrow> bool" where
  "matchesAnyGlob patterns path = list_ex (\<lambda>p. matchesGlob p path) patterns"

subsection \<open>Specification\<close>

fun wild :: "string \<Rightarrow> string \<Rightarrow> bool" where
  "wild [] s = (s = [])"
| "wild (p # ps) [] = (p = CHR ''*'' \<and> wild ps [])"
| "wild (p # ps) (c # s) =
     (if p = CHR ''*'' then wild ps (c # s) \<or> c \<noteq> CHR ''/'' \<and> wild (p # ps) s
      else (if p = CHR ''?'' then c \<noteq> CHR ''/'' else c = p) \<and> wild ps s)"

inductive glob_path :: "string list \<Rightarrow> string list \<Rightarrow> bool" where
  glob_nil: "glob_path [] []"
| glob_skip: "glob_path ps xs \<Longrightarrow> glob_path (''**'' # ps) xs"
| glob_deep: "glob_path (''**'' # ps) xs \<Longrightarrow> glob_path (''**'' # ps) (x # xs)"
| glob_segment: "p \<noteq> ''**'' \<Longrightarrow> wild p x \<Longrightarrow> glob_path ps xs \<Longrightarrow> glob_path (p # ps) (x # xs)"

inductive_cases glob_path_NilE [elim!]: "glob_path [] xs"
inductive_cases glob_path_ConsE: "glob_path (p # ps) xs"

subsection \<open>Compilation of a segment\<close>

definition special_char :: "char \<Rightarrow> bool" where
  "special_char c \<longleftrightarrow> c \<in> set ''.+^${}()|[]'' \<or> c = backslash"

lemma re_special: "re ''[.+^${}()|[%]%%]'' =
   RSet False (map CIChar (''.+^${}()|[]'' @ [backslash]))"
  by code_simp

lemma re_dot_slash: "re ''^%.%/'' = RSeq RBol (RSeq (RSet False [CIChar CHR ''.'']) (RSet False [CIChar CHR ''/'']))"
  by code_simp

lemma escape_special_simp: "escape_special c = (if special_char c then [backslash, c] else [c])"
  unfolding escape_special_def re_special rx_replace_def special_char_def
  by (auto simp: find_single [OF rxm.simps(2)] class_match_def)

primrec segment_rx :: "string \<Rightarrow> rx" where
  "segment_rx [] = REol"
| "segment_rx (c # cs) = RSeq
     (if c = CHR ''*'' then RRep True 0 None (RSet True [CIChar CHR ''/''])
      else if c = CHR ''?'' then RSet True [CIChar CHR ''/'']
      else RSet False [CIChar c]) (segment_rx cs)"

lemma segment_rx_not_eps [simp]: "segment_rx s \<noteq> REps"
  by (cases s) auto

definition segment_source :: "string \<Rightarrow> string" where
  "segment_source s = concat (map segment_char s) @ ''$''"

lemma segment_source_simps [simp]:
  "segment_source [] = ''$''"
  "segment_source (c # s) = segment_char c @ segment_source s"
  by (simp_all add: segment_source_def)

lemma segment_char_simps [simp]:
  "segment_char (CHR ''*'') = ''[^/]*''" "segment_char (CHR ''?'') = ''[^/]''"
  "c \<noteq> CHR ''*'' \<Longrightarrow> c \<noteq> CHR ''?'' \<Longrightarrow> special_char c \<Longrightarrow> segment_char c = [backslash, c]"
  "c \<noteq> CHR ''*'' \<Longrightarrow> c \<noteq> CHR ''?'' \<Longrightarrow> \<not> special_char c \<Longrightarrow> segment_char c = [c]"
  by (simp_all add: segment_char_def escape_special_simp)

text \<open>What follows a compiled character is never a quantifier, nor the end of a group.\<close>

definition plain_start :: "string \<Rightarrow> bool" where
  "plain_start s \<longleftrightarrow> (\<exists>d r. s = d # r \<and> d \<notin> set ''*+?{)|'')"

lemma segment_source_plain: "plain_start (segment_source s)"
proof (cases s)
  case (Cons c cs)
  consider "c = CHR ''*''" | "c = CHR ''?''" | "c \<noteq> CHR ''*''" "c \<noteq> CHR ''?''" "special_char c"
    | "c \<noteq> CHR ''*''" "c \<noteq> CHR ''?''" "\<not> special_char c" by blast
  then show ?thesis
    by cases (auto simp: Cons plain_start_def special_char_def backslash_def)
qed (simp add: plain_start_def)

lemma plain_start_simps:
  assumes "plain_start s"
  shows "\<not> is_meta_end s" "quantifier r s = (r, s)" "quantify mn mx r s = (RRep True mn mx r, s)"
  using assms by (auto simp: plain_start_def is_meta_end_def quantify_def)

lemma special_not_word: "special_char c \<Longrightarrow> \<not> is_word c"
  by (auto simp: special_char_def backslash_def is_word_def is_digit_def is_upper_def is_lower_def in_range_def)

lemma class_escape_special: "special_char c \<Longrightarrow> class_escape (c # s) = Some (CIChar c, s)"
  using special_not_word [of c] by (auto simp: special_char_def backslash_def)

lemma p_term_segment:
  assumes "plain_start s"
  shows "p_term (Suc f) n (segment_char c @ s) = Some
     (if c = CHR ''*'' then RRep True 0 None (RSet True [CIChar CHR ''/''])
      else if c = CHR ''?'' then RSet True [CIChar CHR ''/'']
      else RSet False [CIChar c], n, s)"
proof -
  note plain = plain_start_simps [OF assms]
  consider "c = CHR ''*''" | "c = CHR ''?''" | "c \<noteq> CHR ''*''" "c \<noteq> CHR ''?''" "special_char c"
    | "c \<noteq> CHR ''*''" "c \<noteq> CHR ''?''" "\<not> special_char c" by blast
  then show ?thesis
  proof cases
    case 3
    have "c \<noteq> CHR ''b''" "c \<noteq> CHR ''B''" using 3(3) by (auto simp: special_char_def backslash_def)
    with 3 show ?thesis
      by (simp add: class_escape_special plain quantified_def del: class_escape.simps)
        (simp add: backslash_def)
  next
    case 4
    then show ?thesis
      by (auto simp: plain quantified_def special_char_def)
  next
    case 2
    with assms show ?thesis
      by (auto simp: backslash_def class_member_def quantified_def plain_start_def)
  qed (simp_all add: backslash_def class_member_def quantified_def plain)
qed

lemma segment_char_nonempty: "plain_start s \<Longrightarrow> \<not> is_meta_end (segment_char c @ s)"
  by (cases "c = CHR ''*''"; cases "c = CHR ''?''"; cases "special_char c")
    (auto simp: is_meta_end_def special_char_def backslash_def)

lemma p_seq_step:
  "\<not> is_meta_end s \<Longrightarrow> p_term f n s = Some (r, n', s') \<Longrightarrow> p_seq f n' s' = Some (r2, n2, s2) \<Longrightarrow>
    r2 \<noteq> REps \<Longrightarrow> p_seq (Suc f) n s = Some (RSeq r r2, n2, s2)"
  by simp

lemma p_seq_segment:
  "length s + 3 \<le> f \<Longrightarrow> p_seq f n (segment_source s) = Some (segment_rx s, n, [])"
proof (induction s arbitrary: f)
  case Nil
  then obtain k where "f = Suc (Suc (Suc k))" by (cases f; cases "f - 1"; cases "f - 2") auto
  then show ?case by (simp add: is_meta_end_def)
next
  case (Cons c s)
  then obtain k where f: "f = Suc (Suc k)" and k: "length s + 3 \<le> Suc k"
    by (cases f; cases "f - 1") auto
  show ?case
    unfolding f segment_source_simps segment_rx.simps
    by (rule p_seq_step [OF _ p_term_segment [OF segment_source_plain] Cons.IH [OF k]])
      (simp_all add: segment_char_nonempty segment_source_plain)
qed

lemma segment_source_length: "length s \<le> length (segment_source s)"
  by (induction s) (auto simp: segment_char_def escape_special_simp)

lemma segment_compiles: "segmentToRegExp s = Some (RSeq RBol (segment_rx s))"
proof -
  have "foldl (\<lambda>source c. source @ segment_char c) a s = a @ concat (map segment_char s)" for a
    by (induction s arbitrary: a) auto
  then have src: "foldl (\<lambda>source c. source @ segment_char c) ''^'' s @ ''$'' = CHR ''^'' # segment_source s"
    by (simp add: segment_source_def)
  define k where "k = 3 * length (CHR ''^'' # segment_source s)"
  have len: "length s + 3 \<le> Suc k"
    using segment_source_length [of s] by (simp add: k_def)
  have "p_seq (Suc (Suc k)) 0 (CHR ''^'' # segment_source s) = Some (RSeq RBol (segment_rx s), 0, [])"
    by (rule p_seq_step [OF _ _ p_seq_segment [OF len]]) (simp_all add: is_meta_end_def)
  moreover have "3 * length (CHR ''^'' # segment_source s) + 3 = Suc (Suc (Suc k))"
    by (simp add: k_def)
  ultimately show ?thesis
    unfolding segmentToRegExp_def src rx_parse_def
    by (simp only: p_alt.simps(2) option.case prod.case starts_with.simps if_False list.case)
qed

text \<open>The compiled segment accepts exactly what the wildcard specification accepts.\<close>

lemma wild_star: "wild (CHR ''*'' # ps) s \<longleftrightarrow> (\<exists>w s'. s = w @ s' \<and> CHR ''/'' \<notin> set w \<and> wild ps s')"
proof (induction s)
  case (Cons c s)
  have "(\<exists>w s'. c # s = w @ s' \<and> CHR ''/'' \<notin> set w \<and> wild ps s') \<longleftrightarrow>
      wild ps (c # s) \<or> c \<noteq> CHR ''/'' \<and> (\<exists>w s'. s = w @ s' \<and> CHR ''/'' \<notin> set w \<and> wild ps s')"
    (is "(\<exists>w s'. ?P w s') \<longleftrightarrow> ?a \<or> ?b")
  proof
    assume "\<exists>w s'. ?P w s'"
    then obtain w s' where P: "?P w s'" by blast
    then show "?a \<or> ?b" by (cases w) auto
  next
    assume "?a \<or> ?b"
    then show "\<exists>w s'. ?P w s'"
    proof
      assume ?a
      then have "?P [] (c # s)" by simp
      then show ?thesis by blast
    next
      assume ?b
      then obtain w s' where "s = w @ s'" "c \<noteq> CHR ''/''" "CHR ''/'' \<notin> set w" "wild ps s'" by blast
      then have "?P (c # w) s'" by simp
      then show ?thesis by blast
    qed
  qed
  with Cons show ?case by simp
qed simp

lemma segment_rx_wild: "rxm noflags (segment_rx p) (b, s, cap) \<noteq> [] \<longleftrightarrow> wild p s"
proof (induction p arbitrary: b s)
  case (Cons c p)
  show ?case
  proof (cases "c = CHR ''*''")
    case True
    have "rxm noflags (segment_rx (c # p)) (b, s, cap) \<noteq> [] \<longleftrightarrow>
      (\<exists>u \<in> set (rxm noflags (RRep True 0 None (RSet True [CIChar CHR ''/''])) (b, s, cap)).
         rxm noflags (segment_rx p) u \<noteq> [])"
      using True by (auto simp: rxm.simps(6) concat_eq_Nil_conv simp del: rxm.simps(6))
    also have "\<dots> \<longleftrightarrow> wild (c # p) s"
      unfolding star_class_set True wild_star using Cons.IH by fastforce
    finally show ?thesis .
  next
    case False
    then show ?thesis using Cons.IH by (cases s) auto
  qed
qed simp

lemma segment_test: "rx_test noflags (RSeq RBol (segment_rx p)) s \<longleftrightarrow> wild p s"
  by (simp only: rx_test_anchored segment_rx_wild)

subsection \<open>The recursion over segments\<close>

lemma matchSegments_Cons:
  "matchSegments (h # rest) path =
     (if h = ''**'' then (\<exists>n \<le> length path. matchSegments rest (drop n path))
      else (case path of [] \<Rightarrow> False | x # xs \<Rightarrow> wild h x \<and> matchSegments rest xs))"
  unfolding matchSegments.simps list_ex_iff atLeast_upt [symmetric]
  by (cases path) (auto simp: segment_compiles segment_test less_Suc_eq_le)

lemma glob_deep_drop: "glob_path ps (drop n xs) \<Longrightarrow> glob_path (''**'' # ps) xs"
proof (induction xs arbitrary: n)
  case (Cons x xs)
  then show ?case by (cases n) (auto intro: glob_skip glob_deep)
qed (auto intro: glob_skip)

lemma glob_path_matches: "glob_path ps xs \<Longrightarrow> matchSegments ps xs"
proof (induction rule: glob_path.induct)
  case (glob_deep ps xs x)
  then obtain n where "n \<le> length xs" "matchSegments ps (drop n xs)"
    by (auto simp: matchSegments_Cons simp del: matchSegments.simps(2))
  then show ?case
    by (auto simp: matchSegments_Cons simp del: matchSegments.simps(2) intro: exI [of _ "Suc n"])
next
  case (glob_skip ps xs)
  then show ?case
    by (auto simp: matchSegments_Cons simp del: matchSegments.simps(2) intro: exI [of _ 0])
qed (auto simp: matchSegments_Cons simp del: matchSegments.simps(2))

lemma matches_glob_path: "matchSegments ps xs \<Longrightarrow> glob_path ps xs"
proof (induction ps arbitrary: xs)
  case (Cons p ps)
  show ?case
  proof (cases "p = ''**''")
    case True
    with Cons show ?thesis
      by (auto simp: matchSegments_Cons simp del: matchSegments.simps(2) intro: glob_deep_drop)
  next
    case False
    with Cons show ?thesis
      by (cases xs) (auto simp: matchSegments_Cons simp del: matchSegments.simps(2) intro: glob_segment)
  qed
qed (auto intro: glob_nil)

lemma matchSegments_iff: "matchSegments ps xs \<longleftrightarrow> glob_path ps xs"
  using glob_path_matches matches_glob_path by blast

lemma glob_segments_wf: "w \<in> set (glob_segments s) \<Longrightarrow> w \<noteq> [] \<and> CHR ''/'' \<notin> set w"
  by (auto simp: glob_segments_def dest: split_on_no_sep)

text \<open>A pattern without wildcards matches the path with the same segments only.\<close>

lemma wild_literal: "CHR ''*'' \<notin> set p \<Longrightarrow> CHR ''?'' \<notin> set p \<Longrightarrow> wild p s \<longleftrightarrow> s = p"
  by (induction p s rule: wild.induct) auto

lemma glob_literal:
  assumes "\<forall>p \<in> set ps. CHR ''*'' \<notin> set p \<and> CHR ''?'' \<notin> set p"
  shows "matchSegments ps xs \<longleftrightarrow> xs = ps"
  using assms
proof (induction ps arbitrary: xs)
  case (Cons p ps)
  then have "p \<noteq> ''**''" by auto
  with Cons show ?case
    by (cases xs) (auto simp: matchSegments_Cons wild_literal simp del: matchSegments.simps(2))
qed simp

lemma matchesAnyGlob_append [simp]:
  "matchesAnyGlob (ps @ qs) path \<longleftrightarrow> matchesAnyGlob ps path \<or> matchesAnyGlob qs path"
  by (simp add: matchesAnyGlob_def)

lemma matchesAnyGlob_iff: "matchesAnyGlob ps path \<longleftrightarrow> (\<exists>p \<in> set ps. matchesGlob p path)"
  by (simp add: matchesAnyGlob_def list_ex_iff)

end
