(* ===== verification/Diff.thy ===== *)
theory Diff
  imports Regexp
begin

text \<open>
  \<open>tooling/loop/src/diff.ts\<close>: the shape of a pull request diff and the parser of unified
  diffs.  The loop over the lines is a fold of \<open>diff_step\<close> over the state
  \<open>(files, current)\<close>.  \<open>render_diff\<close> is a specification: a unified diff of the given files,
  which the parser is shown to invert.
\<close>

subsection \<open>The code\<close>

datatype file_status = FAdded | FModified | FRemoved | FRenamed

record diff_file =
  df_path :: string
  df_status :: file_status
  df_addedLines :: "string list"
  df_removedLines :: "string list"

record pull_request_diff =
  diff_files :: "diff_file list"

definition additions :: "pull_request_diff \<Rightarrow> nat" where
  "additions d = foldl (\<lambda>total f. total + length (df_addedLines f)) 0 (diff_files d)"

definition deletions :: "pull_request_diff \<Rightarrow> nat" where
  "deletions d = foldl (\<lambda>total f. total + length (df_removedLines f)) 0 (diff_files d)"

definition FILE_HEADER :: rx where
  "FILE_HEADER = re ''^diff --git a%/(.+?) b%/(.+)$''"

definition RENAME_TO :: rx where
  "RENAME_TO = re ''^rename to (.+)$''"

type_synonym diff_state = "diff_file list \<times> diff_file option"

definition flush :: "diff_state \<Rightarrow> diff_file list" where
  "flush st = (case snd st of Some f \<Rightarrow> fst st @ [f] | None \<Rightarrow> fst st)"

definition content_line :: "string \<Rightarrow> diff_file \<Rightarrow> diff_file" where
  "content_line l f =
     (if starts_with ''new file mode'' l then f\<lparr>df_status := FAdded\<rparr>
      else if starts_with ''deleted file mode'' l then f\<lparr>df_status := FRemoved\<rparr>
      else case rx_exec noflags RENAME_TO l of
        Some m \<Rightarrow> f\<lparr>df_status := FRenamed, df_path := the (group m 1)\<rparr>
      | None \<Rightarrow>
          (if starts_with ''+++'' l \<or> starts_with ''---'' l then f
           else if starts_with ''+'' l then f\<lparr>df_addedLines := df_addedLines f @ [tl l]\<rparr>
           else if starts_with ''-'' l then f\<lparr>df_removedLines := df_removedLines f @ [tl l]\<rparr>
           else f))"

definition diff_step :: "string \<Rightarrow> diff_state \<Rightarrow> diff_state" where
  "diff_step l st =
     (case rx_exec noflags FILE_HEADER l of
        Some m \<Rightarrow> (flush st,
          Some \<lparr>df_path = the (group m 2), df_status = FModified, df_addedLines = [], df_removedLines = []\<rparr>)
      | None \<Rightarrow> (fst st, map_option (content_line l) (snd st)))"

definition parseUnifiedDiff :: "string \<Rightarrow> pull_request_diff" where
  "parseUnifiedDiff text = \<lparr>diff_files = flush (fold diff_step (lines_of text) ([], None))\<rparr>"

subsection \<open>The patterns\<close>

lemma FILE_HEADER_rx:
  "FILE_HEADER = RSeq RBol (rlit ''diff --git a/''
     (RSeq (RGroup 1 (RRep False 1 None RDot)) (rlit '' b/'' (RSeq (RGroup 2 (RRep True 1 None RDot)) REol))))"
  by code_simp

lemma RENAME_TO_rx:
  "RENAME_TO = RSeq RBol (rlit ''rename to '' (RSeq (RGroup 1 (RRep True 1 None RDot)) REol))"
  by code_simp

text \<open>A path that the header pattern reads back: a line without the separator.\<close>

definition plain_path :: "string \<Rightarrow> bool" where
  "plain_path p \<longleftrightarrow> p \<noteq> [] \<and> list_all dot_ok p \<and> \<not> contains '' b/'' p"

definition header_line :: "string \<Rightarrow> string" where
  "header_line p = ''diff --git a/'' @ p @ '' b/'' @ p"

text \<open>No occurrence of the separator starts inside the path.\<close>

lemma no_early_separator:
  assumes "\<not> contains '' b/'' p" and "0 < k" "k < length p"
  shows "\<not> starts_with '' b/'' (drop k (p @ '' b/'' @ q))"
proof
  assume sw: "starts_with '' b/'' (drop k (p @ '' b/'' @ q))"
  let ?r = "drop k p"
  have r: "?r \<noteq> []" using assms by simp
  have sw': "starts_with '' b/'' (?r @ '' b/'' @ q)" using sw assms by simp
  show False
  proof (cases "length ?r < 3")
    case True
    with r obtain x y where "?r = [x] \<or> ?r = [x, y]"
      by (cases ?r; cases "tl ?r"; cases "tl (tl ?r)") (auto simp: drop_Suc)
    with sw' show False by auto
  next
    case False
    then have "starts_with '' b/'' ?r"
      using sw' by (cases ?r; cases "tl ?r"; cases "tl (tl ?r)") auto
    then obtain u where "?r = '' b/'' @ u" by (auto simp: starts_with_iff)
    then have "p = take k p @ '' b/'' @ u" by (metis append_take_drop_id)
    with assms(1) show False by (auto simp: contains_iff)
  qed
qed

lemma header_exec:
  assumes "plain_path p"
  shows "\<exists>m. rx_exec noflags FILE_HEADER (header_line p) = Some m \<and> group m 2 = Some p"
proof -
  let ?t = "'' b/'' @ p"
  let ?R = "rlit '' b/'' (RSeq (RGroup 2 (RRep True 1 None RDot)) REol)"
  let ?b = "rev ''diff --git a/''"
  have p: "p \<noteq> []" "list_all dot_ok p" "\<not> contains '' b/'' p"
    using assms by (auto simp: plain_path_def)
  have "\<exists>ys. rxm noflags (RSeq (RGroup 1 (RRep False 1 None RDot)) ?R) (?b, p @ ?t, []) =
      (rev p @ rev '' b/'' @ rev p @ ?b, [], AList.update 2 p (AList.update 1 p [])) # ys"
  proof (rule lazy_until)
    show "list_all dot_ok (p @ ?t)" using p by (simp add: dot_ok_def)
    show "rxm noflags ?R (rev p @ ?b, ?t, AList.update 1 p []) =
      (rev p @ rev '' b/'' @ rev p @ ?b, [], AList.update 2 p (AList.update 1 p [])) # []"
      using rest_of_line [OF p(2,1), of 2 "rev '' b/'' @ rev p @ ?b" "AList.update 1 p []"]
      by (simp add: rxm_rlit del: rxm.simps rlit.simps)
    show "rxm noflags ?R (rev (take k p) @ ?b, drop k (p @ ?t), u) = []"
      if "0 < k" "k < length p" for k u
      using no_early_separator [OF p(3) that] by (simp add: rxm_rlit del: rxm.simps rlit.simps)
  qed (rule p(1))
  then obtain ys where "rxm noflags (RSeq (RGroup 1 (RRep False 1 None RDot)) ?R) (?b, p @ ?t, []) =
      (rev p @ rev '' b/'' @ rev p @ ?b, [], AList.update 2 p (AList.update 1 p [])) # ys" ..
  then show ?thesis
    unfolding FILE_HEADER_rx header_line_def rx_exec_anchored
    by (simp add: rxm_rlit group_def update_conv del: rxm.simps rlit.simps)
qed

lemma header_none: "\<not> starts_with ''diff --git a/'' l \<Longrightarrow> rx_exec noflags FILE_HEADER l = None"
  unfolding FILE_HEADER_rx by (rule rx_exec_anchored_lit)

lemma rename_none: "\<not> starts_with ''rename to '' l \<Longrightarrow> rx_exec noflags RENAME_TO l = None"
  unfolding RENAME_TO_rx by (rule rx_exec_anchored_lit)

lemma rename_exec:
  assumes "p \<noteq> []" "list_all dot_ok p"
  shows "\<exists>m. rx_exec noflags RENAME_TO (''rename to '' @ p) = Some m \<and> group m 1 = Some p"
  using rest_of_line [OF assms(2,1), of 1 "rev ''rename to ''" "[]"]
  unfolding RENAME_TO_rx rx_exec_anchored
  by (simp add: rxm_rlit group_def del: rxm.simps rlit.simps)

subsection \<open>Rendering\<close>

fun mode_lines :: "file_status \<Rightarrow> string \<Rightarrow> string list" where
  "mode_lines FAdded p = [''new file mode 100644'']"
| "mode_lines FRemoved p = [''deleted file mode 100644'']"
| "mode_lines FRenamed p = [''rename to '' @ p]"
| "mode_lines FModified p = []"

definition render_file :: "diff_file \<Rightarrow> string list" where
  "render_file f = header_line (df_path f) # mode_lines (df_status f) (df_path f)
     @ [''--- a/'' @ df_path f, ''+++ b/'' @ df_path f, ''@@ -1 +1 @@'']
     @ map (\<lambda>l. CHR ''-'' # l) (df_removedLines f) @ map (\<lambda>l. CHR ''+'' # l) (df_addedLines f)"

definition render_diff :: "pull_request_diff \<Rightarrow> string" where
  "render_diff d = unlines (concat (map render_file (diff_files d)))"

definition content_ok :: "string \<Rightarrow> string \<Rightarrow> bool" where
  "content_ok bad l \<longleftrightarrow> CHR 0x0A \<notin> set l \<and> \<not> starts_with bad l"

definition renderable :: "diff_file \<Rightarrow> bool" where
  "renderable f \<longleftrightarrow> plain_path (df_path f)
     \<and> list_all (content_ok ''++'') (df_addedLines f) \<and> list_all (content_ok ''--'') (df_removedLines f)"

lemma step_content:
  "\<not> starts_with ''diff --git a/'' l \<Longrightarrow> diff_step l (fs, Some f) = (fs, Some (content_line l f))"
  by (simp add: diff_step_def header_none)

lemma fold_removed:
  "list_all (content_ok ''--'') ls \<Longrightarrow>
    fold diff_step (map (\<lambda>l. CHR ''-'' # l) ls) (fs, Some f) =
    (fs, Some (f\<lparr>df_removedLines := df_removedLines f @ ls\<rparr>))"
  by (induction ls arbitrary: f)
    (auto simp: step_content content_line_def rename_none content_ok_def)

lemma fold_added:
  "list_all (content_ok ''++'') ls \<Longrightarrow>
    fold diff_step (map (\<lambda>l. CHR ''+'' # l) ls) (fs, Some f) =
    (fs, Some (f\<lparr>df_addedLines := df_addedLines f @ ls\<rparr>))"
  by (induction ls arbitrary: f)
    (auto simp: step_content content_line_def rename_none content_ok_def)

lemma fold_mode:
  assumes "plain_path p"
  shows "fold diff_step (mode_lines s p)
     (fs, Some \<lparr>df_path = p, df_status = FModified, df_addedLines = [], df_removedLines = []\<rparr>) =
     (fs, Some \<lparr>df_path = p, df_status = s, df_addedLines = [], df_removedLines = []\<rparr>)"
proof (cases s)
  case FRenamed
  then show ?thesis
    using rename_exec [of p] assms by (auto simp: step_content content_line_def plain_path_def)
qed (simp_all add: step_content content_line_def rename_none)

lemma fold_render_file:
  assumes "renderable f"
  shows "fold diff_step (render_file f) st = (flush st, Some f)"
proof -
  have path: "plain_path (df_path f)" using assms by (simp add: renderable_def)
  obtain m where "rx_exec noflags FILE_HEADER (header_line (df_path f)) = Some m" "group m 2 = Some (df_path f)"
    using header_exec [OF path] by blast
  then have head: "diff_step (header_line (df_path f)) st =
      (flush st, Some \<lparr>df_path = df_path f, df_status = FModified, df_addedLines = [], df_removedLines = []\<rparr>)"
    by (simp add: diff_step_def)
  show ?thesis
    using assms
    by (simp add: render_file_def head fold_mode [OF path] step_content content_line_def rename_none
        fold_removed fold_added renderable_def)
qed

lemma fold_render_files:
  "list_all renderable fs \<Longrightarrow>
    flush (fold diff_step (concat (map render_file fs)) st) = flush st @ fs"
  by (induction fs arbitrary: st) (simp_all add: fold_render_file, simp add: flush_def)

lemma render_file_no_newline:
  assumes "renderable f"
  shows "list_all (\<lambda>w. CHR 0x0A \<notin> set w) (render_file f)"
proof -
  have path: "CHR 0x0A \<notin> set (df_path f)"
    using assms by (auto simp: renderable_def plain_path_def list_all_iff dot_ok_def)
  then have "list_all (\<lambda>w. CHR 0x0A \<notin> set w) (mode_lines (df_status f) (df_path f))"
    by (cases "df_status f") simp_all
  moreover have "list_all (\<lambda>w. CHR 0x0A \<notin> set w) (map (\<lambda>l. CHR ''-'' # l) (df_removedLines f) @
      map (\<lambda>l. CHR ''+'' # l) (df_addedLines f))"
    using assms by (auto simp: renderable_def list_all_iff content_ok_def)
  ultimately show ?thesis
    using path by (simp add: render_file_def header_line_def)
qed

lemma render_file_nonempty: "render_file f \<noteq> []"
  by (simp add: render_file_def)

lemma parse_render:
  assumes "list_all renderable (diff_files d)"
  shows "parseUnifiedDiff (render_diff d) = d"
proof (cases "diff_files d = []")
  case True
  then show ?thesis
    by (simp add: parseUnifiedDiff_def render_diff_def diff_step_def header_none flush_def)
next
  case False
  have "lines_of (render_diff d) = concat (map render_file (diff_files d))"
    unfolding render_diff_def
  proof (rule split_on_join)
    show "concat (map render_file (diff_files d)) \<noteq> []"
      using False by (cases "diff_files d") (auto simp: render_file_nonempty)
    show "CHR 0x0A \<notin> set w" if "w \<in> set (concat (map render_file (diff_files d)))" for w
      using that assms render_file_no_newline by (auto simp: list_all_iff)
  qed
  then show ?thesis
    unfolding parseUnifiedDiff_def using fold_render_files [OF assms, of "([], None)"]
    by (simp add: flush_def)
qed

lemma parse_no_header:
  "(\<And>l. l \<in> set (lines_of text) \<Longrightarrow> \<not> starts_with ''diff --git a/'' l) \<Longrightarrow>
    diff_files (parseUnifiedDiff text) = []"
proof -
  assume hd: "\<And>l. l \<in> set (lines_of text) \<Longrightarrow> \<not> starts_with ''diff --git a/'' l"
  have "fold diff_step ls ([], None) = ([], None)" if "\<And>l. l \<in> set ls \<Longrightarrow> \<not> starts_with ''diff --git a/'' l" for ls
    using that by (induction ls) (simp_all add: diff_step_def header_none)
  with hd show ?thesis by (simp add: parseUnifiedDiff_def flush_def)
qed

lemma additions_sum: "additions d = sum_list (map (\<lambda>f. length (df_addedLines f)) (diff_files d))"
  by (simp add: additions_def foldl_sum)

lemma deletions_sum: "deletions d = sum_list (map (\<lambda>f. length (df_removedLines f)) (diff_files d))"
  by (simp add: deletions_def foldl_sum)

end
