(* ===== verification/Detect.thy ===== *)
theory Detect
  imports Diff
begin

text \<open>
  \<open>tooling/loop/src/detect.ts\<close>: what a diff says about destructive SQL, removed exports and
  dependency edits.  Patterns are kept as their sources where the code reports
  \<open>pattern.source\<close>.  \<open>localeCompare\<close> depends on the host's locale data, so the order of names
  it gives is the parameter \<open>lc\<close>, true when its result is not positive.
\<close>

subsection \<open>Destructive SQL\<close>

definition DESTRUCTIVE_SQL :: "string list" where
  "DESTRUCTIVE_SQL = map unpercent
    [''%bdrop%s+table%b'', ''%bdrop%s+schema%b'', ''%bdrop%s+database%b'', ''%btruncate%b'',
     ''%balter%s+table%b[%s%S]*?%bdrop%s+column%b'', ''%balter%s+table%b[%s%S]*?%bdrop%s+constraint%b'']"

record destructive_statement =
  ds_line :: string
  ds_pattern :: string

definition tests :: "rflags \<Rightarrow> string \<Rightarrow> string \<Rightarrow> bool" where
  "tests fl pattern s = (case rx_parse pattern of Some r \<Rightarrow> rx_test fl r s | None \<Rightarrow> False)"

definition findDestructiveSql :: "string list \<Rightarrow> destructive_statement list" where
  "findDestructiveSql addedLines = concat (map (\<lambda>l.
     case List.find (\<lambda>p. tests flag_i p l) DESTRUCTIVE_SQL of
       Some p \<Rightarrow> [\<lparr>ds_line = trim l, ds_pattern = p\<rparr>]
     | None \<Rightarrow> []) addedLines)"

subsection \<open>Exported names\<close>

definition EXPORT_PATTERNS :: "rx list" where
  "EXPORT_PATTERNS =
    [re ''^%s*export%s+(?:declare%s+)?(?:async%s+)?(?:const|let|var|function|class|interface|type|enum)%s+([A-Za-z_$][%w$]*)'',
     re ''^%s*export%s+default%s+(?:function%s+)?([A-Za-z_$][%w$]*)?'']"

definition BRACE_LIST :: rx where
  "BRACE_LIST = re ''export%s*(?:type%s*)?%{([^}]*)%}''"

definition LIST_MEMBER :: rx where
  "LIST_MEMBER = re ''^%s*(?:type%s+)?[A-Za-z_$][%w$]*%s*(?:as%s+[A-Za-z_$][%w$]*)?%s*,%s*$''"

definition EXPORT_ENTRY :: rx where
  "EXPORT_ENTRY = re ''(?:type%s+)?([A-Za-z_$][%w$]*)(?:%s+as%s+([A-Za-z_$][%w$]*))?''"

definition first_group :: "rx list \<Rightarrow> string \<Rightarrow> string option" where
  "first_group rs l = Option.bind (List.find (\<lambda>r. exec_group noflags r 1 l \<noteq> None) rs)
     (\<lambda>r. exec_group noflags r 1 l)"

definition or_else :: "'a option \<Rightarrow> 'a option \<Rightarrow> 'a option" where
  "or_else a b = (case a of Some x \<Rightarrow> Some x | None \<Rightarrow> b)"

definition entry_name :: "string \<Rightarrow> string option" where
  "entry_name entry = (case rx_exec noflags EXPORT_ENTRY (trim entry) of
       None \<Rightarrow> None
     | Some m \<Rightarrow> or_else (group m 2) (group m 1))"

definition line_exports :: "string \<Rightarrow> string list \<Rightarrow> string list" where
  "line_exports l names =
     (case first_group EXPORT_PATTERNS l of
        Some n \<Rightarrow> set_add n names
      | None \<Rightarrow>
          (case or_else (exec_group noflags BRACE_LIST 1 l)
                  (if rx_test noflags LIST_MEMBER l then Some l else None) of
             None \<Rightarrow> names
           | Some body \<Rightarrow> foldl (\<lambda>ns entry.
               case entry_name entry of
                 Some e \<Rightarrow> (if e \<noteq> ''type'' then set_add e ns else ns)
               | None \<Rightarrow> ns) names (split_on (CHR '','') body)))"

definition extractExportedNames :: "string list \<Rightarrow> string list" where
  "extractExportedNames ls = foldl (\<lambda>names l. line_exports l names) [] ls"

definition removedExports :: "diff_file \<Rightarrow> string list" where
  "removedExports f =
     (let removed = extractExportedNames (df_removedLines f);
          added = extractExportedNames (df_addedLines f)
      in sort_by (\<le>) (filter (\<lambda>n. n \<notin> set added) removed))"

subsection \<open>Dependency edits\<close>

datatype dependency_kind = DepAdded | DepRemoved | DepUpgraded | DepDowngraded

record dependency_change =
  dc_name :: string
  dc_from :: "string option"
  dc_to :: "string option"
  dc_kind :: dependency_kind
  dc_major :: bool

definition DEPENDENCY_LINE :: rx where
  \<open>DEPENDENCY_LINE = re ''^%s*"([^"]+)"%s*:%s*"([^"]+)"%s*,?%s*$''\<close>

definition leadingMajor :: "string \<Rightarrow> string option" where
  "leadingMajor r = exec_group noflags (re ''(%d+)%.'') 1 r"

definition DEPENDENCY_VALUE :: rx where
  "DEPENDENCY_VALUE = re (''^(?:workspace:|npm:|file:|link:|portal:|patch:|git%+|github:|https?:|[a-z-]+%/[a-z-]+#)''
     @ ''|^[%^~>=<v ]*%d+(?:%.%d+)*(?:[-+.][%w.-]+)?$|^%*$|^latest$'')"

definition dependency_entries :: "string list \<Rightarrow> (string \<times> string) list" where
  "dependency_entries ls = foldl (\<lambda>es l.
     case rx_exec noflags DEPENDENCY_LINE l of
       None \<Rightarrow> es
     | Some m \<Rightarrow> (case (group m 1, group m 2) of
           (Some k, Some v) \<Rightarrow> (if rx_test flag_i DEPENDENCY_VALUE v then AList.update k v es else es)
         | _ \<Rightarrow> es)) [] ls"

definition major_change :: "string option \<Rightarrow> string option \<Rightarrow> bool" where
  "major_change fm tm \<longleftrightarrow> fm \<noteq> None \<and> tm \<noteq> None \<and> fm \<noteq> tm"

definition changed_entry :: "(string \<times> string) list \<Rightarrow> string \<times> string \<Rightarrow> dependency_change list" where
  "changed_entry before nt =
     (let from = map_of before (fst nt) in
      if from = Some (snd nt) then []
      else let fm = Option.bind from leadingMajor;
               tm = leadingMajor (snd nt);
               major = major_change fm tm
           in [\<lparr>dc_name = fst nt, dc_from = from, dc_to = Some (snd nt),
                dc_kind = (if from = None then DepAdded
                           else if major \<and> undec (the tm) < undec (the fm) then DepDowngraded
                           else if from = None then DepAdded else DepUpgraded),
                dc_major = major\<rparr>])"

definition removed_entry :: "(string \<times> string) list \<Rightarrow> string \<times> string \<Rightarrow> dependency_change list" where
  "removed_entry after nv = (if map_of after (fst nv) = None
     then [\<lparr>dc_name = fst nv, dc_from = Some (snd nv), dc_to = None, dc_kind = DepRemoved, dc_major = False\<rparr>]
     else [])"

definition dependencyChanges :: "(string \<Rightarrow> string \<Rightarrow> bool) \<Rightarrow> diff_file \<Rightarrow> dependency_change list" where
  "dependencyChanges lc f =
     (if \<not> ends_with ''package.json'' (df_path f) then []
      else let before = dependency_entries (df_removedLines f);
               after = dependency_entries (df_addedLines f)
           in sort_by (\<lambda>a b. lc (dc_name a) (dc_name b))
                (concat (map (changed_entry before) after) @
                 concat (map (removed_entry after) before)))"

subsection \<open>Lemmas\<close>

lemma destructive_patterns_compile: "list_all (\<lambda>p. rx_parse p \<noteq> None) DESTRUCTIVE_SQL"
  by code_simp

definition destructive_line :: "string \<Rightarrow> bool" where
  "destructive_line l \<longleftrightarrow> list_ex (\<lambda>p. tests flag_i p l) DESTRUCTIVE_SQL"

lemma find_destructive_lines:
  "map ds_line (findDestructiveSql ls) = map trim (filter destructive_line ls)"
  unfolding findDestructiveSql_def destructive_line_def list_ex_iff
  by (induction ls) (auto split: option.splits simp: find_None_all dest: find_Some_mem)

lemma find_destructive_sound:
  "d \<in> set (findDestructiveSql ls) \<Longrightarrow>
    ds_pattern d \<in> set DESTRUCTIVE_SQL \<and> (\<exists>l \<in> set ls. ds_line d = trim l \<and> tests flag_i (ds_pattern d) l)"
  unfolding findDestructiveSql_def by (auto split: option.splits dest!: find_Some_mem [OF sym])

lemma find_destructive_append:
  "findDestructiveSql (ls @ ms) = findDestructiveSql ls @ findDestructiveSql ms"
  by (simp add: findDestructiveSql_def)

text \<open>The names of a line do not depend on those collected before.\<close>

definition exports_of :: "string \<Rightarrow> string set" where
  "exports_of l = set (line_exports l [])"

lemma foldl_entries:
  "set (foldl (\<lambda>ns entry. case entry_name entry of
        Some e \<Rightarrow> (if e \<noteq> ''type'' then set_add e ns else ns) | None \<Rightarrow> ns) names es) =
    set names \<union> {e. e \<noteq> ''type'' \<and> Some e \<in> entry_name ` set es}"
proof (induction es arbitrary: names)
  case (Cons x es)
  show ?case
    by (cases "entry_name x") (auto simp: Cons.IH image_iff)
qed simp

lemma set_line_exports: "set (line_exports l names) = set names \<union> exports_of l"
  unfolding exports_of_def line_exports_def
  by (auto simp: foldl_entries split: option.splits)

lemma set_extract: "set (extractExportedNames ls) = (\<Union>l \<in> set ls. exports_of l)"
proof -
  have "set (foldl (\<lambda>names l. line_exports l names) ns ls) = set ns \<union> (\<Union>l \<in> set ls. exports_of l)" for ns
    by (induction ls arbitrary: ns) (auto simp: set_line_exports)
  then show ?thesis by (simp add: extractExportedNames_def)
qed

lemma removedExports_spec:
  "set (removedExports f) = (\<Union>l \<in> set (df_removedLines f). exports_of l) - (\<Union>l \<in> set (df_addedLines f). exports_of l)"
  by (auto simp: removedExports_def Let_def set_extract)

lemma removedExports_sorted: "sorted (removedExports f)"
  unfolding removedExports_def Let_def by (rule sorted_wrt_sort_by) auto

text \<open>Moving lines around removes no export.\<close>

lemma removedExports_moved:
  "set (df_removedLines f) \<subseteq> set (df_addedLines f) \<Longrightarrow> removedExports f = []"
  unfolding set_empty [symmetric] removedExports_spec by blast

lemma keys_dependency_entries: "distinct (map fst (dependency_entries ls))"
proof -
  have "distinct (map fst (foldl (\<lambda>es l.
     case rx_exec noflags DEPENDENCY_LINE l of
       None \<Rightarrow> es
     | Some m \<Rightarrow> (case (group m 1, group m 2) of
           (Some k, Some v) \<Rightarrow> (if rx_test flag_i DEPENDENCY_VALUE v then AList.update k v es else es)
         | _ \<Rightarrow> es)) es ls))" if "distinct (map fst es)" for es :: "(string \<times> string) list"
    using that
    by (induction ls arbitrary: es) (auto simp: distinct_update split: option.splits)
  then show ?thesis by (simp add: dependency_entries_def)
qed

lemma set_dependencyChanges:
  assumes "ends_with ''package.json'' (df_path f)"
  shows "set (dependencyChanges lc f) =
    (\<Union>e \<in> set (dependency_entries (df_addedLines f)). set (changed_entry (dependency_entries (df_removedLines f)) e)) \<union>
    (\<Union>e \<in> set (dependency_entries (df_removedLines f)). set (removed_entry (dependency_entries (df_addedLines f)) e))"
  using assms by (simp add: dependencyChanges_def Let_def)

lemma changed_entry_fields:
  "c \<in> set (changed_entry before e) \<Longrightarrow> dc_name c = fst e \<and> dc_from c = map_of before (fst e)
    \<and> dc_to c = Some (snd e) \<and> dc_from c \<noteq> dc_to c \<and> dc_kind c \<noteq> DepRemoved
    \<and> (dc_kind c = DepAdded \<longleftrightarrow> dc_from c = None) \<and> (dc_kind c = DepDowngraded \<longrightarrow> dc_major c)"
  by (auto simp: changed_entry_def Let_def split: if_splits)

lemma removed_entry_fields:
  "c \<in> set (removed_entry after e) \<Longrightarrow> dc_name c = fst e \<and> dc_from c = Some (snd e)
    \<and> dc_to c = None \<and> map_of after (fst e) = None \<and> dc_kind c = DepRemoved"
  by (auto simp: removed_entry_def split: if_splits)

lemma changed_entry_name:
  "map_of before (fst e) \<noteq> Some (snd e) \<Longrightarrow> fst e \<in> dc_name ` set (changed_entry before e)"
  by (simp add: changed_entry_def Let_def)

lemma removed_entry_name:
  "map_of after (fst e) = None \<Longrightarrow> fst e \<in> dc_name ` set (removed_entry after e)"
  by (simp add: removed_entry_def)

lemma dependencyChanges_entry:
  assumes "c \<in> set (dependencyChanges lc f)"
  shows "dc_from c = map_of (dependency_entries (df_removedLines f)) (dc_name c)
   \<and> dc_to c = map_of (dependency_entries (df_addedLines f)) (dc_name c) \<and> dc_from c \<noteq> dc_to c
   \<and> (dc_kind c = DepAdded \<longleftrightarrow> dc_from c = None) \<and> (dc_kind c = DepRemoved \<longleftrightarrow> dc_to c = None)
   \<and> (dc_kind c = DepDowngraded \<longrightarrow> dc_major c)"
proof -
  have pj: "ends_with ''package.json'' (df_path f)"
    using assms by (auto simp: dependencyChanges_def split: if_splits)
  consider e where "e \<in> set (dependency_entries (df_addedLines f))"
      "c \<in> set (changed_entry (dependency_entries (df_removedLines f)) e)"
    | e where "e \<in> set (dependency_entries (df_removedLines f))"
      "c \<in> set (removed_entry (dependency_entries (df_addedLines f)) e)"
    using assms set_dependencyChanges [OF pj] by blast
  then show ?thesis
  proof cases
    case 1
    from map_of_is_SomeI [OF keys_dependency_entries, of "fst e" "snd e"] 1(1) changed_entry_fields [OF 1(2)]
    show ?thesis by auto
  next
    case 2
    from map_of_is_SomeI [OF keys_dependency_entries, of "fst e" "snd e"] 2(1) removed_entry_fields [OF 2(2)]
    show ?thesis by auto
  qed
qed

lemma dependencyChanges_names:
  assumes pj: "ends_with ''package.json'' (df_path f)"
  shows "n \<in> dc_name ` set (dependencyChanges lc f) \<longleftrightarrow>
    map_of (dependency_entries (df_removedLines f)) n \<noteq> map_of (dependency_entries (df_addedLines f)) n"
    (is "?l \<longleftrightarrow> map_of ?before n \<noteq> map_of ?after n")
proof
  assume ?l
  then show "map_of ?before n \<noteq> map_of ?after n" by (auto dest: dependencyChanges_entry)
next
  assume ne: "map_of ?before n \<noteq> map_of ?after n"
  show ?l
  proof (cases "map_of ?after n")
    case None
    with ne obtain v where v: "map_of ?before n = Some v" by auto
    have "n \<in> dc_name ` set (removed_entry ?after (n, v))"
      using removed_entry_name [of ?after "(n, v)"] None by simp
    then show ?thesis unfolding set_dependencyChanges [OF pj] using map_of_SomeD [OF v] by blast
  next
    case (Some v)
    then have "n \<in> dc_name ` set (changed_entry ?before (n, v))"
      using changed_entry_name [of ?before "(n, v)"] ne by simp
    then show ?thesis unfolding set_dependencyChanges [OF pj] using map_of_SomeD [OF Some] by blast
  qed
qed

lemma dependencyChanges_elsewhere:
  "\<not> ends_with ''package.json'' (df_path f) \<Longrightarrow> dependencyChanges lc f = []"
  by (simp add: dependencyChanges_def)

end
