(* ===== verification/Checks.thy ===== *)
theory Checks
  imports Glob Detect Review
begin

text \<open>
  \<open>tooling/loop/src/checks/\<close>: the deterministic checks, each a function from a diff to its
  findings, and their sum \<open>runDeterministicChecks\<close>.

  A loop that pushes findings is the concatenation of the findings of each turn.  Most checks
  look at one file at a time; the locale \<open>per_file_check\<close> states that contract and what follows
  from it, and is interpreted for each of them.
\<close>

definition mk_finding :: "severity \<Rightarrow> string option \<Rightarrow> string \<Rightarrow> string \<Rightarrow> string \<Rightarrow> string \<Rightarrow> finding" where
  "mk_finding sev file desc action source category =
     \<lparr>f_severity = sev, f_file = file, f_line = None, f_description = desc, f_action = action,
      f_source = source, f_category = category\<rparr>"

definition tick :: "string \<Rightarrow> string" where "tick s = ''`'' @ s @ ''`''"

subsection \<open>Secrets\<close>

definition SECRET_PATTERNS :: "(string \<times> rflags \<times> rx) list" where
  \<open>SECRET_PATTERNS =
    [(''private key block'', noflags, re ''-----BEGIN (?:RSA |EC |DSA |OPENSSH |PGP )?PRIVATE KEY-----''),
     (''GitHub personal access token'', noflags, re ''%bghp_[A-Za-z0-9]{36}%b''),
     (''GitHub fine-grained token'', noflags, re ''%bgithub_pat_[A-Za-z0-9_]{22,}''),
     (''GitHub App token'', noflags, re ''%bgh[sour]_[A-Za-z0-9]{36}%b''),
     (''AWS access key id'', noflags, re ''%bAKIA[0-9A-Z]{16}%b''),
     (''Anthropic API key'', noflags, re ''%bsk-ant-[A-Za-z0-9_-]{20,}''),
     (''OpenAI API key'', noflags, re ''%bsk-[A-Za-z0-9]{32,}%b''),
     (''Slack token'', noflags, re ''%bxox[baprs]-[A-Za-z0-9-]{10,}''),
     (''Google API key'', noflags, re ''%bAIza[0-9A-Za-z_-]{35}%b''),
     (''long quoted credential literal'', flag_i,
      re ''(?:secret|token|password|passwd|api[_-]?key|access[_-]?key|private[_-]?key)%s*[:=]%s*["'][A-Za-z0-9+/=_-]{32,}["']'')]\<close>

definition secret_finding :: "string \<Rightarrow> string \<Rightarrow> finding" where
  "secret_finding path name = mk_finding SCritical (Some path)
     (''Possible '' @ name @ '' added in '' @ path @ ''.'')
     ''Remove the value, rotate the credential if it is real, and move it to a secret store.''
     ''check:secrets'' ''security''"

definition pattern_hits :: "string \<Rightarrow> string \<times> rflags \<times> rx \<Rightarrow> bool" where
  "pattern_hits l p \<longleftrightarrow> rx_test (fst (snd p)) (snd (snd p)) l"

definition secrets_of_file :: "diff_file \<Rightarrow> finding list" where
  "secrets_of_file f = concat (map (\<lambda>l. case List.find (pattern_hits l) SECRET_PATTERNS of
       Some p \<Rightarrow> [secret_finding (df_path f) (fst p)]
     | None \<Rightarrow> []) (df_addedLines f))"

definition checkSecrets :: "pull_request_diff \<Rightarrow> finding list" where
  "checkSecrets d = concat (map secrets_of_file (diff_files d))"

subsection \<open>Client safety\<close>

definition CLIENT_SAFE_GLOBS :: "string list" where
  "CLIENT_SAFE_GLOBS = [''packages/api-contract/src/**'', ''packages/api-client/src/**'', ''packages/ui/src/**'']"

definition FORBIDDEN_SPECIFIERS :: "rx list" where
  "FORBIDDEN_SPECIFIERS =
    [re ''^node:'', re ''^bun:'', re ''^bun$'', re ''^drizzle-orm'', re ''^postgres$'', re ''^ioredis$'',
     re ''^bullmq$'', re ''^pino'', re ''^elysia'', re ''^jose$'', re ''^@orpc%/server'',
     re ''^@newsdeck%/(db|auth|logger|jobs|loop)$'']"

definition IMPORT_LINE :: rx where
  \<open>IMPORT_LINE = re ''(?:^|%s)(?:import|export)%b[^'"]*from%s+['"]([^'"]+)['"]''\<close>

definition client_safety_of_file :: "diff_file \<Rightarrow> finding list" where
  "client_safety_of_file f =
     (if \<not> matchesAnyGlob CLIENT_SAFE_GLOBS (df_path f) then []
      else concat (map (\<lambda>l. case exec_group noflags IMPORT_LINE 1 l of
          None \<Rightarrow> []
        | Some spec \<Rightarrow>
            (if \<not> list_ex (\<lambda>p. rx_test noflags p spec) FORBIDDEN_SPECIFIERS then []
             else [mk_finding SHigh (Some (df_path f))
                (df_path f @ '' imports '' @ tick spec @ '', which is server-only, into a client-safe package.'')
                (''Remove the import. Relaxing the client-safe boundary is an architectural decision, not an implementation detail '' @ emdash @ '' see AGENTS.md section 4.'')
                ''check:client-safety'' ''architecture''])) (df_addedLines f)))"

definition checkClientSafety :: "pull_request_diff \<Rightarrow> finding list" where
  "checkClientSafety d = concat (map client_safety_of_file (diff_files d))"

subsection \<open>Migrations\<close>

definition MIGRATION_GLOBS :: "string list" where
  "MIGRATION_GLOBS = [''packages/db/drizzle/**/*.sql'']"

definition SCHEMA_GLOBS :: "string list" where
  "SCHEMA_GLOBS = [''packages/db/src/schema/**'']"

definition destructive_of_file :: "diff_file \<Rightarrow> finding list" where
  "destructive_of_file f =
     (if \<not> matchesAnyGlob MIGRATION_GLOBS (df_path f) then []
      else map (\<lambda>s. mk_finding SHigh (Some (df_path f)) (''Destructive migration statement: '' @ ds_line s)
             ''Confirm the data loss is intended and reversible, and have a human approve this change.''
             ''check:migrations'' ''migration'') (findDestructiveSql (df_addedLines f)))"

definition missing_migration :: "pull_request_diff \<Rightarrow> bool" where
  "missing_migration d \<longleftrightarrow>
     list_ex (\<lambda>f. matchesAnyGlob SCHEMA_GLOBS (df_path f)) (diff_files d)
   \<and> \<not> list_ex (\<lambda>f. matchesAnyGlob MIGRATION_GLOBS (df_path f) \<and> df_status f = FAdded) (diff_files d)"

definition checkMigrations :: "pull_request_diff \<Rightarrow> finding list" where
  "checkMigrations d = concat (map destructive_of_file (diff_files d)) @
     (if missing_migration d
      then [mk_finding SHigh None
        ''The Drizzle schema changed but no new migration was added under packages/db/drizzle/.''
        ''Run `bun run db:generate` and commit the generated SQL.'' ''check:migrations'' ''migration'']
      else [])"

subsection \<open>Dependencies\<close>

definition dependency_findings :: "diff_file \<Rightarrow> dependency_change \<Rightarrow> finding list" where
  "dependency_findings f c =
     (if dc_kind c = DepAdded
      then [mk_finding SMedium (Some (df_path f))
        (''New dependency '' @ tick (dc_name c @ ''@'' @ the (dc_to c)) @ '' added in '' @ df_path f @ ''.'')
        ''State the concrete reason for the dependency in the pull request, per AGENTS.md section 5.''
        ''check:dependencies'' ''dependencies''] else []) @
     (if dc_major c \<and> dc_kind c = DepUpgraded
      then [mk_finding SHigh (Some (df_path f))
        (''Major upgrade of '' @ tick (dc_name c) @ '': '' @ the (dc_from c) @ '' to '' @ the (dc_to c) @ ''.'')
        ''Major upgrades need a human. Confirm the changelog and that the full verification suite passes.''
        ''check:dependencies'' ''dependencies''] else [])"

definition dependencies_of_file :: "(string \<Rightarrow> string \<Rightarrow> bool) \<Rightarrow> diff_file \<Rightarrow> finding list" where
  "dependencies_of_file lc f = concat (map (dependency_findings f) (dependencyChanges lc f))"

definition checkDependencies :: "(string \<Rightarrow> string \<Rightarrow> bool) \<Rightarrow> pull_request_diff \<Rightarrow> finding list" where
  "checkDependencies lc d = concat (map (dependencies_of_file lc) (diff_files d))"

subsection \<open>Debug artefacts\<close>

definition CODE_FILE :: rx where
  "CODE_FILE = re ''%.(?:[cm]?[jt]sx?|vue|svelte|astro)$''"

definition isCodeFile :: "string \<Rightarrow> bool" where
  "isCodeFile path = rx_test noflags CODE_FILE path"

definition ARTIFACTS :: "(string \<times> rx \<times> severity) list" where
  "ARTIFACTS =
    [(''debugger statement'', re ''(^|[^%w.])debugger%s*;?%s*$'', SHigh),
     (''focused test'', re ''%b(?:describe|it|test)%.only%s*%('', SHigh),
     (''unconditionally skipped test'', re ''%b(?:describe|it|test)%.skip%s*%('', SMedium),
     (''commented-out FIXME'', re ''%/%/%s*FIXME%b'', SMedium)]"

definition artifacts_of_file :: "diff_file \<Rightarrow> finding list" where
  "artifacts_of_file f =
     (if \<not> isCodeFile (df_path f) then []
      else concat (map (\<lambda>(name, pattern, sev).
        if \<not> list_ex (rx_test noflags pattern) (df_addedLines f) then []
        else [mk_finding sev (Some (df_path f)) (name @ '' added in '' @ df_path f @ ''.'')
                ''Remove it before merging.'' ''check:debug-artifacts'' ''hygiene'']) ARTIFACTS))"

definition checkDebugArtifacts :: "pull_request_diff \<Rightarrow> finding list" where
  "checkDebugArtifacts d = concat (map artifacts_of_file (diff_files d))"

subsection \<open>Test coverage\<close>

definition SOURCE_GLOBS :: "string list" where
  "SOURCE_GLOBS = [''apps/*/src/**'', ''packages/*/src/**'', ''tooling/*/src/**'']"

definition TEST_GLOBS :: "string list" where
  "TEST_GLOBS = [''**/test/**'', ''**/*.test.ts'', ''**/*.test.tsx'', ''e2e/**'']"

definition NON_BEHAVIOURAL :: rx where
  "NON_BEHAVIOURAL = re ''%.(css|json|md|txt|svg|png|jpg|ico)$''"

definition changed_source :: "diff_file \<Rightarrow> bool" where
  "changed_source f \<longleftrightarrow> matchesAnyGlob SOURCE_GLOBS (df_path f)
     \<and> \<not> rx_test noflags NON_BEHAVIOURAL (df_path f) \<and> length (df_addedLines f) > 0"

definition checkTestCoverage :: "pull_request_diff \<Rightarrow> finding list" where
  "checkTestCoverage d =
     (case filter changed_source (diff_files d) of
        [] \<Rightarrow> []
      | s # ss \<Rightarrow>
          (if filter (\<lambda>f. matchesAnyGlob TEST_GLOBS (df_path f)) (diff_files d) \<noteq> [] then []
           else [mk_finding SMedium (Some (df_path s))
             (dec (length (s # ss)) @ '' source file(s) changed but no test file changed.'')
             ''Add or update a test that fails without this change, or say in the pull request why none is needed.''
             ''check:tests'' ''testing'']))"

subsection \<open>Test integrity\<close>

definition VACUOUS_ASSERTION :: rx where
  \<open>VACUOUS_ASSERTION = re ''expect%(%s*(?:true|1|'[^']*'|"[^"]*"|%[%s*%]|%{%s*%})%s*%)%s*%.%s*(?:toBe|toEqual|toBeTruthy|toBeDefined)''\<close>

definition SKIP_MARKER :: rx where
  "SKIP_MARKER = re ''%b(?:describe|test|it)%s*%.%s*(?:skip|todo|failing)%b''"

definition ONLY_MARKER :: rx where
  "ONLY_MARKER = re ''%b(?:describe|test|it)%s*%.%s*only%b''"

definition BROAD_SUPPRESSION :: "(rx \<times> string) list" where
  "BROAD_SUPPRESSION =
    [(re ''@ts-nocheck'', ''`@ts-nocheck` disables type checking for an entire file.''),
     (re ''biome-ignore-all|biome-ignore%s+lint%s*:'',
      ''A file-wide lint suppression hides every instance of the rule, not the one in hand.''),
     (re ''eslint-disable(?!-next-line)'',
      ''A file-wide `eslint-disable` hides every instance of the rule.'')]"

definition BARE_TS_SUPPRESSION :: rx where
  "BARE_TS_SUPPRESSION = re ''@ts-(?:expect-error|ignore)%s*$''"

definition integrity_finding :: "diff_file \<Rightarrow> severity \<Rightarrow> string \<Rightarrow> string \<Rightarrow> finding" where
  "integrity_finding f sev desc action =
     mk_finding sev (Some (df_path f)) desc action ''check:test-integrity'' ''testing''"

definition hits :: "rx \<Rightarrow> string list \<Rightarrow> string list" where
  "hits r ls = filter (rx_test noflags r) ls"

definition inspectTestFile :: "diff_file \<Rightarrow> finding list" where
  "inspectTestFile f =
     (let addedSkips = length (hits SKIP_MARKER (df_addedLines f));
          removedSkips = length (hits SKIP_MARKER (df_removedLines f))
      in if addedSkips > removedSkips
         then [integrity_finding f SHigh
           (dec (addedSkips - removedSkips) @ '' test(s) were skipped, marked todo, or marked failing.'')
           ''Make the test pass instead. If it is genuinely obsolete, delete it in an issue that says so.'']
         else []) @
     (if list_ex (rx_test noflags ONLY_MARKER) (df_addedLines f)
      then [integrity_finding f SHigh
        ''A `.only` marker was added, which silently stops every other test in the file from running.''
        (''Remove it '' @ emdash @ '' it is a local debugging aid, not something to commit.'')]
      else []) @
     (case hits VACUOUS_ASSERTION (df_addedLines f) of
        [] \<Rightarrow> []
      | v # vs \<Rightarrow> [integrity_finding f SHigh
          (dec (length (v # vs)) @ '' assertion(s) were added that cannot fail, e.g. '' @ tick (take 120 (trim v)) @ ''.'')
          ''Assert the actual behaviour. An assertion that always passes is worse than no test: it reports coverage it does not have.'']) @
     (let removed = length (df_removedLines f); added = length (df_addedLines f)
      in if removed > 20 \<and> removed > added * 3
         then [integrity_finding f SMedium
           (''This test file lost '' @ dec removed @ '' lines and gained '' @ dec added @ '', a substantial net reduction in coverage.'')
           ''Confirm the removed cases are genuinely obsolete rather than inconvenient.'']
         else [])"

definition inspectSuppressions :: "diff_file \<Rightarrow> finding list" where
  "inspectSuppressions f =
     concat (map (\<lambda>(pattern, detail).
       if length (hits pattern (df_addedLines f)) \<le> length (hits pattern (df_removedLines f)) then []
       else [integrity_finding f SHigh (''A broad suppression was added. '' @ detail)
         ''Fix the underlying problem, or narrow the suppression to the single line and explain it.''])
       BROAD_SUPPRESSION) @
     (case hits BARE_TS_SUPPRESSION (df_addedLines f) of
        [] \<Rightarrow> []
      | bare \<Rightarrow> [integrity_finding f SMedium
          (dec (length bare) @ '' type suppression(s) were added with no explanation.'')
          ''Add a reason after the directive, or fix the type error. An unexplained suppression is indistinguishable from giving up.''])"

definition integrity_of_file :: "diff_file \<Rightarrow> finding list" where
  "integrity_of_file f =
     (if \<not> isCodeFile (df_path f) then []
      else let isTest = matchesAnyGlob TEST_GLOBS (df_path f)
           in if isTest \<and> df_status f = FRemoved
              then [integrity_finding f SHigh ''A test file was deleted.''
                ''Restore it, or state in the issue why the behaviour it covered no longer needs a test.'']
              else (if isTest then inspectTestFile f else []) @ inspectSuppressions f)"

definition checkTestIntegrity :: "pull_request_diff \<Rightarrow> finding list" where
  "checkTestIntegrity d = concat (map integrity_of_file (diff_files d))"

subsection \<open>All checks\<close>

definition runDeterministicChecks :: "(string \<Rightarrow> string \<Rightarrow> bool) \<Rightarrow> pull_request_diff \<Rightarrow> finding list" where
  "runDeterministicChecks lc d = checkSecrets d @ checkClientSafety d @ checkMigrations d
     @ checkDependencies lc d @ checkDebugArtifacts d @ checkTestCoverage d @ checkTestIntegrity d"

subsection \<open>Checks that read one file at a time\<close>

text \<open>
  The contract: the findings of a diff are those of its files in order, and a finding of a file
  names that file.
\<close>

locale per_file_check =
  fixes check :: "pull_request_diff \<Rightarrow> finding list"
    and one :: "diff_file \<Rightarrow> finding list"
  assumes by_file: "check d = concat (map one (diff_files d))"
    and names_file: "x \<in> set (one f) \<Longrightarrow> f_file x = Some (df_path f)"
begin

lemma check_files: "x \<in> set (check d) \<longleftrightarrow> (\<exists>f \<in> set (diff_files d). x \<in> set (one f))"
  by (auto simp: by_file)

lemma reported_file: "x \<in> set (check d) \<Longrightarrow> \<exists>f \<in> set (diff_files d). f_file x = Some (df_path f)"
  using names_file by (auto simp: check_files)

lemma more_files: "set (diff_files d) \<subseteq> set (diff_files d') \<Longrightarrow> set (check d) \<subseteq> set (check d')"
  unfolding subset_iff check_files by blast

lemma empty_diff: "diff_files d = [] \<Longrightarrow> check d = []"
  by (simp add: by_file)

lemma append_files:
  "diff_files d = diff_files d1 @ diff_files d2 \<Longrightarrow> check d = check d1 @ check d2"
  by (simp add: by_file)

end

lemma f_file_mk [simp]: "f_file (mk_finding sv file ds ac so ca) = file"
  "f_severity (mk_finding sv file ds ac so ca) = sv" "f_description (mk_finding sv file ds ac so ca) = ds"
  "f_source (mk_finding sv file ds ac so ca) = so"
  by (simp_all add: mk_finding_def)

interpretation secrets: per_file_check checkSecrets secrets_of_file
  by unfold_locales
    (auto simp: checkSecrets_def secrets_of_file_def secret_finding_def split: option.splits)

interpretation client: per_file_check checkClientSafety client_safety_of_file
  by unfold_locales
    (auto simp: checkClientSafety_def client_safety_of_file_def split: option.splits if_splits)

interpretation deps: per_file_check "checkDependencies lc" "dependencies_of_file lc" for lc
  by unfold_locales
    (auto simp: checkDependencies_def dependencies_of_file_def dependency_findings_def split: if_splits)

interpretation debug: per_file_check checkDebugArtifacts artifacts_of_file
  by unfold_locales
    (auto simp: checkDebugArtifacts_def artifacts_of_file_def split: if_splits)

lemma f_file_integrity [simp]: "f_file (integrity_finding f sv ds ac) = Some (df_path f)"
  by (simp add: integrity_finding_def)

interpretation integrity: per_file_check checkTestIntegrity integrity_of_file
  by unfold_locales
    (auto simp: checkTestIntegrity_def integrity_of_file_def inspectTestFile_def inspectSuppressions_def
      Let_def split: if_splits list.splits)

subsection \<open>What each check reports\<close>

lemma secrets_complete:
  assumes "f \<in> set (diff_files d)" and "l \<in> set (df_addedLines f)" and "list_ex (pattern_hits l) SECRET_PATTERNS"
  shows "\<exists>x \<in> set (checkSecrets d). f_severity x = SCritical \<and> f_file x = Some (df_path f)"
proof -
  obtain p where p: "List.find (pattern_hits l) SECRET_PATTERNS = Some p"
    using assms(3) by (cases "List.find (pattern_hits l) SECRET_PATTERNS") (auto simp: find_None_all list_ex_iff)
  then have "secret_finding (df_path f) (fst p) \<in> set (secrets_of_file f)"
    using assms(2) by (cases p) (auto simp: secrets_of_file_def intro!: bexI [of _ l])
  then show ?thesis
    using assms(1) by (intro bexI [of _ "secret_finding (df_path f) (fst p)"])
      (auto simp: secrets.check_files secret_finding_def)
qed

text \<open>A finding never depends on the matched text, only on the path and the kind of credential.\<close>

lemma secrets_sound:
  "x \<in> set (checkSecrets d) \<Longrightarrow>
    \<exists>f \<in> set (diff_files d). \<exists>p \<in> set SECRET_PATTERNS. \<exists>l \<in> set (df_addedLines f).
      pattern_hits l p \<and> x = secret_finding (df_path f) (fst p)"
  by (fastforce simp: secrets.check_files secrets_of_file_def split: option.splits dest!: find_Some_mem [OF sym])

lemma findings_in_all:
  "set (checkSecrets d) \<subseteq> set (runDeterministicChecks lc d)"
  "set (checkClientSafety d) \<subseteq> set (runDeterministicChecks lc d)"
  "set (checkMigrations d) \<subseteq> set (runDeterministicChecks lc d)"
  "set (checkTestIntegrity d) \<subseteq> set (runDeterministicChecks lc d)"
  by (auto simp: runDeterministicChecks_def)

lemma migration_required:
  "missing_migration d \<Longrightarrow> \<exists>x \<in> set (checkMigrations d). f_severity x = SHigh \<and> f_file x = None"
  by (auto simp: checkMigrations_def)

lemma removed_test_reported:
  assumes "f \<in> set (diff_files d)" "isCodeFile (df_path f)" "matchesAnyGlob TEST_GLOBS (df_path f)"
    "df_status f = FRemoved"
  shows "\<exists>x \<in> set (checkTestIntegrity d). f_severity x = SHigh \<and> f_file x = Some (df_path f)"
  using assms by (intro bexI [of _ "integrity_finding f SHigh ''A test file was deleted.''
      ''Restore it, or state in the issue why the behaviour it covered no longer needs a test.''"])
    (auto simp: integrity.check_files integrity_of_file_def integrity_finding_def)

lemma deterministic_empty: "diff_files d = [] \<Longrightarrow> runDeterministicChecks lc d = []"
  by (simp add: runDeterministicChecks_def secrets.empty_diff client.empty_diff deps.empty_diff
      debug.empty_diff integrity.empty_diff checkMigrations_def missing_migration_def checkTestCoverage_def)

end
