(* ===== verification/MergeGate.thy ===== *)
theory MergeGate
  imports Aggregate Checks
begin

text \<open>
  \<open>tooling/loop/src/merge-gate.ts\<close>: the decision about a pull request.  \<open>decideMerge\<close> returns at
  the first stop that applies, in the order of the code; the reasons collected before the first
  stop are \<open>base_reasons\<close>, and each stop puts its own in front.
\<close>

subsection \<open>Inputs and outcome\<close>

datatype gate_decision = AutoMerge | HumanApprovalRequired | ChangesRequested | DecBlocked | Waiting

datatype check_conclusion = CSuccess | CFailure | CPending | CSkipped | CNeutral | CCancelled
  | CTimedOut | CMissing

record check_state =
  ck_name :: string
  ck_conclusion :: check_conclusion

record tier_verification =
  tv_ok :: bool
  tv_unavailable :: "string list"
  tv_failed :: "string list"

record gate_input =
  g_risk :: risk_level
  g_reviews :: "review_result list"
  g_requiredReviewers :: nat
  g_checks :: "check_state list"
  g_requiredChecks :: "string list"
  g_reviewAttempts :: nat
  g_maxReviewAttempts :: nat
  g_humanApprovals :: nat
  g_isFork :: bool
  g_isDraft :: bool
  g_blockingSeverity :: severity
  g_weakened :: "finding list option"
  g_humanHold :: "bool option"
  g_tier :: "tier_verification option"

datatype gate_result = GateSuccess | GateFailure

record gate_outcome =
  o_decision :: gate_decision
  o_reasons :: "string list"
  o_riskGate :: gate_result
  o_reviewGate :: gate_result
  o_shouldDispatchFix :: bool
  o_review :: review_result

definition HUMAN_HOLD_LABEL :: string where "HUMAN_HOLD_LABEL = ''needs:human''"

definition SELF_PUBLISHED_CHECKS :: "string list" where
  "SELF_PUBLISHED_CHECKS = [''loop/risk-gate'', ''loop/review-gate'']"

definition withoutSelfPublishedChecks :: "string list \<Rightarrow> string list" where
  "withoutSelfPublishedChecks names = filter (\<lambda>n. n \<notin> set SELF_PUBLISHED_CHECKS) names"

definition PENDING :: "check_conclusion list" where "PENDING = [CPending, CMissing]"

subsection \<open>The decision\<close>

definition required_state :: "gate_input \<Rightarrow> string \<Rightarrow> check_state" where
  "required_state g name =
     (case List.find (\<lambda>c. ck_name c = name) (g_checks g) of
        Some observed \<Rightarrow> observed
      | None \<Rightarrow> \<lparr>ck_name = name, ck_conclusion = CMissing\<rparr>)"

definition requiredCheckStates :: "gate_input \<Rightarrow> check_state list" where
  "requiredCheckStates g = map (required_state g) (withoutSelfPublishedChecks (g_requiredChecks g))"

definition failing_check :: "check_state \<Rightarrow> bool" where
  "failing_check c \<longleftrightarrow> ck_conclusion c = CFailure \<or> ck_conclusion c = CTimedOut \<or> ck_conclusion c = CCancelled"

definition gate_aggregate :: "gate_input \<Rightarrow> aggregate_outcome" where
  "gate_aggregate g = aggregateReviews (g_reviews g) (g_requiredReviewers g) (g_blockingSeverity g)"

definition weakened :: "gate_input \<Rightarrow> finding list" where
  "weakened g = (case g_weakened g of Some fs \<Rightarrow> fs | None \<Rightarrow> [])"

definition tier_unavailable :: "gate_input \<Rightarrow> string list" where
  "tier_unavailable g = (case g_tier g of Some t \<Rightarrow> tv_unavailable t | None \<Rightarrow> [])"

definition tier_failed :: "gate_input \<Rightarrow> string list" where
  "tier_failed g = (case g_tier g of Some t \<Rightarrow> tv_failed t | None \<Rightarrow> [])"

definition tier_ok :: "gate_input \<Rightarrow> bool" where
  "tier_ok g = (case g_tier g of Some t \<Rightarrow> tv_ok t | None \<Rightarrow> True)"

definition review_gate :: "gate_input \<Rightarrow> gate_result" where
  "review_gate g = (if ag_status (gate_aggregate g) = Approve then GateSuccess else GateFailure)"

definition risk_gate :: "gate_input \<Rightarrow> gate_result" where
  "risk_gate g = (if g_isFork g \<or> length (weakened g) > 0 \<or> \<not> tier_ok g then GateFailure else GateSuccess)"

definition base_reasons :: "gate_input \<Rightarrow> string list" where
  "base_reasons g =
     (if review_gate g = GateFailure then ag_reasons (gate_aggregate g) else []) @
     (if g_isFork g then [''pull request originates from a fork''] else []) @
     (if length (weakened g) > 0
      then [dec (length (weakened g)) @ '' control-plane protection(s) would be weakened: ''
        @ join ''; '' (map f_description (weakened g))] else []) @
     (if length (tier_failed g) > 0
      then [tick (risk_text (g_risk g)) @ '' tier verification failed: '' @ join '', '' (tier_failed g)] else []) @
     (if length (tier_unavailable g) > 0
      then [tick (risk_text (g_risk g)) @ '' tier verification could not run: '' @ join '', '' (tier_unavailable g)
        @ ''. An unrunnable check is not a passing one.''] else [])"

definition decideMerge :: "gate_input \<Rightarrow> gate_outcome" where
  "decideMerge g =
     (let required = requiredCheckStates g;
          failing = filter failing_check required;
          pending = filter (\<lambda>c. ck_conclusion c \<in> set PENDING) required;
          aggregate = gate_aggregate g;
          outcome = (\<lambda>decision extra dispatch.
            \<lparr>o_decision = decision, o_reasons = extra @ base_reasons g, o_riskGate = risk_gate g,
             o_reviewGate = review_gate g, o_shouldDispatchFix = dispatch,
             o_review = \<lparr>r_status = ag_status aggregate, r_findings = ag_findings aggregate,
                         r_summary = ag_summary aggregate\<rparr>\<rparr>);
          needsWork = review_gate g = GateFailure \<or> length failing > 0 \<or> length (tier_failed g) > 0
      in if g_isDraft g then outcome Waiting [''pull request is a draft''] False
         else if g_humanHold g = Some True then
           outcome HumanApprovalRequired [''a person applied '' @ tick HUMAN_HOLD_LABEL] False
         else if g_isFork g then
           outcome HumanApprovalRequired [''fork pull requests are never merged automatically''] False
         else if length (weakened g) > 0 \<and> g_humanApprovals g = 0 then
           outcome HumanApprovalRequired [''this change weakens the loop'' @ rsquo @ ''s own protections''] False
         else if ag_status aggregate = Blocked then
           outcome DecBlocked [''independent review could not reach a usable verdict''] False
         else if needsWork \<and> g_reviewAttempts g \<ge> g_maxReviewAttempts g then
           outcome DecBlocked [''retry limit reached: '' @ dec (g_reviewAttempts g) @ '' of ''
             @ dec (g_maxReviewAttempts g) @ '' review attempts used''] False
         else if length (tier_unavailable g) > 0 then
           outcome DecBlocked [''required verification could not be performed in this environment''] False
         else if length failing > 0 then
           outcome ChangesRequested [''required check(s) failing: '' @ join '', '' (map ck_name failing)] True
         else if length (tier_failed g) > 0 then outcome ChangesRequested [] True
         else if review_gate g = GateFailure then outcome ChangesRequested [] True
         else if length pending > 0 then
           outcome Waiting [''required check(s) not yet reported: '' @ join '', '' (map ck_name pending)] False
         else outcome AutoMerge [''all required checks passed, '' @ tick (risk_text (g_risk g))
             @ '' tier verification succeeded, and ''
             @ (if ag_received aggregate = 1 then ''the independent review approved''
                else ''all '' @ dec (ag_received aggregate) @ '' independent reviews approved'')] False)"

subsection \<open>Lemmas\<close>

text \<open>A required check is settled when it is among the observed ones and neither failed nor pending.\<close>

definition check_settled :: "gate_input \<Rightarrow> string \<Rightarrow> bool" where
  "check_settled g name \<longleftrightarrow>
     (case List.find (\<lambda>c. ck_name c = name) (g_checks g) of
        None \<Rightarrow> False
      | Some c \<Rightarrow> ck_conclusion c \<in> {CSuccess, CSkipped, CNeutral})"

lemma required_settled:
  "filter failing_check (requiredCheckStates g) = [] \<and>
   filter (\<lambda>c. ck_conclusion c \<in> set PENDING) (requiredCheckStates g) = [] \<longleftrightarrow>
   (\<forall>n \<in> set (withoutSelfPublishedChecks (g_requiredChecks g)). check_settled g n)"
proof -
  have concl: "c \<in> {CSuccess, CSkipped, CNeutral} \<longleftrightarrow>
      \<not> (c = CFailure \<or> c = CTimedOut \<or> c = CCancelled) \<and> c \<notin> set PENDING" for c
    by (cases c) (simp_all add: PENDING_def)
  have one: "check_settled g n \<longleftrightarrow>
      \<not> failing_check (required_state g n) \<and> ck_conclusion (required_state g n) \<notin> set PENDING" for n
    unfolding check_settled_def failing_check_def required_state_def concl
    by (cases "List.find (\<lambda>c. ck_name c = n) (g_checks g)") (simp_all add: PENDING_def)
  show ?thesis
    unfolding filter_empty_conv requiredCheckStates_def set_map ball_simps one by blast
qed

text \<open>The complete condition for an automatic merge.\<close>

definition mergeable :: "gate_input \<Rightarrow> bool" where
  "mergeable g \<longleftrightarrow> \<not> g_isDraft g \<and> g_humanHold g \<noteq> Some True \<and> \<not> g_isFork g
     \<and> (weakened g = [] \<or> g_humanApprovals g > 0)
     \<and> length (g_reviews g) \<ge> g_requiredReviewers g
     \<and> (\<forall>r \<in> set (g_reviews g). r_status r = Approve \<and> (\<forall>f \<in> set (r_findings r). f_severity f < g_blockingSeverity g))
     \<and> tier_unavailable g = [] \<and> tier_failed g = []
     \<and> (\<forall>n \<in> set (withoutSelfPublishedChecks (g_requiredChecks g)). check_settled g n)"

lemma review_gate_approve:
  "review_gate g = GateSuccess \<longleftrightarrow> g_requiredReviewers g \<le> length (g_reviews g) \<and>
    (\<forall>r \<in> set (g_reviews g). r_status r = Approve \<and> (\<forall>f \<in> set (r_findings r). f_severity f < g_blockingSeverity g))"
proof -
  have "r_status r = Approve \<longleftrightarrow> r_status r \<noteq> Blocked \<and> r_status r \<noteq> RequestChanges" for r
    by (cases "r_status r") auto
  then show ?thesis
    unfolding review_gate_def gate_aggregate_def aggregate_status
    by (auto simp: not_le not_less)
qed

lemma review_gate_cases: "review_gate g = GateFailure \<longleftrightarrow> review_gate g \<noteq> GateSuccess"
  by (cases "review_gate g") auto

lemma review_gate_not_blocked: "review_gate g = GateSuccess \<Longrightarrow> ag_status (gate_aggregate g) \<noteq> Blocked"
  by (auto simp: review_gate_def split: if_splits)

lemma decideMerge_decision:
  "o_decision (decideMerge g) =
    (let failing = filter failing_check (requiredCheckStates g);
         pending = filter (\<lambda>c. ck_conclusion c \<in> set PENDING) (requiredCheckStates g)
     in if g_isDraft g then Waiting
        else if g_humanHold g = Some True \<or> g_isFork g \<or> weakened g \<noteq> [] \<and> g_humanApprovals g = 0
        then HumanApprovalRequired
        else if ag_status (gate_aggregate g) = Blocked then DecBlocked
        else if (review_gate g = GateFailure \<or> failing \<noteq> [] \<or> tier_failed g \<noteq> [])
            \<and> g_reviewAttempts g \<ge> g_maxReviewAttempts g then DecBlocked
        else if tier_unavailable g \<noteq> [] then DecBlocked
        else if failing \<noteq> [] \<or> tier_failed g \<noteq> [] \<or> review_gate g = GateFailure then ChangesRequested
        else if pending \<noteq> [] then Waiting else AutoMerge)"
  by (simp add: decideMerge_def Let_def)

lemma decideMerge_gates:
  "o_riskGate (decideMerge g) = risk_gate g" "o_reviewGate (decideMerge g) = review_gate g"
  "r_status (o_review (decideMerge g)) = ag_status (gate_aggregate g)"
  "r_findings (o_review (decideMerge g)) = ag_findings (gate_aggregate g)"
  by (simp_all add: decideMerge_def Let_def)

lemma decideMerge_dispatch:
  "o_shouldDispatchFix (decideMerge g) \<longleftrightarrow> o_decision (decideMerge g) = ChangesRequested"
  by (simp add: decideMerge_def Let_def)

lemma decideMerge_auto: "o_decision (decideMerge g) = AutoMerge \<longleftrightarrow> mergeable g"
proof -
  have settled: "(\<forall>n \<in> set (withoutSelfPublishedChecks (g_requiredChecks g)). check_settled g n) \<longleftrightarrow>
      filter failing_check (requiredCheckStates g) = [] \<and>
      filter (\<lambda>c. ck_conclusion c \<in> set PENDING) (requiredCheckStates g) = []"
    using required_settled by simp
  have "o_decision (decideMerge g) = AutoMerge \<longleftrightarrow>
      \<not> g_isDraft g \<and> g_humanHold g \<noteq> Some True \<and> \<not> g_isFork g \<and> (weakened g = [] \<or> g_humanApprovals g > 0)
      \<and> review_gate g = GateSuccess \<and> tier_failed g = [] \<and> tier_unavailable g = []
      \<and> filter failing_check (requiredCheckStates g) = []
      \<and> filter (\<lambda>c. ck_conclusion c \<in> set PENDING) (requiredCheckStates g) = []"
    unfolding decideMerge_decision Let_def
    using review_gate_cases [of g] review_gate_not_blocked [of g] by (simp split: if_split) blast
  then show ?thesis
    unfolding mergeable_def settled review_gate_approve by (simp only: conj_ac)
qed

text \<open>Every decision says why.\<close>

lemma decideMerge_reasons: "o_reasons (decideMerge g) \<noteq> []"
proof -
  have review: "review_gate g = GateFailure \<Longrightarrow> base_reasons g \<noteq> []"
    by (simp add: base_reasons_def gate_aggregate_def aggregate_fields)
  have failed: "tier_failed g \<noteq> [] \<Longrightarrow> base_reasons g \<noteq> []"
    by (simp add: base_reasons_def)
  show ?thesis by (simp add: decideMerge_def Let_def review failed)
qed

text \<open>The fix loop is bounded: past the limit no round is dispatched.\<close>

lemma decideMerge_exhausted:
  "g_maxReviewAttempts g \<le> g_reviewAttempts g \<Longrightarrow> o_decision (decideMerge g) \<noteq> ChangesRequested"
  by (auto simp: decideMerge_decision Let_def)

text \<open>Adding findings of the control-plane comparison can only take an automatic merge away.\<close>

lemma mergeable_weakened:
  "mergeable g \<Longrightarrow> risk_gate g = GateFailure \<Longrightarrow> tier_ok g \<Longrightarrow> weakened g \<noteq> [] \<and> g_humanApprovals g > 0"
  by (auto simp: mergeable_def risk_gate_def split: if_splits)

end
