(* ===== verification/LoopState.thy ===== *)
theory LoopState
  imports MergeGate Json Complex_Main
begin

text \<open>
  \<open>tooling/loop/src/recurrence.ts\<close> and \<open>tooling/loop/src/state.ts\<close>: the compact record of a
  finding, the comparison of a round's findings with earlier rounds, and the loop state kept in
  the sticky comment.

  The quotient of \<open>overlapCoefficient\<close> is a rational; comparing it with one half gives the same
  answer as the floating-point quotient.  The zod schema \<open>LoopStateSchema\<close> is the parameter
  \<open>safe_parse\<close>; a parse error of \<open>JSON.parse\<close> and a rejected value both reset the state.
\<close>

subsection \<open>Recurring findings\<close>

record finding_record =
  fr_severity :: severity
  fr_file :: "string option"
  fr_description :: string
  fr_category :: string

definition MAX_RETAINED_FINDINGS :: nat where "MAX_RETAINED_FINDINGS = 10"

definition toFindingRecord :: "finding \<Rightarrow> finding_record" where
  "toFindingRecord f = \<lparr>fr_severity = f_severity f, fr_file = f_file f,
     fr_description = take 320 (f_description f), fr_category = f_category f\<rparr>"

definition STOPWORDS :: "string list" where
  "STOPWORDS = [''this'', ''that'', ''these'', ''those'', ''with'', ''from'', ''into'', ''across'', ''only'',
     ''never'', ''every'', ''each'', ''both'', ''their'', ''they'', ''them'', ''there'', ''here'', ''over'',
     ''under'', ''been'', ''were'', ''have'', ''does'', ''should'', ''would'', ''could'', ''also'', ''when'',
     ''which'', ''while'', ''still'', ''more'', ''most'', ''same'', ''other'', ''than'', ''then'', ''about'']"

definition significantTerms :: "string \<Rightarrow> string list" where
  "significantTerms text =
     set_of_list (filter (\<lambda>w. length w \<ge> 4 \<and> w \<notin> set STOPWORDS)
       (rx_split noflags (re ''%s+'')
         (rx_replace noflags (re ''[^a-z0-9%s]'') (\<lambda>_. '' '') (to_lower text))))"

definition overlapCoefficient :: "string list \<Rightarrow> string list \<Rightarrow> rat" where
  "overlapCoefficient a b =
     (if length a = 0 \<or> length b = 0 then 0
      else of_nat (length (filter (\<lambda>t. t \<in> set b) a)) / of_nat (min (length a) (length b)))"

definition SIMILARITY_THRESHOLD :: rat where "SIMILARITY_THRESHOLD = 1 / 2"

definition findingsMatch :: "finding_record \<Rightarrow> finding_record \<Rightarrow> bool" where
  "findingsMatch a b \<longleftrightarrow>
     \<not> (fr_file a \<noteq> None \<and> fr_file b \<noteq> None \<and> fr_file a \<noteq> fr_file b)
   \<and> overlapCoefficient (significantTerms (fr_description a)) (significantTerms (fr_description b))
       \<ge> SIMILARITY_THRESHOLD"

record occurrence =
  oc_attempt :: nat
  oc_headSha :: string

record recurring_finding =
  rf_finding :: finding
  rf_occurrences :: "occurrence list"

record history_entry =
  he_at :: string
  he_headSha :: string
  he_attempt :: nat
  he_reviewStatus :: review_status
  he_decision :: gate_decision
  he_findings :: "finding_record list"

definition occurrences_of :: "finding_record \<Rightarrow> history_entry list \<Rightarrow> (string \<times> occurrence) list" where
  "occurrences_of rec prior = foldl (\<lambda>m e.
     if map_of m (he_headSha e) \<noteq> None then m
     else if list_ex (findingsMatch rec) (he_findings e)
     then AList.update (he_headSha e) \<lparr>oc_attempt = he_attempt e, oc_headSha = he_headSha e\<rparr> m
     else m) [] prior"

definition detectRecurrence :: "finding list \<Rightarrow> history_entry list \<Rightarrow> string \<Rightarrow> recurring_finding list" where
  "detectRecurrence current history headSha =
     (let prior = filter (\<lambda>e. he_headSha e \<noteq> headSha \<and> length (he_findings e) > 0) history
      in concat (map (\<lambda>f.
           let occ = occurrences_of (toFindingRecord f) prior
           in if length occ > 0 then [\<lparr>rf_finding = f, rf_occurrences = map snd occ\<rparr>] else []) current))"

subsection \<open>The loop state\<close>

definition LOOP_STATE_MARKER :: string where
  "LOOP_STATE_MARKER = ''<!-- newsdeck-loop-state -->''"

record loop_state =
  ls_version :: nat
  ls_issue :: "nat option"
  ls_reviewAttempts :: nat
  ls_lastReviewStatus :: "review_status option"
  ls_lastDecision :: "gate_decision option"
  ls_history :: "history_entry list"

definition initialState :: "nat option \<Rightarrow> loop_state" where
  "initialState issue = \<lparr>ls_version = 1, ls_issue = issue, ls_reviewAttempts = 0,
     ls_lastReviewStatus = None, ls_lastDecision = None, ls_history = []\<rparr>"

definition STATE_BLOCK :: rx where
  "STATE_BLOCK = re ''<!--%s*newsdeck-loop-state%s*-->[%s%S]*?```json%s*%n([%s%S]*?)%n```''"

definition parseLoopState :: "(json \<Rightarrow> loop_state option) \<Rightarrow> string option \<Rightarrow> nat option \<Rightarrow> loop_state" where
  "parseLoopState safe_parse commentBody issue =
     (case commentBody of
        None \<Rightarrow> initialState issue
      | Some body \<Rightarrow>
          (case exec_group noflags STATE_BLOCK 1 body of
             None \<Rightarrow> initialState issue
           | Some raw \<Rightarrow>
               (case Option.bind (json_parse raw) safe_parse of
                  Some s \<Rightarrow> s
                | None \<Rightarrow> initialState issue)))"

fun decision_text :: "gate_decision \<Rightarrow> string" where
  "decision_text AutoMerge = ''auto_merge''"
| "decision_text HumanApprovalRequired = ''human_approval_required''"
| "decision_text ChangesRequested = ''changes_requested''"
| "decision_text DecBlocked = ''blocked''"
| "decision_text Waiting = ''waiting''"

text \<open>The JSON value of a state, with the members in the order of its construction.\<close>

definition json_opt :: "('a \<Rightarrow> json) \<Rightarrow> 'a option \<Rightarrow> json" where
  "json_opt f v = (case v of None \<Rightarrow> JNull | Some x \<Rightarrow> f x)"

definition record_json :: "finding_record \<Rightarrow> json" where
  "record_json r = JObj [(''severity'', JStr (severity_text (fr_severity r))), (''file'', json_opt JStr (fr_file r)),
     (''description'', JStr (fr_description r)), (''category'', JStr (fr_category r))]"

definition entry_json :: "history_entry \<Rightarrow> json" where
  "entry_json e = JObj [(''at'', JStr (he_at e)), (''headSha'', JStr (he_headSha e)),
     (''attempt'', JNum (int (he_attempt e))), (''reviewStatus'', JStr (status_text (he_reviewStatus e))),
     (''decision'', JStr (decision_text (he_decision e))), (''findings'', JArr (map record_json (he_findings e)))]"

definition state_json :: "loop_state \<Rightarrow> json" where
  "state_json s = JObj [(''version'', JNum (int (ls_version s))), (''issue'', json_opt (\<lambda>n. JNum (int n)) (ls_issue s)),
     (''reviewAttempts'', JNum (int (ls_reviewAttempts s))),
     (''lastReviewStatus'', json_opt (\<lambda>x. JStr (status_text x)) (ls_lastReviewStatus s)),
     (''lastDecision'', json_opt (\<lambda>x. JStr (decision_text x)) (ls_lastDecision s)),
     (''history'', JArr (map entry_json (ls_history s)))]"

definition fence_open :: string where "fence_open = ''```json'' @ [CHR 0x0A]"
definition fence_close :: string where "fence_close = CHR 0x0A # ''```''"

definition serialiseLoopState :: "loop_state \<Rightarrow> string" where
  "serialiseLoopState s = LOOP_STATE_MARKER @ blank_line @ fence_open @ json_pretty (state_json s) @ fence_close"

definition recordRound ::
  "loop_state \<Rightarrow> string \<Rightarrow> review_status \<Rightarrow> gate_decision \<Rightarrow> string \<Rightarrow> finding_record list \<Rightarrow> loop_state" where
  "recordRound s headSha reviewStatus decision time findings =
     (let consumed = (decision = ChangesRequested)
      in s\<lparr>ls_reviewAttempts := (if consumed then ls_reviewAttempts s + 1 else ls_reviewAttempts s),
           ls_lastReviewStatus := Some reviewStatus,
           ls_lastDecision := Some decision,
           ls_history := take_last 25 (ls_history s @
             [\<lparr>he_at = time, he_headSha = headSha, he_attempt = ls_reviewAttempts s, he_reviewStatus = reviewStatus,
               he_decision = decision, he_findings = take MAX_RETAINED_FINDINGS findings\<rparr>])\<rparr>)"

subsection \<open>Recurrence\<close>

lemma overlap_bounds: "0 \<le> overlapCoefficient a b"
  by (simp add: overlapCoefficient_def)

lemma overlap_le_one: "distinct a \<Longrightarrow> distinct b \<Longrightarrow> overlapCoefficient a b \<le> 1"
proof -
  assume d: "distinct a" "distinct b"
  have "length (filter (\<lambda>t. t \<in> set b) a) = card (set a \<inter> set b)"
    using d by (metis distinct_card distinct_filter inter_set_filter Int_commute)
  also have "\<dots> \<le> min (length a) (length b)"
    using d card_mono [of "set a" "set a \<inter> set b"] card_mono [of "set b" "set a \<inter> set b"]
    by (simp add: distinct_card)
  finally have "length (filter (\<lambda>t. t \<in> set b) a) \<le> min (length a) (length b)" .
  then show ?thesis
    by (auto simp: overlapCoefficient_def divide_le_eq_1 simp flip: of_nat_min)
qed

lemma overlap_commute: "distinct a \<Longrightarrow> distinct b \<Longrightarrow> overlapCoefficient a b = overlapCoefficient b a"
proof -
  assume d: "distinct a" "distinct b"
  have "length (filter (\<lambda>t. t \<in> set y) x) = card (set x \<inter> set y)" if "distinct x" for x y :: "string list"
    using that by (metis distinct_card distinct_filter inter_set_filter Int_commute)
  from this [OF d(1), of b] this [OF d(2), of a] show ?thesis
    by (auto simp: overlapCoefficient_def Int_commute min.commute)
qed

lemma significant_distinct: "distinct (significantTerms t)"
  by (simp add: significantTerms_def)

lemma findingsMatch_commute: "findingsMatch a b \<longleftrightarrow> findingsMatch b a"
  unfolding findingsMatch_def using overlap_commute [OF significant_distinct significant_distinct] by auto

lemma overlap_self: "distinct a \<Longrightarrow> a \<noteq> [] \<Longrightarrow> overlapCoefficient a a = 1"
  by (simp add: overlapCoefficient_def)

definition occ_ok :: "finding_record \<Rightarrow> history_entry set \<Rightarrow> (string \<times> occurrence) list \<Rightarrow> bool" where
  "occ_ok rec es m \<longleftrightarrow> distinct (map fst m) \<and>
     (\<forall>(k, o') \<in> set m. oc_headSha o' = k \<and>
        (\<exists>e \<in> es. he_headSha e = k \<and> he_attempt e = oc_attempt o' \<and> list_ex (findingsMatch rec) (he_findings e))) \<and>
     (\<forall>e \<in> es. list_ex (findingsMatch rec) (he_findings e) \<longrightarrow> he_headSha e \<in> fst ` set m)"

lemma update_new: "map_of m k = None \<Longrightarrow> AList.update k v m = m @ [(k, v)]"
  by (rule update_fresh) (simp add: map_of_eq_None_iff)

lemma occurrences_ok: "occ_ok rec (set prior) (occurrences_of rec prior)"
proof -
  let ?step = "\<lambda>m e.
     if map_of m (he_headSha e) \<noteq> None then m
     else if list_ex (findingsMatch rec) (he_findings e)
     then AList.update (he_headSha e) \<lparr>oc_attempt = he_attempt e, oc_headSha = he_headSha e\<rparr> m
     else m"
  have step: "occ_ok rec (insert e es) (?step m e)" if ok: "occ_ok rec es m" for es m e
  proof (cases "map_of m (he_headSha e)")
    case None
    then have "he_headSha e \<notin> fst ` set m" by (simp add: map_of_eq_None_iff)
    then show ?thesis using ok None unfolding occ_ok_def by (auto simp: update_new)
  next
    case (Some x)
    then have "he_headSha e \<in> fst ` set m" by (force dest: map_of_SomeD)
    then show ?thesis using ok Some unfolding occ_ok_def by auto
  qed
  have "occ_ok rec (es \<union> set prior) (foldl ?step m prior)" if "occ_ok rec es m" for es m
    using that
  proof (induction prior arbitrary: es m)
    case (Cons e prior)
    from Cons.IH [OF step [OF Cons.prems]] show ?case by simp
  qed simp
  from this [of "{}" "[]"] show ?thesis by (simp add: occurrences_of_def occ_ok_def)
qed

lemma detectRecurrence_iff:
  "(\<exists>r \<in> set (detectRecurrence cur hist sha). rf_finding r = f) \<longleftrightarrow>
    f \<in> set cur \<and> (\<exists>e \<in> set hist. he_headSha e \<noteq> sha \<and> list_ex (findingsMatch (toFindingRecord f)) (he_findings e))"
proof -
  define prior where "prior = filter (\<lambda>e. he_headSha e \<noteq> sha \<and> length (he_findings e) > 0) hist"
  have occ: "occurrences_of rec prior \<noteq> [] \<longleftrightarrow> (\<exists>e \<in> set prior. list_ex (findingsMatch rec) (he_findings e))" for rec
    using occurrences_ok [of rec prior] by (cases "occurrences_of rec prior") (auto simp: occ_ok_def)
  have "(\<exists>r \<in> set (detectRecurrence cur hist sha). rf_finding r = f) \<longleftrightarrow>
      f \<in> set cur \<and> occurrences_of (toFindingRecord f) prior \<noteq> []"
    by (auto simp: detectRecurrence_def Let_def prior_def)
  also have "\<dots> \<longleftrightarrow> f \<in> set cur \<and>
      (\<exists>e \<in> set hist. he_headSha e \<noteq> sha \<and> list_ex (findingsMatch (toFindingRecord f)) (he_findings e))"
  proof -
    have "(\<exists>e \<in> set prior. list_ex q (he_findings e)) \<longleftrightarrow>
        (\<exists>e \<in> set hist. he_headSha e \<noteq> sha \<and> list_ex q (he_findings e))" for q
      by (auto simp: prior_def list_ex_iff)
    then show ?thesis by (simp only: occ)
  qed
  finally show ?thesis .
qed

lemma detectRecurrence_heads:
  "r \<in> set (detectRecurrence cur hist sha) \<Longrightarrow>
    rf_occurrences r \<noteq> [] \<and> distinct (map oc_headSha (rf_occurrences r)) \<and> sha \<notin> oc_headSha ` set (rf_occurrences r)"
proof -
  define prior where "prior = filter (\<lambda>e. he_headSha e \<noteq> sha \<and> length (he_findings e) > 0) hist"
  assume "r \<in> set (detectRecurrence cur hist sha)"
  then obtain f where r: "rf_occurrences r = map snd (occurrences_of (toFindingRecord f) prior)"
      "occurrences_of (toFindingRecord f) prior \<noteq> []"
    by (auto simp: detectRecurrence_def Let_def prior_def split: if_splits)
  have ok: "occ_ok (toFindingRecord f) (set prior) (occurrences_of (toFindingRecord f) prior)"
    by (rule occurrences_ok)
  have "map oc_headSha (rf_occurrences r) = map fst (occurrences_of (toFindingRecord f) prior)"
    using ok r by (auto simp: occ_ok_def)
  moreover have "sha \<notin> fst ` set (occurrences_of (toFindingRecord f) prior)"
    using ok by (auto simp: occ_ok_def prior_def)
  ultimately show ?thesis
    using r ok unfolding occ_ok_def by (metis list.set_map map_is_Nil_conv)
qed

subsection \<open>Rounds\<close>

lemma recordRound_attempts:
  "ls_reviewAttempts (recordRound s h r d a fs) = ls_reviewAttempts s + (if d = ChangesRequested then 1 else 0)"
  by (simp add: recordRound_def Let_def)

lemma recordRound_history:
  "length (ls_history (recordRound s h r d a fs)) \<le> 25"
  "length (ls_history s) < 25 \<Longrightarrow> ls_history (recordRound s h r d a fs) = ls_history s @
     [\<lparr>he_at = a, he_headSha = h, he_attempt = ls_reviewAttempts s, he_reviewStatus = r,
       he_decision = d, he_findings = take MAX_RETAINED_FINDINGS fs\<rparr>]"
  by (simp_all add: recordRound_def Let_def)

text \<open>What the schema bounds: at most 25 rounds, each with at most ten findings.\<close>

definition state_bounded :: "loop_state \<Rightarrow> bool" where
  "state_bounded s \<longleftrightarrow> length (ls_history s) \<le> 25
     \<and> list_all (\<lambda>e. length (he_findings e) \<le> MAX_RETAINED_FINDINGS) (ls_history s)"

lemma state_bounded_initial: "state_bounded (initialState i)"
  by (simp add: state_bounded_def initialState_def)

lemma state_bounded_round: "state_bounded s \<Longrightarrow> state_bounded (recordRound s h r d a fs)"
  using set_take_last [of 25 "ls_history s @
     [\<lparr>he_at = a, he_headSha = h, he_attempt = ls_reviewAttempts s, he_reviewStatus = r,
       he_decision = d, he_findings = take MAX_RETAINED_FINDINGS fs\<rparr>]"]
  by (fastforce simp: state_bounded_def recordRound_def Let_def list_all_iff)

subsection \<open>Reading the state back\<close>

definition space_rx :: rx where "space_rx = RSet False [CISpace]"
definition any_rx :: rx where "any_rx = RSet False [CISpace, CINotSpace]"

lemma space_single: "rxm noflags space_rx st = step_char is_space st" "groups space_rx = []"
  by (simp_all add: space_rx_def)

lemma any_single: "rxm noflags any_rx st = step_char (\<lambda>_. True) st" "groups any_rx = []"
  by (auto simp: any_rx_def class_match_def)

lemma space_chars [simp]:
  "is_space (CHR '' '')" "is_space (CHR 0x0A)" "\<not> is_space (CHR ''-'')" "\<not> is_space (CHR ''n'')" "\<not> is_space (CHR ''{'')"
  by code_simp+

text \<open>The pattern, from its last part backwards.\<close>

definition sb_close :: rx where "sb_close = rlit (CHR 0x0A # ''``'') (RSet False [CIChar CHR ''`''])"
definition sb_body :: rx where "sb_body = RSeq (RGroup 1 (RRep False 0 None any_rx)) sb_close"
definition sb_fence :: rx where "sb_fence = rlit ''```json'' (RSeq (RRep True 0 None space_rx) (rlit [CHR 0x0A] sb_body))"
definition sb_skip :: rx where "sb_skip = RSeq (RRep False 0 None any_rx) sb_fence"
definition sb_name :: rx where
  "sb_name = rlit ''newsdeck-loop-state'' (RSeq (RRep True 0 None space_rx) (rlit ''-->'' sb_skip))"

lemma STATE_BLOCK_rx: "STATE_BLOCK = rlit open_mark (RSeq (RRep True 0 None space_rx) sb_name)"
  by code_simp

lemma sb_body_match:
  assumes "fence_free j"
  shows "\<exists>x ys. rxm noflags sb_body (b, j @ fence_close @ post, []) = x # ys \<and> snd (snd x) = [(1, j)]"
proof -
  let ?t = "fence_close @ post"
  let ?f = "\<lambda>st. rxm noflags sb_close (set_group 1 (j @ ?t) st)"
  define x where "x = (rev (fence_close) @ rev j @ b, post, [(1 :: nat, j)])"
  have "\<exists>ys. concat (map ?f (rxm noflags (RRep False 0 None any_rx) (b, j @ ?t, []))) = x # ys"
  proof (rule lazy_class [OF any_single])
    show "?f (rev j @ b, ?t, []) = x # []"
      by (simp add: set_group_def sb_close_def rxm_rlit fence_close_def x_def del: rlit.simps)
    show "?f (rev (take k j) @ b, drop k (j @ ?t), []) = []" if "k < length j" for k
    proof -
      have "\<not> starts_with [CHR 0x0A, CHR ''`''] (drop k j @ ?t)"
        by (rule fence_free_inside [OF assms that])
      then have "\<not> starts_with (CHR 0x0A # ''``'') (drop k j @ ?t)"
        by (auto simp: starts_with_iff)
      then show ?thesis using that
        by (simp add: set_group_def sb_close_def rxm_rlit del: rlit.simps starts_with.simps)
    qed
  qed (simp add: list_all_iff)
  then show ?thesis by (auto simp: sb_body_def x_def o_def)
qed

lemma sb_fence_match:
  assumes "fence_free j" and "j = CHR ''{'' # j'"
  shows "\<exists>x ys. rxm noflags sb_fence (b, fence_open @ j @ fence_close @ post, []) = x # ys \<and> snd (snd x) = [(1, j)]"
proof -
  let ?s = "j @ fence_close @ post"
  let ?b = "rev ''```json'' @ b"
  obtain x ys where body: "rxm noflags sb_body (CHR 0x0A # ?b, ?s, []) = x # ys" "snd (snd x) = [(1, j)]"
    using sb_body_match [OF assms(1)] by blast
  have runs: "rxm noflags (RRep True 0 None space_rx) (?b, CHR 0x0A # ?s, []) =
      [(CHR 0x0A # ?b, ?s, []), (?b, CHR 0x0A # ?s, [])]"
    unfolding rep_single_runs [OF space_single]
    by (simp add: assms(2) run_state_def)
  have "rxm noflags (RSeq (RRep True 0 None space_rx) (rlit [CHR 0x0A] sb_body)) (?b, CHR 0x0A # ?s, []) = x # ys"
    using body(1) by (simp only: rxm.simps(4) runs) (simp add: rxm_rlit assms(2) del: rlit.simps)
  then have "rxm noflags sb_fence (b, fence_open @ ?s, []) = x # ys"
    by (simp add: sb_fence_def fence_open_def rxm_rlit del: rlit.simps rxm.simps)
  with body(2) show ?thesis by blast
qed

lemma sb_skip_match:
  assumes "fence_free j" and "j = CHR ''{'' # j'"
  shows "\<exists>x ys. rxm noflags sb_skip (b, blank_line @ fence_open @ j @ fence_close @ post, []) = x # ys
    \<and> snd (snd x) = [(1, j)]"
proof -
  let ?t = "fence_open @ j @ fence_close @ post"
  obtain x ys where body: "rxm noflags sb_fence (rev blank_line @ b, ?t, []) = x # ys" "snd (snd x) = [(1, j)]"
    using sb_fence_match [OF assms] by blast
  have "\<exists>zs. concat (map (rxm noflags sb_fence) (rxm noflags (RRep False 0 None any_rx) (b, blank_line @ ?t, []))) = x # zs"
  proof (rule lazy_class [OF any_single])
    show "rxm noflags sb_fence (rev (take k blank_line) @ b, drop k (blank_line @ ?t), []) = []"
      if k: "k < length blank_line" for k
    proof -
      have "k = 0 \<or> k = 1" using k by (auto simp: blank_line_def)
      then show ?thesis
        by (auto simp: sb_fence_def rxm_rlit blank_line_def simp del: rlit.simps rxm.simps)
    qed
  qed (use body(1) in \<open>simp_all add: list_all_iff\<close>)
  then obtain zs where "concat (map (rxm noflags sb_fence) (rxm noflags (RRep False 0 None any_rx) (b, blank_line @ ?t, []))) = x # zs" ..
  with body(2) show ?thesis
    by (intro exI [of _ x] exI [of _ zs]) (simp add: sb_skip_def)
qed

lemma greedy_blank:
  assumes "rxm noflags R (CHR '' '' # b, t, []) = x # xs" and "t \<noteq> []" and "\<not> is_space (hd t)"
  shows "\<exists>ys. rxm noflags (RSeq (RRep True 0 None space_rx) R) (b, CHR '' '' # t, []) = x # ys"
  using greedy_class [OF space_single, of "'' ''" t "rxm noflags R" b "[]" x xs] assms
  by simp

lemma state_block_match:
  assumes "fence_free j" and "j = CHR ''{'' # j'"
  shows "\<exists>x ys. rxm noflags STATE_BLOCK (b, LOOP_STATE_MARKER @ blank_line @ fence_open @ j @ fence_close @ post, []) = x # ys
    \<and> snd (snd x) = [(1, j)]"
proof -
  let ?t = "blank_line @ fence_open @ j @ fence_close @ post"
  obtain x ys where skip: "rxm noflags sb_skip (rev ''-->'' @ CHR '' '' # rev ''newsdeck-loop-state'' @ CHR '' '' # rev open_mark @ b, ?t, []) = x # ys"
      "snd (snd x) = [(1, j)]"
    using sb_skip_match [OF assms] by blast
  have "\<exists>zs. rxm noflags (RSeq (RRep True 0 None space_rx) (rlit ''-->'' sb_skip))
      (rev ''newsdeck-loop-state'' @ CHR '' '' # rev open_mark @ b, CHR '' '' # ''-->'' @ ?t, []) = x # zs"
    by (rule greedy_blank) (use skip(1) in \<open>simp_all add: rxm_rlit del: rlit.simps\<close>)
  then obtain zs where "rxm noflags (RSeq (RRep True 0 None space_rx) (rlit ''-->'' sb_skip))
      (rev ''newsdeck-loop-state'' @ CHR '' '' # rev open_mark @ b, CHR '' '' # ''-->'' @ ?t, []) = x # zs" ..
  then have "rxm noflags sb_name (CHR '' '' # rev open_mark @ b, ''newsdeck-loop-state'' @ CHR '' '' # ''-->'' @ ?t, []) = x # zs"
    by (simp add: sb_name_def rxm_rlit del: rlit.simps rxm.simps)
  then have "\<exists>us. rxm noflags (RSeq (RRep True 0 None space_rx) sb_name)
      (rev open_mark @ b, CHR '' '' # ''newsdeck-loop-state'' @ CHR '' '' # ''-->'' @ ?t, []) = x # us"
    by (rule greedy_blank) (simp_all)
  then obtain us where "rxm noflags (RSeq (RRep True 0 None space_rx) sb_name)
      (rev open_mark @ b, CHR '' '' # ''newsdeck-loop-state'' @ CHR '' '' # ''-->'' @ ?t, []) = x # us" ..
  then have "rxm noflags STATE_BLOCK (b, LOOP_STATE_MARKER @ ?t, []) = x # us"
    unfolding STATE_BLOCK_rx LOOP_STATE_MARKER_def
    by (simp add: rxm_rlit open_mark_def del: rlit.simps rxm.simps)
  with skip(2) show ?thesis by (intro exI [of _ x] exI [of _ us]) simp
qed

lemma find_from_skip:
  assumes "\<And>u. u \<noteq> [] \<Longrightarrow> \<exists>v. pre = v @ u \<Longrightarrow> rxm fl r (rev (take (length pre - length u) pre) @ b, u @ t, []) = []"
  shows "find_from fl r b (pre @ t) = find_from fl r (rev pre @ b) t"
  using assms
proof (induction pre arbitrary: b)
  case (Cons c pre)
  have here: "rxm fl r (b, c # pre @ t, []) = []"
    using Cons.prems [of "c # pre"] by simp
  have "find_from fl r (c # b) (pre @ t) = find_from fl r (rev pre @ c # b) t"
  proof (rule Cons.IH)
    fix u assume u: "u \<noteq> []" "\<exists>v. pre = v @ u"
    then obtain v where v: "pre = v @ u" by blast
    have "rxm fl r (rev (take (length (c # pre) - length u) (c # pre)) @ b, u @ t, []) = []"
      using u v by (intro Cons.prems) (auto intro: exI [of _ "c # v"])
    then show "rxm fl r (rev (take (length pre - length u) pre) @ c # b, u @ t, []) = []"
      using v by (simp add: Suc_diff_le)
  qed
  with here show ?case by (subst find_from.simps) simp
qed simp

lemma open_mark_border_free: "border_free open_mark"
  by code_simp

lemma state_block_exec:
  assumes "\<not> contains open_mark pre" and "fence_free j" and "j = CHR ''{'' # j'"
  shows "exec_group noflags STATE_BLOCK 1
    (pre @ LOOP_STATE_MARKER @ blank_line @ fence_open @ j @ fence_close @ post) = Some j"
proof -
  let ?t = "LOOP_STATE_MARKER @ blank_line @ fence_open @ j @ fence_close @ post"
  obtain x ys where m: "rxm noflags STATE_BLOCK (rev pre, ?t, []) = x # ys" "snd (snd x) = [(1, j)]"
    using state_block_match [OF assms(2,3)] by blast
  have "find_from noflags STATE_BLOCK [] (pre @ ?t) = find_from noflags STATE_BLOCK (rev pre @ []) ?t"
  proof (rule find_from_skip)
    fix u assume u: "u \<noteq> []" "\<exists>v. pre = v @ u"
    then obtain v where "pre = v @ u" by blast
    then have "\<not> starts_with open_mark (u @ open_mark @ rest)" for rest
      using assms(1) u(1) by (intro no_crossing [OF open_mark_border_free]) auto
    moreover obtain rest where "?t = open_mark @ rest"
      by (simp add: LOOP_STATE_MARKER_def open_mark_def)
    ultimately have "\<not> starts_with open_mark (u @ ?t)" by metis
    then show "rxm noflags STATE_BLOCK (rev (take (length pre - length u) pre) @ [], u @ ?t, []) = []"
      unfolding STATE_BLOCK_rx by (simp add: rxm_rlit del: rlit.simps rxm.simps starts_with.simps)
  qed
  then show ?thesis
    using m unfolding exec_group_def rx_exec_def
    by (subst (asm) (2) find_from.simps) (auto simp: group_def split: prod.splits)
qed

lemma state_json_canonical: "json_canonical (state_json s)"
proof -
  have "json_canonical (record_json r)" for r
    by (auto simp: record_json_def json_opt_def split: option.split)
  then have "json_canonical (entry_json e)" for e
    by (auto simp: entry_json_def list_all_iff)
  then show ?thesis
    by (auto simp: state_json_def json_opt_def list_all_iff split: option.split)
qed

lemma state_json_start: "\<exists>j'. json_pretty (state_json s) = CHR ''{'' # j'"
  by (simp add: state_json_def)

text \<open>
  Any schema check that accepts the printed value and returns the state: the state is read back
  from a comment in which nothing before it opens an HTML comment.
\<close>

lemma parse_serialised:
  assumes "\<not> contains open_mark pre" and "safe_parse (state_json s) = Some s"
  shows "parseLoopState safe_parse (Some (pre @ serialiseLoopState s @ post)) issue = s"
proof -
  obtain j' where j: "json_pretty (state_json s) = CHR ''{'' # j'" using state_json_start by blast
  have ff: "fence_free (json_pretty (state_json s))"
    by (rule fence_free_stringify(1) [OF state_json_canonical])
  have "exec_group noflags STATE_BLOCK 1 (pre @ serialiseLoopState s @ post) = Some (json_pretty (state_json s))"
    using state_block_exec [OF assms(1) ff j] by (simp add: serialiseLoopState_def)
  then show ?thesis
    by (simp add: parseLoopState_def json_parse_stringify [OF state_json_canonical] assms(2))
qed

end
