(* ===== verification/ControlPlane.thy ===== *)
theory ControlPlane
  imports Checks
begin

text \<open>
  \<open>tooling/loop/src/control-plane.ts\<close>: whether a diff reaches the rules the loop governs itself
  by, in what ways a proposed policy is weaker than the one in force, and unsafe constructs in
  workflow files.

  The policy's signals are compiled with \<open>new RegExp\<close>; a signal that is not a pattern throws,
  and so the assessment is an option.
\<close>

subsection \<open>Reaching the control plane\<close>

record control_plane_assessment =
  cpa_affected :: bool
  cpa_policyBearing :: bool
  cpa_files :: "string list"
  cpa_reasons :: "string list"

type_synonym signal = "string \<times> rx"

fun compile_signals :: "string list \<Rightarrow> signal list option" where
  "compile_signals [] = Some []"
| "compile_signals (p # ps) = (case rx_parse p of
       None \<Rightarrow> None
     | Some r \<Rightarrow> map_option (\<lambda>rs. (p, r) # rs) (compile_signals ps))"

fun changedLinesCarryPolicy :: "string list \<Rightarrow> signal list \<Rightarrow> string option" where
  "changedLinesCarryPolicy [] signals = None"
| "changedLinesCarryPolicy (l # ls) signals =
     (case List.find (\<lambda>s. rx_test flag_i (snd s) l) signals of
        Some s \<Rightarrow> Some (fst s)
      | None \<Rightarrow> changedLinesCarryPolicy ls signals)"

definition assess_file :: "control_plane \<Rightarrow> signal list \<Rightarrow> diff_file \<Rightarrow>
    control_plane_assessment \<Rightarrow> control_plane_assessment" where
  "assess_file cp signals f a =
     (let structural = matchesAnyGlob (cp_patterns cp) (df_path f);
          always = matchesAnyGlob (cp_alwaysPolicy cp) (df_path f);
          bySignal = changedLinesCarryPolicy (df_addedLines f @ df_removedLines f) signals
      in if \<not> structural \<and> \<not> always \<and> bySignal = None then a
         else let a1 = a\<lparr>cpa_files := cpa_files a @ [df_path f]\<rparr>
              in if always then a1\<lparr>cpa_policyBearing := True,
                   cpa_reasons := cpa_reasons a @ [tick (df_path f) @ '' is policy by definition'']\<rparr>
                 else (case bySignal of
                     Some s \<Rightarrow> a1\<lparr>cpa_policyBearing := True,
                       cpa_reasons := cpa_reasons a @ [tick (df_path f) @ '' changes a line matching '' @ tick s]\<rparr>
                   | None \<Rightarrow> a1\<lparr>
                       cpa_reasons := cpa_reasons a @ [tick (df_path f) @ '' is part of the loop's own machinery'']\<rparr>))"

definition assessControlPlane :: "pull_request_diff \<Rightarrow> loop_policy \<Rightarrow> control_plane_assessment option" where
  "assessControlPlane d p =
     (case compile_signals (cp_policySignals (pol_controlPlane p)) of
        None \<Rightarrow> None
      | Some signals \<Rightarrow>
          (let a = fold (assess_file (pol_controlPlane p) signals) (diff_files d)
                 \<lparr>cpa_affected = False, cpa_policyBearing = False, cpa_files = [], cpa_reasons = []\<rparr>
           in Some (a\<lparr>cpa_affected := length (cpa_files a) > 0\<rparr>)))"

subsection \<open>Unsafe workflow changes\<close>

definition UNSAFE_WORKFLOW_PATTERNS :: "(rx \<times> string) list" where
  "UNSAFE_WORKFLOW_PATTERNS =
    [(re ''^%s*pull_request_target%s*:'',
      ''`pull_request_target` runs with repository secrets against untrusted pull request code.''),
     (re ''^%s*permissions%s*:%s*write-all%s*$'',
      ''`permissions: write-all` grants every scope rather than the ones needed.''),
     (re ''ACTIONS_STEP_DEBUG|ACTIONS_RUNNER_DEBUG'',
      ''Debug logging can print secret values into a public log.''),
     (re ''%bcurl%b[^|%n]*%|%s*(?:ba)?sh%b'',
      ''Piping a downloaded script straight into a shell executes unreviewed code.''),
     (re ''%$%{%{%s*github%.event%.(?:issue|pull_request|comment|review)%.[a-z_.]*(?:body|title)'',
      ''Interpolating issue or pull request text into a run step is command injection: the text is written by whoever can comment.'')]"

definition workflow_of_file :: "diff_file \<Rightarrow> finding list" where
  "workflow_of_file f =
     (if \<not> matchesAnyGlob [''.github/workflows/**''] (df_path f) then []
      else concat (map (\<lambda>(pattern, detail).
        if \<not> list_ex (rx_test noflags pattern) (df_addedLines f) then []
        else [mk_finding SCritical (Some (df_path f))
          (''This workflow change introduces an unsafe construct. '' @ detail)
          ''Remove it. If the workflow genuinely needs this, it belongs in its own issue with a stated threat model.''
          ''control-plane'' ''security'']) UNSAFE_WORKFLOW_PATTERNS))"

definition findUnsafeWorkflowChanges :: "pull_request_diff \<Rightarrow> finding list" where
  "findUnsafeWorkflowChanges d = concat (map workflow_of_file (diff_files d))"

interpretation workflow: per_file_check findUnsafeWorkflowChanges workflow_of_file
  by unfold_locales
    (auto simp: findUnsafeWorkflowChanges_def workflow_of_file_def split: if_splits)

subsection \<open>Weakened protections\<close>

definition policy_finding :: "severity \<Rightarrow> string \<Rightarrow> string \<Rightarrow> finding" where
  "policy_finding sev desc action =
     mk_finding sev (Some ''.github/loop-policy.json'') desc action ''control-plane'' ''policy''"

definition check_findings :: "loop_policy \<Rightarrow> loop_policy \<Rightarrow> finding list" where
  "check_findings base head = concat (map (\<lambda>check.
     if check \<notin> set (pol_requiredChecks head)
     then [policy_finding SCritical (''Required check '' @ tick check @ '' was removed from the policy.'')
       ''Restore it, or raise a dedicated issue to retire the check with a stated reason.'']
     else []) (pol_requiredChecks base))"

definition lost_steps :: "tier \<Rightarrow> tier \<Rightarrow> string list" where
  "lost_steps before after =
     filter (\<lambda>n. \<not> list_ex (\<lambda>s. step_name s = n) (tier_steps after)) (map step_name (tier_steps before))"

definition tier_findings :: "loop_policy \<Rightarrow> loop_policy \<Rightarrow> risk_level \<Rightarrow> finding list" where
  "tier_findings base head level =
     (let before = pol_tiers base level; after = pol_tiers head level;
          removed = lost_steps before after
      in (if tier_reviewers after < tier_reviewers before
          then [policy_finding SCritical
            (''The '' @ tick (risk_text level) @ '' tier's independent review count dropped from ''
              @ dec (tier_reviewers before) @ '' to '' @ dec (tier_reviewers after) @ ''.'')
            ''Restore the review count. Fewer independent reviewers is strictly less verification.'']
          else []) @
         (if length removed > 0
          then [policy_finding SCritical
            (''The '' @ tick (risk_text level) @ '' tier lost verification step(s): '' @ join '', '' removed @ ''.'')
            ''Restore the steps, or state in the issue why the check no longer applies.'']
          else []))"

definition severity_findings :: "loop_policy \<Rightarrow> loop_policy \<Rightarrow> finding list" where
  "severity_findings base head =
     (let b = pol_blockingSeverity base; h = pol_blockingSeverity head
      in if h \<noteq> b \<and> isAtLeastSeverity h b
         then [policy_finding SCritical
           (''Blocking severity was raised from '' @ tick (severity_text b) @ '' to '' @ tick (severity_text h)
             @ '', so fewer findings now stop a merge.'')
           ''Keep the base severity unless an issue explicitly asks for the change.'']
         else [])"

definition pattern_findings :: "loop_policy \<Rightarrow> path_rule \<Rightarrow> string \<Rightarrow> finding list" where
  "pattern_findings head rule pattern =
     (let stillThere = list_ex (\<lambda>c. rule_risk c = rule_risk rule \<and> pattern \<in> set (rule_patterns c))
           (risk_paths (pol_risk head));
         downgraded = list_ex (\<lambda>c. pattern \<in> set (rule_patterns c) \<and> rule_risk c \<noteq> rule_risk rule)
           (risk_paths (pol_risk head))
     in if \<not> stillThere \<and> \<not> downgraded
        then [policy_finding SCritical
          (''Risk rule '' @ tick (risk_text (rule_risk rule)) @ '' for '' @ tick pattern
            @ '' was removed, so those files now fall to a lower tier.'')
          ''Restore the rule, or move the pattern deliberately and say so in the issue.'']
        else [])"

definition rule_findings :: "loop_policy \<Rightarrow> loop_policy \<Rightarrow> finding list" where
  "rule_findings base head =
     concat (map (\<lambda>rule. concat (map (pattern_findings head rule) (rule_patterns rule))) (risk_paths (pol_risk base)))"

definition retry_findings :: "loop_policy \<Rightarrow> loop_policy \<Rightarrow> finding list" where
  "retry_findings base head = concat (map (\<lambda>(category, before, after).
     if after > before * 2
     then [policy_finding SMedium (category @ '' more than doubled, from '' @ dec before @ '' to '' @ dec after @ ''.'')
       ''Confirm the issue asked for this; it multiplies model usage per issue.'']
     else [])
     [(''coding fix rounds'', codingFixRounds (pol_retry base), codingFixRounds (pol_retry head)),
      (''review fix rounds'', reviewFixRounds (pol_retry base), reviewFixRounds (pol_retry head)),
      (''CI fix rounds'', ciFixRounds (pol_retry base), ciFixRounds (pol_retry head))])"

definition findWeakenedProtections :: "loop_policy \<Rightarrow> loop_policy \<Rightarrow> pull_request_diff \<Rightarrow> finding list" where
  "findWeakenedProtections base head d =
     check_findings base head @ concat (map (tier_findings base head) [Low, Medium, High])
     @ severity_findings base head @ rule_findings base head @ retry_findings base head
     @ findUnsafeWorkflowChanges d"

definition stricterRisk :: "risk_level \<Rightarrow> risk_level \<Rightarrow> risk_level" where
  "stricterRisk base proposed = (if risk_order base \<ge> risk_order proposed then base else proposed)"

subsection \<open>Lemmas\<close>

lemma stricterRisk_max [policy_simps]: "stricterRisk a b = max a b"
  by (cases a; cases b) (simp_all add: stricterRisk_def max_def less_eq_risk_level_def)

lemma compile_signals_Some:
  "compile_signals ps = Some ss \<Longrightarrow> map fst ss = ps \<and> list_all (\<lambda>s. rx_parse (fst s) = Some (snd s)) ss"
  by (induction ps arbitrary: ss) (auto split: option.splits)

lemma changedLines_None:
  "changedLinesCarryPolicy ls ss = None \<longleftrightarrow> (\<forall>l \<in> set ls. \<forall>s \<in> set ss. \<not> rx_test flag_i (snd s) l)"
  by (induction ls) (auto simp: find_None_all split: option.splits dest: find_Some_mem)

lemma changedLines_Some:
  "changedLinesCarryPolicy ls ss = Some x \<Longrightarrow> \<exists>l \<in> set ls. \<exists>s \<in> set ss. x = fst s \<and> rx_test flag_i (snd s) l"
  by (induction ls) (auto split: option.splits dest: find_Some_mem)

text \<open>A file is control plane by its path or by a changed line.\<close>

definition governs :: "control_plane \<Rightarrow> signal list \<Rightarrow> diff_file \<Rightarrow> bool" where
  "governs cp ss f \<longleftrightarrow> matchesAnyGlob (cp_patterns cp) (df_path f) \<or> matchesAnyGlob (cp_alwaysPolicy cp) (df_path f)
     \<or> changedLinesCarryPolicy (df_addedLines f @ df_removedLines f) ss \<noteq> None"

definition bears_policy :: "control_plane \<Rightarrow> signal list \<Rightarrow> diff_file \<Rightarrow> bool" where
  "bears_policy cp ss f \<longleftrightarrow> matchesAnyGlob (cp_alwaysPolicy cp) (df_path f)
     \<or> changedLinesCarryPolicy (df_addedLines f @ df_removedLines f) ss \<noteq> None"

lemma assess_files:
  "cpa_files (fold (assess_file cp ss) fs a) = cpa_files a @ map df_path (filter (governs cp ss) fs)
   \<and> (cpa_policyBearing (fold (assess_file cp ss) fs a) \<longleftrightarrow>
        cpa_policyBearing a \<or> (\<exists>f \<in> set fs. bears_policy cp ss f))
   \<and> length (cpa_reasons (fold (assess_file cp ss) fs a)) =
        length (cpa_reasons a) + length (filter (governs cp ss) fs)"
proof (induction fs arbitrary: a)
  case (Cons f fs)
  have "cpa_files (assess_file cp ss f a) = cpa_files a @ (if governs cp ss f then [df_path f] else [])"
    and "cpa_policyBearing (assess_file cp ss f a) \<longleftrightarrow> cpa_policyBearing a \<or> bears_policy cp ss f"
    and "length (cpa_reasons (assess_file cp ss f a)) = length (cpa_reasons a) + (if governs cp ss f then 1 else 0)"
    by (auto simp: assess_file_def governs_def bears_policy_def Let_def split: option.splits)
  then show ?case by (simp add: Cons.IH)
qed simp

lemma assessControlPlane_spec:
  assumes "assessControlPlane d p = Some a" and "compile_signals (cp_policySignals (pol_controlPlane p)) = Some ss"
  shows "cpa_files a = map df_path (filter (governs (pol_controlPlane p) ss) (diff_files d))"
    and "cpa_affected a \<longleftrightarrow> (\<exists>f \<in> set (diff_files d). governs (pol_controlPlane p) ss f)"
    and "cpa_policyBearing a \<longleftrightarrow> (\<exists>f \<in> set (diff_files d). bears_policy (pol_controlPlane p) ss f)"
    and "length (cpa_reasons a) = length (cpa_files a)"
  using assms assess_files [of "pol_controlPlane p" ss "diff_files d"
      "\<lparr>cpa_affected = False, cpa_policyBearing = False, cpa_files = [], cpa_reasons = []\<rparr>"]
  by (auto simp: assessControlPlane_def Let_def filter_empty_conv)

text \<open>What a clean comparison of two policies guarantees.\<close>

lemma no_check_findings: "check_findings base head = [] \<longleftrightarrow> set (pol_requiredChecks base) \<subseteq> set (pol_requiredChecks head)"
  by (auto simp: check_findings_def)

lemma lost_steps_empty:
  "lost_steps b a = [] \<longleftrightarrow> step_name ` set (tier_steps b) \<subseteq> step_name ` set (tier_steps a)"
  by (simp add: lost_steps_def filter_empty_conv list_ex_iff image_subset_iff) (metis (no_types) image_iff)

lemma no_tier_findings:
  "tier_findings base head l = [] \<longleftrightarrow>
     tier_reviewers (pol_tiers base l) \<le> tier_reviewers (pol_tiers head l)
     \<and> step_name ` set (tier_steps (pol_tiers base l)) \<subseteq> step_name ` set (tier_steps (pol_tiers head l))"
  using lost_steps_empty [of "pol_tiers base l" "pol_tiers head l"]
  by (auto simp: tier_findings_def Let_def not_less)

lemma no_severity_findings:
  "severity_findings base head = [] \<longleftrightarrow> pol_blockingSeverity head \<le> pol_blockingSeverity base"
  by (auto simp: severity_findings_def Let_def policy_simps)

lemma no_pattern_findings:
  "pattern_findings head r p = [] \<longleftrightarrow> (\<exists>c \<in> set (risk_paths (pol_risk head)). p \<in> set (rule_patterns c))"
  by (auto simp: pattern_findings_def Let_def list_ex_iff)

lemma no_rule_findings:
  "rule_findings base head = [] \<longleftrightarrow>
    (\<forall>r \<in> set (risk_paths (pol_risk base)). \<forall>p \<in> set (rule_patterns r).
       \<exists>c \<in> set (risk_paths (pol_risk head)). p \<in> set (rule_patterns c))"
  by (simp add: rule_findings_def concat_eq_Nil_conv no_pattern_findings)

lemma no_weakened:
  "findWeakenedProtections base head d = [] \<Longrightarrow>
     set (pol_requiredChecks base) \<subseteq> set (pol_requiredChecks head)
   \<and> (\<forall>l. tier_reviewers (pol_tiers base l) \<le> tier_reviewers (pol_tiers head l)
        \<and> step_name ` set (tier_steps (pol_tiers base l)) \<subseteq> step_name ` set (tier_steps (pol_tiers head l)))
   \<and> pol_blockingSeverity head \<le> pol_blockingSeverity base
   \<and> (\<forall>r \<in> set (risk_paths (pol_risk base)). \<forall>p \<in> set (rule_patterns r).
       \<exists>c \<in> set (risk_paths (pol_risk head)). p \<in> set (rule_patterns c))
   \<and> findUnsafeWorkflowChanges d = []"
proof -
  assume "findWeakenedProtections base head d = []"
  then have parts: "check_findings base head = []" "tier_findings base head Low = []"
      "tier_findings base head Medium = []" "tier_findings base head High = []"
      "severity_findings base head = []" "rule_findings base head = []" "findUnsafeWorkflowChanges d = []"
    by (simp_all add: findWeakenedProtections_def)
  have "tier_findings base head l = []" for l by (cases l) (simp_all add: parts)
  then have tiers: "tier_reviewers (pol_tiers base l) \<le> tier_reviewers (pol_tiers head l)
        \<and> step_name ` set (tier_steps (pol_tiers base l)) \<subseteq> step_name ` set (tier_steps (pol_tiers head l))" for l
    by (simp only: no_tier_findings)
  show ?thesis
    using parts(1,5,6,7) tiers
    by (simp add: no_check_findings no_severity_findings no_rule_findings)
qed

lemma unchanged_policy: "findWeakenedProtections p p d = findUnsafeWorkflowChanges d"
proof -
  have tiers: "tier_findings p p l = []" for l by (simp add: no_tier_findings)
  have "check_findings p p = []" "severity_findings p p = []" "rule_findings p p = []" "retry_findings p p = []"
    by (auto simp: no_check_findings no_severity_findings no_rule_findings retry_findings_def)
  with tiers show ?thesis by (simp add: findWeakenedProtections_def)
qed

text \<open>A pattern that stays but under another risk level, lower or not, is not reported.\<close>

lemma moved_rule_unreported:
  "c \<in> set (risk_paths (pol_risk head)) \<Longrightarrow> p \<in> set (rule_patterns c) \<Longrightarrow> pattern_findings head r p = []"
  by (auto simp: no_pattern_findings)

end
