(* ===== verification/Risk.thy ===== *)
theory Risk
  imports ControlPlane
begin

text \<open>
  \<open>tooling/loop/src/risk.ts\<close>: the deterministic risk classification of a diff, and the
  classification under two policies of which the stricter governs.  Both are options because
  \<open>assessControlPlane\<close> throws on a signal that does not compile.
\<close>

subsection \<open>The code\<close>

datatype reason_source = RDefault | RPath | RLabel | REscalation | RControlPlane | RBasePolicy

record risk_reason =
  rr_risk :: risk_level
  rr_source :: reason_source
  rr_detail :: string

record control_summary =
  cs_affected :: bool
  cs_policyBearing :: bool
  cs_reasons :: "string list"

record risk_assessment =
  ra_risk :: risk_level
  ra_reasons :: "risk_reason list"
  ra_controlPlane :: "control_summary option"

definition RISK_LABEL :: rx where
  "RISK_LABEL = re ''^risk:(low|medium|high)$''"

definition reason :: "risk_level \<Rightarrow> reason_source \<Rightarrow> string \<Rightarrow> risk_reason" where
  "reason r s d = \<lparr>rr_risk = r, rr_source = s, rr_detail = d\<rparr>"

definition raise_risk :: "risk_reason \<Rightarrow> risk_level \<times> risk_reason list \<Rightarrow> risk_level \<times> risk_reason list" where
  "raise_risk rr acc = (maxRisk (fst acc) (rr_risk rr), snd acc @ [rr])"

definition path_reasons :: "pull_request_diff \<Rightarrow> path_rule \<Rightarrow> risk_reason list" where
  "path_reasons d rule =
     (case filter (\<lambda>f. matchesAnyGlob (rule_patterns rule) (df_path f)) (diff_files d) of
        [] \<Rightarrow> []
      | f # fs \<Rightarrow> [reason (rule_risk rule) RPath
          (rule_reason rule @ '' ('' @ dec (length (f # fs)) @ '' file(s), e.g. '' @ df_path f @ '')'')])"

definition label_level :: "string \<Rightarrow> risk_level option" where
  "label_level s = (if s = ''low'' then Some Low else if s = ''medium'' then Some Medium
     else if s = ''high'' then Some High else None)"

definition label_reasons :: "string \<Rightarrow> risk_reason list" where
  "label_reasons label =
     (case Option.bind (exec_group noflags RISK_LABEL 1 label) label_level of
        None \<Rightarrow> []
      | Some declared \<Rightarrow> [reason declared RLabel (''label '' @ tick label)])"

definition size_escalations :: "escalations \<Rightarrow> pull_request_diff \<Rightarrow> risk_reason list" where
  "size_escalations rules d =
     (if length (diff_files d) > maxChangedFiles rules
      then [reason High REscalation (dec (length (diff_files d)) @ '' files changed, over the ''
        @ dec (maxChangedFiles rules) @ '' file limit (large-scale restructuring)'')] else []) @
     (let removedLines = deletions d
      in if removedLines > maxDeletedLines rules
         then [reason High REscalation (dec removedLines @ '' lines deleted, over the ''
           @ dec (maxDeletedLines rules) @ '' line limit (large-scale deletion)'')] else [])"

definition migration_escalation :: "escalations \<Rightarrow> diff_file \<Rightarrow> risk_reason list" where
  "migration_escalation rules f =
     (if \<not> matchesAnyGlob (destructiveMigrationGlobs rules) (df_path f) then []
      else case findDestructiveSql (df_addedLines f) of
        [] \<Rightarrow> []
      | s # _ \<Rightarrow> [reason High REscalation (''destructive migration in '' @ df_path f @ '': '' @ ds_line s)])"

definition contract_escalation :: "escalations \<Rightarrow> diff_file \<Rightarrow> risk_reason list" where
  "contract_escalation rules f =
     (if \<not> matchesAnyGlob (publicContractGlobs rules) (df_path f) then []
      else let removed = removedExports f
           in if length removed > 0
              then [reason High REscalation (''breaking public API change: '' @ df_path f
                @ '' no longer exports '' @ join '', '' removed)]
              else [])"

definition upgrade_escalation :: "(string \<Rightarrow> string \<Rightarrow> bool) \<Rightarrow> diff_file \<Rightarrow> risk_reason list" where
  "upgrade_escalation lc f = concat (map (\<lambda>c.
     if dc_major c \<and> dc_kind c = DepUpgraded
     then [reason High REscalation (''major dependency upgrade: '' @ dc_name c @ '' '' @ the (dc_from c)
       @ '' -> '' @ the (dc_to c))]
     else []) (dependencyChanges lc f))"

definition escalation_reasons ::
  "(string \<Rightarrow> string \<Rightarrow> bool) \<Rightarrow> loop_policy \<Rightarrow> pull_request_diff \<Rightarrow> risk_reason list" where
  "escalation_reasons lc p d =
     (let rules = risk_escalations (pol_risk p)
      in size_escalations rules d
         @ concat (map (migration_escalation rules) (diff_files d))
         @ concat (map (contract_escalation rules) (diff_files d))
         @ concat (map (upgrade_escalation lc) (diff_files d)))"

definition classifyRisk ::
  "(string \<Rightarrow> string \<Rightarrow> bool) \<Rightarrow> pull_request_diff \<Rightarrow> string list \<Rightarrow> loop_policy \<Rightarrow> risk_assessment option" where
  "classifyRisk lc d labels p =
     (let start = (risk_default (pol_risk p), [reason (risk_default (pol_risk p)) RDefault ''policy default'']);
          rest = concat (map (path_reasons d) (risk_paths (pol_risk p)))
               @ concat (map label_reasons labels) @ escalation_reasons lc p d;
          acc = fold raise_risk rest start
      in case assessControlPlane d p of
           None \<Rightarrow> None
         | Some cp \<Rightarrow>
             (let final = (if cpa_affected cp
                    then (maxRisk (fst acc) High,
                          snd acc @ map (\<lambda>r. reason High RControlPlane r) (cpa_reasons cp))
                    else acc)
              in Some \<lparr>ra_risk = fst final, ra_reasons = snd final,
                       ra_controlPlane = Some \<lparr>cs_affected = cpa_affected cp,
                         cs_policyBearing = cpa_policyBearing cp, cs_reasons = cpa_reasons cp\<rparr>\<rparr>))"

definition control_flag :: "(control_summary \<Rightarrow> bool) \<Rightarrow> risk_assessment \<Rightarrow> bool" where
  "control_flag f a = (case ra_controlPlane a of Some c \<Rightarrow> f c | None \<Rightarrow> False)"

definition control_reasons :: "risk_assessment \<Rightarrow> string list" where
  "control_reasons a = (case ra_controlPlane a of Some c \<Rightarrow> cs_reasons c | None \<Rightarrow> [])"

definition combine_risk :: "risk_assessment \<Rightarrow> risk_assessment \<Rightarrow> risk_assessment" where
  "combine_risk base head =
     (let risk = stricterRisk (ra_risk base) (ra_risk head)
      in \<lparr>ra_risk = risk,
          ra_reasons = ra_reasons base @
            (if ra_risk head \<noteq> ra_risk base
             then [reason risk RBasePolicy
               (if risk = ra_risk base
                then ''the proposed policy would call this '' @ tick (risk_text (ra_risk head))
                  @ ''; the base branch's policy governs, so it stays '' @ tick (risk_text (ra_risk base))
                else ''the proposed policy raises this to '' @ tick (risk_text (ra_risk head)))]
             else []),
          ra_controlPlane = Some \<lparr>cs_affected = control_flag cs_affected base \<or> control_flag cs_affected head,
            cs_policyBearing = control_flag cs_policyBearing base \<or> control_flag cs_policyBearing head,
            cs_reasons = control_reasons base\<rparr>\<rparr>)"

definition classifyRiskMonotonic ::
  "(string \<Rightarrow> string \<Rightarrow> bool) \<Rightarrow> pull_request_diff \<Rightarrow> string list \<Rightarrow> loop_policy \<Rightarrow> loop_policy option \<Rightarrow>
    risk_assessment option" where
  "classifyRiskMonotonic lc d labels basePolicy headPolicy =
     (case classifyRisk lc d labels basePolicy of
        None \<Rightarrow> None
      | Some base \<Rightarrow>
          (case headPolicy of
             None \<Rightarrow> Some base
           | Some hp \<Rightarrow>
               (case classifyRisk lc d labels hp of
                  None \<Rightarrow> None
                | Some head \<Rightarrow> Some (combine_risk base head))))"

subsection \<open>Lemmas\<close>

lemma fold_raise_risk:
  "fold raise_risk rs (r, acc) = (foldl max r (map rr_risk rs), acc @ rs)"
  by (induction rs arbitrary: r acc) (simp_all add: raise_risk_def policy_simps)

lemma foldl_max_iff: "foldl max (r :: risk_level) rs \<le> b \<longleftrightarrow> r \<le> b \<and> (\<forall>x \<in> set rs. x \<le> b)"
  by (induction rs arbitrary: r) auto

lemma foldl_max_upper: "x \<in> insert r (set rs) \<Longrightarrow> x \<le> foldl max (r :: risk_level) rs"
  using foldl_max_iff [of r rs "foldl max r rs"] by auto

lemma foldl_max_attained: "foldl max (r :: risk_level) rs \<in> insert r (set rs)"
proof (induction rs arbitrary: r)
  case (Cons x xs)
  from Cons [of "max r x"] show ?case by (auto simp: max_def split: if_splits)
qed simp

text \<open>The risk is exactly the highest reason given, and each reason is listed.\<close>

lemma classifyRisk_reasons:
  assumes "classifyRisk lc d labels p = Some a"
  shows "(\<forall>rr \<in> set (ra_reasons a). rr_risk rr \<le> ra_risk a) \<and> (\<exists>rr \<in> set (ra_reasons a). rr_risk rr = ra_risk a)"
proof -
  define rest where "rest = concat (map (path_reasons d) (risk_paths (pol_risk p)))
    @ concat (map label_reasons labels) @ escalation_reasons lc p d"
  define r0 where "r0 = risk_default (pol_risk p)"
  define m where "m = foldl max r0 (map rr_risk rest)"
  define start where "start = reason r0 RDefault ''policy default''"
  obtain cp where cp: "assessControlPlane d p = Some cp"
    using assms by (auto simp: classifyRisk_def Let_def split: option.splits)
  have a: "ra_risk a = (if cpa_affected cp then High else m)"
    "ra_reasons a = start # rest @ (if cpa_affected cp then map (\<lambda>r. reason High RControlPlane r) (cpa_reasons cp) else [])"
    using assms cp by (auto simp: classifyRisk_def Let_def fold_raise_risk policy_simps
        rest_def m_def start_def r0_def max_def)
  have upper: "\<forall>rr \<in> set (start # rest). rr_risk rr \<le> m"
    using foldl_max_upper [of _ r0 "map rr_risk rest"] by (auto simp: m_def start_def reason_def)
  have attained: "\<exists>rr \<in> set (start # rest). rr_risk rr = m"
    using foldl_max_attained [of r0 "map rr_risk rest"] by (auto simp: m_def start_def reason_def)
  show ?thesis
  proof (cases "cpa_affected cp")
    case False
    with a upper attained show ?thesis by auto
  next
    case True
    have "length (cpa_reasons cp) > 0"
    proof -
      obtain ss where ss: "compile_signals (cp_policySignals (pol_controlPlane p)) = Some ss"
        using cp by (auto simp: assessControlPlane_def split: option.splits)
      show ?thesis
        using assessControlPlane_spec [OF cp ss] True by (auto simp: filter_empty_conv)
    qed
    then obtain x where "x \<in> set (cpa_reasons cp)" by (cases "cpa_reasons cp") auto
    with a True have "reason High RControlPlane x \<in> set (ra_reasons a)" by simp
    moreover have "rr_risk (reason High RControlPlane x) = ra_risk a"
      using a True by (simp add: reason_def)
    ultimately show ?thesis using a True by auto
  qed
qed

lemma classifyRisk_lower_bounds:
  assumes "classifyRisk lc d labels p = Some a"
  shows "risk_default (pol_risk p) \<le> ra_risk a"
    and "rule \<in> set (risk_paths (pol_risk p)) \<Longrightarrow> f \<in> set (diff_files d) \<Longrightarrow>
      matchesAnyGlob (rule_patterns rule) (df_path f) \<Longrightarrow> rule_risk rule \<le> ra_risk a"
    and "escalation_reasons lc p d \<noteq> [] \<Longrightarrow> ra_risk a = High"
    and "control_flag cs_affected a \<Longrightarrow> ra_risk a = High"
proof -
  define rest where "rest = concat (map (path_reasons d) (risk_paths (pol_risk p)))
    @ concat (map label_reasons labels) @ escalation_reasons lc p d"
  obtain cp where cp: "assessControlPlane d p = Some cp"
    using assms by (auto simp: classifyRisk_def Let_def split: option.splits)
  have a: "ra_risk a = (if cpa_affected cp then High else foldl max (risk_default (pol_risk p)) (map rr_risk rest))"
    and flag: "control_flag cs_affected a = cpa_affected cp"
    using assms cp by (auto simp: classifyRisk_def Let_def fold_raise_risk policy_simps control_flag_def
        rest_def max_def)
  note upper = foldl_max_upper [of _ "risk_default (pol_risk p)" "map rr_risk rest"]
  show "risk_default (pol_risk p) \<le> ra_risk a" using upper by (auto simp: a)
  show "rule_risk rule \<le> ra_risk a" if rule: "rule \<in> set (risk_paths (pol_risk p))"
    and f: "f \<in> set (diff_files d)" "matchesAnyGlob (rule_patterns rule) (df_path f)"
  proof -
    have "filter (\<lambda>f. matchesAnyGlob (rule_patterns rule) (df_path f)) (diff_files d) \<noteq> []"
      using f by (auto simp: filter_empty_conv)
    then obtain rr where "rr \<in> set (path_reasons d rule)" "rr_risk rr = rule_risk rule"
      by (auto simp: path_reasons_def reason_def neq_Nil_conv)
    then have "rule_risk rule \<in> rr_risk ` set rest" using rule by (force simp: rest_def)
    then show ?thesis using upper by (auto simp: a)
  qed
  have high: "rr_risk rr = High" if "rr \<in> set (escalation_reasons lc p d)" for rr
    using that by (auto simp: escalation_reasons_def Let_def size_escalations_def migration_escalation_def
        contract_escalation_def upgrade_escalation_def reason_def split: if_splits list.splits)
  show "ra_risk a = High" if ne: "escalation_reasons lc p d \<noteq> []"
  proof -
    obtain rr where rr: "rr \<in> set (escalation_reasons lc p d)" using ne by (cases "escalation_reasons lc p d") auto
    then have "High \<in> set (map rr_risk rest)" using high by (force simp: rest_def)
    then have "High \<le> foldl max (risk_default (pol_risk p)) (map rr_risk rest)" using upper by blast
    then show ?thesis by (simp add: a)
  qed
  show "ra_risk a = High" if "control_flag cs_affected a" using that by (simp add: a flag)
qed

text \<open>More labels and more reasons never lower the risk.\<close>

lemma classifyRisk_labels_mono:
  assumes "classifyRisk lc d labels p = Some a" and "classifyRisk lc d labels' p = Some a'"
    and "set labels \<subseteq> set labels'"
  shows "ra_risk a \<le> ra_risk a'"
proof -
  define rest where "rest ls = concat (map (path_reasons d) (risk_paths (pol_risk p)))
    @ concat (map label_reasons ls) @ escalation_reasons lc p d" for ls
  obtain cp where cp: "assessControlPlane d p = Some cp"
    using assms(1) by (auto simp: classifyRisk_def Let_def split: option.splits)
  have risk: "ra_risk x = (if cpa_affected cp then High else foldl max (risk_default (pol_risk p)) (map rr_risk (rest ls)))"
    if "classifyRisk lc d ls p = Some x" for ls x
    using that cp by (auto simp: classifyRisk_def Let_def fold_raise_risk policy_simps rest_def max_def)
  have "set (rest labels) \<subseteq> set (rest labels')" using assms(3) by (auto simp: rest_def)
  then have "foldl max (risk_default (pol_risk p)) (map rr_risk (rest labels))
      \<le> foldl max (risk_default (pol_risk p)) (map rr_risk (rest labels'))"
    by (auto simp: foldl_max_iff intro!: foldl_max_upper)
  with risk [OF assms(1)] risk [OF assms(2)] show ?thesis by simp
qed

lemma combine_risk_max: "ra_risk (combine_risk b h) = max (ra_risk b) (ra_risk h)"
  by (simp add: combine_risk_def Let_def policy_simps)

lemma monotonic_base:
  assumes "classifyRisk lc d labels bp = Some base" and "classifyRiskMonotonic lc d labels bp hp = Some a"
  shows "ra_risk base \<le> ra_risk a"
  using assms by (auto simp: classifyRiskMonotonic_def combine_risk_max split: option.splits)

end
