(* ===== verification/Eligibility.thy ===== *)
theory Eligibility
  imports Checks
begin

text \<open>
  \<open>tooling/loop/src/dependencies.ts\<close> and \<open>tooling/loop/src/eligibility.ts\<close>: the dependency block
  of an issue body, and the choice of the next issue.

  The inner loop of \<open>parseDependencyDeclaration\<close> looks back at the previous line, which is the
  argument \<open>prev\<close> of \<open>consume_list\<close>.  Issue numbers are naturals; \<open>Number\<close> of more than three
  hundred digits (infinity) is not modelled.
\<close>

subsection \<open>Dependencies of an issue body\<close>

definition HEADING :: rx where
  "HEADING = re ''^%s*(?:#{1,6}%s*)?depends%s+on%s*:?%s*(.*)$''"

definition LIST_ITEM :: rx where "LIST_ITEM = re ''^%s*[-*]%s+(.*)$''"
definition ISSUE_REFERENCE :: rx where "ISSUE_REFERENCE = re ''#(%d+)%b''"
definition NONE :: rx where "NONE = re ''^none%.?$''"

definition or_empty :: "string option \<Rightarrow> string" where
  "or_empty s = (case s of Some t \<Rightarrow> t | None \<Rightarrow> [])"

definition collectReferences :: "string \<Rightarrow> nat list \<Rightarrow> nat list" where
  "collectReferences text acc = foldl (\<lambda>acc m.
     let v = undec (or_empty (group m 1)) in if v > 0 then set_add v acc else acc)
     acc (match_all noflags ISSUE_REFERENCE text)"

record dependency_declaration =
  dd_declared :: bool
  dd_dependencies :: "nat list"

fun consume_list :: "string \<Rightarrow> string list \<Rightarrow> nat list \<Rightarrow> nat list" where
  "consume_list prev [] deps = deps"
| "consume_list prev (l # ls) deps =
     (if length (trim l) = 0 then
        (if length deps > 0 \<and> rx_test noflags LIST_ITEM prev then deps else consume_list l ls deps)
      else case rx_exec noflags LIST_ITEM l of
        None \<Rightarrow> deps
      | Some item \<Rightarrow> consume_list l ls (collectReferences (or_empty (group item 1)) deps))"

text \<open>The state of the outer loop: dependencies so far, block found, explicit none.\<close>

fun scan_lines :: "string list \<Rightarrow> nat list \<times> bool \<times> bool \<Rightarrow> nat list \<times> bool \<times> bool" where
  "scan_lines [] st = st"
| "scan_lines (l # ls) (deps, found, none) =
     (case rx_exec flag_i HEADING l of
        None \<Rightarrow> scan_lines ls (deps, found, none)
      | Some h \<Rightarrow>
          (let rest = or_empty (group h 1)
           in scan_lines ls (consume_list l ls (collectReferences rest deps), True,
                none \<or> rx_test flag_i NONE (trim rest))))"

definition parseDependencyDeclaration :: "string option \<Rightarrow> dependency_declaration" where
  "parseDependencyDeclaration body =
     (case body of
        None \<Rightarrow> \<lparr>dd_declared = False, dd_dependencies = []\<rparr>
      | Some b \<Rightarrow>
          (let (deps, found, none) = scan_lines (lines_of b) ([], False, False)
           in \<lparr>dd_declared = (found \<and> (length deps > 0 \<or> none)), dd_dependencies = sort_by (\<le>) deps\<rparr>))"

definition parseIssueDependencies :: "string option \<Rightarrow> nat list" where
  "parseIssueDependencies body = dd_dependencies (parseDependencyDeclaration body)"

subsection \<open>Candidates\<close>

datatype issue_state = IssueOpen | IssueClosed

record issue_summary =
  is_number :: nat
  is_title :: string
  is_state :: issue_state
  is_labels :: "string list"
  is_body :: "string option"

record dependency_state =
  dp_number :: nat
  dp_satisfied :: bool
  dp_detail :: string

record candidate =
  c_issue :: issue_summary
  c_eligible :: bool
  c_reasons :: "string list"
  c_dependencies :: "dependency_state list"

record selection_policy =
  sp_requiredLabel :: string
  sp_excludedLabels :: "string list"
  sp_fallback :: "(nat \<times> nat list) list"
  sp_priorityLabels :: "string list option"
  sp_skip :: "nat list option"

definition DEFAULT_PRIORITY_LABELS :: "string list" where
  "DEFAULT_PRIORITY_LABELS = [''priority:p0'', ''priority:p1'', ''priority:p2'', ''priority:p3'']"

definition DEFAULT_SELECTION_POLICY :: selection_policy where
  "DEFAULT_SELECTION_POLICY = \<lparr>sp_requiredLabel = ''agent:ready'',
     sp_excludedLabels = [''agent:in-progress'', ''agent:review'', ''agent:blocked''],
     sp_fallback = [], sp_priorityLabels = Some DEFAULT_PRIORITY_LABELS, sp_skip = None\<rparr>"

definition priorityRank :: "string list \<Rightarrow> string list option \<Rightarrow> nat" where
  "priorityRank labels priorities =
     index_of (\<lambda>l. l \<in> set labels) (case priorities of Some ps \<Rightarrow> ps | None \<Rightarrow> DEFAULT_PRIORITY_LABELS)"

definition state_text :: "issue_state \<Rightarrow> string" where
  "state_text s = (case s of IssueOpen \<Rightarrow> ''open'' | IssueClosed \<Rightarrow> ''closed'')"

definition by_number :: "issue_summary list \<Rightarrow> (nat \<times> issue_summary) list" where
  "by_number issues = foldl (\<lambda>m i. AList.update (is_number i) i m) [] issues"

definition issue_ref :: "nat \<Rightarrow> string" where "issue_ref n = ''#'' @ dec n"

definition dependency_of :: "issue_summary list \<Rightarrow> nat \<Rightarrow> dependency_state" where
  "dependency_of issues n =
     (case map_of (by_number issues) n of
        None \<Rightarrow> \<lparr>dp_number = n, dp_satisfied = False, dp_detail = issue_ref n @ '' was not found''\<rparr>
      | Some dep \<Rightarrow> \<lparr>dp_number = n, dp_satisfied = (is_state dep = IssueClosed),
                    dp_detail = issue_ref n @ '' is '' @ state_text (is_state dep)\<rparr>)"

definition effective_dependencies :: "selection_policy \<Rightarrow> issue_summary \<Rightarrow> nat list" where
  "effective_dependencies p i =
     (let d = parseDependencyDeclaration (is_body i)
      in if dd_declared d then dd_dependencies d
         else case map_of (sp_fallback p) (is_number i) of Some ns \<Rightarrow> ns | None \<Rightarrow> [])"

definition evaluate_issue :: "issue_summary list \<Rightarrow> selection_policy \<Rightarrow> issue_summary \<Rightarrow> candidate" where
  "evaluate_issue issues p i =
     (let deps = map (dependency_of issues) (effective_dependencies p i);
          unmet = filter (\<lambda>d. \<not> dp_satisfied d) deps;
          reasons =
            (if sp_requiredLabel p \<notin> set (is_labels i)
             then [''missing '' @ tick (sp_requiredLabel p) @ '' label''] else []) @
            concat (map (\<lambda>x. if x \<in> set (is_labels i) then [''carries '' @ tick x] else []) (sp_excludedLabels p)) @
            (if (case sp_skip p of Some ns \<Rightarrow> is_number i \<in> set ns | None \<Rightarrow> False)
             then [''already blocked earlier in this run''] else []) @
            (if length unmet > 0
             then [''unmet dependencies: '' @ join '', '' (map (\<lambda>d. issue_ref (dp_number d)) unmet)] else [])
      in \<lparr>c_issue = i, c_eligible = (length reasons = 0), c_reasons = reasons, c_dependencies = deps\<rparr>)"

definition candidate_key :: "selection_policy \<Rightarrow> candidate \<Rightarrow> nat \<times> nat" where
  "candidate_key p c = (priorityRank (is_labels (c_issue c)) (sp_priorityLabels p), is_number (c_issue c))"

definition evaluateCandidates :: "issue_summary list \<Rightarrow> selection_policy \<Rightarrow> candidate list" where
  "evaluateCandidates issues p =
     sort_by (\<lambda>a b. candidate_key p a \<le> candidate_key p b)
       (map (evaluate_issue issues p) (filter (\<lambda>i. is_state i = IssueOpen) issues))"

record selection_result =
  sr_selected :: "issue_summary option"
  sr_candidates :: "candidate list"
  sr_stopReason :: "string option"

definition selectNextIssue :: "issue_summary list \<Rightarrow> selection_policy \<Rightarrow> selection_result" where
  "selectNextIssue issues p =
     (let candidates = evaluateCandidates issues p
      in case List.find c_eligible candidates of
           Some c \<Rightarrow> \<lparr>sr_selected = Some (c_issue c), sr_candidates = candidates, sr_stopReason = None\<rparr>
         | None \<Rightarrow>
             (let ready = filter (\<lambda>c. sp_requiredLabel p \<in> set (is_labels (c_issue c))) candidates;
                  stop = (if length candidates = 0 then ''no open issues''
                    else if length ready = 0 then ''no open issue carries the '' @ tick (sp_requiredLabel p) @ '' label''
                    else ''every ready issue is blocked, already claimed, or has unmet dependencies'')
              in \<lparr>sr_selected = None, sr_candidates = candidates, sr_stopReason = Some stop\<rparr>))"

subsection \<open>Lemmas on dependencies\<close>

definition positive_distinct :: "nat list \<Rightarrow> bool" where
  "positive_distinct ns \<longleftrightarrow> distinct ns \<and> 0 \<notin> set ns"

lemma collect_positive: "positive_distinct acc \<Longrightarrow> positive_distinct (collectReferences t acc)"
proof -
  have "positive_distinct acc \<Longrightarrow> positive_distinct (foldl (\<lambda>acc m.
     let v = undec (or_empty (group m 1)) in if v > 0 then set_add v acc else acc) acc ms)" for acc ms
    by (induction ms arbitrary: acc) (auto simp: Let_def positive_distinct_def distinct_set_add)
  then show "positive_distinct acc \<Longrightarrow> ?thesis" by (simp add: collectReferences_def)
qed

lemma consume_positive: "positive_distinct deps \<Longrightarrow> positive_distinct (consume_list prev ls deps)"
  by (induction prev ls deps rule: consume_list.induct) (auto simp: collect_positive split: option.split)

lemma scan_positive: "positive_distinct (fst st) \<Longrightarrow> positive_distinct (fst (scan_lines ls st))"
  by (induction ls st rule: scan_lines.induct)
    (auto simp: Let_def collect_positive consume_positive split: option.split)

lemma dependencies_wf:
  "sorted (dd_dependencies (parseDependencyDeclaration b)) \<and> distinct (dd_dependencies (parseDependencyDeclaration b))
   \<and> 0 \<notin> set (dd_dependencies (parseDependencyDeclaration b))"
proof (cases b)
  case (Some t)
  obtain deps found none where st: "scan_lines (lines_of t) ([], False, False) = (deps, found, none)"
    by (cases "scan_lines (lines_of t) ([], False, False)") auto
  have "positive_distinct deps"
    using scan_positive [of "([], False, False)" "lines_of t"] st by (simp add: positive_distinct_def)
  moreover have "sorted (sort_by (\<le>) deps)" by (rule sorted_wrt_sort_by) auto
  moreover have "distinct (sort_by (\<le>) deps) = distinct deps"
    by (metis mset_sort_by mset_eq_imp_distinct_iff)
  ultimately show ?thesis by (simp add: Some parseDependencyDeclaration_def st positive_distinct_def)
qed (simp add: parseDependencyDeclaration_def)

lemma no_heading_undeclared:
  "(\<And>l. l \<in> set (lines_of t) \<Longrightarrow> rx_exec flag_i HEADING l = None) \<Longrightarrow>
    parseDependencyDeclaration (Some t) = \<lparr>dd_declared = False, dd_dependencies = []\<rparr>"
proof -
  assume none: "\<And>l. l \<in> set (lines_of t) \<Longrightarrow> rx_exec flag_i HEADING l = None"
  have "scan_lines ls ([], False, False) = ([], False, False)"
    if "\<And>l. l \<in> set ls \<Longrightarrow> rx_exec flag_i HEADING l = None" for ls
    using that by (induction ls) auto
  with none show ?thesis by (simp add: parseDependencyDeclaration_def sort_by_def)
qed

subsection \<open>Lemmas on selection\<close>

lemma map_of_by_number:
  "map_of (by_number issues) n = List.find (\<lambda>i. is_number i = n) (rev issues)"
proof -
  have "map_of (foldl (\<lambda>m i. AList.update (is_number i) i m) m0 issues) n =
      (case List.find (\<lambda>i. is_number i = n) (rev issues) of Some i \<Rightarrow> Some i | None \<Rightarrow> map_of m0 n)" for m0
    by (induction issues arbitrary: m0) (auto simp: update_conv' find_append split: option.split)
  from this [of "[]"] show ?thesis by (simp add: by_number_def split: option.split)
qed

text \<open>What it takes for an issue to be eligible.\<close>

definition eligible :: "issue_summary list \<Rightarrow> selection_policy \<Rightarrow> issue_summary \<Rightarrow> bool" where
  "eligible issues p i \<longleftrightarrow>
     sp_requiredLabel p \<in> set (is_labels i)
   \<and> set (sp_excludedLabels p) \<inter> set (is_labels i) = {}
   \<and> (\<forall>ns. sp_skip p = Some ns \<longrightarrow> is_number i \<notin> set ns)
   \<and> (\<forall>n \<in> set (effective_dependencies p i). dp_satisfied (dependency_of issues n))"

lemma eligible_iff: "c_eligible (evaluate_issue issues p i) \<longleftrightarrow> eligible issues p i"
  by (auto simp: evaluate_issue_def Let_def eligible_def filter_empty_conv split: option.splits)

lemma dependency_satisfied:
  "dp_satisfied (dependency_of issues n) \<longleftrightarrow>
    (\<exists>d. List.find (\<lambda>i. is_number i = n) (rev issues) = Some d \<and> is_state d = IssueClosed)"
  by (auto simp: dependency_of_def map_of_by_number split: option.split)

lemma c_issue_evaluate [simp]: "c_issue (evaluate_issue issues p i) = i"
  by (simp add: evaluate_issue_def Let_def)

definition issue_key :: "selection_policy \<Rightarrow> issue_summary \<Rightarrow> nat \<times> nat" where
  "issue_key p i = (priorityRank (is_labels i) (sp_priorityLabels p), is_number i)"

lemma candidate_key_evaluate [simp]: "candidate_key p (evaluate_issue issues p i) = issue_key p i"
  by (simp add: candidate_key_def issue_key_def)

lemma set_candidates:
  "set (evaluateCandidates issues p) = evaluate_issue issues p ` {i \<in> set issues. is_state i = IssueOpen}"
  by (auto simp: evaluateCandidates_def)

lemma candidates_sorted: "sorted_wrt (\<lambda>a b. candidate_key p a \<le> candidate_key p b) (evaluateCandidates issues p)"
  unfolding evaluateCandidates_def by (rule sorted_wrt_sort_by) auto

lemma find_first_least:
  assumes "sorted_wrt r xs" and "List.find q xs = Some x" and "y \<in> set xs" "q y" and "r x x"
  shows "r x y"
  using assms by (induction xs) (auto split: if_splits)

lemma selected_least:
  assumes "sr_selected (selectNextIssue issues p) = Some i"
  shows "i \<in> set issues \<and> is_state i = IssueOpen \<and> eligible issues p i \<and>
    (\<forall>j \<in> set issues. is_state j = IssueOpen \<and> eligible issues p j \<longrightarrow> issue_key p i \<le> issue_key p j)"
proof -
  obtain c where c: "List.find c_eligible (evaluateCandidates issues p) = Some c" "i = c_issue c"
    using assms by (auto simp: selectNextIssue_def Let_def split: option.splits)
  obtain k where k: "k \<in> set issues" "is_state k = IssueOpen" "c = evaluate_issue issues p k" "c_eligible c"
    using find_Some_mem [OF c(1)] by (auto simp: set_candidates)
  have "issue_key p i \<le> issue_key p j" if "j \<in> set issues" "is_state j = IssueOpen" "eligible issues p j" for j
  proof -
    have "candidate_key p c \<le> candidate_key p (evaluate_issue issues p j)"
      by (rule find_first_least [OF candidates_sorted c(1)]) (use that in \<open>auto simp: set_candidates eligible_iff\<close>)
    then show ?thesis using c(2) k(3) by simp
  qed
  then show ?thesis using k c(2) by (auto simp: eligible_iff)
qed

lemma not_selected:
  "sr_selected (selectNextIssue issues p) = None \<longleftrightarrow>
    (\<forall>i \<in> set issues. is_state i = IssueOpen \<longrightarrow> \<not> eligible issues p i)"
proof -
  have "sr_selected (selectNextIssue issues p) = None \<longleftrightarrow> List.find c_eligible (evaluateCandidates issues p) = None"
    by (simp add: selectNextIssue_def Let_def split: option.split)
  then show ?thesis by (auto simp: find_None_all set_candidates eligible_iff)
qed

lemma stop_reason_iff: "sr_stopReason (selectNextIssue issues p) = None \<longleftrightarrow> sr_selected (selectNextIssue issues p) \<noteq> None"
  by (auto simp: selectNextIssue_def Let_def split: option.split)

lemma find_number_perm:
  assumes "set is = set js" and "distinct (map is_number is)" and "distinct (map is_number js)"
  shows "List.find (\<lambda>i. is_number i = n) (rev is) = List.find (\<lambda>i. is_number i = n) (rev js)"
proof -
  have find: "List.find (\<lambda>i. is_number i = n) ks = Some k \<longleftrightarrow> k \<in> set ks \<and> is_number k = n"
    if "distinct (map is_number ks)" for ks k
    using that by (induction ks) (auto simp: rev_image_eqI)
  have one: "List.find (\<lambda>i. is_number i = n) (rev ks) = Some k \<longleftrightarrow> k \<in> set ks \<and> is_number k = n"
    if "distinct (map is_number ks)" for ks k
    using find [of "rev ks" k] that by (simp add: rev_map [symmetric])
  show ?thesis
  proof (cases "List.find (\<lambda>i. is_number i = n) (rev is)")
    case None
    then have "List.find (\<lambda>i. is_number i = n) (rev js) = None"
      using assms(1) by (simp add: find_None_all)
    with None show ?thesis by simp
  next
    case (Some k)
    then have "List.find (\<lambda>i. is_number i = n) (rev js) = Some k"
      using one [OF assms(2), of k] one [OF assms(3), of k] assms(1) by simp
    with Some show ?thesis by simp
  qed
qed

text \<open>The choice depends on the backlog as a set, not on the order it is listed in.\<close>

lemma selection_order_independent:
  assumes "set is = set js" and "distinct (map is_number is)" and "distinct (map is_number js)"
  shows "sr_selected (selectNextIssue is p) = sr_selected (selectNextIssue js p)"
proof -
  have el: "eligible is p k = eligible js p k" for k
    unfolding eligible_def dependency_satisfied using find_number_perm [OF assms] by simp
  show ?thesis
  proof (cases "sr_selected (selectNextIssue is p)")
    case None
    then have "sr_selected (selectNextIssue js p) = None" using assms(1) el by (simp add: not_selected)
    with None show ?thesis by simp
  next
    case (Some i)
    note i = selected_least [OF Some]
    then have "sr_selected (selectNextIssue js p) \<noteq> None" using assms(1) el by (auto simp: not_selected)
    then obtain j where j': "sr_selected (selectNextIssue js p) = Some j" by blast
    note j = selected_least [OF j']
    have "issue_key p i = issue_key p j"
      using i j assms(1) el by (intro antisym) auto
    then have "is_number i = is_number j" by (simp add: issue_key_def)
    then have "i = j" using i j assms(1,2) by (auto simp: distinct_map inj_on_def)
    with Some j' show ?thesis by simp
  qed
qed

text \<open>
  With only open issues in view, as the local runner lists them, a dependency is never
  satisfied: an issue that declares one is not eligible.
\<close>

lemma open_only_stalls:
  assumes "\<forall>i \<in> set issues. is_state i = IssueOpen" and "effective_dependencies p i \<noteq> []"
  shows "\<not> eligible issues p i"
proof -
  obtain n where "n \<in> set (effective_dependencies p i)" using assms(2) by (cases "effective_dependencies p i") auto
  moreover have "\<not> dp_satisfied (dependency_of issues n)"
    using assms(1) by (auto simp: dependency_satisfied dest: find_Some_mem)
  ultimately show ?thesis by (auto simp: eligible_def)
qed

end
