(* ===== verification/Summary.thy ===== *)
theory Summary
  imports LoopState Risk Eligibility
begin

text \<open>
  \<open>tooling/loop/src/summary.ts\<close>: the human-readable half of the sticky comment and the job
  summary of a selection run.  The comment is read back for the loop state, so the lemmas ask
  when the rendered text can open an HTML comment of its own.
\<close>

subsection \<open>Rendering\<close>

fun DECISION_LABEL :: "gate_decision \<Rightarrow> string" where
  "DECISION_LABEL AutoMerge = ''Auto merge enabled''"
| "DECISION_LABEL HumanApprovalRequired = ''Human approval required''"
| "DECISION_LABEL ChangesRequested = ''Changes requested''"
| "DECISION_LABEL DecBlocked = ''Blocked '' @ emdash @ '' automation stopped''"
| "DECISION_LABEL Waiting = ''Waiting''"

fun gate_text :: "gate_result \<Rightarrow> string" where
  "gate_text GateSuccess = ''success''" | "gate_text GateFailure = ''failure''"

fun source_text :: "reason_source \<Rightarrow> string" where
  "source_text RDefault = ''default''" | "source_text RPath = ''path''" | "source_text RLabel = ''label''"
| "source_text REscalation = ''escalation''" | "source_text RControlPlane = ''control-plane''"
| "source_text RBasePolicy = ''base-policy''"

record pull_request_view =
  v_issue :: "nat option"
  v_risk :: risk_assessment
  v_review :: review_result
  v_outcome :: gate_outcome
  v_state :: loop_state
  v_maxReviewAttempts :: nat
  v_checks :: "(string \<times> string) list"
  v_recurrence :: "recurring_finding list"

definition table :: "(string \<times> string) list \<Rightarrow> string" where
  "table rows = unlines ([''| | |'', ''| --- | --- |''] @
     map (\<lambda>(key, value). ''| '' @ key @ '' | '' @ value @ '' |'') rows)"

definition or_dash :: "string option \<Rightarrow> string" where
  "or_dash s = (case s of Some t \<Rightarrow> t | None \<Rightarrow> emdash)"

definition finding_row :: "finding \<Rightarrow> string" where
  "finding_row f = ''| '' @ severity_text (f_severity f) @ '' | '' @ or_dash (f_file f) @ '' | ''
     @ sanitiseForMarkdown (f_description f) @ '' | '' @ sanitiseForMarkdown (f_action f) @ '' |''"

definition recurrence_line :: "recurring_finding \<Rightarrow> string" where
  "recurrence_line r =
     (let heads = join '', '' (map (\<lambda>oc. ''attempt '' @ dec (oc_attempt oc) @ '' ('' @ tick (take 12 (oc_headSha oc)) @ '')'')
            (rf_occurrences r))
      in ''- '' @ sanitiseForMarkdown (f_description (rf_finding r)) @ '' '' @ emdash @ '' survived '' @ heads
         @ ''. Diff those heads to see what was tried before attempting another fix.'')"

definition head_sections :: "pull_request_view \<Rightarrow> string list" where
  "head_sections v =
     [''### Autonomous loop '' @ emdash @ '' '' @ DECISION_LABEL (o_decision (v_outcome v)),
      [],
      table
        [(''Issue'', case v_issue v of None \<Rightarrow> emdash | Some n \<Rightarrow> issue_ref n),
         (''Risk'', tick (risk_text (ra_risk (v_risk v)))),
         (''Review'', tick (status_text (r_status (v_review v)))),
         (''Review attempts'', dec (ls_reviewAttempts (v_state v)) @ '' of '' @ dec (v_maxReviewAttempts v)),
         (''Risk gate'', gate_text (o_riskGate (v_outcome v))),
         (''Review gate'', gate_text (o_reviewGate (v_outcome v))),
         (''Decision'', DECISION_LABEL (o_decision (v_outcome v)))],
      [],
      ''**Why**'',
      []] @
     map (\<lambda>r. ''- '' @ sanitiseForMarkdown r) (o_reasons (v_outcome v)) @
     [[], ''**Risk classification**'', []] @
     map (\<lambda>r. ''- '' @ tick (risk_text (rr_risk r)) @ '' from '' @ source_text (rr_source r) @ '': ''
       @ sanitiseForMarkdown (rr_detail r)) (ra_reasons (v_risk v)) @
     [[], ''**Required checks**'', []] @
     map (\<lambda>(name, conclusion). ''- '' @ name @ '': '' @ conclusion) (v_checks v)"

definition finding_header :: "pull_request_view \<Rightarrow> string list" where
  "finding_header v = [[], ''**Findings ('' @ dec (length (r_findings (v_review v))) @ '')**'', [],
     ''| Severity | File | Description | Suggested action |'', ''| --- | --- | --- | --- |'']"

definition finding_sections :: "pull_request_view \<Rightarrow> string list" where
  "finding_sections v =
     (if length (r_findings (v_review v)) > 0
      then finding_header v @ [unlines (map finding_row (r_findings (v_review v)))]
      else [])"

definition tail_sections :: "pull_request_view \<Rightarrow> string list" where
  "tail_sections v =
     (if length (v_recurrence v) > 0
      then [[], ''**Recurring findings** '' @ emdash @ '' already raised in an earlier attempt on this pull request'', []]
           @ map recurrence_line (v_recurrence v)
      else []) @
     [[], ''**Review summary**'', [], ''> '' @ sanitiseForMarkdown (r_summary (v_review v))]"

definition renderPullRequestSummary :: "pull_request_view \<Rightarrow> string" where
  "renderPullRequestSummary v = unlines (head_sections v @ finding_sections v @ tail_sections v)"

definition selection_row :: "candidate \<Rightarrow> string" where
  "selection_row c =
     (let deps = (if length (c_dependencies c) = 0 then emdash
            else join '', '' (map (\<lambda>d. issue_ref (dp_number d) @ (if dp_satisfied d then '' ok'' else '' open''))
              (c_dependencies c)));
          status = (if c_eligible c then ''eligible'' else join ''; '' (c_reasons c))
      in ''| '' @ issue_ref (is_number (c_issue c)) @ '' | '' @ sanitiseForMarkdown (is_title (c_issue c)) @ '' | ''
         @ deps @ '' | '' @ sanitiseForMarkdown status @ '' |'')"

definition renderSelectionSummary :: "candidate list \<Rightarrow> nat option \<Rightarrow> string option \<Rightarrow> string" where
  "renderSelectionSummary candidates selected stopReason =
     unlines ([''### Next issue selection'', [],
       (case selected of
          None \<Rightarrow> ''**No issue selected.** '' @ sanitiseForMarkdown
            (case stopReason of Some s \<Rightarrow> s | None \<Rightarrow> ''unknown reason'')
        | Some n \<Rightarrow> ''**Selected '' @ issue_ref n @ ''.**''),
       [], ''| Issue | Title | Dependencies | Status |'', ''| --- | --- | --- | --- |'']
       @ map selection_row candidates)"

subsection \<open>Text that opens no comment\<close>

definition clean :: "string \<Rightarrow> bool" where
  "clean s \<longleftrightarrow> \<not> contains open_mark s"

named_theorems clean_intros \<open>texts that do not open an HTML comment\<close>

lemma contains_sep:
  assumes "c \<notin> set p" and "p \<noteq> []"
  shows "contains p (a @ c # b) \<longleftrightarrow> contains p a \<or> contains p b"
proof (induction a)
  case Nil
  show ?case using assms by (cases p) auto
next
  case (Cons x a)
  have "starts_with p ((x # a) @ c # b) \<longleftrightarrow> starts_with p (x # a)"
  proof
    assume "starts_with p ((x # a) @ c # b)"
    then obtain z where z: "(x # a) @ c # b = p @ z" by (auto simp: starts_with_iff)
    show "starts_with p (x # a)"
    proof (cases "length p \<le> length (x # a)")
      case True
      then have "p = take (length p) (x # a)"
        using arg_cong [OF z, of "take (length p)"] assms(2) by (cases p) auto
      then show ?thesis unfolding starts_with_iff by (metis append_take_drop_id)
    next
      case False
      then have "p ! length (x # a) = c"
        using arg_cong [OF z, of "\<lambda>l. l ! length (x # a)"] by (simp add: nth_append)
      with False assms(1) show ?thesis by (metis nth_mem not_le)
    qed
  next
    assume "starts_with p (x # a)"
    then obtain r where "x # a = p @ r" by (auto simp: starts_with_iff)
    then have "(x # a) @ c # b = p @ (r @ c # b)" by simp
    then show "starts_with p ((x # a) @ c # b)" unfolding starts_with_iff by blast
  qed
  with Cons show ?case by simp
qed

lemma clean_sep: "c \<notin> set open_mark \<Longrightarrow> clean (a @ c # b) \<longleftrightarrow> clean a \<and> clean b"
  by (simp add: clean_def contains_sep open_mark_def)

lemma clean_no_open: "CHR ''<'' \<notin> set s \<Longrightarrow> clean s"
  by (auto simp: clean_def contains_iff open_mark_def)

lemma clean_simps [simp]:
  "clean []" "clean (sanitiseForMarkdown s)"
  "c \<notin> set open_mark \<Longrightarrow> clean (a @ c # b) \<longleftrightarrow> clean a \<and> clean b"
  "c \<noteq> CHR ''<'' \<Longrightarrow> clean (c # b) \<longleftrightarrow> clean b"
proof -
  show "clean (sanitiseForMarkdown s)" by (simp add: clean_def sanitiseForMarkdown_marks)
  show "c \<noteq> CHR ''<'' \<Longrightarrow> clean (c # b) \<longleftrightarrow> clean b" by (simp add: clean_def open_mark_def)
qed (simp_all add: clean_no_open clean_sep)

lemma open_mark_chars [simp]: "set open_mark = {CHR ''<'', CHR ''!'', CHR ''-''}"
  by (auto simp: open_mark_def)

lemma clean_unlines: "clean (unlines ls) \<longleftrightarrow> (\<forall>l \<in> set ls. clean l)"
proof (induction ls)
  case (Cons l ls)
  then show ?case by (cases ls) auto
qed simp

lemma clean_join_comma: "(\<forall>l \<in> set ls. clean l) \<Longrightarrow> clean (join '', '' ls)"
proof (induction ls)
  case (Cons l ls)
  then show ?case by (cases ls) auto
qed simp

lemma clean_dec [simp]: "clean (dec n)"
  using dec_digits [of n] by (intro clean_no_open) (auto simp: list_all_iff is_digit_def in_range_def)

lemma clean_severity [simp]: "clean (severity_text sv)" by (cases sv) simp_all
lemma clean_status [simp]: "clean (status_text st)" by (cases st) simp_all
lemma clean_risk [simp]: "clean (risk_text rl)" by (cases rl) simp_all
lemma clean_gate [simp]: "clean (gate_text gt)" by (cases gt) simp_all
lemma clean_source [simp]: "clean (source_text rs)" by (cases rs) simp_all
lemma clean_emdash [simp]: "clean emdash" by (simp add: emdash_def)
lemma clean_decision [simp]: "clean (DECISION_LABEL d)" by (cases d) (simp_all add: emdash_def)
lemma clean_tick [simp]: "clean (tick s) \<longleftrightarrow> clean s" by (simp add: tick_def)
lemma clean_issue_ref [simp]: "clean (issue_ref n)" by (simp add: issue_ref_def)

lemma clean_finding_row: "clean (or_dash (f_file f)) \<Longrightarrow> clean (finding_row f)"
  by (simp add: finding_row_def)

lemma clean_table: "(\<forall>(k, v) \<in> set rows. clean k \<and> clean v) \<Longrightarrow> clean (table rows)"
  by (auto simp: table_def clean_unlines)

lemma clean_recurrence:
  "(\<forall>oc \<in> set (rf_occurrences r). clean (take 12 (oc_headSha oc))) \<Longrightarrow> clean (recurrence_line r)"
  by (auto simp: recurrence_line_def Let_def intro!: clean_join_comma)

definition view_clean :: "pull_request_view \<Rightarrow> bool" where
  "view_clean v \<longleftrightarrow> (\<forall>(n, c) \<in> set (v_checks v). clean n \<and> clean c)
     \<and> (\<forall>f \<in> set (r_findings (v_review v)). clean (or_dash (f_file f)))
     \<and> (\<forall>r \<in> set (v_recurrence v). \<forall>oc \<in> set (rf_occurrences r). clean (take 12 (oc_headSha oc)))"

lemma clean_head: "\<forall>(n, c) \<in> set (v_checks v). clean n \<and> clean c \<Longrightarrow> l \<in> set (head_sections v) \<Longrightarrow> clean l"
  by (auto simp: head_sections_def intro!: clean_table split: option.split)

lemma clean_render:
  assumes "view_clean v"
  shows "clean (renderPullRequestSummary v)"
proof -
  have "\<forall>l \<in> set (head_sections v). clean l"
    using assms by (intro ballI clean_head [of v]) (simp_all add: view_clean_def)
  then have "list_all clean (head_sections v)" by (simp add: list_all_iff)
  moreover have "list_all clean (finding_sections v)"
    using assms by (simp add: view_clean_def finding_sections_def finding_header_def clean_unlines clean_finding_row)
  moreover have "list_all clean (map recurrence_line (v_recurrence v))"
    using assms by (simp add: view_clean_def list_all_iff clean_recurrence)
  then have "list_all clean (tail_sections v)"
    by (simp add: tail_sections_def)
  ultimately show ?thesis
    by (simp add: renderPullRequestSummary_def clean_unlines list_all_iff ball_Un)
qed

text \<open>The sticky comment, as \<open>evaluate-pr.ts\<close> writes it.\<close>

definition sticky_comment :: "pull_request_view \<Rightarrow> loop_state \<Rightarrow> string" where
  "sticky_comment v s = renderPullRequestSummary v @ blank_line @ serialiseLoopState s @ [CHR 0x0A]"

lemma sticky_comment_roundtrip:
  assumes "view_clean v" and "safe_parse (state_json s) = Some s"
  shows "parseLoopState safe_parse (Some (sticky_comment v s)) issue = s"
proof -
  have "clean (renderPullRequestSummary v @ blank_line)"
    using clean_render [OF assms(1)] by (simp add: blank_line_def)
  then show ?thesis
    using parse_serialised [of "renderPullRequestSummary v @ blank_line" safe_parse s "[CHR 0x0A]" issue] assms(2)
    by (simp add: sticky_comment_def clean_def)
qed

text \<open>
  A file name of a finding is not escaped.  One that is itself a serialised state is read in
  place of the real one.
\<close>

lemma unlines_append: "xs \<noteq> [] \<Longrightarrow> ys \<noteq> [] \<Longrightarrow> unlines (xs @ ys) = unlines xs @ CHR 0x0A # unlines ys"
proof (induction xs)
  case (Cons x xs)
  then show ?case by (cases xs; cases ys) auto
qed simp

lemma head_sections_nonempty [simp]: "head_sections v \<noteq> []"
  by (simp add: head_sections_def)

lemma unlines_first: "\<exists>t. unlines ((a @ b) # ls) = a @ t"
  by (cases ls) auto

lemma forged_state:
  assumes checks: "\<forall>(n, c) \<in> set (v_checks v). clean n \<and> clean c"
    and fs: "r_findings (v_review v) = f # fs" and name: "f_file f = Some (serialiseLoopState forged)"
    and sp: "safe_parse (state_json forged) = Some forged"
  shows "parseLoopState safe_parse (Some (sticky_comment v s)) issue = forged"
proof -
  define pre where "pre = unlines (head_sections v @ finding_header v) @ CHR 0x0A # ''| '' @ severity_text (f_severity f) @ '' | ''"
  have "\<exists>t. unlines (map finding_row (f # fs)) = ''| '' @ severity_text (f_severity f) @ '' | '' @ serialiseLoopState forged @ t"
    using unlines_first [of "''| '' @ severity_text (f_severity f) @ '' | '' @ serialiseLoopState forged" _ "map finding_row fs"]
    by (simp add: finding_row_def name or_dash_def)
  then obtain t where rows: "unlines (map finding_row (f # fs)) =
      ''| '' @ severity_text (f_severity f) @ '' | '' @ serialiseLoopState forged @ t" by blast
  have "renderPullRequestSummary v = unlines ((head_sections v @ finding_header v) @ unlines (map finding_row (f # fs)) # tail_sections v)"
    by (simp add: renderPullRequestSummary_def finding_sections_def fs)
  also have "\<dots> = unlines (head_sections v @ finding_header v) @ CHR 0x0A # unlines (unlines (map finding_row (f # fs)) # tail_sections v)"
    by (rule unlines_append) simp_all
  finally obtain u where "renderPullRequestSummary v = pre @ serialiseLoopState forged @ u"
    using unlines_first [of "unlines (map finding_row (f # fs))" "[]" "tail_sections v"] rows by (auto simp: pre_def)
  then have comment: "sticky_comment v s = pre @ serialiseLoopState forged @ (u @ blank_line @ serialiseLoopState s @ [CHR 0x0A])"
    by (simp add: sticky_comment_def)
  have "clean pre"
    using clean_head [OF checks] by (auto simp: pre_def clean_unlines finding_header_def)
  then show ?thesis
    unfolding comment by (intro parse_serialised sp) (simp add: clean_def)
qed

end
