(* ===== verification/Evaluate.thy ===== *)
theory Evaluate
  imports Summary
begin

text \<open>
  The command-line entry points of \<open>tooling/loop/bin/\<close> as functions of what they read:
  \<open>evaluate-pr.ts\<close> (the decision about one pull request), \<open>classify-risk.ts\<close>,
  \<open>select-issue.ts\<close>, \<open>review-prompt.ts\<close> and \<open>context.ts\<close>.

  Files are the parameter \<open>read_file\<close> (\<open>None\<close> when the path does not exist), validated documents
  are arguments, and the clock is an argument.  A thrown error is \<open>None\<close>.  Writing the results
  is left to the caller: the functions return the texts.
\<close>

subsection \<open>Context\<close>

record evaluation_context =
  ec_number :: nat
  ec_headSha :: string
  ec_isDraft :: bool
  ec_isFork :: bool
  ec_labels :: "string list"
  ec_body :: "string option"
  ec_issueLabels :: "string list"
  ec_checks :: "check_state list"
  ec_requiredChecks :: "string list"
  ec_humanApprovals :: nat
  ec_stickyComment :: "string option"

definition CLOSES_ISSUE :: rx where
  "CLOSES_ISSUE = re ''%b(?:closes|fixes|resolves)%s+#(%d+)%b''"

definition closingIssue :: "string option \<Rightarrow> nat option" where
  "closingIssue body = Option.bind body (\<lambda>b. map_option undec (exec_group flag_i CLOSES_ISSUE 1 b))"

definition required_env :: "string option \<Rightarrow> string option" where
  "required_env v = (case v of None \<Rightarrow> None | Some s \<Rightarrow> if trim s = [] then None else Some s)"

subsection \<open>Evaluating a pull request\<close>

definition unavailableReview :: "string \<Rightarrow> review_result" where
  "unavailableReview why = \<lparr>r_status = Blocked,
     r_findings = [\<lparr>f_severity = SHigh, f_file = None, f_line = None,
       f_description = ''The review agent produced no result ('' @ why @ '').'',
       f_action = ''Configure a review agent provider (see docs/loop-engineering.md), or review and merge this pull request by hand.'',
       f_source = ''review-availability'', f_category = ''automation''\<rparr>],
     r_summary = ''No usable review agent result: '' @ why\<rparr>"

definition reviewOutputPaths :: "string option \<Rightarrow> string list" where
  "reviewOutputPaths v = filter (\<lambda>p. p \<noteq> []) (map trim (split_on (CHR '':'') (or_empty v)))"

record evaluation_env =
  ev_localeCompare :: "string \<Rightarrow> string \<Rightarrow> bool"
  ev_safeParseReview :: "json \<Rightarrow> zod_issue list + review_result"
  ev_safeParseState :: "json \<Rightarrow> loop_state option"
  ev_syntaxMessage :: "string \<Rightarrow> string"
  ev_readFile :: "string \<Rightarrow> string option"
  ev_now :: string

definition agent_review :: "evaluation_env \<Rightarrow> string \<Rightarrow> review_result" where
  "agent_review ev path = (case ev_readFile ev path of
       Some text \<Rightarrow> outcome_result (parseReviewText (ev_safeParseReview ev) (ev_syntaxMessage ev) text)
     | None \<Rightarrow> unavailableReview ''the review agent wrote no output'')"

definition agentReviews :: "evaluation_env \<Rightarrow> string option \<Rightarrow> review_result list" where
  "agentReviews ev v = (let paths = reviewOutputPaths v
     in if length paths = 0 then [unavailableReview ''no review agent is configured'']
        else map (agent_review ev) paths)"

definition gate_reviews :: "review_result list \<Rightarrow> finding list \<Rightarrow> severity \<Rightarrow> review_result list" where
  "gate_reviews agents deterministic blocking =
     map (\<lambda>(i, r). if i = 0 then mergeReview r deterministic blocking else r) (enumerate 0 agents)"

definition conclusion_text :: "check_conclusion \<Rightarrow> string" where
  "conclusion_text c = (case c of CSuccess \<Rightarrow> ''success'' | CFailure \<Rightarrow> ''failure'' | CPending \<Rightarrow> ''pending''
     | CSkipped \<Rightarrow> ''skipped'' | CNeutral \<Rightarrow> ''neutral'' | CCancelled \<Rightarrow> ''cancelled''
     | CTimedOut \<Rightarrow> ''timed_out'' | CMissing \<Rightarrow> ''missing'')"

definition weakenedProtections :: "loop_policy \<Rightarrow> loop_policy option \<Rightarrow> pull_request_diff \<Rightarrow> finding list" where
  "weakenedProtections policy proposed d = (case proposed of
       None \<Rightarrow> findUnsafeWorkflowChanges d
     | Some hp \<Rightarrow> findWeakenedProtections policy hp d @ findUnsafeWorkflowChanges d)"

record evaluation =
  e_risk :: risk_assessment
  e_outcome :: gate_outcome
  e_state :: loop_state
  e_issue :: "nat option"
  e_recurrence :: "recurring_finding list"
  e_view :: pull_request_view
  e_comment :: string
  e_output :: string

definition gate_input_of ::
  "loop_policy \<Rightarrow> evaluation_context \<Rightarrow> risk_level \<Rightarrow> review_result list \<Rightarrow> loop_state \<Rightarrow> finding list \<Rightarrow> gate_input" where
  "gate_input_of policy ctx risk reviews previous weak =
     \<lparr>g_risk = risk, g_reviews = reviews, g_requiredReviewers = reviewersForRisk policy risk,
      g_checks = ec_checks ctx, g_requiredChecks = ec_requiredChecks ctx,
      g_reviewAttempts = ls_reviewAttempts previous,
      g_maxReviewAttempts = maxReviewAttempts (pol_retry policy),
      g_humanApprovals = ec_humanApprovals ctx, g_isFork = ec_isFork ctx, g_isDraft = ec_isDraft ctx,
      g_blockingSeverity = pol_blockingSeverity policy, g_weakened = Some weak,
      g_humanHold = Some (HUMAN_HOLD_LABEL \<in> set (ec_labels ctx @ ec_issueLabels ctx)), g_tier = None\<rparr>"

definition retained_findings :: "gate_outcome \<Rightarrow> severity \<Rightarrow> finding_record list" where
  "retained_findings outcome blocking =
     (if o_decision outcome = ChangesRequested
      then map toFindingRecord (blockingFindings (r_findings (o_review outcome)) blocking) else [])"

definition bool_text :: "bool \<Rightarrow> string" where "bool_text b = (if b then ''true'' else ''false'')"

definition github_output :: "gate_outcome \<Rightarrow> risk_level \<Rightarrow> loop_state \<Rightarrow> nat option \<Rightarrow> string" where
  "github_output outcome risk state issue = unlines
     [''decision='' @ decision_text (o_decision outcome),
      ''risk='' @ risk_text risk,
      ''review_status='' @ status_text (r_status (o_review outcome)),
      ''risk_gate='' @ gate_text (o_riskGate outcome),
      ''review_gate='' @ gate_text (o_reviewGate outcome),
      ''should_dispatch_fix='' @ bool_text (o_shouldDispatchFix outcome),
      ''review_attempts='' @ dec (ls_reviewAttempts state),
      ''issue='' @ (case issue of Some n \<Rightarrow> dec n | None \<Rightarrow> []),
      []]"

definition evaluate_pr ::
  "evaluation_env \<Rightarrow> loop_policy \<Rightarrow> loop_policy option \<Rightarrow> evaluation_context \<Rightarrow> string \<Rightarrow> string option \<Rightarrow>
    evaluation option" where
  "evaluate_pr ev policy proposed ctx diff_text review_output =
     (let d = parseUnifiedDiff diff_text;
          deterministic = runDeterministicChecks (ev_localeCompare ev) d;
          reviews = gate_reviews (agentReviews ev review_output) deterministic (pol_blockingSeverity policy);
          labels = ec_labels ctx @ ec_issueLabels ctx
      in case classifyRiskMonotonic (ev_localeCompare ev) d labels policy proposed of
           None \<Rightarrow> None
         | Some risk \<Rightarrow>
             (let weak = weakenedProtections policy proposed d;
                  issue = closingIssue (ec_body ctx);
                  previous = parseLoopState (ev_safeParseState ev) (ec_stickyComment ctx) issue;
                  outcome = decideMerge (gate_input_of policy ctx (ra_risk risk) reviews previous weak);
                  review = o_review outcome;
                  recurrence = detectRecurrence (r_findings review) (ls_history previous) (ec_headSha ctx);
                  state = recordRound (previous\<lparr>ls_issue := issue\<rparr>) (ec_headSha ctx) (r_status review)
                    (o_decision outcome) (ev_now ev) (retained_findings outcome (pol_blockingSeverity policy));
                  view = \<lparr>v_issue = issue, v_risk = risk, v_review = review, v_outcome = outcome,
                    v_state = state, v_maxReviewAttempts = maxReviewAttempts (pol_retry policy),
                    v_checks = map (\<lambda>name. (name, conclusion_text
                      (case List.find (\<lambda>c. ck_name c = name) (ec_checks ctx) of
                         Some c \<Rightarrow> ck_conclusion c | None \<Rightarrow> CMissing))) (ec_requiredChecks ctx),
                    v_recurrence = recurrence\<rparr>
              in Some \<lparr>e_risk = risk, e_outcome = outcome, e_state = state, e_issue = issue,
                   e_recurrence = recurrence, e_view = view,
                   e_comment = sticky_comment view state,
                   e_output = github_output outcome (ra_risk risk) state issue\<rparr>))"

subsection \<open>Classifying and selecting\<close>

text \<open>A proposed policy that does not parse is ignored by \<open>classify-risk.ts\<close>.\<close>

definition tryParse :: "(json \<Rightarrow> zod_issue list + loop_policy) \<Rightarrow> string \<Rightarrow> loop_policy option" where
  "tryParse safe_parse text = (case json_parse text of
       None \<Rightarrow> None
     | Some raw \<Rightarrow> (case parsePolicy safe_parse raw of Inl _ \<Rightarrow> None | Inr p \<Rightarrow> Some p))"

definition classify_risk ::
  "(string \<Rightarrow> string \<Rightarrow> bool) \<Rightarrow> (json \<Rightarrow> zod_issue list + loop_policy) \<Rightarrow> loop_policy \<Rightarrow> string option \<Rightarrow>
    evaluation_context \<Rightarrow> string \<Rightarrow> (risk_level \<times> nat \<times> bool) option" where
  "classify_risk lc safe_parse policy proposed_text ctx diff_text =
     (case classifyRiskMonotonic lc (parseUnifiedDiff diff_text) (ec_labels ctx @ ec_issueLabels ctx) policy
         (Option.bind proposed_text (tryParse safe_parse)) of
        None \<Rightarrow> None
      | Some a \<Rightarrow> Some (ra_risk a, reviewersForRisk policy (ra_risk a), control_flag cs_affected a))"

definition stop_reason_line :: "string option \<Rightarrow> string" where
  "stop_reason_line s = rx_replace noflags (re ''[%r%n]+'') (\<lambda>_. '' '') (or_empty s)"

definition select_issue :: "issue_summary list \<Rightarrow> (nat \<times> nat list) list \<Rightarrow> selection_result \<times> string \<times> string" where
  "select_issue issues fallback =
     (let result = selectNextIssue issues (DEFAULT_SELECTION_POLICY\<lparr>sp_fallback := fallback\<rparr>);
          number = map_option is_number (sr_selected result)
      in (result,
          renderSelectionSummary (sr_candidates result) number (sr_stopReason result) @ [CHR 0x0A],
          unlines [''selected='' @ (case number of Some n \<Rightarrow> dec n | None \<Rightarrow> []),
            ''has_selection='' @ bool_text (sr_selected result \<noteq> None),
            ''stop_reason='' @ stop_reason_line (sr_stopReason result),
            []]))"

subsection \<open>The review prompt\<close>

definition MAX_SECTION :: nat where "MAX_SECTION = 60000"

definition readOptional :: "(string \<Rightarrow> string option) \<Rightarrow> string option \<Rightarrow> string" where
  "readOptional read_file path = (case path of
       None \<Rightarrow> ''(not provided)''
     | Some p \<Rightarrow> (if trim p = [] then ''(not provided)''
         else case read_file p of None \<Rightarrow> ''(not provided)'' | Some t \<Rightarrow> take MAX_SECTION t))"

definition fenced :: "string \<Rightarrow> string \<Rightarrow> string" where
  "fenced label body = unlines [''### '' @ label, [], ''````text'', body, ''````'', []]"

subsection \<open>Lemmas\<close>

lemma gate_reviews_Cons:
  "gate_reviews (r # rs) det b = mergeReview r det b # rs"
proof -
  have "map (\<lambda>(i, r). if i = 0 then mergeReview r det b else r) (enumerate (Suc n) rs) = rs" for n
    by (induction rs arbitrary: n) auto
  then show ?thesis by (simp add: gate_reviews_def)
qed

lemma agentReviews_nonempty: "agentReviews ev v \<noteq> []"
  by (simp add: agentReviews_def Let_def)

lemma evaluate_pr_outcome:
  assumes "evaluate_pr ev policy proposed ctx dt ro = Some e"
  obtains prev where
    "prev = parseLoopState (ev_safeParseState ev) (ec_stickyComment ctx) (closingIssue (ec_body ctx))"
    "classifyRiskMonotonic (ev_localeCompare ev) (parseUnifiedDiff dt) (ec_labels ctx @ ec_issueLabels ctx) policy proposed
       = Some (e_risk e)"
    "e_outcome e = decideMerge (gate_input_of policy ctx (ra_risk (e_risk e))
       (gate_reviews (agentReviews ev ro) (runDeterministicChecks (ev_localeCompare ev) (parseUnifiedDiff dt))
          (pol_blockingSeverity policy)) prev (weakenedProtections policy proposed (parseUnifiedDiff dt)))"
    "e_state e = recordRound (prev\<lparr>ls_issue := closingIssue (ec_body ctx)\<rparr>) (ec_headSha ctx)
       (r_status (o_review (e_outcome e))) (o_decision (e_outcome e)) (ev_now ev)
       (retained_findings (e_outcome e) (pol_blockingSeverity policy))"
    "e_comment e = sticky_comment (e_view e) (e_state e)"
  using assms by (auto simp: evaluate_pr_def Let_def split: option.splits)

lemma gate_input_fields [simp]:
  "g_reviews (gate_input_of p c r rs pv w) = rs" "g_requiredReviewers (gate_input_of p c r rs pv w) = reviewersForRisk p r"
  "g_blockingSeverity (gate_input_of p c r rs pv w) = pol_blockingSeverity p" "weakened (gate_input_of p c r rs pv w) = w"
  "g_reviewAttempts (gate_input_of p c r rs pv w) = ls_reviewAttempts pv"
  "g_maxReviewAttempts (gate_input_of p c r rs pv w) = maxReviewAttempts (pol_retry p)"
  "g_isFork (gate_input_of p c r rs pv w) = ec_isFork c" "g_humanApprovals (gate_input_of p c r rs pv w) = ec_humanApprovals c"
  "g_requiredChecks (gate_input_of p c r rs pv w) = ec_requiredChecks c" "g_checks (gate_input_of p c r rs pv w) = ec_checks c"
  "tier_unavailable (gate_input_of p c r rs pv w) = []" "tier_failed (gate_input_of p c r rs pv w) = []"
  "g_isDraft (gate_input_of p c r rs pv w) = ec_isDraft c"
  "g_humanHold (gate_input_of p c r rs pv w) = Some (HUMAN_HOLD_LABEL \<in> set (ec_labels c @ ec_issueLabels c))"
  by (simp_all add: gate_input_of_def weakened_def tier_unavailable_def tier_failed_def)

text \<open>What an automatic merge means end to end.\<close>

lemma auto_merge_evidence:
  assumes ev: "evaluate_pr ev policy proposed ctx dt ro = Some e" and am: "o_decision (e_outcome e) = AutoMerge"
  shows "reviewersForRisk policy (ra_risk (e_risk e)) \<le> length (agentReviews ev ro)"
    and "\<forall>r \<in> set (agentReviews ev ro). r_status r = Approve"
    and "\<forall>f \<in> set (runDeterministicChecks (ev_localeCompare ev) (parseUnifiedDiff dt)). f_severity f < pol_blockingSeverity policy"
    and "\<not> ec_isFork ctx" and "HUMAN_HOLD_LABEL \<notin> set (ec_labels ctx @ ec_issueLabels ctx)"
    and "weakenedProtections policy proposed (parseUnifiedDiff dt) = [] \<or> ec_humanApprovals ctx > 0"
proof -
  let ?det = "runDeterministicChecks (ev_localeCompare ev) (parseUnifiedDiff dt)"
  let ?b = "pol_blockingSeverity policy"
  obtain r rs where rs: "agentReviews ev ro = r # rs"
    using agentReviews_nonempty [of ev ro] by (cases "agentReviews ev ro") auto
  obtain prev where out: "e_outcome e = decideMerge (gate_input_of policy ctx (ra_risk (e_risk e))
       (gate_reviews (agentReviews ev ro) ?det ?b) prev (weakenedProtections policy proposed (parseUnifiedDiff dt)))"
    using evaluate_pr_outcome [OF ev] by metis
  have m: "mergeable (gate_input_of policy ctx (ra_risk (e_risk e)) (mergeReview r ?det ?b # rs) prev
      (weakenedProtections policy proposed (parseUnifiedDiff dt)))"
    using am unfolding out decideMerge_auto rs gate_reviews_Cons .
  then show "reviewersForRisk policy (ra_risk (e_risk e)) \<le> length (agentReviews ev ro)"
    "\<not> ec_isFork ctx" "HUMAN_HOLD_LABEL \<notin> set (ec_labels ctx @ ec_issueLabels ctx)"
    "weakenedProtections policy proposed (parseUnifiedDiff dt) = [] \<or> ec_humanApprovals ctx > 0"
    by (simp_all add: mergeable_def rs)
  have "r_status (mergeReview r ?det ?b) = Approve" and tail: "\<forall>x \<in> set rs. r_status x = Approve"
    using m by (simp_all add: mergeable_def)
  then show "\<forall>r \<in> set (agentReviews ev ro). r_status r = Approve"
    "\<forall>f \<in> set ?det. f_severity f < ?b"
    using mergeReview_stricter [of r ?det ?b]
    by (auto simp: rs mergeReview_status not_le split: if_splits)
qed

lemma secret_never_merged:
  assumes "evaluate_pr ev policy proposed ctx dt ro = Some e"
    and "f \<in> set (diff_files (parseUnifiedDiff dt))" and "l \<in> set (df_addedLines f)"
    and "list_ex (pattern_hits l) SECRET_PATTERNS"
  shows "o_decision (e_outcome e) \<noteq> AutoMerge"
proof
  assume am: "o_decision (e_outcome e) = AutoMerge"
  obtain x where "x \<in> set (checkSecrets (parseUnifiedDiff dt))" "f_severity x = SCritical"
    using secrets_complete [OF assms(2,3,4)] by blast
  then have "x \<in> set (runDeterministicChecks (ev_localeCompare ev) (parseUnifiedDiff dt))"
    using findings_in_all(1) by blast
  then have "SCritical < pol_blockingSeverity policy"
    using auto_merge_evidence(3) [OF assms(1) am] \<open>f_severity x = SCritical\<close> by force
  then show False by (cases "pol_blockingSeverity policy") (simp_all add: less_severity_def)
qed

lemma attempts_bounded:
  assumes "evaluate_pr ev policy proposed ctx dt ro = Some e"
    and "prev = parseLoopState (ev_safeParseState ev) (ec_stickyComment ctx) (closingIssue (ec_body ctx))"
  shows "ls_reviewAttempts prev \<le> ls_reviewAttempts (e_state e)
    \<and> ls_reviewAttempts (e_state e) \<le> max (ls_reviewAttempts prev) (maxReviewAttempts (pol_retry policy))"
proof -
  obtain prev' where p: "prev' = prev"
    "e_outcome e = decideMerge (gate_input_of policy ctx (ra_risk (e_risk e))
       (gate_reviews (agentReviews ev ro) (runDeterministicChecks (ev_localeCompare ev) (parseUnifiedDiff dt))
          (pol_blockingSeverity policy)) prev' (weakenedProtections policy proposed (parseUnifiedDiff dt)))"
    "e_state e = recordRound (prev'\<lparr>ls_issue := closingIssue (ec_body ctx)\<rparr>) (ec_headSha ctx)
       (r_status (o_review (e_outcome e))) (o_decision (e_outcome e)) (ev_now ev)
       (retained_findings (e_outcome e) (pol_blockingSeverity policy))"
    using evaluate_pr_outcome [OF assms(1)] assms(2) by metis
  have "o_decision (e_outcome e) = ChangesRequested \<Longrightarrow> ls_reviewAttempts prev < maxReviewAttempts (pol_retry policy)"
    using decideMerge_exhausted [of "gate_input_of policy ctx (ra_risk (e_risk e))
       (gate_reviews (agentReviews ev ro) (runDeterministicChecks (ev_localeCompare ev) (parseUnifiedDiff dt))
          (pol_blockingSeverity policy)) prev' (weakenedProtections policy proposed (parseUnifiedDiff dt))"] p
    by (simp add: not_le [symmetric]) blast
  then show ?thesis
    unfolding p(3) p(1) by (auto simp: recordRound_attempts)
qed

text \<open>The tier computed before the reviews is the one the gate uses.\<close>

lemma classify_agrees:
  assumes "evaluate_pr ev policy proposed ctx dt ro = Some e"
    and "Option.bind text (tryParse sp) = proposed"
  shows "classify_risk (ev_localeCompare ev) sp policy text ctx dt =
    Some (ra_risk (e_risk e), reviewersForRisk policy (ra_risk (e_risk e)), control_flag cs_affected (e_risk e))"
  using evaluate_pr_outcome [OF assms(1)] assms(2) by (fastforce simp: classify_risk_def)

end
