(* ===== verification/Rounds.thy ===== *)
theory Rounds
  imports Evaluate
begin

text \<open>
  The life of one pull request as a step relation.  A round runs \<open>evaluate_pr\<close> on what the world
  looks like at that moment (any diff, any reviews, any checks); the comment it writes is the only
  thing the next round reads back, as \<open>loop-review.yml\<close> does.  The relation carries the
  evaluations made so far.

  The two side conditions of a round are the ones of the sticky comment's round trip: the view
  holds no text that opens an HTML comment, and the schema accepts the state that was written.
\<close>

inductive pr_run :: "evaluation_env \<Rightarrow> loop_policy \<Rightarrow> string option \<Rightarrow> evaluation list \<Rightarrow> bool"
  for ev :: evaluation_env and policy :: loop_policy where
  opened: "pr_run ev policy None []"
| round: "pr_run ev policy c es \<Longrightarrow>
    evaluate_pr ev policy proposed (ctx\<lparr>ec_stickyComment := c\<rparr>) dt ro = Some e \<Longrightarrow>
    view_clean (e_view e) \<Longrightarrow> ev_safeParseState ev (state_json (e_state e)) = Some (e_state e) \<Longrightarrow>
    pr_run ev policy (Some (e_comment e)) (es @ [e])"

inductive_cases pr_run_None: "pr_run ev policy None es"

definition fix_rounds :: "evaluation list \<Rightarrow> nat" where
  "fix_rounds es = length (filter (\<lambda>e. o_decision (e_outcome e) = ChangesRequested) es)"

lemma fix_rounds_simps [simp]:
  "fix_rounds [] = 0"
  "fix_rounds (es @ [e]) = fix_rounds es + (if o_decision (e_outcome e) = ChangesRequested then 1 else 0)"
  by (simp_all add: fix_rounds_def)

text \<open>One round, seen through the state.\<close>

lemma round_state:
  assumes "evaluate_pr ev policy proposed ctx dt ro = Some e"
    and "prev = parseLoopState (ev_safeParseState ev) (ec_stickyComment ctx) (closingIssue (ec_body ctx))"
  shows "ls_reviewAttempts (e_state e) = ls_reviewAttempts prev +
      (if o_decision (e_outcome e) = ChangesRequested then 1 else 0)"
    and "ls_reviewAttempts (e_state e) \<le> max (ls_reviewAttempts prev) (maxReviewAttempts (pol_retry policy))"
    and "e_comment e = sticky_comment (e_view e) (e_state e)"
proof -
  obtain prev' where p: "prev' = prev"
    "e_state e = recordRound (prev'\<lparr>ls_issue := closingIssue (ec_body ctx)\<rparr>) (ec_headSha ctx)
       (r_status (o_review (e_outcome e))) (o_decision (e_outcome e)) (ev_now ev)
       (retained_findings (e_outcome e) (pol_blockingSeverity policy))"
    "e_comment e = sticky_comment (e_view e) (e_state e)"
    using evaluate_pr_outcome [OF assms(1)] assms(2) by metis
  show "e_comment e = sticky_comment (e_view e) (e_state e)" by (rule p(3))
  show "ls_reviewAttempts (e_state e) = ls_reviewAttempts prev +
      (if o_decision (e_outcome e) = ChangesRequested then 1 else 0)"
    unfolding p(2) p(1) by (simp add: recordRound_attempts)
  show "ls_reviewAttempts (e_state e) \<le> max (ls_reviewAttempts prev) (maxReviewAttempts (pol_retry policy))"
    using attempts_bounded [OF assms] by blast
qed

text \<open>What the next round reads is the number of fix rounds asked for so far, whatever its issue is.\<close>

lemma pr_run_attempts:
  assumes "pr_run ev policy c es"
  shows "(\<forall>issue. ls_reviewAttempts (parseLoopState (ev_safeParseState ev) c issue) = fix_rounds es)
    \<and> fix_rounds es \<le> maxReviewAttempts (pol_retry policy)"
  using assms
proof (induction rule: pr_run.induct)
  case opened
  then show ?case by (simp add: parseLoopState_def initialState_def)
next
  case (round c es proposed ctx dt ro e)
  let ?prev = "parseLoopState (ev_safeParseState ev) c (closingIssue (ec_body ctx))"
  have prev: "?prev = parseLoopState (ev_safeParseState ev) (ec_stickyComment (ctx\<lparr>ec_stickyComment := c\<rparr>))
      (closingIssue (ec_body (ctx\<lparr>ec_stickyComment := c\<rparr>)))" by simp
  note st = round_state [OF round.hyps(2) prev]
  have reread: "parseLoopState (ev_safeParseState ev) (Some (e_comment e)) issue = e_state e" for issue
    unfolding st(3) by (intro sticky_comment_roundtrip round.hyps(3,4))
  have "ls_reviewAttempts ?prev = fix_rounds es" using round.IH by blast
  then show ?case unfolding reread using st(1,2) round.IH by (simp add: max_def split: if_splits)
qed

text \<open>The first round does not depend on how a stored state would be read.\<close>

lemma evaluate_fresh:
  assumes "ec_stickyComment ctx = None"
  shows "evaluate_pr (ev\<lparr>ev_safeParseState := sp\<rparr>) policy p ctx dt ro = evaluate_pr ev policy p ctx dt ro"
proof -
  have "agent_review (ev\<lparr>ev_safeParseState := sp\<rparr>) = agent_review ev"
    by (rule ext) (simp add: agent_review_def cong: option.case_cong)
  then have reviews: "agentReviews (ev\<lparr>ev_safeParseState := sp\<rparr>) ro = agentReviews ev ro"
    by (simp only: agentReviews_def)
  have state: "parseLoopState f None issue = initialState issue" for f issue
    by (simp add: parseLoopState_def)
  have fields: "ev_localeCompare (ev\<lparr>ev_safeParseState := sp\<rparr>) = ev_localeCompare ev"
    "ev_now (ev\<lparr>ev_safeParseState := sp\<rparr>) = ev_now ev" by simp_all
  show ?thesis unfolding evaluate_pr_def assms state reviews fields ..
qed

lemma evaluate_total:
  assumes "compile_signals (cp_policySignals (pol_controlPlane policy)) = Some ss"
  shows "\<exists>e. evaluate_pr ev policy None ctx dt ro = Some e"
  using assms by (simp add: evaluate_pr_def Let_def classifyRiskMonotonic_def classifyRisk_def assessControlPlane_def)

end
