(* ===== verification/LoopProperties.thy ===== *)
theory LoopProperties
  imports Samples
begin

text \<open>
  The properties of the single parts of \<open>tooling/loop\<close>: risk, control plane, reviews, diffs,
  globs, dependencies between issues and the stored state.  Each rests on the lemmas of its
  component; the properties that span several parts are in the root theory.
\<close>

section \<open>Risk\<close>

text \<open>C7. The classified risk is the highest of the reasons given for it, every one of them being below it:
  the policy default, each path rule with a matching file, any escalation and any touched
  control-plane file bound it from below.\<close>
theorem risk_justified:
  assumes "classifyRisk lc d labels p = Some a"
  shows "(\<forall>rr \<in> set (ra_reasons a). rr_risk rr \<le> ra_risk a) \<and> (\<exists>rr \<in> set (ra_reasons a). rr_risk rr = ra_risk a)
    \<and> risk_default (pol_risk p) \<le> ra_risk a
    \<and> (\<forall>rule \<in> set (risk_paths (pol_risk p)). \<forall>f \<in> set (diff_files d).
         matchesAnyGlob (rule_patterns rule) (df_path f) \<longrightarrow> rule_risk rule \<le> ra_risk a)
    \<and> (escalation_reasons lc p d \<noteq> [] \<or> control_flag cs_affected a \<longrightarrow> ra_risk a = High)"
  using classifyRisk_reasons [OF assms] classifyRisk_lower_bounds [OF assms] by blast

definition auth_file :: diff_file where
  "auth_file = \<lparr>df_path = ''packages/auth/x.md'', df_status = FModified, df_addedLines = [], df_removedLines = [''a'']\<rparr>"

definition auth_diff :: pull_request_diff where "auth_diff = \<lparr>diff_files = [auth_file]\<rparr>"

lemma auth_risk: "map_option ra_risk (classifyRisk (\<le>) auth_diff [] sample_policy) = Some High"
  by code_simp

lemma risk_justified_witness:
  "\<exists>a. classifyRisk (\<le>) auth_diff [] sample_policy = Some a \<and> (\<exists>rr \<in> set (ra_reasons a). rr_risk rr = High)"
proof -
  obtain a where a: "classifyRisk (\<le>) auth_diff [] sample_policy = Some a" "ra_risk a = High"
    using auth_risk by blast
  then show ?thesis using risk_justified [OF a(1)] by auto
qed

text \<open>C6. Labels can only raise the risk, and a proposed policy can only raise it above what the policy of
  the base branch says.\<close>
theorem risk_never_lowered:
  assumes "classifyRisk lc d labels base = Some a" and "set labels \<subseteq> set labels'"
    and "classifyRiskMonotonic lc d labels' base head = Some b"
  shows "ra_risk a \<le> ra_risk b"
proof -
  have "classifyRisk lc d labels' base \<noteq> None" using assms(3) by (auto simp: classifyRiskMonotonic_def split: option.splits)
  then obtain c where c: "classifyRisk lc d labels' base = Some c" by blast
  have "ra_risk a \<le> ra_risk c" using classifyRisk_labels_mono [OF assms(1) c assms(2)] .
  also have "ra_risk c \<le> ra_risk b" using monotonic_base [OF c assms(3)] .
  finally show ?thesis .
qed

definition lax_policy :: loop_policy where
  "lax_policy = sample_policy\<lparr>pol_risk := (pol_risk sample_policy)\<lparr>risk_paths := []\<rparr>\<rparr>"

lemma lax_classified: "map_option ra_risk (classifyRiskMonotonic (\<le>) auth_diff [''x''] sample_policy (Some lax_policy)) \<noteq> None"
  by code_simp

lemma risk_never_lowered_witness:
  "\<exists>b. classifyRiskMonotonic (\<le>) auth_diff [''x''] sample_policy (Some lax_policy) = Some b \<and> ra_risk b = High"
proof -
  obtain a where a: "classifyRisk (\<le>) auth_diff [] sample_policy = Some a" "ra_risk a = High"
    using auth_risk by blast
  obtain b where b: "classifyRiskMonotonic (\<le>) auth_diff [''x''] sample_policy (Some lax_policy) = Some b"
    using lax_classified by auto
  have "High \<le> ra_risk b" using risk_never_lowered [OF a(1) _ b] a(2) by simp
  then show ?thesis using b by auto
qed

text \<open>C12. The verification steps of a tier exist exactly when its chain of \<open>inherits\<close> is grounded, no step
  runs twice, every step of the tier runs, and the steps of the inherited tier come first, in
  their order.\<close>
theorem tier_steps_inherited:
  "(stepsForRisk p r \<noteq> None \<longleftrightarrow> grounded p r)
   \<and> (\<forall>ys. stepsForRisk p r = Some ys \<longrightarrow> distinct (map step_name ys)
        \<and> step_name ` set (tier_steps (pol_tiers p r)) \<subseteq> step_name ` set ys)
   \<and> (\<forall>l xs ys. tier_inherits (pol_tiers p r) = Some l \<longrightarrow> l \<noteq> r \<longrightarrow> stepsForRisk p l = Some xs \<longrightarrow>
        stepsForRisk p r = Some ys \<longrightarrow> take (length xs) ys = xs)"
proof (intro conjI allI impI)
  show "stepsForRisk p r \<noteq> None \<longleftrightarrow> grounded p r"
    using collect_total [of p r] collect_grounded [of p r] by (fastforce simp: stepsForRisk_def)
next
  fix l xs ys assume "tier_inherits (pol_tiers p r) = Some l" "l \<noteq> r"
    "stepsForRisk p l = Some xs" "stepsForRisk p r = Some ys"
  from stepsForRisk_inherits [OF this] show "take (length xs) ys = xs" by auto
qed (simp_all add: stepsForRisk_distinct)

definition chain_policy :: loop_policy where
  "chain_policy = sample_policy\<lparr>pol_tiers := (\<lambda>r. if r = Low then sample_tier Low
     else (sample_tier r)\<lparr>tier_inherits := Some Low,
       tier_steps := [\<lparr>step_name = ''test'', step_command = ''bun'', step_args = [], step_whenChanged = None,
         step_requires = None, step_requiresProbe = None, step_timeoutMinutes = 10\<rparr>]\<rparr>)\<rparr>"

lemma tier_steps_inherited_witness:
  "\<exists>ys. stepsForRisk chain_policy High = Some ys \<and> distinct (map step_name ys) \<and> ''test'' \<in> step_name ` set ys"
proof -
  have "grounded chain_policy Low" by (rule grounded_none) (simp add: chain_policy_def sample_tier_def)
  then have "grounded chain_policy High"
    by (rule grounded_some [rotated]) (simp add: chain_policy_def sample_tier_def)
  then have "stepsForRisk chain_policy High \<noteq> None" using tier_steps_inherited [of chain_policy High] by blast
  then obtain ys where "stepsForRisk chain_policy High = Some ys" by blast
  then show ?thesis using tier_steps_inherited [of chain_policy High]
    by (auto simp: chain_policy_def sample_tier_def)
qed

section \<open>Control plane\<close>

text \<open>The control-plane assessment lists exactly the files of the diff that a control-plane pattern or
  a policy signal governs, in the order of the diff and with one reason each; it is affected
  exactly when there is one, and policy bearing exactly when one carries policy.\<close>
theorem control_plane_exact:
  assumes "compile_signals (cp_policySignals (pol_controlPlane p)) = Some ss"
  shows "\<exists>a. assessControlPlane d p = Some a
    \<and> cpa_files a = map df_path (filter (governs (pol_controlPlane p) ss) (diff_files d))
    \<and> (cpa_affected a \<longleftrightarrow> list_ex (governs (pol_controlPlane p) ss) (diff_files d))
    \<and> (cpa_policyBearing a \<longleftrightarrow> list_ex (bears_policy (pol_controlPlane p) ss) (diff_files d))
    \<and> length (cpa_reasons a) = length (cpa_files a)"
proof -
  obtain a where "assessControlPlane d p = Some a" using assms by (simp add: assessControlPlane_def Let_def)
  then show ?thesis using assessControlPlane_spec [OF _ assms] by (auto simp: list_ex_iff)
qed

lemma control_plane_exact_witness:
  "\<exists>a. assessControlPlane auth_diff sample_policy = Some a \<and> length (cpa_reasons a) = length (cpa_files a)"
  using control_plane_exact [of sample_policy "[]"] by (auto simp: sample_policy_def compile_signals.simps)



section \<open>Reviews\<close>

text \<open>Independent reviews approve together exactly when there are enough of them, all approve, and no
  finding of any of them reaches the blocking severity; a missing or blocked review blocks.\<close>
theorem reviews_verdict:
  "ag_status (aggregateReviews rs n b) =
    (if length rs < n \<or> list_ex (\<lambda>r. r_status r = Blocked) rs then Blocked
     else if list_ex (\<lambda>r. r_status r = RequestChanges \<or> list_ex (\<lambda>f. b \<le> f_severity f) (r_findings r)) rs
     then RequestChanges else Approve)"
  unfolding aggregate_status list_ex_iff ..

text \<open>Collapsing duplicate findings keeps one finding for every key that occurred, of the highest
  severity among them, invents none, and so loses no blocking finding.\<close>
theorem findings_collapse:
  "distinct (map dedupe_key (dedupe fs)) \<and> set (dedupe fs) \<subseteq> set fs
   \<and> list_all (\<lambda>f. list_ex (\<lambda>e. dedupe_key e = dedupe_key f \<and> f_severity f \<le> f_severity e) (dedupe fs)) fs
   \<and> (blockingFindings (dedupe fs) b = [] \<longleftrightarrow> blockingFindings fs b = [])"
proof (intro conjI)
  show "list_all (\<lambda>f. list_ex (\<lambda>e. dedupe_key e = dedupe_key f \<and> f_severity f \<le> f_severity e) (dedupe fs)) fs"
    unfolding list_all_iff list_ex_iff by (intro ballI dedupe_represents)
  show "blockingFindings (dedupe fs) b = [] \<longleftrightarrow> blockingFindings fs b = []"
    unfolding dedupe_blocking unfolding blockingFindings_empty ..
qed (rule dedupe_distinct dedupe_subset)+

text \<open>Merging the deterministic findings into an agent's review can only make it stricter, and any
  blocking finding of either side, or the agent's own wish, requests changes; only a blocked
  review stays blocked.\<close>
theorem deterministic_findings_count:
  "r_status agent \<le> r_status (mergeReview agent det b)
   \<and> (r_status (mergeReview agent det b) = Approve \<longleftrightarrow>
        r_status agent = Approve \<and> list_all (\<lambda>f. f_severity f < b) (det @ r_findings agent))
   \<and> r_findings (mergeReview agent det b) = det @ r_findings agent"
proof (intro conjI)
  show "r_status (mergeReview agent det b) = Approve \<longleftrightarrow>
      r_status agent = Approve \<and> list_all (\<lambda>f. f_severity f < b) (det @ r_findings agent)"
    by (cases "r_status agent") (auto simp: mergeReview_status list_all_iff simp flip: not_le)
qed (rule mergeReview_stricter, simp add: mergeReview_def Let_def)

text \<open>C9. Text from a model that goes into a comment through \<open>sanitiseForMarkdown\<close> can neither close a code
  span, nor open or close an HTML comment, nor carry a control character.\<close>
theorem sanitised_inert:
  "\<not> contains ''`'' (sanitiseForMarkdown v) \<and> \<not> contains open_mark (sanitiseForMarkdown v)
   \<and> \<not> contains close_mark (sanitiseForMarkdown v) \<and> list_all (\<lambda>c. \<not> is_control c) (sanitiseForMarkdown v)"
  using sanitiseForMarkdown_marks [of v] sanitiseForMarkdown_control by (auto simp: list_all_iff)

section \<open>Diffs and paths\<close>

text \<open>C10. Parsing inverts the printing of a diff: every file comes back with its path, status and lines,
  provided the paths are plain and no changed line looks like a file marker.\<close>
theorem diff_roundtrip:
  assumes "list_all renderable (diff_files d)"
  shows "parseUnifiedDiff (render_diff d) = d"
  by (rule parse_render [OF assms])

lemma diff_roundtrip_witness: "parseUnifiedDiff (render_diff auth_diff) = auth_diff"
proof -
  have "list_all renderable (diff_files auth_diff)" by code_simp
  then show ?thesis by (rule diff_roundtrip)
qed

text \<open>C11. A glob pattern matches a path exactly when the segments do, \<open>**\<close> standing for any number of
  whole segments and \<open>*\<close>, \<open>?\<close> for characters of one segment; the regular expressions built for
  the segments always compile and mean just that.\<close>
theorem glob_semantics:
  "(matchSegments ps xs \<longleftrightarrow> glob_path ps xs)
   \<and> (\<exists>r. segmentToRegExp p = Some r \<and> (rx_test noflags r x \<longleftrightarrow> wild p x))"
  using matchSegments_iff [of ps xs] segment_compiles [of p] segment_test [of p x] by blast

text \<open>The exports a file loses are those its removed lines name and its added lines do not, sorted;
  moving lines around loses none.\<close>
theorem exports_lost:
  "set (removedExports f) = (\<Union>l \<in> set (df_removedLines f). exports_of l) - (\<Union>l \<in> set (df_addedLines f). exports_of l)
   \<and> sorted (removedExports f)"
  using removedExports_spec removedExports_sorted by blast

text \<open>For a \<open>package.json\<close> the dependency changes name exactly the packages whose version range differs
  between the removed and the added lines, with the right kind, and a downgrade counts as major.\<close>
theorem dependency_changes_exact:
  assumes "ends_with ''package.json'' (df_path f)"
  shows "(n \<in> dc_name ` set (dependencyChanges lc f) \<longleftrightarrow>
      map_of (dependency_entries (df_removedLines f)) n \<noteq> map_of (dependency_entries (df_addedLines f)) n)
    \<and> list_all (\<lambda>c. (dc_kind c = DepAdded) = (dc_from c = None) \<and> (dc_kind c = DepRemoved) = (dc_to c = None)
        \<and> dc_from c = map_of (dependency_entries (df_removedLines f)) (dc_name c)
        \<and> dc_to c = map_of (dependency_entries (df_addedLines f)) (dc_name c)) (dependencyChanges lc f)"
  using dependencyChanges_names [OF assms] dependencyChanges_entry by (fastforce simp: list_all_iff)

definition package_file :: diff_file where
  \<open>package_file = \<lparr>df_path = ''package.json'', df_status = FModified, df_addedLines = [''"zod": "^4.0.0"''], df_removedLines = []\<rparr>\<close>

lemma dependency_changes_exact_witness:
  "''zod'' \<in> dc_name ` set (dependencyChanges (\<le>) package_file)"
proof -
  have "ends_with ''package.json'' (df_path package_file)" by code_simp
  moreover have "map_of (dependency_entries (df_removedLines package_file)) ''zod'' \<noteq>
      map_of (dependency_entries (df_addedLines package_file)) ''zod''" by code_simp
  ultimately show ?thesis using dependency_changes_exact [of package_file "''zod''"] by blast
qed

section \<open>Stored state and recurrence\<close>


definition sample_view :: pull_request_view where
  "sample_view = \<lparr>v_issue = None, v_risk = \<lparr>ra_risk = Low, ra_reasons = [], ra_controlPlane = None\<rparr>,
     v_review = sample_review, v_outcome = decideMerge sample_gate, v_state = initialState None, v_maxReviewAttempts = 3,
     v_checks = [(''ci'', ''success'')], v_recurrence = []\<rparr>"


text \<open>C13. A finding whose file name is itself a printed state is written unescaped above the real state, and
  the next round reads that forged state in place of the one that was stored.\<close>
theorem file_name_forges_state:
  assumes "list_all (\<lambda>(n, c). clean n \<and> clean c) (v_checks v)"
    and "r_findings (v_review v) = f # fs" and "f_file f = Some (serialiseLoopState forged)"
    and "safe_parse (state_json forged) = Some forged"
  shows "parseLoopState safe_parse (Some (sticky_comment v s)) issue = forged"
  using assms by (intro forged_state) (auto simp: list_all_iff)

definition forging_finding :: finding where
  "forging_finding = mk_finding SInfo (Some (serialiseLoopState (initialState (Some 9)))) [] [] [] []"

lemma file_name_forges_state_witness:
  "\<forall>s. parseLoopState (\<lambda>_. Some (initialState (Some 9)))
     (Some (sticky_comment (sample_view\<lparr>v_review := sample_review\<lparr>r_findings := [forging_finding]\<rparr>\<rparr>) s)) None
   = initialState (Some 9)"
proof (rule allI, rule file_name_forges_state [where f = forging_finding and fs = "[]"])
  show "list_all (\<lambda>(n, c). clean n \<and> clean c)
      (v_checks (sample_view\<lparr>v_review := sample_review\<lparr>r_findings := [forging_finding]\<rparr>\<rparr>))"
    by code_simp
qed (simp_all add: forging_finding_def)

text \<open>A finding is reported as recurring exactly when a round on another head had a matching finding, and
  then with at least one earlier head, each once and none the present one.\<close>
theorem recurrence_exact:
  "((\<exists>r. r \<in> set (detectRecurrence cur hist sha) \<and> rf_finding r = f) \<longleftrightarrow>
      f \<in> set cur \<and> list_ex (\<lambda>e. he_headSha e \<noteq> sha \<and> list_ex (findingsMatch (toFindingRecord f)) (he_findings e)) hist)
   \<and> list_all (\<lambda>r. rf_occurrences r \<noteq> [] \<and> distinct (map oc_headSha (rf_occurrences r))
        \<and> sha \<notin> oc_headSha ` set (rf_occurrences r)) (detectRecurrence cur hist sha)"
  using detectRecurrence_iff [of cur hist sha f] detectRecurrence_heads [of _ cur hist sha]
  by (auto simp: list_all_iff list_ex_iff)

text \<open>Two findings match symmetrically; the measure of their likeness is between 0 and 1, is symmetric,
  and a text with any significant term is fully like itself.\<close>
theorem likeness_metric:
  "(findingsMatch x y \<longleftrightarrow> findingsMatch y x)
   \<and> 0 \<le> overlapCoefficient (significantTerms s) (significantTerms t)
   \<and> overlapCoefficient (significantTerms s) (significantTerms t) \<le> 1
   \<and> overlapCoefficient (significantTerms s) (significantTerms t) = overlapCoefficient (significantTerms t) (significantTerms s)
   \<and> (significantTerms t = [] \<or> overlapCoefficient (significantTerms t) (significantTerms t) = 1)"
  using overlap_le_one overlap_commute overlap_self significant_distinct findingsMatch_commute overlap_bounds by metis

section \<open>Choosing the next issue\<close>

definition contenders :: "issue_summary list \<Rightarrow> selection_policy \<Rightarrow> issue_summary list" where
  "contenders issues p = filter (\<lambda>i. is_state i = IssueOpen \<and> eligible issues p i) issues"

text \<open>The selected issue is open, eligible and first by priority and number among all open eligible
  ones; none is selected exactly when none is, and then a reason is given.\<close>
theorem selection_least:
  "(case sr_selected (selectNextIssue issues p) of
      Some i \<Rightarrow> i \<in> set (contenders issues p) \<and> list_all (\<lambda>j. issue_key p i \<le> issue_key p j) (contenders issues p)
        \<and> sr_stopReason (selectNextIssue issues p) = None
    | None \<Rightarrow> contenders issues p = [] \<and> sr_stopReason (selectNextIssue issues p) \<noteq> None)"
  using selected_least [of issues p] not_selected [of issues p] stop_reason_iff [of issues p]
  unfolding contenders_def by (auto simp: list_all_iff filter_empty_conv split: option.split)

text \<open>The choice does not depend on the order in which the issues were listed, when their numbers are
  distinct.\<close>
theorem selection_stable:
  assumes "set is = set js" and "distinct (map is_number is)" and "distinct (map is_number js)"
  shows "sr_selected (selectNextIssue is p) = sr_selected (selectNextIssue js p)"
  by (rule selection_order_independent [OF assms])

definition ready_issue :: "nat \<Rightarrow> issue_summary" where
  "ready_issue n = \<lparr>is_number = n, is_title = [], is_state = IssueOpen, is_labels = [''agent:ready''], is_body = None\<rparr>"

lemma selection_stable_witness:
  "sr_selected (selectNextIssue [ready_issue 2, ready_issue 1] DEFAULT_SELECTION_POLICY) =
   sr_selected (selectNextIssue [ready_issue 1, ready_issue 2] DEFAULT_SELECTION_POLICY)"
  by (rule selection_stable) (auto simp: ready_issue_def)

text \<open>When only open issues are listed, as the local runner lists them, an issue that declares a
  dependency is never eligible, even after the dependency was closed.\<close>
theorem open_listing_stalls:
  assumes "list_all (\<lambda>i. is_state i = IssueOpen) issues" and "effective_dependencies p i \<noteq> []"
  shows "\<not> eligible issues p i"
  using assms by (intro open_only_stalls) (simp add: list_all_iff)

definition dependent_issue :: issue_summary where
  "dependent_issue = (ready_issue 3)\<lparr>is_body := None\<rparr>"

lemma open_listing_stalls_witness:
  "\<not> eligible [dependent_issue] (DEFAULT_SELECTION_POLICY\<lparr>sp_fallback := [(3, [2])]\<rparr>) dependent_issue"
proof (rule open_listing_stalls)
  show "effective_dependencies (DEFAULT_SELECTION_POLICY\<lparr>sp_fallback := [(3, [2])]\<rparr>) dependent_issue \<noteq> []"
    by code_simp
qed (simp add: dependent_issue_def ready_issue_def)

end
