(* ===== verification/RunnerConfig.thy ===== *)
theory RunnerConfig
  imports Regexp
begin

text \<open>
  \<open>tooling/local-runner/src/config.ts\<close>, \<open>budget.ts\<close> and \<open>backoff.ts\<close>: the limits of the runner.  A
  configuration that passed \<open>runnerConfigSchema\<close> is a record with \<open>config_ok\<close>, the bounds of the
  schema; its string-to-number coercion is zod's.  Time is in milliseconds, an integer read
  from the clock argument \<open>now\<close>.
\<close>

subsection \<open>Configuration\<close>

record runner_config =
  LOOP_UNATTENDED :: bool
  LOOP_MAX_ISSUES :: "nat option"
  LOOP_CODING_FIX_ROUNDS :: nat
  LOOP_REVIEW_FIX_ROUNDS :: nat
  LOOP_CI_FIX_ROUNDS :: nat
  LOOP_REVIEWER_RETRY_ROUNDS :: nat
  LOOP_CONFLICT_ROUNDS :: nat
  LOOP_WORKTREE_ROOT :: string
  LOOP_POLL_INTERVAL_SECONDS :: nat
  LOOP_CI_TIMEOUT_MINUTES :: nat
  LOOP_AGENT_TIMEOUT_MINUTES :: nat
  LOOP_AGENT_MODEL :: string
  LOOP_REVIEWER_B_MODEL :: string
  LOOP_MAX_MODEL_INVOCATIONS_PER_HOUR :: nat
  LOOP_MAX_ISSUES_PER_DAY :: nat
  LOOP_MAX_RUNTIME_HOURS :: nat
  LOOP_MAX_CONSECUTIVE_FAILURES :: nat
  LOOP_BACKOFF_BASE_SECONDS :: nat
  LOOP_BACKOFF_MAX_SECONDS :: nat

definition truthy :: "string \<Rightarrow> bool" where
  "truthy v \<longleftrightarrow> to_lower v \<in> set [''1'', ''true'', ''yes'', ''on'']"

definition between :: "nat \<Rightarrow> nat \<Rightarrow> nat \<Rightarrow> bool" where
  "between lo hi n \<longleftrightarrow> lo \<le> n \<and> n \<le> hi"

definition config_ok :: "runner_config \<Rightarrow> bool" where
  "config_ok c \<longleftrightarrow>
     (case LOOP_MAX_ISSUES c of None \<Rightarrow> True | Some n \<Rightarrow> between 0 1000 n)
   \<and> between 1 10 (LOOP_CODING_FIX_ROUNDS c) \<and> between 1 10 (LOOP_REVIEW_FIX_ROUNDS c)
   \<and> between 1 10 (LOOP_CI_FIX_ROUNDS c) \<and> between 1 5 (LOOP_REVIEWER_RETRY_ROUNDS c)
   \<and> between 1 5 (LOOP_CONFLICT_ROUNDS c) \<and> between 30 3600 (LOOP_POLL_INTERVAL_SECONDS c)
   \<and> between 1 180 (LOOP_CI_TIMEOUT_MINUTES c) \<and> between 1 180 (LOOP_AGENT_TIMEOUT_MINUTES c)
   \<and> between 0 1000 (LOOP_MAX_MODEL_INVOCATIONS_PER_HOUR c) \<and> between 0 1000 (LOOP_MAX_ISSUES_PER_DAY c)
   \<and> between 0 168 (LOOP_MAX_RUNTIME_HOURS c) \<and> between 1 50 (LOOP_MAX_CONSECUTIVE_FAILURES c)
   \<and> between 1 600 (LOOP_BACKOFF_BASE_SECONDS c) \<and> between 60 7200 (LOOP_BACKOFF_MAX_SECONDS c)"

definition default_config :: runner_config where
  "default_config = \<lparr>LOOP_UNATTENDED = False, LOOP_MAX_ISSUES = None, LOOP_CODING_FIX_ROUNDS = 3,
     LOOP_REVIEW_FIX_ROUNDS = 3, LOOP_CI_FIX_ROUNDS = 3, LOOP_REVIEWER_RETRY_ROUNDS = 2,
     LOOP_CONFLICT_ROUNDS = 2, LOOP_WORKTREE_ROOT = ''../.loop-worktrees'', LOOP_POLL_INTERVAL_SECONDS = 60,
     LOOP_CI_TIMEOUT_MINUTES = 30, LOOP_AGENT_TIMEOUT_MINUTES = 45, LOOP_AGENT_MODEL = [],
     LOOP_REVIEWER_B_MODEL = [], LOOP_MAX_MODEL_INVOCATIONS_PER_HOUR = 60, LOOP_MAX_ISSUES_PER_DAY = 20,
     LOOP_MAX_RUNTIME_HOURS = 12, LOOP_MAX_CONSECUTIVE_FAILURES = 8, LOOP_BACKOFF_BASE_SECONDS = 30,
     LOOP_BACKOFF_MAX_SECONDS = 900\<rparr>"

definition issueBudget :: "runner_config \<Rightarrow> nat" where
  "issueBudget c = (case LOOP_MAX_ISSUES c of Some n \<Rightarrow> n | None \<Rightarrow> if LOOP_UNATTENDED c then 0 else 1)"

definition INSTALL_STEP :: "string \<times> string list" where
  "INSTALL_STEP = (''bun'', [''install'', ''--frozen-lockfile''])"

lemma default_config_ok: "config_ok default_config"
  by (simp add: config_ok_def default_config_def between_def)

subsection \<open>Budget\<close>

datatype budget_kind = BudgetInvocations | BudgetIssues | BudgetRuntime

record budget =
  bu_invocations :: "int list"
  bu_issues :: "int list"
  bu_startedAt :: int

definition hour_ms :: int where "hour_ms = 60 * 60 * 1000"
definition day_ms :: int where "day_ms = 24 * 60 * 60 * 1000"

definition new_budget :: "int \<Rightarrow> budget" where
  "new_budget now = \<lparr>bu_invocations = [], bu_issues = [], bu_startedAt = now\<rparr>"

definition recordInvocation :: "int \<Rightarrow> budget \<Rightarrow> budget" where
  "recordInvocation now b = b\<lparr>bu_invocations := bu_invocations b @ [now]\<rparr>"

definition recordIssueClaim :: "int \<Rightarrow> budget \<Rightarrow> budget" where
  "recordIssueClaim now b = b\<lparr>bu_issues := bu_issues b @ [now]\<rparr>"

definition within_window :: "int \<Rightarrow> int list \<Rightarrow> int \<Rightarrow> nat" where
  "within_window now timestamps windowMs = length (filter (\<lambda>at'. at' \<ge> now - windowMs) timestamps)"

definition prune :: "int \<Rightarrow> budget \<Rightarrow> budget" where
  "prune now b = b\<lparr>bu_invocations := dropWhile (\<lambda>t. t < now - hour_ms) (bu_invocations b),
                  bu_issues := dropWhile (\<lambda>t. t < now - day_ms) (bu_issues b)\<rparr>"

text \<open>\<open>Math.round(ms / unit)\<close>, halves up.\<close>

definition round_div :: "int \<Rightarrow> int \<Rightarrow> int" where
  "round_div ms unit = (2 * ms + unit) div (2 * unit)"

record budget_exceeded =
  bx_kind :: budget_kind
  bx_detail :: string

definition budget_check :: "runner_config \<Rightarrow> int \<Rightarrow> budget \<Rightarrow> budget_exceeded option \<times> budget" where
  "budget_check c now b0 =
     (let b = prune now b0;
          perHour = LOOP_MAX_MODEL_INVOCATIONS_PER_HOUR c; usedHour = within_window now (bu_invocations b) hour_ms;
          perDay = LOOP_MAX_ISSUES_PER_DAY c; usedDay = within_window now (bu_issues b) day_ms;
          maxHours = LOOP_MAX_RUNTIME_HOURS c; elapsed = now - bu_startedAt b
      in (if perHour > 0 \<and> usedHour \<ge> perHour then
            Some \<lparr>bx_kind = BudgetInvocations, bx_detail = dec usedHour
              @ '' model invocations in the last hour, at the limit of '' @ dec perHour
              @ ''. Raise LOOP_MAX_MODEL_INVOCATIONS_PER_HOUR to continue.''\<rparr>
          else if perDay > 0 \<and> usedDay \<ge> perDay then
            Some \<lparr>bx_kind = BudgetIssues, bx_detail = dec usedDay
              @ '' issues claimed in the last 24 hours, at the limit of '' @ dec perDay
              @ ''. Raise LOOP_MAX_ISSUES_PER_DAY to continue.''\<rparr>
          else if maxHours > 0 \<and> elapsed \<ge> int maxHours * hour_ms then
            Some \<lparr>bx_kind = BudgetRuntime, bx_detail = ''this session has run for ''
              @ dec (nat (round_div elapsed 3600000)) @ '' hours, at the limit of '' @ dec maxHours
              @ ''. Restart it, or raise LOOP_MAX_RUNTIME_HOURS.''\<rparr>
          else None, b))"

definition budget_snapshot :: "int \<Rightarrow> budget \<Rightarrow> (nat \<times> nat \<times> int) \<times> budget" where
  "budget_snapshot now b0 = (let b = prune now b0
     in ((length (bu_invocations b), length (bu_issues b), now - bu_startedAt b), b))"

text \<open>Pruning forgets nothing that a window still counts.\<close>

lemma within_dropWhile:
  "w \<le> v \<Longrightarrow> within_window now (dropWhile (\<lambda>t. t < now - v) ts) w = within_window now ts w"
  by (induction ts) (auto simp: within_window_def)

lemma prune_window [simp]:
  "within_window now (bu_invocations (prune now b)) hour_ms = within_window now (bu_invocations b) hour_ms"
  "within_window now (bu_issues (prune now b)) day_ms = within_window now (bu_issues b) day_ms"
  by (simp_all add: prune_def within_dropWhile)

lemma budget_free:
  "fst (budget_check c now b) = None \<longleftrightarrow>
    (LOOP_MAX_MODEL_INVOCATIONS_PER_HOUR c = 0 \<or>
       within_window now (bu_invocations b) hour_ms < LOOP_MAX_MODEL_INVOCATIONS_PER_HOUR c)
  \<and> (LOOP_MAX_ISSUES_PER_DAY c = 0 \<or> within_window now (bu_issues b) day_ms < LOOP_MAX_ISSUES_PER_DAY c)
  \<and> (LOOP_MAX_RUNTIME_HOURS c = 0 \<or> now - bu_startedAt b < int (LOOP_MAX_RUNTIME_HOURS c) * hour_ms)"
  by (simp add: budget_check_def Let_def not_le) (auto simp: prune_def not_le)

text \<open>With a clock that does not go back the lists are sorted, and pruning leaves exactly the window.\<close>

definition ordered_budget :: "int \<Rightarrow> budget \<Rightarrow> bool" where
  "ordered_budget now b \<longleftrightarrow> sorted (bu_invocations b @ [now]) \<and> sorted (bu_issues b @ [now])"

lemma ordered_steps:
  "ordered_budget now (new_budget now)"
  "ordered_budget t b \<Longrightarrow> t \<le> now \<Longrightarrow> ordered_budget now (recordInvocation now b)"
  "ordered_budget t b \<Longrightarrow> t \<le> now \<Longrightarrow> ordered_budget now (recordIssueClaim now b)"
  "ordered_budget t b \<Longrightarrow> t \<le> now \<Longrightarrow> ordered_budget now (prune now b)"
  by (fastforce simp: ordered_budget_def new_budget_def recordInvocation_def recordIssueClaim_def prune_def
      sorted_append intro: sorted_dropWhile dest: set_dropWhileD)+

lemma dropWhile_sorted: "sorted (ts :: int list) \<Longrightarrow> dropWhile (\<lambda>t. t < x) ts = filter (\<lambda>t. x \<le> t) ts"
proof (induction ts)
  case (Cons t ts)
  show ?case
  proof (cases "t < x")
    case False
    then have "filter (\<lambda>t. x \<le> t) ts = ts" using Cons.prems by (intro filter_True) auto
    then show ?thesis using False by simp
  qed (use Cons in simp)
qed simp

lemma snapshot_counts:
  "ordered_budget now b \<Longrightarrow> fst (budget_snapshot now b) =
     (within_window now (bu_invocations b) hour_ms, within_window now (bu_issues b) day_ms, now - bu_startedAt b)"
  by (simp add: budget_snapshot_def Let_def prune_def ordered_budget_def sorted_append dropWhile_sorted within_window_def)

subsection \<open>Backoff\<close>

definition backoff_failed :: "runner_config \<Rightarrow> nat \<Rightarrow> (nat \<times> nat) option \<times> nat" where
  "backoff_failed c consecutive0 =
     (let consecutive = Suc consecutive0
      in if consecutive > LOOP_MAX_CONSECUTIVE_FAILURES c then (None, consecutive)
         else let base = LOOP_BACKOFF_BASE_SECONDS c * 1000;
                  ceiling = LOOP_BACKOFF_MAX_SECONDS c * 1000;
                  exponential = base * 2 ^ (consecutive - 1)
              in (Some (min exponential ceiling, consecutive), consecutive))"

definition TRANSIENT_PATTERNS :: "(rflags \<times> rx) list" where
  "TRANSIENT_PATTERNS =
    [(flag_i, re ''%bETIMEDOUT%b''), (flag_i, re ''%bECONNRESET%b''), (flag_i, re ''%bECONNREFUSED%b''),
     (flag_i, re ''%bENOTFOUND%b''), (flag_i, re ''%bEAI_AGAIN%b''), (flag_i, re ''socket hang up''),
     (flag_i, re ''network is unreachable''),
     (flag_i, re ''%b5%d%d%b.*%b(?:server error|bad gateway|service unavailable|gateway timeout)%b''),
     (noflags, re ''%b(?:502|503|504)%b''), (flag_i, re ''rate limit''), (flag_i, re ''secondary rate limit''),
     (flag_i, re ''%bAPI rate limit exceeded%b''), (flag_i, re ''temporarily unavailable''), (flag_i, re ''timed out'')]"

definition isTransient :: "string \<Rightarrow> bool" where
  "isTransient message = list_ex (\<lambda>(fl, p). rx_test fl p message) TRANSIENT_PATTERNS"

definition AUTH_PATTERNS :: "(rflags \<times> rx) list" where
  "AUTH_PATTERNS =
    [(noflags, re ''%b401%b''), (noflags, re ''%b403%b''), (flag_i, re ''bad credentials''),
     (flag_i, re ''not authenticated''), (flag_i, re ''authentication (?:failed|rejected|required)''),
     (flag_i, re ''requires? (?:a )?login''), (flag_i, re ''token (?:is )?(?:invalid|expired|revoked)'')]"

definition isAuthFailure :: "string \<Rightarrow> bool" where
  "isAuthFailure message = list_ex (\<lambda>(fl, p). rx_test fl p message) AUTH_PATTERNS"

text \<open>The wait never shrinks from one failure to the next, starts at the base and stays under the ceiling.\<close>

definition wait_of :: "runner_config \<Rightarrow> nat \<Rightarrow> nat" where
  "wait_of c n = min (LOOP_BACKOFF_BASE_SECONDS c * 1000 * 2 ^ n) (LOOP_BACKOFF_MAX_SECONDS c * 1000)"

lemma backoff_failed_cases:
  "backoff_failed c n = (if n < LOOP_MAX_CONSECUTIVE_FAILURES c then Some (wait_of c n, Suc n) else None, Suc n)"
  by (simp add: backoff_failed_def Let_def wait_of_def)

lemma wait_mono: "n \<le> m \<Longrightarrow> wait_of c n \<le> wait_of c m"
  unfolding wait_of_def by (intro min.mono mult_le_mono order_refl power_increasing) auto

lemma wait_bounds:
  assumes "config_ok c"
  shows "1000 \<le> wait_of c n \<and> wait_of c n \<le> LOOP_BACKOFF_MAX_SECONDS c * 1000"
proof -
  have base: "1 \<le> LOOP_BACKOFF_BASE_SECONDS c" "60 \<le> LOOP_BACKOFF_MAX_SECONDS c"
    using assms by (auto simp: config_ok_def between_def)
  have "1 * 1000 * 1 \<le> LOOP_BACKOFF_BASE_SECONDS c * 1000 * 2 ^ n"
    using base(1) by (intro mult_le_mono) simp_all
  then show ?thesis using base(2) by (simp add: wait_of_def)
qed

end
