(* ===== verification/Journal.thy ===== *)
theory Journal
  imports Policy "HOL-Library.Monad_Syntax"
begin

text \<open>
  \<open>tooling/local-runner/src/journal.ts\<close>, with the stores keyed by an issue number that it and
  \<open>summary.ts\<close> are instances of.

  The zod schemas are decoders from JSON values: unknown keys are dropped, a missing key takes
  its default, everything else is an error.  Lengths are in characters of the model, which are
  bytes.  A file is its text, \<open>None\<close> when it does not exist.
\<close>

subsection \<open>Stores with a key\<close>

locale keyed_store =
  fixes key :: "'r \<Rightarrow> nat" and entries :: "'s \<Rightarrow> 'r list" and put :: "'r \<Rightarrow> 's \<Rightarrow> 's"
  assumes put_new: "r \<in> set (entries (put r s))"
    and put_only: "x \<in> set (entries (put r s)) \<Longrightarrow> x = r \<or> x \<in> set (entries s) \<and> key x \<noteq> key r"
    and put_distinct: "distinct (map key (entries s)) \<Longrightarrow> distinct (map key (entries (put r s)))"
begin

definition lookup :: "nat \<Rightarrow> 's \<Rightarrow> 'r option" where
  "lookup k s = List.find (\<lambda>x. key x = k) (entries s)"

lemma lookup_key: "lookup k s = Some x \<Longrightarrow> key x = k \<and> x \<in> set (entries s)"
  by (auto simp: lookup_def dest!: find_Some_mem)

lemma lookup_mem:
  assumes "distinct (map key (entries s))" and "x \<in> set (entries s)"
  shows "lookup (key x) s = Some x"
proof (cases "lookup (key x) s")
  case None
  then show ?thesis using assms(2) by (auto simp: lookup_def find_None_all)
next
  case (Some y)
  then have "key y = key x" "y \<in> set (entries s)" using lookup_key by auto
  then show ?thesis using assms Some by (metis distinct_map inj_onD)
qed

lemma lookup_put: "lookup (key r) (put r s) = Some r"
proof -
  have "lookup (key r) (put r s) \<noteq> None" using put_new [of r s] by (auto simp: lookup_def find_None_all)
  then obtain x where x: "lookup (key r) (put r s) = Some x" by blast
  then show ?thesis using put_only [of x r s] lookup_key [OF x] by auto
qed

lemma lookup_put_other:
  assumes "distinct (map key (entries s))" and "k \<noteq> key r" and "lookup k (put r s) = Some x"
  shows "lookup k s = Some x"
proof -
  have "key x = k" "x \<in> set (entries (put r s))" using lookup_key [OF assms(3)] by auto
  then have "x \<in> set (entries s)" using put_only [of x r s] assms(2) by auto
  then show ?thesis using lookup_mem [OF assms(1)] \<open>key x = k\<close> by blast
qed

end

locale complete_store = keyed_store key entries put
  for key :: "'r \<Rightarrow> nat" and entries :: "'s \<Rightarrow> 'r list" and put :: "'r \<Rightarrow> 's \<Rightarrow> 's" +
  assumes put_keeps: "x \<in> set (entries s) \<Longrightarrow> key x \<noteq> key r \<Longrightarrow> x \<in> set (entries (put r s))"
begin

lemma lookup_put_unchanged:
  assumes "distinct (map key (entries s))" and "k \<noteq> key r"
  shows "lookup k (put r s) = lookup k s"
proof (cases "lookup k s")
  case None
  then show ?thesis using lookup_put_other [OF assms] by (cases "lookup k (put r s)") auto
next
  case (Some x)
  then have "key x = k" "x \<in> set (entries s)" using lookup_key by auto
  then have "lookup k (put r s) = Some x"
    using lookup_mem [OF put_distinct [OF assms(1)] put_keeps] assms(2) by blast
  then show ?thesis using Some by simp
qed

end

subsection \<open>Records\<close>

datatype attempt_phase = PhImplement | PhVerify | PhReview | PhFix | PhPublish
datatype attempt_outcome = AtOk | AtFailed | AtSkipped
datatype run_status = InProgress | AwaitingReview | RunBlocked | RunDone

record attempt =
  at_at :: string
  at_phase :: attempt_phase
  at_outcome :: attempt_outcome
  at_detail :: string

record run_record =
  rr_issue :: nat
  rr_branch :: string
  rr_worktree :: string
  rr_startedAt :: string
  rr_updatedAt :: string
  rr_status :: run_status
  rr_fixRounds :: nat
  rr_ciRounds :: nat
  rr_conflictRounds :: nat
  rr_pullRequest :: "nat option"
  rr_risk' :: "risk_level option"
  rr_attempts :: "attempt list"

record journal =
  jo_runs :: "run_record list"

definition emptyJournal :: journal where "emptyJournal = \<lparr>jo_runs = []\<rparr>"

definition findRun :: "journal \<Rightarrow> nat \<Rightarrow> run_record option" where
  "findRun j issue = List.find (\<lambda>r. rr_issue r = issue) (jo_runs j)"

definition upsertRun :: "journal \<Rightarrow> run_record \<Rightarrow> journal" where
  "upsertRun j r = (let rest = filter (\<lambda>x. rr_issue x \<noteq> rr_issue r) (jo_runs j)
     in j\<lparr>jo_runs := take 200 (r # rest)\<rparr>)"

definition appendAttempt :: "run_record \<Rightarrow> attempt \<Rightarrow> run_record" where
  "appendAttempt r a = r\<lparr>rr_updatedAt := at_at a, rr_attempts := take_last 100 (rr_attempts r @ [a])\<rparr>"

interpretation runs: keyed_store rr_issue jo_runs "\<lambda>r j. upsertRun j r"
proof
  fix x r :: run_record and j
  show "r \<in> set (jo_runs (upsertRun j r))" by (simp add: upsertRun_def Let_def)
  show "x = r \<or> x \<in> set (jo_runs j) \<and> rr_issue x \<noteq> rr_issue r" if "x \<in> set (jo_runs (upsertRun j r))"
    using that by (auto simp: upsertRun_def Let_def dest: in_set_takeD)
  show "distinct (map rr_issue (jo_runs (upsertRun j r)))" if "distinct (map rr_issue (jo_runs j))"
    using that unfolding upsertRun_def Let_def
    by (auto simp: take_map [symmetric] distinct_map_filter dest!: in_set_takeD)
qed

lemma findRun_lookup: "findRun j issue = runs.lookup issue j"
  by (simp add: findRun_def runs.lookup_def)

subsection \<open>The file\<close>

definition phase_text :: "attempt_phase \<Rightarrow> string" where
  "phase_text p = (case p of PhImplement \<Rightarrow> ''implement'' | PhVerify \<Rightarrow> ''verify'' | PhReview \<Rightarrow> ''review''
     | PhFix \<Rightarrow> ''fix'' | PhPublish \<Rightarrow> ''publish'')"

definition outcome_text :: "attempt_outcome \<Rightarrow> string" where
  "outcome_text p = (case p of AtOk \<Rightarrow> ''ok'' | AtFailed \<Rightarrow> ''failed'' | AtSkipped \<Rightarrow> ''skipped'')"

definition run_status_text :: "run_status \<Rightarrow> string" where
  "run_status_text s = (case s of InProgress \<Rightarrow> ''in-progress'' | AwaitingReview \<Rightarrow> ''awaiting-review''
     | RunBlocked \<Rightarrow> ''blocked'' | RunDone \<Rightarrow> ''done'')"

definition jnat :: "nat \<Rightarrow> json" where "jnat n = JNum (int n)"

definition attempt_json :: "attempt \<Rightarrow> json" where
  "attempt_json a = JObj [(''at'', JStr (at_at a)), (''phase'', JStr (phase_text (at_phase a))),
     (''outcome'', JStr (outcome_text (at_outcome a))), (''detail'', JStr (at_detail a))]"

definition run_json :: "run_record \<Rightarrow> json" where
  "run_json r = JObj [(''issue'', jnat (rr_issue r)), (''branch'', JStr (rr_branch r)),
     (''worktree'', JStr (rr_worktree r)), (''startedAt'', JStr (rr_startedAt r)), (''updatedAt'', JStr (rr_updatedAt r)),
     (''status'', JStr (run_status_text (rr_status r))), (''fixRounds'', jnat (rr_fixRounds r)),
     (''ciRounds'', jnat (rr_ciRounds r)), (''conflictRounds'', jnat (rr_conflictRounds r)),
     (''pullRequest'', case rr_pullRequest r of Some n \<Rightarrow> jnat n | None \<Rightarrow> JNull),
     (''risk'', case rr_risk' r of Some l \<Rightarrow> JStr (risk_text l) | None \<Rightarrow> JNull),
     (''attempts'', JArr (map attempt_json (rr_attempts r)))]"

definition journal_json :: "journal \<Rightarrow> json" where
  "journal_json j = JObj [(''version'', JNum 1), (''runs'', JArr (map run_json (jo_runs j)))]"

definition journal_text :: "journal \<Rightarrow> string" where
  "journal_text j = json_pretty (journal_json j) @ [CHR 0x0A]"

subsection \<open>The schema\<close>

fun as_string :: "json \<Rightarrow> string option" where
  "as_string (JStr s) = Some s" | "as_string _ = None"

definition as_text :: "nat \<Rightarrow> json \<Rightarrow> string option" where
  "as_text limit v = do { s \<leftarrow> as_string v; if length s \<le> limit then Some s else None }"

definition as_enum :: "('a \<times> string) list \<Rightarrow> json \<Rightarrow> 'a option" where
  "as_enum names v = do { s \<leftarrow> as_string v; map_option fst (List.find (\<lambda>x. snd x = s) names) }"

fun as_int :: "int \<Rightarrow> int \<Rightarrow> json \<Rightarrow> nat option" where
  "as_int lo hi (JNum i) = (if lo \<le> i \<and> i \<le> hi then Some (nat i) else None)"
| "as_int lo hi _ = None"

fun as_positive :: "json \<Rightarrow> nat option" where
  "as_positive (JNum i) = (if 0 < i then Some (nat i) else None)"
| "as_positive _ = None"

definition as_nullable :: "(json \<Rightarrow> 'a option) \<Rightarrow> json \<Rightarrow> 'a option option" where
  "as_nullable f v = (if v = JNull then Some None else map_option Some (f v))"

definition with_default :: "'a \<Rightarrow> (json \<Rightarrow> 'a option) \<Rightarrow> json option \<Rightarrow> 'a option" where
  "with_default d f v = (case v of None \<Rightarrow> Some d | Some x \<Rightarrow> f x)"

fun as_list :: "(json \<Rightarrow> 'a option) \<Rightarrow> json list \<Rightarrow> 'a list option" where
  "as_list f [] = Some []"
| "as_list f (v # vs) = do { x \<leftarrow> f v; xs \<leftarrow> as_list f vs; Some (x # xs) }"

definition as_array :: "nat \<Rightarrow> (json \<Rightarrow> 'a option) \<Rightarrow> json \<Rightarrow> 'a list option" where
  "as_array limit f v = (case v of JArr vs \<Rightarrow> (if length vs \<le> limit then as_list f vs else None) | _ \<Rightarrow> None)"

definition phase_names :: "(attempt_phase \<times> string) list" where
  "phase_names = map (\<lambda>p. (p, phase_text p)) [PhImplement, PhVerify, PhReview, PhFix, PhPublish]"

definition outcome_names :: "(attempt_outcome \<times> string) list" where
  "outcome_names = map (\<lambda>p. (p, outcome_text p)) [AtOk, AtFailed, AtSkipped]"

definition status_names :: "(run_status \<times> string) list" where
  "status_names = map (\<lambda>p. (p, run_status_text p)) [InProgress, AwaitingReview, RunBlocked, RunDone]"

definition risk_names :: "(risk_level \<times> string) list" where
  "risk_names = map (\<lambda>p. (p, risk_text p)) [Low, Medium, High]"

definition attemptSchema :: "json \<Rightarrow> attempt option" where
  "attemptSchema v = do {
     t \<leftarrow> json_field ''at'' v \<bind> as_string;
     ph \<leftarrow> json_field ''phase'' v \<bind> as_enum phase_names;
     oc \<leftarrow> json_field ''outcome'' v \<bind> as_enum outcome_names;
     d \<leftarrow> json_field ''detail'' v \<bind> as_text 2000;
     Some \<lparr>at_at = t, at_phase = ph, at_outcome = oc, at_detail = d\<rparr> }"

definition runRecordSchema :: "json \<Rightarrow> run_record option" where
  "runRecordSchema v = do {
     n \<leftarrow> json_field ''issue'' v \<bind> as_positive;
     br \<leftarrow> json_field ''branch'' v \<bind> as_text 255;
     wt \<leftarrow> json_field ''worktree'' v \<bind> as_text 4096;
     st \<leftarrow> json_field ''startedAt'' v \<bind> as_string;
     up \<leftarrow> json_field ''updatedAt'' v \<bind> as_string;
     ss \<leftarrow> json_field ''status'' v \<bind> as_enum status_names;
     fr \<leftarrow> with_default 0 (as_int 0 100) (json_field ''fixRounds'' v);
     ci \<leftarrow> with_default 0 (as_int 0 100) (json_field ''ciRounds'' v);
     cr \<leftarrow> with_default 0 (as_int 0 100) (json_field ''conflictRounds'' v);
     pr \<leftarrow> with_default None (as_nullable as_positive) (json_field ''pullRequest'' v);
     rk \<leftarrow> with_default None (as_nullable (as_enum risk_names)) (json_field ''risk'' v);
     ats \<leftarrow> with_default [] (as_array 100 attemptSchema) (json_field ''attempts'' v);
     Some \<lparr>rr_issue = n, rr_branch = br, rr_worktree = wt, rr_startedAt = st, rr_updatedAt = up, rr_status = ss,
       rr_fixRounds = fr, rr_ciRounds = ci, rr_conflictRounds = cr, rr_pullRequest = pr, rr_risk' = rk, rr_attempts = ats\<rparr> }"

definition journalSchema :: "json \<Rightarrow> journal option" where
  "journalSchema v = do {
     _ \<leftarrow> json_field ''version'' v \<bind> as_int 1 1;
     rs \<leftarrow> with_default [] (as_array 200 runRecordSchema) (json_field ''runs'' v);
     Some \<lparr>jo_runs = rs\<rparr> }"

definition readJournal :: "string option \<Rightarrow> journal" where
  "readJournal file = (case file of
       None \<Rightarrow> emptyJournal
     | Some t \<Rightarrow> (case json_parse t \<bind> journalSchema of Some j \<Rightarrow> j | None \<Rightarrow> emptyJournal))"

subsection \<open>What survives the file\<close>

definition attempt_ok :: "attempt \<Rightarrow> bool" where "attempt_ok a \<longleftrightarrow> length (at_detail a) \<le> 2000"

definition run_ok :: "run_record \<Rightarrow> bool" where
  "run_ok r \<longleftrightarrow> 0 < rr_issue r \<and> length (rr_branch r) \<le> 255 \<and> length (rr_worktree r) \<le> 4096
     \<and> rr_fixRounds r \<le> 100 \<and> rr_ciRounds r \<le> 100 \<and> rr_conflictRounds r \<le> 100
     \<and> rr_pullRequest r \<noteq> Some 0 \<and> length (rr_attempts r) \<le> 100 \<and> list_all attempt_ok (rr_attempts r)"

definition journal_ok :: "journal \<Rightarrow> bool" where
  "journal_ok j \<longleftrightarrow> length (jo_runs j) \<le> 200 \<and> list_all run_ok (jo_runs j)"

lemma decode_enums [simp]:
  "as_enum phase_names (JStr (phase_text p)) = Some p"
  "as_enum outcome_names (JStr (outcome_text q)) = Some q"
  "as_enum status_names (JStr (run_status_text s)) = Some s"
  "as_enum risk_names (JStr (risk_text l)) = Some l"
     apply (cases p; simp add: as_enum_def phase_names_def phase_text_def)
    apply (cases q; simp add: as_enum_def outcome_names_def outcome_text_def)
   apply (cases s; simp add: as_enum_def status_names_def run_status_text_def)
  apply (cases l; simp add: as_enum_def risk_names_def)
  done

lemma decode_list: "as_list f (map g xs) = (if list_all (\<lambda>x. f (g x) \<noteq> None) xs then Some (map (\<lambda>x. the (f (g x))) xs) else None)"
  by (induction xs) (auto split: Option.bind_split)

lemma decode_attempt: "attemptSchema (attempt_json a) = (if attempt_ok a then Some a else None)"
  by (simp add: attemptSchema_def attempt_json_def json_field_def as_text_def attempt_ok_def)

lemma decode_attempts: "as_list attemptSchema (map attempt_json xs) = (if list_all attempt_ok xs then Some xs else None)"
  unfolding decode_list decode_attempt by (auto simp: list_all_iff map_idI)

lemma decode_run: "runRecordSchema (run_json r) = (if run_ok r then Some r else None)"
proof -
  have pr: "as_nullable as_positive (case p of Some n \<Rightarrow> jnat n | None \<Rightarrow> JNull) = (if p = Some 0 then None else Some p)" for p
    by (auto simp: as_nullable_def jnat_def split: option.split)
  have rk: "as_nullable (as_enum risk_names) (case l of Some x \<Rightarrow> JStr (risk_text x) | None \<Rightarrow> JNull) = Some l" for l
    by (auto simp: as_nullable_def split: option.split)
  show ?thesis
    by (simp add: runRecordSchema_def run_json_def json_field_def with_default_def pr rk as_array_def decode_attempts
        as_text_def run_ok_def) (auto simp: jnat_def)
qed

lemma decode_journal: "journalSchema (journal_json j) = (if journal_ok j then Some j else None)"
proof -
  have "as_list runRecordSchema (map run_json xs) = (if list_all run_ok xs then Some xs else None)" for xs
    unfolding decode_list decode_run by (auto simp: list_all_iff map_idI)
  then show ?thesis
    by (simp add: journalSchema_def journal_json_def json_field_def with_default_def as_array_def journal_ok_def)
qed

lemma journal_canonical: "json_canonical (journal_json j)"
proof -
  have "json_canonical (attempt_json a)" for a by (simp add: attempt_json_def)
  then have "json_canonical (run_json r)" for r
    by (auto simp: run_json_def jnat_def list_all_iff split: option.split)
  then show ?thesis by (auto simp: journal_json_def list_all_iff)
qed

text \<open>A journal within the schema's bounds survives the file; any other one is lost as a whole.\<close>

lemma read_written: "readJournal (Some (journal_text j)) = (if journal_ok j then j else emptyJournal)"
proof -
  have "json_parse (journal_text j) = Some (journal_json j)"
    using parse_print(1) [OF journal_canonical, of "Some 2" 0 j "2 * length (journal_text j) + 2" "[CHR 0x0A]"]
    by (simp add: json_parse_def journal_text_def stops_number_def json_ws_def is_digit_def in_range_def)
  then show ?thesis by (simp add: readJournal_def decode_journal)
qed

end
