(* ===== verification/Effects.thy ===== *)
theory Effects
  imports RunnerConfig Journal Review
begin

text \<open>
  The runner's effects, and \<open>tooling/local-runner/src/exec.ts\<close>.

  An asynchronous function that may throw is a computation \<open>'a io\<close>: from the world to an error
  message or a value, and the world afterwards.  The world records every subprocess with its
  answer, in order, the text of the journal file and the budget.  What the outside answers is the
  record \<open>env\<close> of functions of the world so far, so that an answer may depend on everything that
  happened; theorems quantify over all of them.  Progress lines and the log directory are output
  that nothing reads back, and are left out.
\<close>

subsection \<open>Subprocesses\<close>

datatype env_profile = ProfBase | ProfClaude | ProfGithub | ProfGit

record run_result =
  res_code :: nat
  res_stdout :: string
  res_stderr :: string
  res_timedOut :: bool

record call =
  cl_command :: string
  cl_args :: "string list"
  cl_cwd :: "string option"
  cl_stdin :: "string option"
  cl_timeoutMs :: "nat option"
  cl_profile :: env_profile

definition BASE_VARS :: "string list" where
  "BASE_VARS = [''HOME'', ''PATH'', ''USER'', ''LOGNAME'', ''SHELL'', ''LANG'', ''LC_ALL'', ''TERM'', ''TMPDIR'', ''TZ'',
     ''XDG_CONFIG_HOME'', ''XDG_CACHE_HOME'', ''XDG_DATA_HOME'', ''HTTP_PROXY'', ''HTTPS_PROXY'', ''NO_PROXY'',
     ''http_proxy'', ''https_proxy'', ''no_proxy'', ''NODE_EXTRA_CA_CERTS'']"

definition CLAUDE_VARIABLES :: "string list" where
  "CLAUDE_VARIABLES = [''CLAUDE_CODE_OAUTH_TOKEN'', ''ANTHROPIC_API_KEY'', ''ANTHROPIC_AUTH_TOKEN'',
     ''ANTHROPIC_BASE_URL'', ''ANTHROPIC_MODEL'', ''CLAUDE_CODE_USE_BEDROCK'', ''CLAUDE_CODE_USE_VERTEX'',
     ''CLAUDE_CONFIG_DIR'']"

definition GITHUB_VARIABLES :: "string list" where
  "GITHUB_VARIABLES = [''GH_TOKEN'', ''GITHUB_TOKEN'', ''GH_HOST'', ''GH_CONFIG_DIR'']"

definition GIT_VARIABLES :: "string list" where
  "GIT_VARIABLES = [''SSH_AUTH_SOCK'', ''GIT_SSH_COMMAND'']"

fun ENV_PROFILES :: "env_profile \<Rightarrow> string list" where
  "ENV_PROFILES ProfBase = BASE_VARS"
| "ENV_PROFILES ProfClaude = BASE_VARS @ CLAUDE_VARIABLES"
| "ENV_PROFILES ProfGithub = BASE_VARS @ GITHUB_VARIABLES @ GIT_VARIABLES"
| "ENV_PROFILES ProfGit = BASE_VARS @ GIT_VARIABLES"

definition filteredEnvironment ::
  "(string \<rightharpoonup> string) \<Rightarrow> (string \<rightharpoonup> string) \<Rightarrow> env_profile \<Rightarrow> string \<rightharpoonup> string" where
  "filteredEnvironment source extra profile =
     (\<lambda>name. if name \<in> set (ENV_PROFILES profile) then source name else None) ++ extra"

lemma dom_filteredEnvironment:
  "dom (filteredEnvironment source extra profile) = dom source \<inter> set (ENV_PROFILES profile) \<union> dom extra"
  by (auto simp: filteredEnvironment_def split: if_splits)

subsection \<open>Computations\<close>

record world =
  wd_calls :: "(call \<times> (string + run_result)) list"
  wd_ticks :: nat
  wd_journal :: "string option"
  wd_lock :: "string option"
  wd_budget :: "budget option"

record env =
  en_exec :: "world \<Rightarrow> call \<Rightarrow> string + run_result"
  en_now :: "world \<Rightarrow> int"
  en_iso :: "int \<Rightarrow> string"
  en_readFile :: "world \<Rightarrow> string \<Rightarrow> string option"
  en_which :: "world \<Rightarrow> string \<Rightarrow> string option"
  en_source :: "string \<rightharpoonup> string"
  en_cwd :: string
  en_stopping :: "world \<Rightarrow> bool"
  en_nfkd :: "string \<Rightarrow> string"
  en_localeCompare :: "string \<Rightarrow> string \<Rightarrow> bool"
  en_syntaxMessage :: "string \<Rightarrow> string"
  en_issues :: "string \<Rightarrow> json \<Rightarrow> zod_issue list"
  en_safeParseReview :: "json \<Rightarrow> zod_issue list + review_result"
  en_safeParsePolicy :: "json \<Rightarrow> zod_issue list + loop_policy"

type_synonym 'a io = "world \<Rightarrow> (string + 'a) \<times> world"

definition return_io :: "'a \<Rightarrow> 'a io" where "return_io x w = (Inr x, w)"

definition throw_io :: "string \<Rightarrow> 'a io" where "throw_io e w = (Inl e, w)"

definition bind_io :: "'a io \<Rightarrow> ('a \<Rightarrow> 'b io) \<Rightarrow> 'b io" where
  "bind_io m f w = (case m w of (Inl e, w') \<Rightarrow> (Inl e, w') | (Inr x, w') \<Rightarrow> f x w')"

definition catch_io :: "'a io \<Rightarrow> (string \<Rightarrow> 'a io) \<Rightarrow> 'a io" where
  "catch_io m h w = (case m w of (Inl e, w') \<Rightarrow> h e w' | (Inr x, w') \<Rightarrow> (Inr x, w'))"

text \<open>\<open>a; b\<close> without a value, \<open>for (const x of xs) f(x)\<close>, and a call whose failure is ignored.\<close>

definition then_io :: "'a io \<Rightarrow> 'b io \<Rightarrow> 'b io" where "then_io m k = bind_io m (\<lambda>_. k)"

primrec each_io :: "('a \<Rightarrow> 'b io) \<Rightarrow> 'a list \<Rightarrow> unit io" where
  "each_io f [] = return_io ()"
| "each_io f (x # xs) = bind_io (f x) (\<lambda>_. each_io f xs)"

definition ignore_io :: "'a io \<Rightarrow> unit io" where
  "ignore_io m = catch_io (bind_io m (\<lambda>_. return_io ())) (\<lambda>_. return_io ())"

definition get_io :: "(world \<Rightarrow> 'a) \<Rightarrow> 'a io" where "get_io f w = (Inr (f w), w)"

definition update_io :: "(world \<Rightarrow> world) \<Rightarrow> unit io" where "update_io f w = (Inr (), f w)"

definition exec_io :: "env \<Rightarrow> call \<Rightarrow> run_result io" where
  "exec_io env c w = (let r = en_exec env w c in (r, w\<lparr>wd_calls := wd_calls w @ [(c, r)]\<rparr>))"

definition now_io :: "env \<Rightarrow> int io" where
  "now_io env w = (Inr (en_now env w), w\<lparr>wd_ticks := Suc (wd_ticks w)\<rparr>)"

definition iso_io :: "env \<Rightarrow> string io" where
  "iso_io env = bind_io (now_io env) (\<lambda>t. return_io (en_iso env t))"

definition which_io :: "env \<Rightarrow> string \<Rightarrow> string option io" where
  "which_io env command w = (Inr (en_which env w command), w)"

definition readFile_io :: "env \<Rightarrow> string \<Rightarrow> string option io" where
  "readFile_io env path w = (Inr (en_readFile env w path), w)"

definition budget_io :: "env \<Rightarrow> (int \<Rightarrow> budget \<Rightarrow> budget) \<Rightarrow> unit io" where
  "budget_io env f w = (case wd_budget w of None \<Rightarrow> (Inr (), w)
     | Some b \<Rightarrow> (Inr (), w\<lparr>wd_budget := Some (f (en_now env w) b), wd_ticks := Suc (wd_ticks w)\<rparr>))"

definition budget_answer_io :: "env \<Rightarrow> (int \<Rightarrow> budget \<Rightarrow> 'a \<times> budget) \<Rightarrow> 'a \<Rightarrow> 'a io" where
  "budget_answer_io env f d w = (case wd_budget w of None \<Rightarrow> (Inr d, w)
     | Some b \<Rightarrow> (let (x, b') = f (en_now env w) b in (Inr x, w\<lparr>wd_budget := Some b', wd_ticks := Suc (wd_ticks w)\<rparr>)))"

definition sleep_io :: "nat \<Rightarrow> unit io" where
  "sleep_io ms w = (Inr (), w\<lparr>wd_ticks := wd_ticks w + ms\<rparr>)"

text \<open>\<open>try { m } catch\<close> with the message as a value.\<close>

definition try_io :: "'a io \<Rightarrow> (string + 'a) io" where
  "try_io m = catch_io (bind_io m (\<lambda>x. return_io (Inr x))) (\<lambda>e. return_io (Inl e))"

definition readJournal_io :: "journal io" where
  "readJournal_io = get_io (\<lambda>w. readJournal (wd_journal w))"

definition writeJournal_io :: "journal \<Rightarrow> unit io" where
  "writeJournal_io j = update_io (\<lambda>w. w\<lparr>wd_journal := Some (journal_text j)\<rparr>)"

subsection \<open>Reasoning\<close>

text \<open>
  \<open>holds P m Q E\<close>: from a world with \<open>P\<close> a value comes with \<open>Q\<close> and an error leaves \<open>E\<close>.  The rules
  decompose a computation along its structure; \<open>keeps I m\<close> is the case of an invariant.
\<close>

definition holds :: "(world \<Rightarrow> bool) \<Rightarrow> 'a io \<Rightarrow> ('a \<Rightarrow> world \<Rightarrow> bool) \<Rightarrow> (world \<Rightarrow> bool) \<Rightarrow> bool" where
  "holds P m Q E \<longleftrightarrow> 
    (\<forall>w. P w \<longrightarrow> (\<forall>x w'. m w = (Inr x, w') \<longrightarrow> Q x w') \<and> (\<forall>e w'. m w = (Inl e, w') \<longrightarrow> E w'))"

definition keeps :: "(world \<Rightarrow> bool) \<Rightarrow> 'a io \<Rightarrow> bool" where
  "keeps I m \<longleftrightarrow> (\<forall>w. I w \<longrightarrow> I (snd (m w)))"

named_theorems keep \<open>invariants along the structure of a computation\<close>
named_theorems io_simps \<open>unfolding of primitive computations\<close>

lemma holdsI:
  assumes "\<And>w x w'. P w \<Longrightarrow> m w = (Inr x, w') \<Longrightarrow> Q x w'" and "\<And>w e w'. P w \<Longrightarrow> m w = (Inl e, w') \<Longrightarrow> E w'"
  shows "holds P m Q E"
  using assms unfolding holds_def by blast

lemma holdsD:
  "holds P m Q E \<Longrightarrow> P w \<Longrightarrow> m w = (Inr x, w') \<Longrightarrow> Q x w'"
  "holds P m Q E \<Longrightarrow> P w \<Longrightarrow> m w = (Inl e, w') \<Longrightarrow> E w'"
  unfolding holds_def by blast+

lemma bind_cases:
  assumes "bind_io m f w = (r, w')"
  obtains (err) e where "m w = (Inl e, w')" "r = Inl e" | (ok) x v where "m w = (Inr x, v)" "f x v = (r, w')"
  using assms by (auto simp: bind_io_def split: prod.splits sum.splits)

lemma catch_cases:
  assumes "catch_io m h w = (r, w')"
  obtains (err) e v where "m w = (Inl e, v)" "h e v = (r, w')" | (ok) x where "m w = (Inr x, w')" "r = Inr x"
  using assms by (auto simp: catch_io_def split: prod.splits sum.splits)

lemma holds_return: "(\<And>w. P w \<Longrightarrow> Q x w) \<Longrightarrow> holds P (return_io x) Q E"
  by (simp add: holds_def return_io_def)

lemma holds_throw: "(\<And>w. P w \<Longrightarrow> E w) \<Longrightarrow> holds P (throw_io e) Q E"
  by (simp add: holds_def throw_io_def)

lemma holds_bind:
  assumes "holds P m R E" and "\<And>x. holds (R x) (f x) Q E"
  shows "holds P (bind_io m f) Q E"
  by (rule holdsI; erule bind_cases) (use assms in \<open>blast dest: holdsD\<close>)+

lemma holds_catch:
  assumes "holds P m Q R" and "\<And>e. holds R (h e) Q E"
  shows "holds P (catch_io m h) Q E"
  by (rule holdsI; erule catch_cases) (use assms in \<open>blast dest: holdsD\<close>)+

lemma holds_then: "holds P m (\<lambda>_. R) E \<Longrightarrow> holds R k Q E \<Longrightarrow> holds P (then_io m k) Q E"
  unfolding then_io_def by (rule holds_bind)

lemma holds_weaken:
  "holds P m Q E \<Longrightarrow> (\<And>w. P' w \<Longrightarrow> P w) \<Longrightarrow> (\<And>x w. Q x w \<Longrightarrow> Q' x w) \<Longrightarrow> (\<And>w. E w \<Longrightarrow> E' w) \<Longrightarrow> holds P' m Q' E'"
  unfolding holds_def by blast

lemma holds_if: "(c \<Longrightarrow> holds P m Q E) \<Longrightarrow> (\<not> c \<Longrightarrow> holds P k Q E) \<Longrightarrow> holds P (if c then m else k) Q E"
  by simp

lemma keeps_holds: "keeps I m \<longleftrightarrow> holds I m (\<lambda>_. I) I"
proof
  assume "keeps I m"
  then show "holds I m (\<lambda>_. I) I" unfolding keeps_def by (intro holdsI) (metis snd_conv)+
next
  assume h: "holds I m (\<lambda>_. I) I"
  show "keeps I m"
    unfolding keeps_def
  proof (intro allI impI)
    fix w assume w: "I w"
    obtain r w' where m: "m w = (r, w')" by (cases "m w")
    show "I (snd (m w))"
    proof (cases r)
      case (Inl e)
      then show ?thesis using holdsD(2) [OF h w] m by simp
    next
      case (Inr x)
      then show ?thesis using holdsD(1) [OF h w] m by simp
    qed
  qed
qed

lemma keeps_return [keep]: "keeps I (return_io x)" by (simp add: keeps_def return_io_def)
lemma keeps_throw [keep]: "keeps I (throw_io e)" by (simp add: keeps_def throw_io_def)
lemma keeps_get [keep]: "keeps I (get_io f)" by (simp add: keeps_def get_io_def)
lemma keeps_readFile [keep]: "keeps I (readFile_io env p)" by (simp add: keeps_def readFile_io_def)
lemma keeps_which [keep]: "keeps I (which_io env p)" by (simp add: keeps_def which_io_def)

lemma keeps_bind [keep]: "keeps I m \<Longrightarrow> (\<And>x. keeps I (f x)) \<Longrightarrow> keeps I (bind_io m f)"
  unfolding keeps_holds by (rule holds_bind)

lemma keeps_then [keep]: "keeps I m \<Longrightarrow> keeps I k \<Longrightarrow> keeps I (then_io m k)"
  unfolding then_io_def by (rule keeps_bind)

lemma keeps_catch [keep]: "keeps I m \<Longrightarrow> (\<And>e. keeps I (h e)) \<Longrightarrow> keeps I (catch_io m h)"
  unfolding keeps_holds by (rule holds_catch)

lemma keeps_each [keep]: "(\<And>x. x \<in> set xs \<Longrightarrow> keeps I (f x)) \<Longrightarrow> keeps I (each_io f xs)"
  by (induction xs) (auto intro!: keep)

lemma keeps_ignore [keep]: "keeps I m \<Longrightarrow> keeps I (ignore_io m)"
  unfolding ignore_io_def by (intro keep)

lemma keeps_if [keep]: "(c \<Longrightarrow> keeps I m) \<Longrightarrow> (\<not> c \<Longrightarrow> keeps I k) \<Longrightarrow> keeps I (if c then m else k)"
  by simp

lemma keeps_option [keep]:
  "(x = None \<Longrightarrow> keeps I m) \<Longrightarrow> (\<And>y. x = Some y \<Longrightarrow> keeps I (f y)) \<Longrightarrow> keeps I (case x of None \<Rightarrow> m | Some y \<Rightarrow> f y)"
  by (cases x) auto

lemma keeps_sum [keep]:
  "(\<And>e. x = Inl e \<Longrightarrow> keeps I (f e)) \<Longrightarrow> (\<And>y. x = Inr y \<Longrightarrow> keeps I (g y)) \<Longrightarrow>
    keeps I (case x of Inl e \<Rightarrow> f e | Inr y \<Rightarrow> g y)"
  by (cases x) auto

lemma keeps_prod [keep]: "(\<And>a b. x = (a, b) \<Longrightarrow> keeps I (f a b)) \<Longrightarrow> keeps I (case x of (a, b) \<Rightarrow> f a b)"
  by (cases x) auto

lemma keeps_let [keep]: "keeps I (f x) \<Longrightarrow> keeps I (let y = x in f y)"
  by simp

subsection \<open>What a computation may call\<close>

text \<open>
  \<open>calls_only ok m\<close>: \<open>m\<close> adds calls at the end of the trace, all of them \<open>ok\<close>, and takes none away.  So an
  answer once given stays in the trace, and a bound on one kind of call is a sum over the parts.
\<close>

definition calls_only :: "(call \<Rightarrow> bool) \<Rightarrow> 'a io \<Rightarrow> bool" where
  "calls_only ok m \<longleftrightarrow> (\<forall>w. \<exists>cs. wd_calls (snd (m w)) = wd_calls w @ cs \<and> list_all (\<lambda>x. ok (fst x)) cs)"

named_theorems calls \<open>the calls of a computation along its structure\<close>

lemma calls_onlyI:
  "(\<And>w. \<exists>cs. wd_calls (snd (m w)) = wd_calls w @ cs \<and> list_all (\<lambda>x. ok (fst x)) cs) \<Longrightarrow> calls_only ok m"
  by (simp add: calls_only_def)

lemma calls_onlyE:
  assumes "calls_only ok m" and "m w = (r, w')"
  obtains cs where "wd_calls w' = wd_calls w @ cs" "list_all (\<lambda>x. ok (fst x)) cs"
  using assms unfolding calls_only_def by (metis snd_conv)

lemma calls_mono: "calls_only ok m \<Longrightarrow> (\<And>c. ok c \<Longrightarrow> ok' c) \<Longrightarrow> calls_only ok' m"
  unfolding calls_only_def list_all_iff by meson

lemma calls_silent:
  "(\<And>w. wd_calls (snd (m w)) = wd_calls w) \<Longrightarrow> calls_only ok m"
  by (simp add: calls_only_def)

lemma calls_return [calls]: "calls_only ok (return_io x)" by (rule calls_silent) (simp add: return_io_def)
lemma calls_throw [calls]: "calls_only ok (throw_io x)" by (rule calls_silent) (simp add: throw_io_def)
lemma calls_get [calls]: "calls_only ok (get_io f)" by (rule calls_silent) (simp add: get_io_def)
lemma calls_which [calls]: "calls_only ok (which_io env p)" by (rule calls_silent) (simp add: which_io_def)
lemma calls_readFile [calls]: "calls_only ok (readFile_io env p)" by (rule calls_silent) (simp add: readFile_io_def)
lemma calls_now [calls]: "calls_only ok (now_io env)" by (rule calls_silent) (simp add: now_io_def)
lemma calls_budget [calls]: "calls_only ok (budget_io env f)"
  by (rule calls_silent) (simp add: budget_io_def split: option.split)
lemma calls_update [calls]: "(\<And>w. wd_calls (f w) = wd_calls w) \<Longrightarrow> calls_only ok (update_io f)"
  by (rule calls_silent) (simp add: update_io_def)

lemma calls_budget_answer [calls]: "calls_only ok (budget_answer_io env f d)"
  by (rule calls_silent) (simp add: budget_answer_io_def split: option.split prod.split)
lemma calls_sleep [calls]: "calls_only ok (sleep_io n)" by (rule calls_silent) (simp add: sleep_io_def)
lemma calls_journal [calls]: "calls_only ok readJournal_io" "calls_only ok (writeJournal_io j)"
  by (rule calls_silent, simp add: readJournal_io_def writeJournal_io_def get_io_def update_io_def)+

lemma calls_exec [calls]: "ok c \<Longrightarrow> calls_only ok (exec_io env c)"
  by (simp add: calls_only_def exec_io_def Let_def)

lemma calls_bind [calls]:
  assumes "calls_only ok m" and "\<And>x. calls_only ok (f x)"
  shows "calls_only ok (bind_io m f)"
proof (rule calls_onlyI)
  fix w
  obtain r w' where m: "m w = (r, w')" by (cases "m w")
  obtain cs where cs: "wd_calls w' = wd_calls w @ cs" "list_all (\<lambda>x. ok (fst x)) cs"
    using assms(1) m by (rule calls_onlyE)
  show "\<exists>cs. wd_calls (snd (bind_io m f w)) = wd_calls w @ cs \<and> list_all (\<lambda>x. ok (fst x)) cs"
  proof (cases r)
    case (Inr x)
    obtain r2 w2 where "f x w' = (r2, w2)" by (cases "f x w'")
    moreover obtain ds where "wd_calls w2 = wd_calls w' @ ds" "list_all (\<lambda>x. ok (fst x)) ds"
      using assms(2) [of x] calculation by (rule calls_onlyE)
    ultimately show ?thesis using cs Inr by (simp add: bind_io_def m)
  qed (use cs in \<open>simp add: bind_io_def m\<close>)
qed

lemma calls_catch [calls]:
  assumes "calls_only ok m" and "\<And>e. calls_only ok (h e)"
  shows "calls_only ok (catch_io m h)"
proof (rule calls_onlyI)
  fix w
  obtain r w' where m: "m w = (r, w')" by (cases "m w")
  obtain cs where cs: "wd_calls w' = wd_calls w @ cs" "list_all (\<lambda>x. ok (fst x)) cs"
    using assms(1) m by (rule calls_onlyE)
  show "\<exists>cs. wd_calls (snd (catch_io m h w)) = wd_calls w @ cs \<and> list_all (\<lambda>x. ok (fst x)) cs"
  proof (cases r)
    case (Inl e)
    obtain r2 w2 where "h e w' = (r2, w2)" by (cases "h e w'")
    moreover obtain ds where "wd_calls w2 = wd_calls w' @ ds" "list_all (\<lambda>x. ok (fst x)) ds"
      using assms(2) [of e] calculation by (rule calls_onlyE)
    ultimately show ?thesis using cs Inl by (simp add: catch_io_def m)
  qed (use cs in \<open>simp add: catch_io_def m\<close>)
qed

lemma calls_then [calls]: "calls_only ok m \<Longrightarrow> calls_only ok k \<Longrightarrow> calls_only ok (then_io m k)"
  unfolding then_io_def by (rule calls_bind)

lemma calls_iso [calls]: "calls_only ok (iso_io env)"
  unfolding iso_io_def by (intro calls)

lemma calls_each [calls]: "(\<And>x. x \<in> set xs \<Longrightarrow> calls_only ok (f x)) \<Longrightarrow> calls_only ok (each_io f xs)"
  by (induction xs) (auto intro!: calls)

lemma calls_ignore [calls]: "calls_only ok m \<Longrightarrow> calls_only ok (ignore_io m)"
  unfolding ignore_io_def by (intro calls)

lemma calls_try [calls]: "calls_only ok m \<Longrightarrow> calls_only ok (try_io m)"
  unfolding try_io_def by (intro calls)

lemma calls_if [calls]: "(c \<Longrightarrow> calls_only ok m) \<Longrightarrow> (\<not> c \<Longrightarrow> calls_only ok k) \<Longrightarrow> calls_only ok (if c then m else k)"
  by simp

lemma calls_option [calls]:
  "(x = None \<Longrightarrow> calls_only ok m) \<Longrightarrow> (\<And>y. x = Some y \<Longrightarrow> calls_only ok (f y)) \<Longrightarrow>
    calls_only ok (case x of None \<Rightarrow> m | Some y \<Rightarrow> f y)"
  by (cases x) auto

lemma calls_sum [calls]:
  "(\<And>e. x = Inl e \<Longrightarrow> calls_only ok (f e)) \<Longrightarrow> (\<And>y. x = Inr y \<Longrightarrow> calls_only ok (g y)) \<Longrightarrow>
    calls_only ok (case x of Inl e \<Rightarrow> f e | Inr y \<Rightarrow> g y)"
  by (cases x) auto

lemma calls_prod [calls]:
  "(\<And>a b. x = (a, b) \<Longrightarrow> calls_only ok (f a b)) \<Longrightarrow> calls_only ok (case x of (a, b) \<Rightarrow> f a b)"
  by (cases x) auto

lemma calls_list [calls]:
  "(x = [] \<Longrightarrow> calls_only ok m) \<Longrightarrow> (\<And>y ys. x = y # ys \<Longrightarrow> calls_only ok (f y ys)) \<Longrightarrow>
    calls_only ok (case x of [] \<Rightarrow> m | y # ys \<Rightarrow> f y ys)"
  by (cases x) auto

lemma calls_let [calls]: "(\<And>y. y = x \<Longrightarrow> calls_only ok (f y)) \<Longrightarrow> calls_only ok (let y = x in f y)"
  by simp

text \<open>Every call of the trace is of a kind; this call was answered so.\<close>

definition all_calls :: "(call \<Rightarrow> bool) \<Rightarrow> world \<Rightarrow> bool" where
  "all_calls ok w \<longleftrightarrow> list_all (\<lambda>x. ok (fst x)) (wd_calls w)"

definition has_call :: "call \<Rightarrow> run_result \<Rightarrow> world \<Rightarrow> bool" where
  "has_call c r w \<longleftrightarrow> (c, Inr r) \<in> set (wd_calls w)"

lemma calls_keep_all: "calls_only ok m \<Longrightarrow> keeps (all_calls ok) m"
  unfolding keeps_def all_calls_def by (metis calls_only_def list_all_append)

lemma calls_keep_has: "calls_only ok m \<Longrightarrow> keeps (has_call c r) m"
  unfolding keeps_def has_call_def by (metis calls_only_def set_append UnI1)

lemma exec_answer: "exec_io env c w = (Inr r, w') \<Longrightarrow> has_call c r w'"
  by (auto simp: exec_io_def has_call_def Let_def)

subsection \<open>How many calls\<close>

text \<open>\<open>costs p n m\<close>: running \<open>m\<close> adds at most \<open>n\<close> subprocesses of the kind \<open>p\<close>.\<close>

definition count_calls :: "(call \<Rightarrow> bool) \<Rightarrow> world \<Rightarrow> nat" where
  "count_calls p w = length (filter (\<lambda>x. p (fst x)) (wd_calls w))"

definition costs :: "(call \<Rightarrow> bool) \<Rightarrow> nat \<Rightarrow> 'a io \<Rightarrow> bool" where
  "costs p n m \<longleftrightarrow> (\<forall>w. count_calls p (snd (m w)) \<le> count_calls p w + n)"

lemma costs_none:
  assumes "calls_only ok m" and "\<And>c. ok c \<Longrightarrow> \<not> p c"
  shows "costs p n m"
  unfolding costs_def
proof
  fix w
  obtain r w' where m: "m w = (r, w')" by (cases "m w")
  obtain cs where cs: "wd_calls w' = wd_calls w @ cs" "list_all (\<lambda>x. ok (fst x)) cs"
    using assms(1) m by (rule calls_onlyE)
  have "filter (\<lambda>x. p (fst x)) cs = []" using cs(2) assms(2) by (auto simp: list_all_iff filter_empty_conv)
  then show "count_calls p (snd (m w)) \<le> count_calls p w + n" using cs(1) m by (simp add: count_calls_def)
qed

lemma costs_bind:
  assumes "costs p a m" and "\<And>x. costs p b (f x)" and "a + b \<le> n"
  shows "costs p n (bind_io m f)"
  unfolding costs_def
proof
  fix w
  obtain r w' where m: "m w = (r, w')" by (cases "m w")
  have "count_calls p w' \<le> count_calls p w + a" using assms(1) m unfolding costs_def by (metis snd_conv)
  moreover have "count_calls p (snd (f x w')) \<le> count_calls p w' + b" for x using assms(2) unfolding costs_def by blast
  ultimately show "count_calls p (snd (bind_io m f w)) \<le> count_calls p w + n"
    using assms(3) by (cases r) (auto simp: bind_io_def m intro: order_trans [of _ "count_calls p w' + b"])
qed

lemma costs_exec: "(p c \<Longrightarrow> 1 \<le> n) \<Longrightarrow> costs p n (exec_io env c)"
  by (auto simp: costs_def exec_io_def count_calls_def Let_def)

lemma costs_mono: "costs p a m \<Longrightarrow> a \<le> n \<Longrightarrow> costs p n m"
  unfolding costs_def by (meson add_left_mono order_trans)

end
