(* ===== verification/RxReplace.thy ===== *)
theory RxReplace
  imports Regexp
begin

text \<open>
  More about searching and replacing with the regular expressions of \<open>Regexp\<close>: the groups a match
  captures, what a search passes over, which characters a global replacement can leave, and
  greedy repetition of a character class with at least one member.
\<close>

text \<open>The text of a group, or the empty text.\<close>

definition capture :: "rmatch \<Rightarrow> nat \<Rightarrow> string" where
  "capture m n = (case group m n of Some t \<Rightarrow> t | None \<Rightarrow> [])"

subsection \<open>Searches that replace\<close>

text \<open>What a group captures is a piece of the text.\<close>

definition within :: "char set \<Rightarrow> mstate \<Rightarrow> bool" where
  "within A st \<longleftrightarrow> set (fst (snd st)) \<subseteq> A \<and> (\<forall>x \<in> set (snd (snd st)). set (snd x) \<subseteq> A)"

lemma set_alist_update: "set (AList.update k v m) \<subseteq> insert (k, v) (set m)"
  by (induction m) auto

lemma within_ops:
  "within A st \<Longrightarrow> within A (clear_groups ns st)"
  "within A st \<Longrightarrow> set s \<subseteq> A \<Longrightarrow> within A (set_group n s st)"
proof -
  assume st: "within A st"
  then show "within A (clear_groups ns st)" by (auto simp: within_def clear_groups_def)
  assume "set s \<subseteq> A"
  then have k: "set (take k s) \<subseteq> A" for k using set_take_subset [of k s] by blast
  have "set (snd x) \<subseteq> A" if x: "x \<in> set (AList.update n (take k s) (snd (snd st)))" for x k
    using subsetD [OF set_alist_update x] st k [of k] by (auto simp: within_def)
  then show "within A (set_group n s st)" using st by (simp add: within_def set_group_def)
qed

lemma within_step: "within A st \<Longrightarrow> st' \<in> set (step_char p st) \<Longrightarrow> within A st'"
  by (induction p st rule: step_char.induct) (auto simp: within_def split: if_splits)

lemma within_rep:
  assumes "\<And>st st'. within A st \<Longrightarrow> st' \<in> set (m st) \<Longrightarrow> within A st'"
  shows "within A st \<Longrightarrow> st' \<in> set (rep_match f g m mn mx st) \<Longrightarrow> within A st'"
proof (induction f arbitrary: mn mx st)
  case (Suc f)
  have "st' = st \<or> (\<exists>u \<in> set (m st). \<exists>mn' mx'. st' \<in> set (rep_match f g m mn' mx' u))"
    using Suc.prems(2) by (auto simp: Let_def split: if_splits)
  then show ?case using Suc.IH Suc.prems(1) assms by blast
qed simp

lemma within_rxm: "within A st \<Longrightarrow> st' \<in> set (rxm fl r st) \<Longrightarrow> within A st'"
proof (induction r arbitrary: st st')
  case (RRep g mn mx r)
  have "within A u'" if "within A u" "u' \<in> set (rxm fl r (clear_groups (groups r) u))" for u u'
    using RRep.IH [OF within_ops(1) [OF that(1)] that(2)] .
  then show ?case
    using within_rep [where m = "\<lambda>u. rxm fl r (clear_groups (groups r) u)"] RRep.prems
    unfolding rxm.simps(6) by blast
next
  case (RGroup n r)
  from RGroup.prems(2) obtain u where u: "u \<in> set (rxm fl r st)" "st' = set_group n (fst (snd st)) u" by auto
  have "within A u" by (rule RGroup.IH [OF RGroup.prems(1) u(1)])
  then show ?case unfolding u(2) by (rule within_ops(2)) (use RGroup.prems(1) in \<open>simp add: within_def\<close>)
next
  case (RSeq r s)
  from RSeq.prems(2) obtain u where "u \<in> set (rxm fl r st)" "st' \<in> set (rxm fl s u)" by auto
  then show ?case using RSeq.IH RSeq.prems(1) by blast
next
  case (RSet neg cs)
  then show ?case unfolding rxm.simps by (rule within_step)
next
  case RDot
  then show ?case unfolding rxm.simps by (rule within_step)
next
  case (RAlt r1 r2)
  from RAlt.prems(2) have "st' \<in> set (rxm fl r1 st) \<or> st' \<in> set (rxm fl r2 st)" by simp
  then show ?case using RAlt.IH RAlt.prems(1) by blast
next
  case (RNegLook r)
  from RNegLook.prems(2) have "st' = st" by (simp split: if_splits)
  then show ?case using RNegLook.prems(1) by simp
qed (simp_all split: if_splits)

lemma within_capture: "within A x \<Longrightarrow> m_caps m = snd (snd x) \<Longrightarrow> set (capture m n) \<subseteq> A"
  by (cases "map_of (m_caps m) n") (simp_all add: within_def capture_def group_def, metis map_of_SomeD snd_conv)

lemma capture_within:
  assumes "find_from fl r b s = Some m"
  shows "set (capture m n) \<subseteq> set s"
  using assms
proof (induction s arbitrary: b)
  case Nil
  then obtain x xs where x: "rxm fl r (b, [], []) = x # xs" by (auto simp: find_from.simps split: list.splits)
  have "within {} x" by (rule within_rxm [of _ "(b, [], [])" _ fl r]) (simp_all add: within_def x)
  moreover have "m_caps m = snd (snd x)" using Nil x by (cases x) (auto simp: find_from.simps)
  ultimately show ?case unfolding list.set(1) by (rule within_capture)
next
  case (Cons c s)
  show ?case
  proof (cases "rxm fl r (b, c # s, [])")
    case Nil
    with Cons.prems have "find_from fl r (c # b) s = Some m" by (simp add: find_from.simps [of fl r b])
    then show ?thesis using Cons.IH by fastforce
  next
    case (Cons x xs)
    have "within (set (c # s)) x" by (rule within_rxm [of _ "(b, c # s, [])" _ fl r]) (simp_all add: within_def Cons)
    moreover have "m_caps m = snd (snd x)"
      using Cons.prems Cons by (cases x) (auto simp: find_from.simps [of fl r b])
    ultimately show ?thesis by (rule within_capture)
  qed
qed

text \<open>What a search passes over holds no match.\<close>

lemma find_from_passed:
  "find_from fl r b s = Some m \<Longrightarrow> \<exists>w. s = w @ m_text m @ m_after m \<and> m_before m = rev w @ b
     \<and> (\<forall>u v. w = u @ v \<longrightarrow> v \<noteq> [] \<longrightarrow> rxm fl r (rev u @ b, v @ m_text m @ m_after m, []) = [])"
proof (induction s arbitrary: b)
  case Nil
  then have "m = \<lparr>m_before = b, m_text = [], m_after = m_after m, m_caps = m_caps m\<rparr> \<and> m_after m = []"
  proof -
    obtain b' s' cap xs where x: "rxm fl r (b, [], []) = (b', s', cap) # xs"
      using Nil by (auto simp: find_from.simps split: list.splits)
    have "s' = []" using rxm_advances [of "(b', s', cap)" fl r "(b, [], [])"] x by (simp add: advances_def)
    with Nil x show ?thesis by (auto simp: find_from.simps)
  qed
  then show ?case by (metis append_Nil append_is_Nil_conv rev.simps(1) rmatch.select_convs(1,2))
next
  case (Cons c s)
  show ?case
  proof (cases "rxm fl r (b, c # s, [])")
    case Nil
    with Cons.prems have "find_from fl r (c # b) s = Some m" by (simp add: find_from.simps [of fl r b])
    from Cons.IH [OF this] obtain w where w: "s = w @ m_text m @ m_after m" "m_before m = rev w @ c # b"
      "\<forall>u v. w = u @ v \<longrightarrow> v \<noteq> [] \<longrightarrow> rxm fl r (rev u @ c # b, v @ m_text m @ m_after m, []) = []" by blast
    have "rxm fl r (rev u @ b, v @ m_text m @ m_after m, []) = []" if uv: "c # w = u @ v" "v \<noteq> []" for u v
      using uv w(1,3) Nil by (cases u) auto
    then show ?thesis using w(1,2) by (intro exI [of _ "c # w"]) auto
  next
    case (Cons x xs)
    then obtain b' s' cap where x: "rxm fl r (b, c # s, []) = (b', s', cap) # xs" by (cases x) auto
    obtain w where w: "c # s = w @ s'"
      using rxm_advances [of "(b', s', cap)" fl r "(b, c # s, [])"] x by (auto simp: advances_def)
    from Cons.prems x have "m = \<lparr>m_before = b, m_text = take (length (c # s) - length s') (c # s), m_after = s', m_caps = cap\<rparr>"
      by (simp add: find_from.simps [of fl r b])
    then show ?thesis using w by (intro exI [of _ "[]"]) auto
  qed
qed

lemma find_from_None:
  "find_from fl r b s = None \<Longrightarrow> s = u @ v \<Longrightarrow> rxm fl r (rev u @ b, v, []) = []"
  using find_from_iff [of fl r b s] by blast

lemma find_from_match:
  assumes "find_from fl r b s = Some m"
  shows "\<exists>st. st \<in> set (rxm fl r (m_before m, m_text m @ m_after m, [])) \<and> fst (snd st) = m_after m"
  using assms
proof (induction s arbitrary: b)
  case Nil
  then show ?case using rxm_advances [of _ fl r "(b, [], [])"]
    by (fastforce simp: find_from.simps advances_def split: list.splits)
next
  case (Cons c s)
  show ?case
  proof (cases "rxm fl r (b, c # s, [])")
    case Nil
    with Cons.prems have "find_from fl r (c # b) s = Some m" by (simp add: find_from.simps [of fl r b])
    then show ?thesis by (rule Cons.IH)
  next
    case (Cons x xs)
    then obtain b' s' cap where x: "rxm fl r (b, c # s, []) = (b', s', cap) # xs" by (cases x) auto
    obtain w where w: "c # s = w @ s'"
      using rxm_advances [of "(b', s', cap)" fl r "(b, c # s, [])"] x by (auto simp: advances_def)
    from Cons.prems x have m: "m = \<lparr>m_before = b, m_text = take (length (c # s) - length s') (c # s), m_after = s', m_caps = cap\<rparr>"
      by (simp add: find_from.simps [of fl r b])
    have "m_text m @ m_after m = c # s" using w by (simp add: m)
    then show ?thesis using x by (intro exI [of _ "(b', s', cap)"]) (simp add: m)
  qed
qed

text \<open>The characters a replacement leaves are those it puts in and those that start no match.\<close>

lemma set_replace_from:
  assumes start: "\<And>b c s. \<not> P c \<Longrightarrow> rxm fl r (b, c # s, []) \<noteq> []" and put: "\<And>m. \<forall>c \<in> set (f m). P c"
    and moves: "\<And>b s st. st \<in> set (rxm fl r (b, s, [])) \<Longrightarrow> fst (snd st) \<noteq> s"
  shows "length s < k \<Longrightarrow> \<forall>c \<in> set (replace_from k fl r f b s). P c"
proof (induction k arbitrary: b s)
  case (Suc k)
  show ?case
  proof (cases "find_from fl r b s")
    case None
    have "P c" if c: "c \<in> set s" for c
    proof -
      obtain u v where "s = u @ c # v" using split_list [OF c] by blast
      from find_from_None [OF None this] start show ?thesis by blast
    qed
    with None show ?thesis by simp
  next
    case (Some m)
    from find_from_passed [OF Some] obtain w where w: "s = w @ m_text m @ m_after m"
      "\<forall>u v. w = u @ v \<longrightarrow> v \<noteq> [] \<longrightarrow> rxm fl r (rev u @ b, v @ m_text m @ m_after m, []) = []" by blast
    have kept: "P c" if c: "c \<in> set w" for c
    proof -
      obtain u v where uv: "w = u @ c # v" using split_list [OF c] by blast
      then have "rxm fl r (rev u @ b, c # v @ m_text m @ m_after m, []) = []" using w(2) by fastforce
      then show ?thesis using start by blast
    qed
    obtain st where st: "st \<in> set (rxm fl r (m_before m, m_text m @ m_after m, []))" "fst (snd st) = m_after m"
      using find_from_match [OF Some] by blast
    have "m_text m \<noteq> []" using moves [OF st(1)] st(2) by auto
    then obtain x xs where mt: "m_text m = x # xs" by (cases "m_text m") auto
    then show ?thesis
      using Some w(1) kept put [of m] Suc.IH [of "m_after m" "rev (m_text m) @ m_before m"] Suc.prems by auto
  qed
qed simp

lemma set_rx_replace:
  assumes "\<And>b c s. \<not> P c \<Longrightarrow> rxm fl r (b, c # s, []) \<noteq> []" and "\<And>m. \<forall>c \<in> set (f m). P c"
    and "\<And>b s st. st \<in> set (rxm fl r (b, s, [])) \<Longrightarrow> fst (snd st) \<noteq> s"
  shows "\<forall>c \<in> set (rx_replace fl r f s). P c"
  unfolding rx_replace_def by (rule set_replace_from) (use assms in blast)+

text \<open>A replacement by nothing, or by a piece of the match, adds no character.\<close>

lemma set_replace_sub:
  assumes "\<And>m. set (f m) \<subseteq> set (m_text m)"
  shows "set (replace_from k fl r f b s) \<subseteq> set s"
proof (induction k arbitrary: b s)
  case (Suc k)
  show ?case
  proof (cases "find_from fl r b s")
    case (Some m)
    from find_from_passed [OF Some] obtain w where w: "s = w @ m_text m @ m_after m" by blast
    have tail: "set (replace_from k fl r f b' (m_after m)) \<subseteq> set s" for b'
      using Suc.IH [of b' "m_after m"] w by auto
    have tail2: "c \<in> set s \<and> set (replace_from k fl r f b' cs) \<subseteq> set s" if "m_after m = c # cs" for b' c cs
      using Suc.IH [of b' cs] w that by auto
    have "set (f m) \<subseteq> set s" "set w \<subseteq> set s" using assms [of m] w by auto
    moreover have "replace_from (Suc k) fl r f b s = w @ f m @
        (case m_text m of
           [] \<Rightarrow> (case m_after m of [] \<Rightarrow> [] | c # cs \<Rightarrow> c # replace_from k fl r f (c # m_before m) cs)
         | _ \<Rightarrow> replace_from k fl r f (rev (m_text m) @ m_before m) (m_after m))"
      using Some w by simp
    ultimately show ?thesis using tail tail2 by (cases "m_text m"; cases "m_after m") (simp_all del: replace_from.simps)
  qed simp
qed simp

subsection \<open>Repeated classes\<close>

lemma plus_class_set:
  "set (rxm fl (RRep True (Suc 0) None (RSet neg cs)) (b, s, cap)) =
    {(rev w @ b, s', cap) |w s'. s = w @ s' \<and> w \<noteq> [] \<and> (\<forall>c \<in> set w. class_match (icase fl) cs c \<noteq> neg)}"
    (is "_ = ?R")
proof (cases s)
  case Nil
  then show ?thesis by (subst rxm_rep_unfold) (auto simp: clear_groups_def)
next
  case (Cons x t)
  let ?p = "\<lambda>c. class_match (icase fl) cs c \<noteq> neg"
  have "set (rxm fl (RRep True (Suc 0) None (RSet neg cs)) (b, s, cap)) =
      (if ?p x then set (rxm fl (RRep True 0 None (RSet neg cs)) (x # b, t, cap)) else {})"
    by (subst rxm_rep_unfold) (simp add: Cons clear_groups_def)
  also have "\<dots> = ?R"
  proof -
    have "(\<exists>w s'. st = (rev w @ b, s', cap) \<and> x # t = w @ s' \<and> w \<noteq> [] \<and> (\<forall>c \<in> set w. ?p c)) \<longleftrightarrow>
        ?p x \<and> (\<exists>w s'. st = (rev w @ x # b, s', cap) \<and> t = w @ s' \<and> (\<forall>c \<in> set w. ?p c))" for st
    proof
      assume "\<exists>w s'. st = (rev w @ b, s', cap) \<and> x # t = w @ s' \<and> w \<noteq> [] \<and> (\<forall>c \<in> set w. ?p c)"
      then obtain w s' where "st = (rev w @ b, s', cap)" "x # t = w @ s'" "w \<noteq> []" "\<forall>c \<in> set w. ?p c" by blast
      then show "?p x \<and> (\<exists>w s'. st = (rev w @ x # b, s', cap) \<and> t = w @ s' \<and> (\<forall>c \<in> set w. ?p c))"
        by (cases w) auto
    next
      assume "?p x \<and> (\<exists>w s'. st = (rev w @ x # b, s', cap) \<and> t = w @ s' \<and> (\<forall>c \<in> set w. ?p c))"
      then obtain w s' where "?p x" "st = (rev w @ x # b, s', cap)" "t = w @ s'" "\<forall>c \<in> set w. ?p c" by blast
      then show "\<exists>w s'. st = (rev w @ b, s', cap) \<and> x # t = w @ s' \<and> w \<noteq> [] \<and> (\<forall>c \<in> set w. ?p c)"
        by (intro exI [of _ "x # w"] exI [of _ s']) auto
    qed
    then show ?thesis unfolding star_class_set Cons by auto
  qed
  finally show ?thesis .
qed

lemma plus_class_then:
  "rxm fl (RSeq (RRep True (Suc 0) None (RSet neg cs)) R) (b, s, cap) \<noteq> [] \<longleftrightarrow>
    (\<exists>w s'. s = w @ s' \<and> w \<noteq> [] \<and> (\<forall>c \<in> set w. class_match (icase fl) cs c \<noteq> neg)
       \<and> rxm fl R (rev w @ b, s', cap) \<noteq> [])"
proof -
  have "rxm fl (RSeq (RRep True (Suc 0) None (RSet neg cs)) R) (b, s, cap) \<noteq> [] \<longleftrightarrow>
      (\<exists>st \<in> set (rxm fl (RRep True (Suc 0) None (RSet neg cs)) (b, s, cap)). rxm fl R st \<noteq> [])"
    by (simp add: concat_eq_Nil_conv)
  then show ?thesis unfolding plus_class_set by blast
qed

end
