(* ===== verification/Redact.thy ===== *)
theory Redact
  imports RxReplace Summary
begin

text \<open>
  \<open>tooling/local-runner/src/redact.ts\<close> and \<open>report.ts\<close>: the credential-shaped texts that are
  replaced before anything leaves the machine, and the comments the runner publishes.
  \<open>redactJson\<close> goes through the printed value and back; \<open>JSON.parse\<close> may throw, which is \<open>None\<close>.
\<close>

subsection \<open>Redaction\<close>

definition plain_label :: "string \<Rightarrow> rmatch \<Rightarrow> string" where "plain_label l m = l"

definition REDACT_PATTERNS :: "(rflags \<times> rx \<times> (rmatch \<Rightarrow> string)) list" where
  "REDACT_PATTERNS =
    [(noflags, re ''%bgh[pousr]_[A-Za-z0-9]{20,}'', plain_label ''[redacted:github-token]''),
     (noflags, re ''%bgithub_pat_[A-Za-z0-9_]{20,}'', plain_label ''[redacted:github-token]''),
     (noflags, re ''%bsk-ant-[A-Za-z0-9_-]{10,}'', plain_label ''[redacted:anthropic-key]''),
     (noflags, re ''%bsk-[A-Za-z0-9]{32,}'', plain_label ''[redacted:openai-key]''),
     (noflags, re ''%bAKIA[0-9A-Z]{16}%b'', plain_label ''[redacted:aws-key]''),
     (noflags, re ''-----BEGIN [A-Z ]*PRIVATE KEY-----[%s%S]*?-----END [A-Z ]*PRIVATE KEY-----'',
       plain_label ''[redacted:private-key]''),
     (noflags, re ''%bBearer%s+[A-Za-z0-9._~+/-]{20,}=*'', plain_label ''[redacted:bearer]''),
     (flag_i, re ''%b([A-Z0-9_]*(?:PASSWORD|SECRET|TOKEN|API_KEY|ACCESS_KEY|SIGNING_KEY|PRIVATE_KEY))=%S+'',
       \<lambda>m. capture m 1 @ ''=[redacted]''),
     (noflags, re ''%b(%w+:)%/%/([^:/@%s]+):[^@%s]+@'', \<lambda>m. capture m 1 @ ''//'' @ capture m 2 @ '':[redacted]@'')]"

definition redact_step :: "rflags \<times> rx \<times> (rmatch \<Rightarrow> string) \<Rightarrow> string \<Rightarrow> string" where
  "redact_step p s = rx_replace (fst p) (fst (snd p)) (snd (snd p)) s"

definition redact :: "string \<Rightarrow> string" where
  "redact s = fold redact_step REDACT_PATTERNS s"

definition redactJson :: "json \<Rightarrow> json option" where
  "redactJson v = json_parse (redact (json_compact v))"

subsection \<open>Publishing\<close>

definition publishable :: "string \<Rightarrow> string" where
  "publishable t = sanitiseForMarkdown (redact t)"

definition RUNNER_MARKER :: string where "RUNNER_MARKER = ''<!-- newsdeck-local-runner -->''"

record runner_comment =
  rc_issue :: nat
  rc_branch :: string
  rc_agent :: string
  rc_phase :: string
  rc_body :: string

definition renderRunnerComment :: "runner_comment \<Rightarrow> string" where
  "renderRunnerComment i = unlines
     [RUNNER_MARKER,
      ''### Local runner '' @ emdash @ '' '' @ publishable (rc_phase i),
      [],
      ''- Issue: #'' @ dec (rc_issue i),
      ''- Branch: `'' @ publishable (rc_branch i) @ ''`'',
      ''- Agent: `'' @ publishable (rc_agent i) @ ''`'',
      [],
      publishable (rc_body i),
      [],
      ''_Posted by the local Claude Code runner (`bun run loop:once`). It does not merge; the GitHub merge gate does._'']"

subsection \<open>Lemmas\<close>

lemma redact_patterns_compile: "list_all (\<lambda>p. fst (snd p) \<noteq> RSet False []) REDACT_PATTERNS"
  by code_simp

text \<open>A text in which no pattern occurs is left alone.\<close>

lemma redact_step_id:
  assumes "\<not> rx_test (fst p) (fst (snd p)) s"
  shows "redact_step p s = s"
  using assms by (simp add: redact_step_def rx_replace_def rx_test_def rx_exec_def)

lemma redact_id: "list_all (\<lambda>p. \<not> rx_test (fst p) (fst (snd p)) s) REDACT_PATTERNS \<Longrightarrow> redact s = s"
proof -
  have "fold redact_step ps s = s" if "list_all (\<lambda>p. \<not> rx_test (fst p) (fst (snd p)) s) ps" for ps
    using that by (induction ps) (auto simp: redact_step_id)
  then show "list_all (\<lambda>p. \<not> rx_test (fst p) (fst (snd p)) s) REDACT_PATTERNS \<Longrightarrow> redact s = s"
    by (simp add: redact_def)
qed

subsection \<open>Texts that are left alone\<close>

text \<open>
  A character that every match of a pattern contains, and the literal text that every match begins with
  (after a word boundary): without them a search needs not be run.
\<close>

primrec needs :: "char \<Rightarrow> rx \<Rightarrow> bool" where
  "needs c REps = False"
| "needs c (RSet neg cs) = (\<not> neg \<and> cs = [CIChar c])"
| "needs c RDot = False"
| "needs c (RSeq r t) = (needs c r \<or> needs c t)"
| "needs c (RAlt r t) = (needs c r \<and> needs c t)"
| "needs c (RRep g mn mx r) = (mn \<noteq> 0 \<and> mx \<noteq> Some 0 \<and> needs c r)"
| "needs c (RGroup n r) = needs c r"
| "needs c RBol = False"
| "needs c REol = False"
| "needs c (RWordB b) = False"
| "needs c (RNegLook r) = False"

definition caseless :: "char \<Rightarrow> bool" where
  "caseless c \<longleftrightarrow> (\<forall>d. lower_char d = c \<or> upper_char d = c \<longrightarrow> d = c)"

lemma advances_rest: "x \<in> set (rxm fl r st) \<Longrightarrow> set (fst (snd x)) \<subseteq> set (fst (snd st))"
  using rxm_advances [of x fl r st] by (auto simp: advances_def)

lemma needs_rxm: "needs c r \<Longrightarrow> \<not> icase fl \<or> caseless c \<Longrightarrow> c \<notin> set (fst (snd st)) \<Longrightarrow> rxm fl r st = []"
proof (induction r arbitrary: st)
  case (RSet neg cs)
  obtain b t k where st: "st = (b, t, k)" by (cases st)
  then show ?case
  proof (cases t)
    case (Cons d rest)
    then have "d \<noteq> c" using RSet.prems(3) st by auto
    moreover have "icase fl \<Longrightarrow> lower_char d \<noteq> c \<and> upper_char d \<noteq> c"
      using RSet.prems(2) calculation unfolding caseless_def by blast
    ultimately have "\<not> class_match (icase fl) [CIChar c] d" by (auto simp: class_match_def)
    then show ?thesis using RSet.prems(1) st Cons by simp
  qed simp
next
  case (RSeq r t)
  show ?case
  proof (cases "needs c r")
    case False
    then have "rxm fl t x = []" if "x \<in> set (rxm fl r st)" for x
      using RSeq.prems advances_rest [OF that] by (intro RSeq.IH(2)) auto
    then show ?thesis by simp
  qed (use RSeq in simp)
next
  case (RRep g mn mx r)
  have "rxm fl r (clear_groups (groups r) st) = []"
    using RRep.prems by (intro RRep.IH) (auto simp: clear_groups_def)
  moreover have "mn \<noteq> 0" "mx \<noteq> Some 0" using RRep.prems by auto
  ultimately show ?case unfolding rxm.simps rep_match.simps by (simp add: Let_def)
qed auto

lemma needs_test:
  assumes "needs c r" and "\<not> icase fl \<or> caseless c" and "c \<notin> set s"
  shows "\<not> rx_test fl r s"
  using needs_rxm [OF assms(1,2)] assms(3) by (auto simp: rx_test_iff)

primrec lits :: "rx \<Rightarrow> string" where
  "lits REps = []"
| "lits (RSet neg cs) = (case cs of [CIChar c] \<Rightarrow> (if neg then [] else [c]) | _ \<Rightarrow> [])"
| "lits RDot = []"
| "lits (RSeq r t) = (case r of RWordB _ \<Rightarrow> lits t | RSet False [CIChar c] \<Rightarrow> c # lits t | _ \<Rightarrow> [])"
| "lits (RAlt r t) = []"
| "lits (RRep g mn mx r) = []"
| "lits (RGroup n r) = []"
| "lits RBol = []"
| "lits REol = []"
| "lits (RWordB b) = []"
| "lits (RNegLook r) = []"

lemma lits_rxm: "rxm noflags r (b, s, k) \<noteq> [] \<Longrightarrow> starts_with (lits r) s"
proof (induction r arbitrary: b s k)
  case (RSet neg cs)
  then show ?case by (cases s) (auto simp: class_match_def noflags_def split: list.splits citem.splits if_splits)
next
  case (RSeq r t)
  show ?case
  proof (cases r)
    case (RWordB p)
    then show ?thesis using RSeq.prems RSeq.IH(2) by (auto split: if_splits)
  next
    case (RSet neg cs)
    then show ?thesis using RSeq.prems RSeq.IH(2)
      by (cases s) (auto simp: class_match_def noflags_def split: list.splits citem.splits bool.splits if_splits)
  qed simp_all
qed simp_all

lemma lits_test:
  assumes "\<not> contains (lits r) s"
  shows "\<not> rx_test noflags r s"
proof
  assume "rx_test noflags r s"
  then obtain a c where "s = a @ c" "rxm noflags r (rev a, c, []) \<noteq> []" unfolding rx_test_iff by blast
  then have "s = a @ c" "starts_with (lits r) c" using lits_rxm by blast+
  then show False using assms by (auto simp: contains_iff starts_with_iff)
qed

text \<open>The patterns of the redaction.\<close>

definition quiet_text :: "string \<Rightarrow> bool" where
  "quiet_text s = (list_all (\<lambda>l. \<not> contains l s) [''gh'', ''github_pat_'', ''sk-ant-'', ''sk-'', ''AKIA'', ''-----BEGIN '', ''Bearer'']
     \<and> CHR ''='' \<notin> set s \<and> CHR ''@'' \<notin> set s)"

lemma redact_literals:
  "map (\<lambda>p. lits (fst (snd p))) (take 7 REDACT_PATTERNS) =
     [''gh'', ''github_pat_'', ''sk-ant-'', ''sk-'', ''AKIA'', ''-----BEGIN '', ''Bearer'']"
  "map fst REDACT_PATTERNS = [noflags, noflags, noflags, noflags, noflags, noflags, noflags, flag_i, noflags]"
  "list_all2 (\<lambda>c p. needs c (fst (snd p))) ''=@'' (drop 7 REDACT_PATTERNS)"
  by code_simp+


lemma caseless_equals: "caseless (CHR ''='')"
proof -
  have upper: "upper_char d \<noteq> CHR ''=''" if "is_lower d" for d
  proof -
    define n where "n = (of_char d :: nat)"
    have n: "97 \<le> n" "n \<le> 122" using that by (simp_all add: is_lower_def in_range_def n_def)
    then have "(of_char (upper_char d) :: nat) = n - 32" using that by (simp add: upper_char_def n_def)
    moreover have "(of_char (CHR ''='') :: nat) = 61" by simp
    moreover have "n - 32 \<noteq> 61" using n by arith
    ultimately show ?thesis by metis
  qed
  have lower: "lower_char d \<noteq> CHR ''=''" if "is_upper d" for d
  proof -
    define n where "n = (of_char d :: nat)"
    have n: "65 \<le> n" "n \<le> 90" using that by (simp_all add: is_upper_def in_range_def n_def)
    then have "(of_char (lower_char d) :: nat) = n + 32" using that by (simp add: lower_char_def n_def)
    moreover have "(of_char (CHR ''='') :: nat) = 61" by simp
    moreover have "n + 32 \<noteq> 61" using n by arith
    ultimately show ?thesis by metis
  qed
  have "d = CHR ''=''" if "lower_char d = CHR ''='' \<or> upper_char d = CHR ''=''" for d
    using that upper [of d] lower [of d] by (cases "is_upper d"; cases "is_lower d") (auto simp: lower_char_def upper_char_def)
  then show ?thesis unfolding caseless_def by blast
qed

lemma redact_quiet:
  assumes "quiet_text s"
  shows "redact s = s"
proof (rule redact_id)
  obtain a b c d e f g h i where p: "REDACT_PATTERNS = [a, b, c, d, e, f, g, h, i]"
    unfolding REDACT_PATTERNS_def by blast
  have flags: "fst a = noflags" "fst b = noflags" "fst c = noflags" "fst d = noflags" "fst e = noflags" "fst f = noflags"
      "fst g = noflags"
    using redact_literals(2) unfolding p by simp_all
  have "\<not> contains (lits (fst (snd x))) s" if "x \<in> {a, b, c, d, e, f, g}" for x
    using that assms redact_literals(1) unfolding p quiet_text_def by auto
  moreover have "fst x = noflags" if "x \<in> {a, b, c, d, e, f, g}" for x using that flags by blast
  ultimately have 1: "\<not> rx_test (fst x) (fst (snd x)) s" if "x \<in> {a, b, c, d, e, f, g}" for x
    using that lits_test [of "fst (snd x)" s] by simp
  have "\<not> rx_test (fst h) (fst (snd h)) s" "\<not> rx_test (fst i) (fst (snd i)) s"
    using redact_literals(2,3) assms needs_test caseless_equals unfolding p quiet_text_def
    by (auto simp: noflags_def flag_i_def)
  then show "list_all (\<lambda>p. \<not> rx_test (fst p) (fst (snd p)) s) REDACT_PATTERNS"
    unfolding p using 1 by simp
qed

lemma redactJson_quiet: "json_canonical v \<Longrightarrow> quiet_text (json_compact v) \<Longrightarrow> redactJson v = Some v"
  by (simp add: redactJson_def redact_quiet json_parse_stringify)

subsection \<open>Runner comments\<close>

text \<open>What follows the runner's own marker opens no other comment.\<close>

lemma clean_publishable [simp]: "clean (publishable t)"
  by (simp add: publishable_def)

definition comment_tail :: "runner_comment \<Rightarrow> string" where
  "comment_tail i = unlines
     [''### Local runner '' @ emdash @ '' '' @ publishable (rc_phase i),
      [],
      ''- Issue: #'' @ dec (rc_issue i),
      ''- Branch: `'' @ publishable (rc_branch i) @ ''`'',
      ''- Agent: `'' @ publishable (rc_agent i) @ ''`'',
      [],
      publishable (rc_body i),
      [],
      ''_Posted by the local Claude Code runner (`bun run loop:once`). It does not merge; the GitHub merge gate does._'']"

lemma renderRunnerComment_tail: "renderRunnerComment i = RUNNER_MARKER @ CHR 0x0A # comment_tail i"
  by (simp add: renderRunnerComment_def comment_tail_def)

lemma clean_comment_tail: "clean (comment_tail i)"
  by (simp add: comment_tail_def clean_unlines emdash_def)

text \<open>A runner comment is never taken for a stored state.\<close>

lemma no_state_in_comment: "exec_group noflags STATE_BLOCK 1 (renderRunnerComment i) = None"
proof -
  let ?rest = "tl RUNNER_MARKER @ CHR 0x0A # comment_tail i"
  have text': "renderRunnerComment i = CHR ''<'' # ?rest"
    by (simp add: renderRunnerComment_tail RUNNER_MARKER_def)
  have clean_rest: "\<not> contains open_mark ?rest"
  proof -
    have "clean (tl RUNNER_MARKER)" by code_simp
    then show ?thesis using clean_comment_tail [of i] clean_sep [of "CHR 0x0A" "tl RUNNER_MARKER" "comment_tail i"]
      by (simp add: clean_def)
  qed
  have "rxm noflags STATE_BLOCK (rev u, v, []) = []" if uv: "renderRunnerComment i = u @ v" for u v
  proof (cases u)
    case Nil
    define t where "t = ''newsdeck-local-runner -->'' @ CHR 0x0A # comment_tail i"
    have v: "v = open_mark @ CHR '' '' # t"
      using uv Nil by (simp add: t_def renderRunnerComment_tail RUNNER_MARKER_def open_mark_def)
    have "rxm noflags sb_name (b, s', cap) = []" if "CHR '' '' # t = w @ s'" "\<forall>c \<in> set w. is_space c" for b w s' cap
    proof -
      have "w = [] \<or> w = '' ''" using that by (cases w; cases "tl w") (auto simp: t_def)
      then show ?thesis using that(1) by (auto simp: sb_name_def rxm_rlit t_def simp del: rxm.simps rlit.simps)
    qed
    then have "\<forall>st \<in> set (rxm noflags (RRep True 0 None space_rx) (rev open_mark @ rev u, CHR '' '' # t, [])). rxm noflags sb_name st = []"
      unfolding space_rx_def star_class_set by auto
    then show ?thesis unfolding STATE_BLOCK_rx v rxm_rlit by (simp add: concat_eq_Nil_conv)
  next
    case (Cons c u')
    then have "?rest = u' @ v" using uv unfolding text' by simp
    then have "\<not> starts_with open_mark v"
      using clean_rest by (auto simp: contains_iff starts_with_iff)
    then show ?thesis by (simp add: STATE_BLOCK_rx rxm_rlit)
  qed
  then have "find_from noflags STATE_BLOCK [] (renderRunnerComment i) = None"
    using find_from_iff [of noflags STATE_BLOCK "[]" "renderRunnerComment i"] by auto
  then show ?thesis by (simp add: exec_group_def rx_exec_def)
qed

lemma runner_comment_no_state: "parseLoopState safe_parse (Some (renderRunnerComment i)) issue = initialState issue"
  by (simp only: parseLoopState_def no_state_in_comment option.case)

end
