(* ===== verification/Verify.thy ===== *)
theory Verify
  imports Effects Redact Glob
begin

text \<open>
  \<open>tooling/local-runner/src/verify.ts\<close>: local verification.  A step that could not run is
  \<open>Unavailable\<close>, which is neither a pass nor a failure.  A chain of tiers without end, on which
  \<open>stepsForRisk\<close> recurses for ever, is an error here.
\<close>

subsection \<open>The code\<close>

datatype step_outcome = StepPassed | StepFailed | StepNotApplicable | StepUnavailable

record step_result =
  vs_name :: string
  vs_outcome :: step_outcome
  vs_ok :: bool
  vs_durationMs :: int
  vs_output :: string

record verification =
  vo_ok :: bool
  vo_risk :: risk_level
  vo_steps :: "step_result list"
  vo_firstFailure :: "step_result option"
  vo_unavailable :: "string list"
  vo_failed :: "string list"

definition OUTPUT_TAIL_CHARACTERS :: nat where "OUTPUT_TAIL_CHARACTERS = 6000"

record verify_options =
  vp_cwd :: string
  vp_risk :: "risk_level option"
  vp_policy :: "loop_policy option"
  vp_changedFiles :: "string list option"
  vp_only :: "string list option"

definition plain_step :: "string \<Rightarrow> nat \<Rightarrow> tier_step" where
  "plain_step name minutes = \<lparr>step_name = name, step_command = ''bun'', step_args = [''run'', name],
     step_whenChanged = None, step_requires = None, step_requiresProbe = None, step_timeoutMinutes = minutes\<rparr>"

definition VERIFICATION_STEPS :: "tier_step list" where
  "VERIFICATION_STEPS = [plain_step ''lint'' 10, plain_step ''typecheck'' 10, plain_step ''test'' 20, plain_step ''build'' 20]"

definition or_default :: "'a \<Rightarrow> 'a option \<Rightarrow> 'a" where
  "or_default d x = (case x of Some y \<Rightarrow> y | None \<Rightarrow> d)"

definition or_else :: "string \<Rightarrow> string \<Rightarrow> string" where
  "or_else a b = (if a = [] then b else a)"

definition tierSteps :: "verify_options \<Rightarrow> tier_step list option" where
  "tierSteps opts = (case vp_policy opts of
       None \<Rightarrow> Some VERIFICATION_STEPS
     | Some policy \<Rightarrow> stepsForRisk policy (or_default Low (vp_risk opts)))"

definition step_record :: "string \<Rightarrow> step_outcome \<Rightarrow> int \<Rightarrow> string \<Rightarrow> step_result" where
  "step_record name outcome durationMs out =
     \<lparr>vs_name = name, vs_outcome = outcome, vs_ok = (outcome \<noteq> StepFailed), vs_durationMs = durationMs, vs_output = out\<rparr>"

definition step_applies :: "verify_options \<Rightarrow> tier_step \<Rightarrow> bool" where
  "step_applies opts s = (case (step_whenChanged s, vp_changedFiles opts) of
       (Some globs, Some files) \<Rightarrow> list_ex (matchesAnyGlob globs) files
     | _ \<Rightarrow> True)"

definition step_call :: "verify_options \<Rightarrow> tier_step \<Rightarrow> call" where
  "step_call opts s = \<lparr>cl_command = step_command s, cl_args = step_args s, cl_cwd = Some (vp_cwd opts),
     cl_stdin = None, cl_timeoutMs = Some (step_timeoutMinutes s * 60000), cl_profile = ProfBase\<rparr>"

definition probe_call :: "verify_options \<Rightarrow> string \<Rightarrow> string list \<Rightarrow> call" where
  "probe_call opts command args = \<lparr>cl_command = command, cl_args = args, cl_cwd = Some (vp_cwd opts),
     cl_stdin = None, cl_timeoutMs = Some 60000, cl_profile = ProfBase\<rparr>"

definition step_passed :: "run_result \<Rightarrow> bool" where
  "step_passed r \<longleftrightarrow> res_code r = 0 \<and> \<not> res_timedOut r"

definition missing_tool :: "tier_step \<Rightarrow> string \<Rightarrow> step_result" where
  "missing_tool s tool = step_record (step_name s) StepUnavailable 0
     (''`'' @ tool @ ''` is not on PATH, so this step could not run.'')"

definition failed_probe :: "tier_step \<Rightarrow> string list \<Rightarrow> run_result \<Rightarrow> step_result" where
  "failed_probe s probe r = step_record (step_name s) StepUnavailable 0
     (''`'' @ join '' '' probe @ ''` failed, so this step could not run: ''
       @ take_last 500 (redact (or_else (trim (res_stderr r)) (trim (res_stdout r)))))"

definition run_step :: "env \<Rightarrow> verify_options \<Rightarrow> tier_step \<Rightarrow> step_result io" where
  "run_step env opts s =
     bind_io (now_io env) (\<lambda>startedAt.
     bind_io (exec_io env (step_call opts s)) (\<lambda>r.
     bind_io (now_io env) (\<lambda>now.
       return_io (step_record (step_name s) (if step_passed r then StepPassed else StepFailed) (now - startedAt)
         (take_last OUTPUT_TAIL_CHARACTERS (redact (trim (res_stdout r @ [CHR 0x0A] @ res_stderr r))))))))"

definition probed_step :: "env \<Rightarrow> verify_options \<Rightarrow> tier_step \<Rightarrow> step_result io" where
  "probed_step env opts s =
     (case step_requiresProbe s of
        None \<Rightarrow> run_step env opts s
      | Some [] \<Rightarrow> throw_io ''The file argument must be of type string''
      | Some (command # args) \<Rightarrow>
          bind_io (exec_io env (probe_call opts command args)) (\<lambda>r.
            if res_code r \<noteq> 0 then return_io (failed_probe s (command # args) r) else run_step env opts s))"

text \<open>One step of the loop: \<open>None\<close> when the step is left out.\<close>

definition verify_step :: "env \<Rightarrow> verify_options \<Rightarrow> tier_step \<Rightarrow> step_result option io" where
  "verify_step env opts s =
     (if \<not> (case vp_only opts of None \<Rightarrow> True | Some names \<Rightarrow> step_name s \<in> set names) then return_io None
      else if \<not> step_applies opts s then return_io (Some (step_record (step_name s) StepNotApplicable 0 []))
      else case step_requires s of
          None \<Rightarrow> bind_io (probed_step env opts s) (\<lambda>r. return_io (Some r))
        | Some tool \<Rightarrow>
            bind_io (which_io env tool) (\<lambda>found.
              if found = None then return_io (Some (missing_tool s tool))
              else bind_io (probed_step env opts s) (\<lambda>r. return_io (Some r))))"

primrec verify_steps :: "env \<Rightarrow> verify_options \<Rightarrow> tier_step list \<Rightarrow> step_result list io" where
  "verify_steps env opts [] = return_io []"
| "verify_steps env opts (s # rest) =
     bind_io (verify_step env opts s) (\<lambda>result.
       case result of
         None \<Rightarrow> verify_steps env opts rest
       | Some r \<Rightarrow>
           (if vs_outcome r = StepFailed then return_io [r]
            else bind_io (verify_steps env opts rest) (\<lambda>rs. return_io (r # rs))))"

definition verification_of :: "risk_level \<Rightarrow> step_result list \<Rightarrow> verification" where
  "verification_of risk steps =
     (let failed = filter (\<lambda>s. vs_outcome s = StepFailed) steps;
          unavailable = filter (\<lambda>s. vs_outcome s = StepUnavailable) steps
      in \<lparr>vo_ok = (length failed = 0 \<and> length unavailable = 0), vo_risk = risk, vo_steps = steps,
          vo_firstFailure = (case failed of [] \<Rightarrow> None | f # _ \<Rightarrow> Some f),
          vo_unavailable = map vs_name unavailable, vo_failed = map vs_name failed\<rparr>)"

definition verify :: "env \<Rightarrow> verify_options \<Rightarrow> verification io" where
  "verify env opts =
     (case tierSteps opts of
        None \<Rightarrow> throw_io ''Maximum call stack size exceeded''
      | Some steps \<Rightarrow> bind_io (verify_steps env opts steps) (\<lambda>rs.
          return_io (verification_of (or_default Low (vp_risk opts)) rs)))"

fun MARK :: "step_outcome \<Rightarrow> string" where
  "MARK StepPassed = ''pass''"
| "MARK StepFailed = ''FAIL''"
| "MARK StepNotApplicable = ''n/a ''"
| "MARK StepUnavailable = ''SKIP''"

definition format_step :: "step_result \<Rightarrow> string" where
  "format_step s =
     (let duration = (if vs_outcome s = StepPassed \<or> vs_outcome s = StepFailed
            then '' ('' @ json_int (round_div (vs_durationMs s) 1000) @ ''s)'' else [])
      in ''- '' @ MARK (vs_outcome s) @ '' '' @ tick (vs_name s) @ duration)"

definition formatVerification :: "verification \<Rightarrow> string" where
  "formatVerification v = unlines
     ([''Verification for '' @ tick (risk_text (vo_risk v)) @ '' risk:'', []]
      @ map format_step (vo_steps v)
      @ (if length (vo_unavailable v) > 0 then
           [[], ''**Could not run:** '' @ join '', '' (vo_unavailable v)
             @ ''. An unrunnable check is not a passing one, so this change cannot merge until the tooling is available.'']
         else [])
      @ (case vo_firstFailure v of None \<Rightarrow> [] | Some f \<Rightarrow>
           [[], ''<details><summary>'' @ vs_name f @ '' output</summary>'', [],
            ''```'', take_last 4000 (vs_output f), ''```'', ''</details>'']))"

subsection \<open>What a verification says\<close>

lemma verification_ok:
  "vo_ok (verification_of risk rs) \<longleftrightarrow> list_all (\<lambda>s. vs_outcome s \<in> {StepPassed, StepNotApplicable}) rs"
  by (simp add: verification_of_def Let_def filter_empty_conv list_all_iff)
    (metis step_outcome.distinct(1,5,7,9,11) step_outcome.distinct(3) step_outcome.exhaust)

lemma verification_risk [simp]: "vo_risk (verification_of risk rs) = risk"
  by (simp add: verification_of_def Let_def)

lemma verification_unavailable:
  "vo_unavailable (verification_of risk rs) = [] \<longleftrightarrow> \<not> list_ex (\<lambda>s. vs_outcome s = StepUnavailable) rs"
  by (simp add: verification_of_def Let_def filter_empty_conv list_ex_iff)

lemma verification_failed:
  "vo_failed (verification_of risk rs) = [] \<longleftrightarrow> vo_firstFailure (verification_of risk rs) = None"
  by (cases "filter (\<lambda>s. vs_outcome s = StepFailed) rs") (simp_all add: verification_of_def Let_def)

text \<open>Verification runs commands of its steps and their probes, with no credential.\<close>

definition verify_ok_call :: "verify_options \<Rightarrow> tier_step list \<Rightarrow> call \<Rightarrow> bool" where
  "verify_ok_call opts steps c \<longleftrightarrow>
     (\<exists>s \<in> set steps. c = step_call opts s \<or>
        (\<exists>command args. step_requiresProbe s = Some (command # args) \<and> c = probe_call opts command args))"

lemma calls_run_step: "ok (step_call opts s) \<Longrightarrow> calls_only ok (run_step env opts s)"
  unfolding run_step_def by (intro calls)

lemma calls_probed_step:
  "ok (step_call opts s) \<Longrightarrow> (\<And>command args. step_requiresProbe s = Some (command # args) \<Longrightarrow> ok (probe_call opts command args)) \<Longrightarrow>
    calls_only ok (probed_step env opts s)"
  unfolding probed_step_def by (intro calls calls_run_step) auto

lemma calls_verify_step:
  "s \<in> set steps \<Longrightarrow> calls_only (verify_ok_call opts steps) (verify_step env opts s)"
  unfolding verify_step_def by (intro calls calls_probed_step) (auto simp: verify_ok_call_def)

lemma calls_verify_steps:
  "set rest \<subseteq> set steps \<Longrightarrow> calls_only (verify_ok_call opts steps) (verify_steps env opts rest)"
  by (induction rest) (auto intro!: calls calls_verify_step)

lemma calls_verify: "tierSteps opts = Some steps \<Longrightarrow> calls_only (verify_ok_call opts steps) (verify env opts)"
  unfolding verify_def by (auto intro!: calls calls_verify_steps)

lemma calls_verify_base: "(\<And>c. cl_profile c = ProfBase \<Longrightarrow> ok c) \<Longrightarrow> calls_only ok (verify env opts)"
proof (cases "tierSteps opts")
  case None
  then show ?thesis unfolding verify_def by (auto intro!: calls)
next
  case (Some steps)
  assume "\<And>c. cl_profile c = ProfBase \<Longrightarrow> ok c"
  then show ?thesis
    by (intro calls_mono [OF calls_verify [OF Some]]) (auto simp: verify_ok_call_def step_call_def probe_call_def)
qed

text \<open>A passed step was run, after the first \<open>n\<close> calls, and answered with exit code 0.\<close>

definition passing_call :: "call \<Rightarrow> call \<times> (string + run_result) \<Rightarrow> bool" where
  "passing_call c x \<longleftrightarrow> fst x = c \<and> (case snd x of Inr r \<Rightarrow> step_passed r | Inl _ \<Rightarrow> False)"

definition step_ran :: "nat \<Rightarrow> verify_options \<Rightarrow> tier_step \<Rightarrow> world \<Rightarrow> bool" where
  "step_ran n opts s w \<longleftrightarrow> list_ex (passing_call (step_call opts s)) (drop n (wd_calls w))"

lemma calls_grow: "calls_only ok m \<Longrightarrow> m w = (r, w') \<Longrightarrow> n \<le> length (wd_calls w) \<Longrightarrow> n \<le> length (wd_calls w')"
  by (erule (1) calls_onlyE) simp

lemma calls_keep_ran: "calls_only ok m \<Longrightarrow> m w = (r, w') \<Longrightarrow> step_ran n opts s w \<Longrightarrow> step_ran n opts s w'"
  by (erule (1) calls_onlyE) (auto simp: step_ran_def)

lemma run_step_ran:
  assumes "run_step env opts s w = (Inr r, w')" and "n \<le> length (wd_calls w)"
    and "vs_outcome r \<in> {StepPassed, StepNotApplicable}"
  shows "step_ran n opts s w'"
  using assms unfolding run_step_def
  by (auto elim!: bind_cases simp: now_io_def return_io_def step_record_def exec_io_def step_ran_def passing_call_def Let_def
      split: if_splits)

lemma probed_step_ran:
  assumes "probed_step env opts s w = (Inr r, w')" and "n \<le> length (wd_calls w)"
    and "vs_outcome r \<in> {StepPassed, StepNotApplicable}"
  shows "step_ran n opts s w'"
proof (cases "step_requiresProbe s")
  case None
  then show ?thesis using assms run_step_ran by (simp add: probed_step_def)
next
  case (Some probe)
  then obtain command args where p: "probe = command # args"
    using assms(1) by (cases probe) (auto simp: probed_step_def throw_io_def)
  obtain a v where a: "exec_io env (probe_call opts command args) w = (Inr a, v)"
    "(if res_code a \<noteq> 0 then return_io (failed_probe s (command # args) a) else run_step env opts s) v = (Inr r, w')"
    using assms(1) by (auto simp: probed_step_def Some p elim!: bind_cases)
  have "res_code a = 0"
    using a(2) assms(3) by (auto simp: return_io_def failed_probe_def step_record_def split: if_splits)
  then have "run_step env opts s v = (Inr r, w')" using a(2) by simp
  moreover have "n \<le> length (wd_calls v)" using a(1) assms(2) by (auto simp: exec_io_def Let_def)
  ultimately show ?thesis using assms(3) by (rule run_step_ran)
qed

lemma verify_step_ran:
  assumes "verify_step env opts s w = (Inr (Some r), w')" and "n \<le> length (wd_calls w)" and "step_applies opts s"
    and "vs_outcome r \<in> {StepPassed, StepNotApplicable}"
  shows "step_ran n opts s w'"
proof -
  have "probed_step env opts s w = (Inr r, w')"
    using assms unfolding verify_step_def
    by (auto elim!: bind_cases simp: return_io_def missing_tool_def step_record_def which_io_def split: option.splits if_splits)
  then show ?thesis using assms(2,4) by (rule probed_step_ran)
qed

lemma verify_step_all:
  assumes "vp_only opts = None" and "verify_step env opts s w = (Inr r, w')"
  shows "r \<noteq> None"
  using assms unfolding verify_step_def
  by (auto elim!: bind_cases simp: return_io_def split: option.splits if_splits)

text \<open>An accepted verification ran every step that applies, in this call, with success.\<close>

lemma verify_steps_ran:
  assumes "vp_only opts = None" and "verify_steps env opts steps w = (Inr rs, w')" and "n \<le> length (wd_calls w)"
    and "list_all (\<lambda>r. vs_outcome r \<in> {StepPassed, StepNotApplicable}) rs" and "s \<in> set steps" and "step_applies opts s"
  shows "step_ran n opts s w'"
  using assms(2-5)
proof (induction steps arbitrary: rs w)
  case (Cons t rest)
  from Cons.prems(1) obtain x v where t: "verify_step env opts t w = (Inr x, v)" and
    more: "(case x of None \<Rightarrow> verify_steps env opts rest
       | Some r \<Rightarrow> (if vs_outcome r = StepFailed then return_io [r]
            else bind_io (verify_steps env opts rest) (\<lambda>rs. return_io (r # rs)))) v = (Inr rs, w')"
    by (auto elim!: bind_cases)
  have grown: "n \<le> length (wd_calls v)"
    using calls_grow [OF calls_verify_step [of t "[t]"] t] Cons.prems(2) by simp
  obtain r where x: "x = Some r" using verify_step_all [OF assms(1) t] by blast
  have "vs_outcome r \<noteq> StepFailed"
    using more Cons.prems(3) by (auto simp: x return_io_def split: if_splits)
  then obtain rs' where rs': "verify_steps env opts rest v = (Inr rs', w')" "rs = r # rs'"
    using more by (auto simp: x return_io_def elim!: bind_cases)
  show ?case
  proof (cases "s = t")
    case True
    have "step_ran n opts s v"
      using verify_step_ran [of env opts t w r v n] t assms(6) Cons.prems(2,3) True rs' by (simp add: x)
    then show ?thesis by (rule calls_keep_ran [OF calls_verify_steps [OF order_refl] rs'(1)])
  next
    case False
    then show ?thesis using Cons.IH [OF rs'(1) grown] Cons.prems(3,4) rs'(2) by simp
  qed
qed simp

lemma verify_ran:
  assumes "vp_only opts = None" and "verify env opts w = (Inr v, w')" and "vo_ok v" and "n \<le> length (wd_calls w)"
  shows "\<exists>steps. tierSteps opts = Some steps \<and> list_all (\<lambda>s. step_applies opts s \<longrightarrow> step_ran n opts s w') steps"
proof -
  obtain steps where steps: "tierSteps opts = Some steps"
    using assms(2) by (auto simp: verify_def throw_io_def split: option.splits)
  obtain rs where rs: "verify_steps env opts steps w = (Inr rs, w')" "v = verification_of (or_default Low (vp_risk opts)) rs"
    using assms(2) steps by (auto simp: verify_def return_io_def elim!: bind_cases)
  then have "list_all (\<lambda>r. vs_outcome r \<in> {StepPassed, StepNotApplicable}) rs"
    using assms(3) by (simp add: verification_ok)
  then show ?thesis using verify_steps_ran [OF assms(1) rs(1) assms(4)] steps by (auto simp: list_all_iff)
qed

end
