(* ===== verification/Branch.thy ===== *)
theory Branch
  imports RxReplace Json
begin

text \<open>
  \<open>tooling/local-runner/src/branch.ts\<close>: the names of branches and worktrees.  Unicode
  normalisation (\<open>normalize('NFKD')\<close>) belongs to the platform's tables and is the parameter
  \<open>nfkd\<close>; \<open>toLowerCase\<close> is the one of ASCII, which is all that is left after the first
  replacement anyway.
\<close>

subsection \<open>The code\<close>

definition MAX_SLUG_LENGTH :: nat where "MAX_SLUG_LENGTH = 40"

definition NOT_SLUG :: rx where "NOT_SLUG = re ''[^a-z0-9]+''"
definition EDGE_DASHES :: rx where "EDGE_DASHES = re ''^-+|-+$''"
definition SLUG_CUT :: rx where "SLUG_CUT = re (''^(.{0,'' @ dec MAX_SLUG_LENGTH @ ''})(-.*)?$'')"
definition TRAILING_DASHES :: rx where "TRAILING_DASHES = re ''-+$''"

definition slugify :: "(string \<Rightarrow> string) \<Rightarrow> string \<Rightarrow> string" where
  "slugify nfkd title =
     (let slug = rx_replace noflags NOT_SLUG (\<lambda>_. ''-'') (to_lower (nfkd title));
          slug = rx_replace noflags EDGE_DASHES (\<lambda>_. []) slug;
          slug = rx_replace1 flag_s SLUG_CUT (\<lambda>m. capture m 1) slug;
          slug = rx_replace noflags TRAILING_DASHES (\<lambda>_. []) slug
      in if slug = [] then ''issue'' else slug)"

definition branchName :: "(string \<Rightarrow> string) \<Rightarrow> nat \<Rightarrow> string \<Rightarrow> string" where
  "branchName nfkd issue title = ''agent/issue-'' @ dec issue @ ''-'' @ slugify nfkd title"

definition worktreeName :: "nat \<Rightarrow> string" where
  "worktreeName issue = ''issue-'' @ dec issue"

definition AGENT_BRANCH :: rx where "AGENT_BRANCH = re ''^agent%/issue-[0-9]+-[a-z0-9-]+$''"

definition isAgentBranch :: "string \<Rightarrow> bool" where
  "isAgentBranch branch = rx_test noflags AGENT_BRANCH branch"

subsection \<open>Slugs\<close>

definition slug_char :: "char \<Rightarrow> bool" where
  "slug_char c \<longleftrightarrow> is_lower c \<or> is_digit c \<or> c = CHR ''-''"

lemma NOT_SLUG_rx: "NOT_SLUG = RRep True (Suc 0) None (RSet True [CIRange (CHR ''a'') (CHR ''z''), CIRange (CHR ''0'') (CHR ''9'')])"
  by code_simp

lemma AGENT_BRANCH_rx: "AGENT_BRANCH = RSeq RBol (rlit ''agent/issue-''
    (RSeq (RRep True (Suc 0) None (RSet False [CIRange (CHR ''0'') (CHR ''9'')]))
      (RSeq (RSet False [CIChar (CHR ''-'')])
        (RSeq (RRep True (Suc 0) None (RSet False [CIRange (CHR ''a'') (CHR ''z''), CIRange (CHR ''0'') (CHR ''9''), CIChar (CHR ''-'')]))
          REol))))"
  by code_simp

lemma slug_class:
  "class_match False [CIRange (CHR ''a'') (CHR ''z''), CIRange (CHR ''0'') (CHR ''9'')] c \<longleftrightarrow> is_lower c \<or> is_digit c"
  "class_match False [CIRange (CHR ''a'') (CHR ''z''), CIRange (CHR ''0'') (CHR ''9''), CIChar (CHR ''-'')] c \<longleftrightarrow> slug_char c"
  "class_match False [CIRange (CHR ''0'') (CHR ''9'')] c \<longleftrightarrow> is_digit c"
  by (auto simp: class_match_def slug_char_def is_lower_def is_digit_def)

text \<open>The agent's branches, as a set of names.\<close>

lemma isAgentBranch_iff:
  "isAgentBranch b \<longleftrightarrow> (\<exists>d w. b = ''agent/issue-'' @ d @ ''-'' @ w \<and> d \<noteq> [] \<and> list_all is_digit d
     \<and> w \<noteq> [] \<and> list_all slug_char w)"
  (is "_ = ?R")
proof -
  let ?S = "RRep True (Suc 0) None (RSet False [CIRange (CHR ''a'') (CHR ''z''), CIRange (CHR ''0'') (CHR ''9''), CIChar (CHR ''-'')])"
  have ends: "rxm noflags (RSeq ?S REol) (u, s, []) \<noteq> [] \<longleftrightarrow> s \<noteq> [] \<and> list_all slug_char s" for u s
    unfolding plus_class_then by (auto simp: slug_class list_all_iff)
  have dash: "rxm noflags (RSeq (RSet False [CIChar (CHR ''-'')]) (RSeq ?S REol)) (u, s, []) \<noteq> [] \<longleftrightarrow>
      (\<exists>w. s = ''-'' @ w \<and> w \<noteq> [] \<and> list_all slug_char w)" for u s
    unfolding rxm.simps(4) [of _ "RSet _ _"] using ends by (cases s) auto
  have "isAgentBranch b \<longleftrightarrow> (\<exists>s. b = ''agent/issue-'' @ s \<and>
      rxm noflags (RSeq (RRep True (Suc 0) None (RSet False [CIRange (CHR ''0'') (CHR ''9'')]))
        (RSeq (RSet False [CIChar (CHR ''-'')]) (RSeq ?S REol))) (rev ''agent/issue-'', s, []) \<noteq> [])"
    unfolding isAgentBranch_def AGENT_BRANCH_rx rx_test_anchored rxm_rlit append_Nil2
    by (cases "starts_with ''agent/issue-'' b") (auto simp: starts_with_iff simp del: rxm.simps)
  also have "\<dots> \<longleftrightarrow> ?R"
    unfolding plus_class_then [of noflags False "[CIRange (CHR ''0'') (CHR ''9'')]"] dash
    unfolding list_all_iff slug_class noflags_simps by (intro iffI; elim exE conjE; force)
  finally show ?thesis .
qed

lemma slug_issue: "\<forall>c \<in> set ''issue''. slug_char c"
  by (simp add: slug_char_def is_lower_def in_range_def)

lemma slugify_chars: "list_all slug_char (slugify nfkd t)"
proof -
  let ?s1 = "rx_replace noflags NOT_SLUG (\<lambda>_. ''-'') (to_lower (nfkd t))"
  have moves: "fst (snd st) \<noteq> s" if "st \<in> set (rxm noflags NOT_SLUG (b, s, []))" for b s st
    using that unfolding NOT_SLUG_rx plus_class_set by auto
  have start: "rxm noflags NOT_SLUG (b, c # s, []) \<noteq> []" if "\<not> slug_char c" for b c s
  proof -
    have "(rev [c] @ b, s, []) \<in> set (rxm noflags NOT_SLUG (b, c # s, []))"
      unfolding NOT_SLUG_rx plus_class_set using that by (auto simp: slug_class slug_char_def)
    then show ?thesis by auto
  qed
  have s1: "\<forall>c \<in> set ?s1. slug_char c"
    by (rule set_rx_replace [OF start _ moves]) (auto simp: slug_char_def)
  have sub: "set (rx_replace fl r (\<lambda>_. []) s) \<subseteq> set s" for fl r s
    unfolding rx_replace_def by (rule set_replace_sub) simp
  have cut: "set (rx_replace1 flag_s SLUG_CUT (\<lambda>m. capture m 1) s) \<subseteq> set s" for s
  proof (cases "rx_exec flag_s SLUG_CUT s")
    case (Some m)
    then have m: "find_from flag_s SLUG_CUT [] s = Some m" by (simp add: rx_exec_def)
    from find_from_passed [OF m] capture_within [OF m, of 1] show ?thesis
      by (auto simp: rx_replace1_def Some)
  qed (simp add: rx_replace1_def)
  show ?thesis
    unfolding slugify_def Let_def list_all_iff
    using s1 sub cut slug_issue by (simp split: if_split) (meson subsetD)
qed

lemma slugify_nonempty: "slugify nfkd t \<noteq> []"
  by (simp add: slugify_def Let_def)

lemma branchName_agent: "isAgentBranch (branchName nfkd n t)"
proof -
  have "branchName nfkd n t = ''agent/issue-'' @ dec n @ ''-'' @ slugify nfkd t" by (simp add: branchName_def)
  then show ?thesis
    unfolding isAgentBranch_iff
    using slugify_chars [of nfkd t] slugify_nonempty [of nfkd t] dec_digits [of n] by blast
qed

lemma branchName_inj:
  assumes "branchName nfkd n t = branchName nfkd m u"
  shows "n = m"
proof -
  have digits: "takeWhile is_digit (dec k @ CHR ''-'' # s) = dec k" for k s
    using dec_digits [of k] by (simp add: list_all_iff takeWhile_append2) (simp add: is_digit_def in_range_def)
  have "dec n @ ''-'' @ slugify nfkd t = dec m @ ''-'' @ slugify nfkd u"
    using assms by (simp add: branchName_def)
  then have "dec n = dec m" using digits [of n "slugify nfkd t"] digits [of m "slugify nfkd u"] by simp
  then have "undec (dec n) = undec (dec m)" by simp
  then show ?thesis by simp
qed

subsection \<open>The length of a slug\<close>

lemma rep_bounded:
  assumes "\<And>u v. v \<in> set (m u) \<Longrightarrow> \<exists>c. fst (snd u) = c # fst (snd v)"
  shows "st' \<in> set (rep_match f g m 0 (Some n) st) \<Longrightarrow>
    \<exists>w. fst (snd st) = w @ fst (snd st') \<and> length w \<le> n"
proof (induction n arbitrary: f st)
  case 0
  then show ?case by (cases f) auto
next
  case (Suc n)
  then obtain k where f: "f = Suc k" by (cases f) auto
  have "st' = st \<or> (\<exists>u \<in> set (m st). st' \<in> set (rep_match k g m 0 (Some n) u))"
    using Suc.prems by (auto simp: f Let_def split: if_splits)
  then show ?case
  proof
    assume "\<exists>u \<in> set (m st). st' \<in> set (rep_match k g m 0 (Some n) u)"
    then obtain u where u: "u \<in> set (m st)" "st' \<in> set (rep_match k g m 0 (Some n) u)" by blast
    obtain c where c: "fst (snd st) = c # fst (snd u)" using assms [OF u(1)] by blast
    obtain w where "fst (snd u) = w @ fst (snd st')" "length w \<le> n" using Suc.IH [OF u(2)] by blast
    then show ?thesis using c by (intro exI [of _ "c # w"]) auto
  qed (intro exI [of _ "[]"], simp)
qed

lemma bounded_dots:
  assumes "st' \<in> set (rxm fl (RRep g 0 (Some n) RDot) (b, v, cap))"
  shows "\<exists>w. v = w @ fst (snd st') \<and> length w \<le> n"
proof -
  have step: "\<exists>c. fst (snd u) = c # fst (snd u')" if "u' \<in> set (rxm fl RDot (clear_groups (groups RDot) u))" for u u'
  proof -
    obtain b s cap where "u = (b, s, cap)" by (cases u)
    with that show ?thesis by (cases s) (auto simp: clear_groups_def split: if_splits)
  qed
  have "st' \<in> set (rep_match (Suc (length v)) g (\<lambda>u. rxm fl RDot (clear_groups (groups RDot) u)) 0 (Some n) (b, v, cap))"
    using assms unfolding rxm.simps(6) by simp
  from rep_bounded [OF step this] show ?thesis by simp
qed

lemma SLUG_CUT_rx: "SLUG_CUT = RSeq RBol (RSeq (RGroup 1 (RRep True 0 (Some 40) RDot))
    (RSeq (RRep True 0 (Some 1) (RGroup 2 (RSeq (RSet False [CIChar (CHR ''-'')]) (RRep True 0 None RDot)))) REol))"
  by code_simp

lemma EDGE_DASHES_rx: "EDGE_DASHES = RAlt (RSeq RBol (RRep True (Suc 0) None (RSet False [CIChar (CHR ''-'')])))
    (RSeq (RRep True (Suc 0) None (RSet False [CIChar (CHR ''-'')])) REol)"
  by code_simp

lemma TRAILING_DASHES_rx: "TRAILING_DASHES = RSeq (RRep True (Suc 0) None (RSet False [CIChar (CHR ''-'')])) REol"
  by code_simp

lemma no_match_no_change:
  assumes "\<And>u v. s = u @ v \<Longrightarrow> rxm fl r (rev u, v, []) = []"
  shows "rx_replace fl r f s = s" "rx_replace1 fl r f s = s"
proof -
  have "find_from fl r [] s = None" using find_from_iff [of fl r "[]" s] assms by auto
  then show "rx_replace fl r f s = s" "rx_replace1 fl r f s = s"
    by (simp_all add: rx_replace_def rx_replace1_def rx_exec_def)
qed

text \<open>A word without separator is not cut, whatever its length.\<close>

lemma long_word_uncut:
  assumes w: "list_all (\<lambda>c. is_lower c \<or> is_digit c) w" and len: "40 < length w" and n: "to_lower (nfkd t) = w"
  shows "slugify nfkd t = w"
proof -
  have nd: "CHR ''-'' \<notin> set w" using w by (auto simp: list_all_iff is_lower_def is_digit_def in_range_def)
  let ?p = "RRep True (Suc 0) None (RSet False [CIChar (CHR ''-'')])"
  have no_dash: "rxm noflags ?p (b, v, c) = []" if "w = u @ v" for u v b c
  proof -
    have "False" if "v = x @ y" "x \<noteq> []" "\<forall>d \<in> set x. class_match False [CIChar (CHR ''-'')] d \<noteq> False" for x y
      using that nd \<open>w = u @ v\<close> by (cases x) auto
    then have "set (rxm noflags ?p (b, v, c)) = {}" unfolding plus_class_set noflags_simps by blast
    then show ?thesis by simp
  qed
  have 1: "rx_replace noflags NOT_SLUG (\<lambda>_. ''-'') w = w"
  proof (rule no_match_no_change(1))
    fix u v assume uv: "w = u @ v"
    have "False" if "v = x @ y" "x \<noteq> []" "\<forall>d \<in> set x. \<not> (is_lower d \<or> is_digit d)" for x y
      using that w uv by (cases x) (auto simp: list_all_iff)
    then have "set (rxm noflags NOT_SLUG (rev u, v, [])) = {}"
      unfolding NOT_SLUG_rx plus_class_set noflags_simps slug_class by blast
    then show "rxm noflags NOT_SLUG (rev u, v, []) = []" by simp
  qed
  have 2: "rx_replace noflags EDGE_DASHES (\<lambda>_. []) w = w"
  proof (rule no_match_no_change(1))
    fix u v assume "w = u @ v"
    from no_dash [OF this] show "rxm noflags EDGE_DASHES (rev u, v, []) = []"
      unfolding EDGE_DASHES_rx by simp
  qed
  have 3: "rx_replace1 flag_s SLUG_CUT f w = w" for f
  proof (rule no_match_no_change(2))
    fix u v assume uv: "w = u @ v"
    have "rxm flag_s (RSeq (RRep True 0 (Some 1) (RGroup 2 (RSeq (RSet False [CIChar (CHR ''-'')]) (RRep True 0 None RDot)))) REol) st = []"
      if u: "u = []" and st: "st \<in> set (rxm flag_s (RGroup 1 (RRep True 0 (Some 40) RDot)) (rev u, v, []))" for st
    proof -
      obtain st' where st': "st' \<in> set (rxm flag_s (RRep True 0 (Some 40) RDot) (rev u, v, []))"
        "fst (snd st) = fst (snd st')" using st by (auto simp: set_group_def)
      obtain x where x: "v = x @ fst (snd st)" "length x \<le> 40"
        using bounded_dots [OF st'(1)] st'(2) by auto
      then obtain c y where cy: "fst (snd st) = c # y" "c \<noteq> CHR ''-''"
        using len nd uv u by (cases "fst (snd st)") auto
      obtain b cap where "st = (b, c # y, cap)" using cy(1) by (cases st) auto
      moreover have "rxm flag_s (RRep True 0 (Some 1) (RGroup 2 (RSeq (RSet False [CIChar (CHR ''-'')]) (RRep True 0 None RDot))))
          (b, c # y, cap) = [(b, c # y, cap)]"
        using cy(2) by (subst rxm_rep_unfold) (simp add: clear_groups_def flag_s_def)
      ultimately show ?thesis unfolding rxm.simps(4) [of _ "RRep _ _ _ _"] by simp
    qed
    then show "rxm flag_s SLUG_CUT (rev u, v, []) = []"
      unfolding SLUG_CUT_rx rxm.simps(4) [of _ RBol] rxm.simps(4) [of _ "RGroup _ _"]
      by (cases u) (auto simp del: rxm.simps(4,7))
  qed
  have 4: "rx_replace noflags TRAILING_DASHES (\<lambda>_. []) w = w"
  proof (rule no_match_no_change(1))
    fix u v assume "w = u @ v"
    from no_dash [OF this] show "rxm noflags TRAILING_DASHES (rev u, v, []) = []"
      unfolding TRAILING_DASHES_rx by simp
  qed
  have "w \<noteq> []" using len by auto
  then show ?thesis by (simp add: slugify_def n 1 2 3 4)
qed

end
