(* ===== verification/Git.thy ===== *)
theory Git
  imports Verify Branch
begin

text \<open>
  \<open>tooling/local-runner/src/git.ts\<close>: the git commands of the runner, and the paths of \<open>node:path\<close> it
  puts together.  \<open>Number\<close> is modelled on decimal integers, which is what \<open>rev-list --count\<close> prints;
  any other text is \<open>None\<close>, the \<open>NaN\<close> that every comparison refuses.
\<close>

subsection \<open>Paths\<close>

definition path_step :: "bool \<Rightarrow> string list \<Rightarrow> string \<Rightarrow> string list" where
  "path_step up acc seg =
     (if seg = [] \<or> seg = ''.'' then acc
      else if seg = ''..'' then
        (if acc \<noteq> [] \<and> last acc \<noteq> ''..'' then butlast acc else if up then acc @ [''..''] else acc)
      else acc @ [seg])"

definition path_segments :: "bool \<Rightarrow> string \<Rightarrow> string list" where
  "path_segments up p = foldl (path_step up) [] (split_on (CHR ''/'') p)"

definition path_normalise :: "string \<Rightarrow> string" where
  "path_normalise p =
     (let absolute = starts_with ''/'' p; slash = ends_with ''/'' p;
          body = join ''/'' (path_segments (\<not> absolute) p)
      in if p = [] then ''.''
         else if body = [] then (if absolute then ''/'' else if slash then ''./'' else ''.'')
         else (if absolute then ''/'' else []) @ body @ (if slash then ''/'' else []))"

definition path_join :: "string list \<Rightarrow> string" where
  "path_join parts = path_normalise (join ''/'' (filter (\<lambda>p. p \<noteq> []) parts))"

definition path_resolve :: "string \<Rightarrow> string list \<Rightarrow> string" where
  "path_resolve cwd parts =
     (let whole = foldl (\<lambda>acc p. if p = [] then acc else if starts_with ''/'' p then p else acc @ ''/'' @ p) cwd parts
      in CHR ''/'' # join ''/'' (path_segments False whole))"

subsection \<open>Commands\<close>

definition js_number :: "string \<Rightarrow> int option" where
  "js_number s =
     (let t = trim s; neg = starts_with ''-'' t; d = (if neg then tl t else t)
      in if t = [] then Some 0
         else if d \<noteq> [] \<and> list_all is_digit d then Some (if neg then - int (undec d) else int (undec d))
         else None)"

definition gitIn :: "env \<Rightarrow> string \<Rightarrow> string list \<Rightarrow> run_result io" where
  "gitIn env cwd args = exec_io env \<lparr>cl_command = ''git'', cl_args = args, cl_cwd = Some cwd, cl_stdin = None,
     cl_timeoutMs = Some 300000, cl_profile = ProfGit\<rparr>"

definition expect_git :: "env \<Rightarrow> string \<Rightarrow> string list \<Rightarrow> string io" where
  "expect_git env cwd args = bind_io (gitIn env cwd args) (\<lambda>r.
     if res_code r \<noteq> 0 then
       throw_io (''git '' @ hd args @ '' failed: '' @ or_else (trim (res_stderr r)) (trim (res_stdout r)))
     else return_io (trim (res_stdout r)))"

definition repositoryRoot :: "env \<Rightarrow> string \<Rightarrow> string io" where
  "repositoryRoot env cwd = expect_git env cwd [''rev-parse'', ''--show-toplevel'']"

definition currentBranch :: "env \<Rightarrow> string \<Rightarrow> string io" where
  "currentBranch env cwd = expect_git env cwd [''rev-parse'', ''--abbrev-ref'', ''HEAD'']"

definition isClean :: "env \<Rightarrow> string \<Rightarrow> bool io" where
  "isClean env cwd = bind_io (expect_git env cwd [''status'', ''--porcelain'']) (\<lambda>s. return_io (s = []))"

definition changedFiles :: "env \<Rightarrow> string \<Rightarrow> string \<Rightarrow> string list io" where
  "changedFiles env cwd base =
     bind_io (expect_git env cwd [''diff'', ''--name-only'', base @ ''...HEAD'']) (\<lambda>out.
       return_io (if out = [] then [] else lines_of out))"

definition hasCommitsBeyond :: "env \<Rightarrow> string \<Rightarrow> string \<Rightarrow> bool io" where
  "hasCommitsBeyond env cwd base =
     bind_io (expect_git env cwd [''rev-list'', ''--count'', base @ ''..HEAD'']) (\<lambda>n.
       return_io (case js_number n of Some k \<Rightarrow> k > 0 | None \<Rightarrow> False))"

record worktree_request =
  wq_repository :: string
  wq_path :: string
  wq_branch :: string
  wq_base :: string

definition ensureWorktree :: "env \<Rightarrow> worktree_request \<Rightarrow> bool io" where
  "ensureWorktree env q =
     (if \<not> isAgentBranch (wq_branch q) then
        throw_io (''Refusing to create a worktree for a non-agent branch: '' @ wq_branch q)
      else
        bind_io (gitIn env (wq_repository q) [''worktree'', ''list'', ''--porcelain'']) (\<lambda>existing.
          if res_code existing = 0 \<and> contains (''worktree '' @ wq_path q @ [CHR 0x0A]) (res_stdout existing) then
            return_io False
          else
            bind_io (gitIn env (wq_repository q)
                [''show-ref'', ''--verify'', ''--quiet'', ''refs/heads/'' @ wq_branch q]) (\<lambda>branchExists.
              let args = (if res_code branchExists = 0
                  then [''worktree'', ''add'', wq_path q, wq_branch q]
                  else [''worktree'', ''add'', ''-b'', wq_branch q, wq_path q, wq_base q])
              in then_io (expect_git env (wq_repository q) args) (return_io True))))"

definition removeWorktree :: "env \<Rightarrow> string \<Rightarrow> string \<Rightarrow> unit io" where
  "removeWorktree env repository path =
     then_io (gitIn env repository [''worktree'', ''remove'', ''--force'', path]) (return_io ())"

definition fetchBase :: "env \<Rightarrow> string \<Rightarrow> string \<Rightarrow> string \<Rightarrow> unit io" where
  "fetchBase env repository remote branch =
     then_io (expect_git env repository [''fetch'', ''--prune'', remote, branch]) (return_io ())"

definition commitAll :: "env \<Rightarrow> string \<Rightarrow> string \<Rightarrow> bool io" where
  "commitAll env cwd message =
     then_io (expect_git env cwd [''add'', ''--all''])
       (bind_io (gitIn env cwd [''diff'', ''--cached'', ''--quiet'']) (\<lambda>staged.
          if res_code staged = 0 then return_io False
          else then_io (expect_git env cwd [''commit'', ''-m'', message]) (return_io True)))"

definition pushBranch :: "env \<Rightarrow> string \<Rightarrow> string \<Rightarrow> string \<Rightarrow> run_result io" where
  "pushBranch env cwd remote branch =
     (if \<not> isAgentBranch branch then
        throw_io (''Refusing to push '' @ branch @ ''. The runner pushes only agent/issue-* branches; merging into the default branch is the merge gate''
          @ [CHR 0x27] @ ''s job.'')
      else gitIn env cwd [''push'', ''-u'', remote, branch @ '':'' @ branch])"

text \<open>\<open>rebaseOntoBase\<close> of \<open>orchestrator.ts\<close>: a merge of the base, undone when it conflicts.\<close>

definition rebaseOntoBase :: "env \<Rightarrow> string \<Rightarrow> string \<Rightarrow> unit io" where
  "rebaseOntoBase env worktree base =
     bind_io (gitIn env worktree [''rev-list'', ''--count'', ''HEAD..'' @ base]) (\<lambda>behind.
       if res_code behind \<noteq> 0 \<or> js_number (trim (res_stdout behind)) = Some 0 then return_io ()
       else bind_io (gitIn env worktree [''merge'', ''--no-edit'', base]) (\<lambda>merged.
         if res_code merged \<noteq> 0 then
           then_io (gitIn env worktree [''merge'', ''--abort'']) (return_io ())
         else return_io ()))"

subsection \<open>What the runner may ask of git\<close>

text \<open>
  A push names one agent branch on both sides, without any option but \<open>-u\<close>; a worktree is added for an
  agent branch only; everything else neither moves a ref of the remote nor rewrites history.
\<close>

definition own_refspec :: "string \<Rightarrow> bool" where
  "own_refspec ref = (let b = takeWhile (\<lambda>c. c \<noteq> CHR '':'') ref in isAgentBranch b \<and> ref = b @ '':'' @ b)"

definition git_args_ok :: "string list \<Rightarrow> bool" where
  "git_args_ok args = (case args of
       [] \<Rightarrow> False
     | verb # rest \<Rightarrow>
         (if verb = ''push'' then
            length rest = 3 \<and> rest ! 0 = ''-u'' \<and> own_refspec (rest ! 2)
          else if verb = ''worktree'' \<and> take 1 rest = [''add''] then
            (if rest ! 1 = ''-b'' then length rest = 5 \<and> isAgentBranch (rest ! 2)
             else length rest = 3 \<and> isAgentBranch (rest ! 2))
          else if verb = ''commit'' then take 1 rest = [''-m''] \<and> length rest = 2
          else verb \<in> set [''add'', ''diff'', ''fetch'', ''merge'', ''remote'', ''rev-list'', ''rev-parse'', ''show-ref'', ''status'', ''worktree'']))"

definition git_ok :: "call \<Rightarrow> bool" where
  "git_ok c \<longleftrightarrow> cl_command c = ''git'' \<and> cl_profile c = ProfGit \<and> git_args_ok (cl_args c)"

lemma agent_refspec:
  assumes "isAgentBranch b"
  shows "own_refspec (b @ '':'' @ b)"
proof -
  obtain d w where b: "b = ''agent/issue-'' @ d @ ''-'' @ w" "list_all is_digit d" "list_all slug_char w"
    using assms unfolding isAgentBranch_iff by blast
  have "\<not> is_digit (CHR '':'')" "\<not> slug_char (CHR '':'')" by code_simp+
  then have "CHR '':'' \<notin> set b"
    using b(2,3) unfolding b(1) by (auto simp: list_all_iff)
  then have "takeWhile (\<lambda>c. c \<noteq> CHR '':'') (b @ '':'' @ b) = b"
    by (subst takeWhile_append2) auto
  then show ?thesis using assms by (simp add: own_refspec_def Let_def)
qed

lemma agent_branch_option: "isAgentBranch b \<Longrightarrow> b \<noteq> ''-b''"
  unfolding isAgentBranch_iff by auto

lemma calls_gitIn [calls]: "git_args_ok args \<Longrightarrow> calls_only git_ok (gitIn env cwd args)"
  unfolding gitIn_def by (intro calls) (simp add: git_ok_def)

lemma calls_expect_git [calls]: "git_args_ok args \<Longrightarrow> calls_only git_ok (expect_git env cwd args)"
  unfolding expect_git_def by (intro calls)

lemma calls_git [calls]:
  "calls_only git_ok (repositoryRoot env cwd)" "calls_only git_ok (currentBranch env cwd)"
  "calls_only git_ok (isClean env cwd)" "calls_only git_ok (changedFiles env cwd base)"
  "calls_only git_ok (hasCommitsBeyond env cwd base)" "calls_only git_ok (removeWorktree env repo path)"
  "calls_only git_ok (fetchBase env repo remote br)" "calls_only git_ok (commitAll env cwd message)"
  "calls_only git_ok (rebaseOntoBase env cwd base)"
  unfolding repositoryRoot_def currentBranch_def isClean_def changedFiles_def hasCommitsBeyond_def removeWorktree_def
    fetchBase_def commitAll_def rebaseOntoBase_def
  by (intro calls; simp add: git_args_ok_def)+

lemma calls_pushBranch [calls]: "calls_only git_ok (pushBranch env cwd remote br)"
  unfolding pushBranch_def by (intro calls) (simp add: git_args_ok_def agent_refspec [simplified])

lemma calls_ensureWorktree:
  assumes "wq_path q \<noteq> ''-b''"
  shows "calls_only git_ok (ensureWorktree env q)"
  unfolding ensureWorktree_def using assms by (intro calls) (auto simp: git_args_ok_def)

lemma path_resolve_absolute: "hd (path_resolve cwd parts) = CHR ''/''"
  by (simp add: path_resolve_def Let_def)

lemma path_resolve_no_option: "path_resolve cwd parts \<noteq> CHR ''-'' # s"
  by (simp add: path_resolve_def Let_def)

end
