(* ===== verification/Github.thy ===== *)
theory Github
  imports Git
begin

text \<open>
  \<open>tooling/local-runner/src/github.ts\<close>: GitHub through the \<open>gh\<close> client.  The zod schemas are decoders of
  JSON values; what zod says about a value that does not fit is \<open>en_issues\<close>.  The adapter is a
  record of operations, as the interface of the code is.
\<close>

subsection \<open>What GitHub answers\<close>

record gh_issue =
  gi_number :: nat
  gi_title :: string
  gi_body :: "string option"
  gi_state :: string
  gi_labels :: "string list"

record gh_check =
  gc_name :: "string option"
  gc_context :: "string option"
  gc_status :: "string option"
  gc_conclusion :: "string option"
  gc_state :: "string option"

record gh_pull_request =
  gp_number :: nat
  gp_state :: string
  gp_url :: string
  gp_isDraft :: bool
  gp_headRefName :: string
  gp_headRefOid :: "string option"
  gp_mergeStateStatus :: "string option"
  gp_reviewDecision :: "string option"
  gp_statusCheckRollup :: "gh_check list option"

definition as_nullish :: "(json \<Rightarrow> 'a option) \<Rightarrow> json option \<Rightarrow> 'a option option" where
  "as_nullish f v = (case v of None \<Rightarrow> Some None | Some x \<Rightarrow> if x = JNull then Some None else map_option Some (f x))"

definition as_any_array :: "(json \<Rightarrow> 'a option) \<Rightarrow> json \<Rightarrow> 'a list option" where
  "as_any_array f v = (case v of JArr vs \<Rightarrow> as_list f vs | _ \<Rightarrow> None)"

fun as_bool :: "json \<Rightarrow> bool option" where
  "as_bool (JBool b) = Some b"
| "as_bool _ = None"

definition is_object :: "json \<Rightarrow> unit option" where
  "is_object v = (case v of JObj _ \<Rightarrow> Some () | _ \<Rightarrow> None)"

definition label_schema :: "json \<Rightarrow> string option" where
  "label_schema v = json_field ''name'' v \<bind> as_string"

definition issueSchema :: "json \<Rightarrow> gh_issue option" where
  "issueSchema v = do {
     n \<leftarrow> json_field ''number'' v \<bind> as_positive;
     t \<leftarrow> json_field ''title'' v \<bind> as_string;
     b \<leftarrow> as_nullish as_string (json_field ''body'' v);
     s \<leftarrow> json_field ''state'' v \<bind> as_string;
     l \<leftarrow> with_default [] (as_any_array label_schema) (json_field ''labels'' v);
     Some \<lparr>gi_number = n, gi_title = t, gi_body = b, gi_state = s, gi_labels = l\<rparr> }"

definition checkSchema :: "json \<Rightarrow> gh_check option" where
  "checkSchema v = do {
     _ \<leftarrow> is_object v;
     n \<leftarrow> as_nullish as_string (json_field ''name'' v);
     c \<leftarrow> as_nullish as_string (json_field ''context'' v);
     s \<leftarrow> as_nullish as_string (json_field ''status'' v);
     k \<leftarrow> as_nullish as_string (json_field ''conclusion'' v);
     t \<leftarrow> as_nullish as_string (json_field ''state'' v);
     Some \<lparr>gc_name = n, gc_context = c, gc_status = s, gc_conclusion = k, gc_state = t\<rparr> }"

definition pullRequestSchema :: "json \<Rightarrow> gh_pull_request option" where
  "pullRequestSchema v = do {
     n \<leftarrow> json_field ''number'' v \<bind> as_positive;
     s \<leftarrow> json_field ''state'' v \<bind> as_string;
     u \<leftarrow> json_field ''url'' v \<bind> as_string;
     d \<leftarrow> with_default False as_bool (json_field ''isDraft'' v);
     h \<leftarrow> json_field ''headRefName'' v \<bind> as_string;
     i \<leftarrow> as_nullish as_string (json_field ''headRefOid'' v);
     m \<leftarrow> as_nullish as_string (json_field ''mergeStateStatus'' v);
     r \<leftarrow> as_nullish as_string (json_field ''reviewDecision'' v);
     c \<leftarrow> as_nullish (as_any_array checkSchema) (json_field ''statusCheckRollup'' v);
     Some \<lparr>gp_number = n, gp_state = s, gp_url = u, gp_isDraft = d, gp_headRefName = h, gp_headRefOid = i,
           gp_mergeStateStatus = m, gp_reviewDecision = r, gp_statusCheckRollup = c\<rparr> }"

subsection \<open>Probing\<close>

record capabilities =
  ca_read :: bool
  ca_push :: bool
  ca_triage :: bool
  ca_admin :: bool

datatype gh_reason = GhNotInstalled | GhNotAuthenticated | GhNoRepositoryAccess | GhInsufficientPermissions

datatype gh_availability =
    GhUnavailable gh_reason string "string option"
  | GhAvailable string string capabilities

definition CAPABILITY_SCHEMA :: "json \<Rightarrow> capabilities option" where
  "CAPABILITY_SCHEMA v = do {
     _ \<leftarrow> is_object v;
     r \<leftarrow> with_default False as_bool (json_field ''pull'' v);
     p \<leftarrow> with_default False as_bool (json_field ''push'' v);
     t \<leftarrow> with_default False as_bool (json_field ''triage'' v);
     a \<leftarrow> with_default False as_bool (json_field ''admin'' v);
     _ \<leftarrow> with_default False as_bool (json_field ''maintain'' v);
     Some \<lparr>ca_read = r, ca_push = p, ca_triage = t, ca_admin = a\<rparr> }"

definition described_schema :: "json \<Rightarrow> (string \<times> capabilities option) option" where
  "described_schema v = do {
     n \<leftarrow> json_field ''full_name'' v \<bind> as_string;
     p \<leftarrow> (case json_field ''permissions'' v of None \<Rightarrow> Some None | Some x \<Rightarrow> map_option Some (CAPABILITY_SCHEMA x));
     Some (n, p) }"

definition safeJson :: "string \<Rightarrow> json" where
  "safeJson t = or_default JNull (json_parse t)"

definition granted :: "capabilities option \<Rightarrow> capabilities" where
  "granted p = (case p of
       None \<Rightarrow> \<lparr>ca_read = True, ca_push = False, ca_triage = False, ca_admin = False\<rparr>
     | Some c \<Rightarrow> c\<lparr>ca_triage := ca_triage c \<or> ca_push c\<rparr>)"

definition gh_probe_call :: "string option \<Rightarrow> string list \<Rightarrow> call" where
  "gh_probe_call cwd args = \<lparr>cl_command = ''gh'', cl_args = args, cl_cwd = cwd, cl_stdin = None,
     cl_timeoutMs = Some 30000, cl_profile = ProfGithub\<rparr>"

definition missing_capabilities :: "capabilities \<Rightarrow> string list" where
  "missing_capabilities c =
     (if ca_push c then [] else [''push (branches and pull requests)''])
     @ (if ca_triage c then [] else [''triage (issue labels and comments)''])"

definition probe_repository :: "env \<Rightarrow> string option \<Rightarrow> string \<Rightarrow> string \<Rightarrow> gh_availability io" where
  "probe_repository env cwd repo account =
     bind_io (exec_io env (gh_probe_call cwd
         [''api'', ''repos/'' @ repo, ''--jq'', ''{full_name: .full_name, permissions: .permissions}''])) (\<lambda>r.
       if res_code r \<noteq> 0 \<or> trim (res_stdout r) = [] then
         return_io (GhUnavailable GhNoRepositoryAccess
           (''`gh` is authenticated as '' @ or_else account ''an unknown account'' @ '' but cannot read '' @ repo
             @ ''. Check the account has access, and that any proxy or policy in front of the GitHub API allows repository calls.'')
           (Some (take 500 (redact (or_else (trim (res_stderr r)) (trim (res_stdout r)))))))
       else (case described_schema (safeJson (res_stdout r)) of
           None \<Rightarrow> return_io (GhUnavailable GhNoRepositoryAccess
               (''`gh` returned a description of '' @ repo @ '' the runner could not read.'')
               (Some (take 500 (join ''; '' (map snd (en_issues env ''described'' (safeJson (res_stdout r))))))))
         | Some (name, permissions) \<Rightarrow>
             (let c = granted permissions; missing = missing_capabilities c
              in if length missing > 0 then
                   return_io (GhUnavailable GhInsufficientPermissions
                     (''`gh` can read '' @ repo @ '' as '' @ or_else account ''an unknown account'' @ '' but lacks: ''
                       @ join '', '' missing @ ''. The loop needs both to claim an issue and open a pull request.'') None)
                 else return_io (GhAvailable (or_else account ''unknown'') name c))))"

definition probeGh :: "env \<Rightarrow> string option \<Rightarrow> string option \<Rightarrow> gh_availability io" where
  "probeGh env cwd repo =
     bind_io (which_io env ''gh'') (\<lambda>found.
     if found = None then
       return_io (GhUnavailable GhNotInstalled
         ''Install the GitHub CLI (https://cli.github.com) and make sure `gh` is on PATH.'' None)
     else
     bind_io (exec_io env (gh_probe_call cwd [''auth'', ''status''])) (\<lambda>st.
     if res_code st \<noteq> 0 then
       return_io (GhUnavailable GhNotAuthenticated
         ''Run `gh auth login`. The runner never handles the token itself.'' None)
     else
     bind_io (exec_io env (gh_probe_call cwd [''api'', ''user'', ''--jq'', ''.login''])) (\<lambda>a.
     if res_code a \<noteq> 0 then
       return_io (GhUnavailable GhNotAuthenticated
         ''Run `gh auth login`; the credential `gh` holds was rejected.'' (Some (take 500 (redact (trim (res_stderr a))))))
     else (case repo of
         None \<Rightarrow> return_io (GhAvailable (or_else (trim (res_stdout a)) ''unknown'') ''(unchecked)''
             \<lparr>ca_read = True, ca_push = True, ca_triage = True, ca_admin = False\<rparr>)
       | Some name \<Rightarrow> probe_repository env cwd name (trim (res_stdout a))))))"

subsection \<open>The client\<close>

datatype mergeability = MgClean | MgBehind | MgConflicted | MgBlocked | MgUnknown

record create_pull_request =
  cq_base :: string
  cq_head :: string
  cq_title :: string
  cq_body :: string
  cq_draft :: bool

record github_adapter =
  gh_issues :: "string list \<Rightarrow> gh_issue list io"
  gh_issue :: "nat \<Rightarrow> gh_issue io"
  gh_addLabels :: "nat \<Rightarrow> string list \<Rightarrow> unit io"
  gh_removeLabel :: "nat \<Rightarrow> string \<Rightarrow> unit io"
  gh_comment :: "nat \<Rightarrow> string \<Rightarrow> unit io"
  gh_createPullRequest :: "create_pull_request \<Rightarrow> nat io"
  gh_pullRequest :: "nat \<Rightarrow> gh_pull_request io"
  gh_pullRequestForBranch :: "string \<Rightarrow> gh_pull_request option io"
  gh_pullRequestComments :: "nat \<Rightarrow> string list io"
  gh_pullRequestDiff :: "nat \<Rightarrow> string io"
  gh_enableAutoMerge :: "nat \<Rightarrow> unit io"
  gh_updateBranch :: "nat \<Rightarrow> unit io"
  gh_rerunFailedChecks :: "nat \<Rightarrow> unit io"
  gh_mergeability :: "nat \<Rightarrow> mergeability io"

record gh_options =
  go_repo :: string
  go_cwd :: "string option"
  go_timeoutMs :: "nat option"

definition GhError :: "string list \<Rightarrow> run_result \<Rightarrow> string" where
  "GhError args r = ''gh '' @ (case args of [] \<Rightarrow> [] | a # _ \<Rightarrow> a) @ '' failed ('' @ dec (res_code r) @ ''): ''
     @ take 500 (redact (or_else (trim (res_stderr r)) (trim (res_stdout r))))"

definition gh_call :: "gh_options \<Rightarrow> string list \<Rightarrow> string option \<Rightarrow> call" where
  "gh_call opts args stdin = \<lparr>cl_command = ''gh'', cl_args = args, cl_cwd = go_cwd opts, cl_stdin = stdin,
     cl_timeoutMs = Some (or_default 120000 (go_timeoutMs opts)), cl_profile = ProfGithub\<rparr>"

definition gh_io :: "env \<Rightarrow> gh_options \<Rightarrow> string list \<Rightarrow> string option \<Rightarrow> string io" where
  "gh_io env opts args stdin = bind_io (exec_io env (gh_call opts args stdin)) (\<lambda>r.
     if res_code r \<noteq> 0 then throw_io (GhError args r) else return_io (res_stdout r))"

definition parse_gh :: "env \<Rightarrow> string \<Rightarrow> (json \<Rightarrow> 'a option) \<Rightarrow> string \<Rightarrow> string \<Rightarrow> 'a io" where
  "parse_gh env schema decode raw what =
     (case json_parse raw of
        None \<Rightarrow> throw_io (''gh returned output for '' @ what @ '' that was not JSON.'')
      | Some v \<Rightarrow>
          (case decode v of
             None \<Rightarrow> throw_io (''gh returned an unexpected shape for '' @ what @ '': ''
               @ join ''; '' (map (\<lambda>i. join ''.'' (fst i) @ '': '' @ snd i) (en_issues env schema v)))
           | Some x \<Rightarrow> return_io x))"

definition ISSUE_FIELDS :: string where "ISSUE_FIELDS = ''number,title,body,state,labels''"

definition PULL_FIELDS :: string where
  "PULL_FIELDS = ''number,state,url,isDraft,headRefName,headRefOid,mergeStateStatus,reviewDecision,statusCheckRollup''"

definition client_issues :: "env \<Rightarrow> gh_options \<Rightarrow> string list \<Rightarrow> gh_issue list io" where
  "client_issues env opts labels =
     bind_io (gh_io env opts ([''issue'', ''list'', ''--repo'', go_repo opts, ''--state'', ''open'', ''--limit'', ''200'',
         ''--json'', ISSUE_FIELDS] @ concat (map (\<lambda>l. [''--label'', l]) labels)) None) (\<lambda>raw.
       parse_gh env ''issues'' (as_any_array issueSchema) raw ''the issue list'')"

definition client_issue :: "env \<Rightarrow> gh_options \<Rightarrow> nat \<Rightarrow> gh_issue io" where
  "client_issue env opts n =
     bind_io (gh_io env opts [''issue'', ''view'', dec n, ''--repo'', go_repo opts, ''--json'', ISSUE_FIELDS] None) (\<lambda>raw.
       parse_gh env ''issue'' issueSchema raw (''issue #'' @ dec n))"

definition client_addLabels :: "env \<Rightarrow> gh_options \<Rightarrow> nat \<Rightarrow> string list \<Rightarrow> unit io" where
  "client_addLabels env opts n labels =
     (if length labels = 0 then return_io ()
      else then_io (gh_io env opts ([''issue'', ''edit'', dec n, ''--repo'', go_repo opts]
          @ concat (map (\<lambda>l. [''--add-label'', l]) labels)) None) (return_io ()))"

definition ABSENT_LABEL :: rx where "ABSENT_LABEL = re ''not found|does not have''"

definition client_removeLabel :: "env \<Rightarrow> gh_options \<Rightarrow> nat \<Rightarrow> string \<Rightarrow> unit io" where
  "client_removeLabel env opts n label =
     bind_io (exec_io env (gh_call opts [''issue'', ''edit'', dec n, ''--repo'', go_repo opts, ''--remove-label'', label] None)) (\<lambda>r.
       if res_code r \<noteq> 0 \<and> \<not> rx_test flag_i ABSENT_LABEL (res_stderr r) then throw_io (GhError [''issue'', ''edit''] r)
       else return_io ())"

definition client_comment :: "env \<Rightarrow> gh_options \<Rightarrow> nat \<Rightarrow> string \<Rightarrow> unit io" where
  "client_comment env opts n body =
     then_io (gh_io env opts [''issue'', ''comment'', dec n, ''--repo'', go_repo opts, ''--body-file'', ''-''] (Some body))
       (return_io ())"

definition PULL_URL :: rx where "PULL_URL = re ''%/pull%/(%d+)%s*$''"

definition create_args :: "gh_options \<Rightarrow> create_pull_request \<Rightarrow> string list" where
  "create_args opts q = [''pr'', ''create'', ''--repo'', go_repo opts, ''--base'', cq_base q, ''--head'', cq_head q,
     ''--title'', cq_title q, ''--body-file'', ''-''] @ (if cq_draft q then [''--draft''] else [])"

definition client_createPullRequest :: "env \<Rightarrow> gh_options \<Rightarrow> create_pull_request \<Rightarrow> nat io" where
  "client_createPullRequest env opts q =
     bind_io (gh_io env opts (create_args opts q) (Some (cq_body q))) (\<lambda>out.
       case exec_group noflags PULL_URL 1 (trim out) of
         None \<Rightarrow> throw_io (''Could not read a pull request number out of: '' @ trim out)
       | Some n \<Rightarrow> return_io (undec n))"

definition client_pullRequest :: "env \<Rightarrow> gh_options \<Rightarrow> nat \<Rightarrow> gh_pull_request io" where
  "client_pullRequest env opts n =
     bind_io (gh_io env opts [''pr'', ''view'', dec n, ''--repo'', go_repo opts, ''--json'', PULL_FIELDS] None) (\<lambda>raw.
       parse_gh env ''pullRequest'' pullRequestSchema raw (''pull request #'' @ dec n))"

definition client_pullRequestForBranch :: "env \<Rightarrow> gh_options \<Rightarrow> string \<Rightarrow> gh_pull_request option io" where
  "client_pullRequestForBranch env opts branch =
     bind_io (gh_io env opts [''pr'', ''list'', ''--repo'', go_repo opts, ''--head'', branch, ''--state'', ''all'',
         ''--limit'', ''1'', ''--json'', PULL_FIELDS] None) (\<lambda>raw.
     bind_io (parse_gh env ''pullRequests'' (as_any_array pullRequestSchema) raw (''pull requests for '' @ branch)) (\<lambda>l.
       return_io (case l of [] \<Rightarrow> None | p # _ \<Rightarrow> Some p)))"

definition comments_schema :: "json \<Rightarrow> string list option" where
  "comments_schema v = do {
     _ \<leftarrow> is_object v;
     with_default [] (as_any_array (\<lambda>c. json_field ''body'' c \<bind> as_string)) (json_field ''comments'' v) }"

definition client_pullRequestComments :: "env \<Rightarrow> gh_options \<Rightarrow> nat \<Rightarrow> string list io" where
  "client_pullRequestComments env opts n =
     bind_io (gh_io env opts [''pr'', ''view'', dec n, ''--repo'', go_repo opts, ''--json'', ''comments''] None) (\<lambda>raw.
       parse_gh env ''comments'' comments_schema raw (''comments on #'' @ dec n))"

definition client_pullRequestDiff :: "env \<Rightarrow> gh_options \<Rightarrow> nat \<Rightarrow> string io" where
  "client_pullRequestDiff env opts n = gh_io env opts [''pr'', ''diff'', dec n, ''--repo'', go_repo opts] None"

definition client_enableAutoMerge :: "env \<Rightarrow> gh_options \<Rightarrow> nat \<Rightarrow> unit io" where
  "client_enableAutoMerge env opts n =
     then_io (gh_io env opts [''pr'', ''merge'', dec n, ''--repo'', go_repo opts, ''--squash'', ''--auto''] None) (return_io ())"

definition client_updateBranch :: "env \<Rightarrow> gh_options \<Rightarrow> nat \<Rightarrow> unit io" where
  "client_updateBranch env opts n =
     then_io (gh_io env opts [''pr'', ''update-branch'', dec n, ''--repo'', go_repo opts] None) (return_io ())"

definition RUN_URL :: rx where "RUN_URL = re ''%/actions%/runs%/(%d+)''"

definition details_schema :: "json \<Rightarrow> string option list option option" where
  "details_schema v = do {
     _ \<leftarrow> is_object v;
     as_nullish (as_any_array (\<lambda>c. is_object c \<bind> (\<lambda>_. as_nullish as_string (json_field ''detailsUrl'' c))))
       (json_field ''statusCheckRollup'' v) }"

definition run_ids :: "string option list \<Rightarrow> string list" where
  "run_ids urls = foldl (\<lambda>acc u. case exec_group noflags RUN_URL 1 (or_default [] u) of
       None \<Rightarrow> acc | Some i \<Rightarrow> set_add i acc) [] urls"

definition client_rerunFailedChecks :: "env \<Rightarrow> gh_options \<Rightarrow> nat \<Rightarrow> unit io" where
  "client_rerunFailedChecks env opts n =
     bind_io (gh_io env opts [''pr'', ''view'', dec n, ''--repo'', go_repo opts, ''--json'', ''statusCheckRollup''] None) (\<lambda>raw.
     bind_io (parse_gh env ''checks'' details_schema raw (''checks on #'' @ dec n)) (\<lambda>urls.
       each_io (\<lambda>i. exec_io env (gh_call opts [''run'', ''rerun'', i, ''--repo'', go_repo opts, ''--failed''] None))
         (run_ids (or_default [] urls))))"

definition merge_state :: "string option \<Rightarrow> mergeability" where
  "merge_state s =
     (let t = to_upper (or_default [] s)
      in if t = ''DIRTY'' then MgConflicted
         else if t = ''BEHIND'' then MgBehind
         else if t = ''CLEAN'' \<or> t = ''HAS_HOOKS'' \<or> t = ''UNSTABLE'' then MgClean
         else if t = ''BLOCKED'' then MgBlocked
         else MgUnknown)"

definition client_mergeability :: "env \<Rightarrow> gh_options \<Rightarrow> nat \<Rightarrow> mergeability io" where
  "client_mergeability env opts n =
     bind_io (client_pullRequest env opts n) (\<lambda>p. return_io (merge_state (gp_mergeStateStatus p)))"

definition createGhClient :: "env \<Rightarrow> gh_options \<Rightarrow> github_adapter" where
  "createGhClient env opts =
     \<lparr>gh_issues = client_issues env opts, gh_issue = client_issue env opts,
      gh_addLabels = client_addLabels env opts, gh_removeLabel = client_removeLabel env opts,
      gh_comment = client_comment env opts, gh_createPullRequest = client_createPullRequest env opts,
      gh_pullRequest = client_pullRequest env opts,
      gh_pullRequestForBranch = client_pullRequestForBranch env opts,
      gh_pullRequestComments = client_pullRequestComments env opts,
      gh_pullRequestDiff = client_pullRequestDiff env opts, gh_enableAutoMerge = client_enableAutoMerge env opts,
      gh_updateBranch = client_updateBranch env opts, gh_rerunFailedChecks = client_rerunFailedChecks env opts,
      gh_mergeability = client_mergeability env opts\<rparr>"

subsection \<open>Checks\<close>

datatype checks_verdict = ChPending | ChPassing | ChFailing | ChNone

definition check_label :: "gh_check \<Rightarrow> string" where
  "check_label c = (case gc_name c of Some n \<Rightarrow> n | None \<Rightarrow> or_default ''unnamed check'' (gc_context c))"

definition check_result :: "gh_check \<Rightarrow> string" where
  "check_result c = to_upper (case gc_conclusion c of Some n \<Rightarrow> n | None \<Rightarrow> or_default [] (gc_state c))"

definition check_pending :: "gh_check \<Rightarrow> bool" where
  "check_pending c =
     (let status = to_upper (or_default [] (gc_status c))
      in (status \<noteq> [] \<and> status \<noteq> ''COMPLETED'') \<or> check_result c \<in> set [''PENDING'', ''EXPECTED'', []])"

definition check_step :: "gh_check \<Rightarrow> bool \<times> string list \<Rightarrow> bool \<times> string list" where
  "check_step c acc =
     (if check_pending c then (True, snd acc)
      else if check_result c \<in> set [''SUCCESS'', ''NEUTRAL'', ''SKIPPED''] then acc
      else (fst acc, snd acc @ [check_label c]))"

definition summariseChecks :: "gh_pull_request \<Rightarrow> checks_verdict \<times> string list" where
  "summariseChecks p =
     (let checks = or_default [] (gp_statusCheckRollup p)
      in if length checks = 0 then (ChNone, [])
         else let (pending, failing) = fold check_step checks (False, [])
         in if length failing > 0 then (ChFailing, failing)
            else (if pending then ChPending else ChPassing, []))"

text \<open>The verdict in terms of the checks.\<close>

definition check_failed :: "gh_check \<Rightarrow> bool" where
  "check_failed c \<longleftrightarrow> \<not> check_pending c \<and> check_result c \<notin> set [''SUCCESS'', ''NEUTRAL'', ''SKIPPED'']"

lemma fold_checks:
  "fold check_step cs (b, fs) = (b \<or> list_ex check_pending cs, fs @ map check_label (filter check_failed cs))"
  by (induction cs arbitrary: b fs) (auto simp: check_step_def check_failed_def)

lemma summariseChecks_iff:
  "summariseChecks p = (let cs = or_default [] (gp_statusCheckRollup p) in
     (if cs = [] then ChNone else if list_ex check_failed cs then ChFailing
      else if list_ex check_pending cs then ChPending else ChPassing,
      map check_label (filter check_failed cs)))"
  by (auto simp: summariseChecks_def Let_def fold_checks filter_empty_conv list_ex_iff)

subsection \<open>What the runner may ask of GitHub\<close>

text \<open>
  A merge is requested only as GitHub's own auto-merge; the API is only read; no call deletes
  anything, touches the repository's settings or carries another client's credentials.
\<close>

definition gh_args_ok :: "string list \<Rightarrow> bool" where
  "gh_args_ok args = (case args of
       a # b # rest \<Rightarrow>
         (if a = ''pr'' \<and> b = ''merge'' then length rest = 5 \<and> drop 3 rest = [''--squash'', ''--auto'']
          else if a = ''api'' then length rest = 2 \<and> rest ! 0 = ''--jq''
          else (a, b) \<in> set [(''auth'', ''status''), (''issue'', ''list''), (''issue'', ''view''), (''issue'', ''edit''),
            (''issue'', ''comment''), (''pr'', ''create''), (''pr'', ''list''), (''pr'', ''view''), (''pr'', ''diff''),
            (''pr'', ''update-branch''), (''run'', ''rerun''), (''repo'', ''view'')])
     | _ \<Rightarrow> False)"

definition gh_ok :: "call \<Rightarrow> bool" where
  "gh_ok c \<longleftrightarrow> cl_command c = ''gh'' \<and> cl_profile c = ProfGithub \<and> gh_args_ok (cl_args c)"

lemma calls_gh_io [calls]: "gh_args_ok args \<Longrightarrow> calls_only gh_ok (gh_io env opts args stdin)"
  unfolding gh_io_def by (intro calls) (simp add: gh_ok_def gh_call_def)

lemma calls_parse_gh [calls]: "calls_only ok (parse_gh env schema decode raw what)"
  unfolding parse_gh_def by (intro calls)

lemma calls_client [calls]:
  "calls_only gh_ok (client_issues env opts labels)" "calls_only gh_ok (client_issue env opts n)"
  "calls_only gh_ok (client_addLabels env opts n labels)" "calls_only gh_ok (client_comment env opts n body)"
  "calls_only gh_ok (client_createPullRequest env opts q)" "calls_only gh_ok (client_pullRequest env opts n)"
  "calls_only gh_ok (client_pullRequestForBranch env opts br)" "calls_only gh_ok (client_pullRequestComments env opts n)"
  "calls_only gh_ok (client_pullRequestDiff env opts n)" "calls_only gh_ok (client_enableAutoMerge env opts n)"
  "calls_only gh_ok (client_updateBranch env opts n)"
  unfolding client_issues_def client_issue_def client_addLabels_def client_comment_def client_createPullRequest_def
    client_pullRequest_def client_pullRequestForBranch_def client_pullRequestComments_def client_pullRequestDiff_def
    client_enableAutoMerge_def client_updateBranch_def
  by (intro calls; simp add: gh_args_ok_def create_args_def)+

lemma calls_client_removeLabel [calls]: "calls_only gh_ok (client_removeLabel env opts n l)"
  unfolding client_removeLabel_def by (intro calls) (simp add: gh_ok_def gh_call_def gh_args_ok_def)

lemma calls_client_rerun [calls]: "calls_only gh_ok (client_rerunFailedChecks env opts n)"
  unfolding client_rerunFailedChecks_def by (intro calls) (simp_all add: gh_ok_def gh_call_def gh_args_ok_def)

lemma calls_client_mergeability [calls]: "calls_only gh_ok (client_mergeability env opts n)"
  unfolding client_mergeability_def by (intro calls)

lemma calls_probeGh [calls]: "calls_only gh_ok (probeGh env cwd repo)"
  unfolding probeGh_def probe_repository_def
  by (intro calls) (simp_all add: gh_ok_def gh_probe_call_def gh_args_ok_def)

text \<open>Being available means that the repository answered and both capabilities are there.\<close>

lemma probeGh_available:
  assumes "probeGh env cwd (Some repo) w = (Inr (GhAvailable account name c), w')"
  shows "ca_push c \<and> ca_triage c"
  using assms unfolding probeGh_def probe_repository_def
  by (auto elim!: bind_cases simp: return_io_def Let_def missing_capabilities_def
      split: if_splits option.splits prod.splits)

end
