(* ===== verification/Claude.thy ===== *)
theory Claude
  imports Github
begin

text \<open>
  \<open>tooling/local-runner/src/prompts.ts\<close>, \<open>claude.ts\<close>, \<open>agent.ts\<close> and \<open>claude-agent.ts\<close>: prompts, the interpretation of a
  finished invocation, and the two agents.  A prompt template is the file of that name, read from
  the outside.  Costs are JSON numbers that are only passed on.
\<close>

subsection \<open>Prompts\<close>

definition PROMPT_DIRECTORY :: string where "PROMPT_DIRECTORY = ''tooling/local-runner/prompts''"

datatype prompt_name = PromptImplement | PromptFix | PromptReview

fun prompt_text :: "prompt_name \<Rightarrow> string" where
  "prompt_text PromptImplement = ''implement''"
| "prompt_text PromptFix = ''fix''"
| "prompt_text PromptReview = ''review''"

definition loadTemplate :: "env \<Rightarrow> prompt_name \<Rightarrow> string io" where
  "loadTemplate env name =
     (let path = PROMPT_DIRECTORY @ ''/'' @ prompt_text name @ ''.md''
      in bind_io (readFile_io env path) (\<lambda>t. case t of
           None \<Rightarrow> throw_io (''ENOENT: no such file or directory, open '' @ path)
         | Some s \<Rightarrow> return_io s))"

definition PLACEHOLDER :: rx where "PLACEHOLDER = re ''%{%{([A-Z_]+)%}%}''"

definition render :: "string \<Rightarrow> (string \<times> string) list \<Rightarrow> string" where
  "render template values =
     rx_replace noflags PLACEHOLDER (\<lambda>m. or_default (m_text m) (map_of values (capture m 1))) template"

definition cap :: "string \<Rightarrow> nat \<Rightarrow> string" where
  "cap t limit =
     (if length t \<le> limit then t
      else take limit t @ [CHR 0x0A, CHR 0x0A] @ ''[... truncated: '' @ dec (length t - limit) @ '' more characters ...]'')"

definition fence :: "string \<Rightarrow> string" where
  "fence t =
     replace_all ''<diff'' (''<'' @ [backslash] @ ''diff'')
       (replace_all ''<issue'' (''<'' @ [backslash] @ ''issue'')
         (replace_all ''</diff>'' (''<'' @ [backslash] @ ''/diff>'')
           (replace_all ''</issue>'' (''<'' @ [backslash] @ ''/issue>'') t)))"

subsection \<open>The command-line client\<close>

record auth_status =
  as_loggedIn :: bool
  as_authMethod :: "string option"

definition as_number :: "json \<Rightarrow> json option" where
  "as_number v = (case v of JNum _ \<Rightarrow> Some v | JDec _ \<Rightarrow> Some v | _ \<Rightarrow> None)"

definition authStatusSchema :: "json \<Rightarrow> auth_status option" where
  "authStatusSchema v = do {
     l \<leftarrow> json_field ''loggedIn'' v \<bind> as_bool;
     m \<leftarrow> as_nullish as_string (json_field ''authMethod'' v);
     _ \<leftarrow> as_nullish as_string (json_field ''apiProvider'' v);
     Some \<lparr>as_loggedIn = l, as_authMethod = m\<rparr> }"

datatype claude_reason = ClNotInstalled | ClNotAuthenticated | ClUnreadable

record claude_ready =
  cv_version :: string
  cv_authMethod :: string
  cv_subscription :: bool
  cv_warning :: "string option"

datatype claude_availability = ClaudeUnavailable claude_reason string "string option" | ClaudeAvailable claude_ready

definition SUBSCRIPTION_METHODS :: "string list" where
  "SUBSCRIPTION_METHODS = [''oauth_token'', ''oauth'', ''subscription'', ''claudeai'']"

definition claude_probe_call :: "string list \<Rightarrow> call" where
  "claude_probe_call args = \<lparr>cl_command = ''claude'', cl_args = args, cl_cwd = None, cl_stdin = None,
     cl_timeoutMs = Some 30000, cl_profile = ProfClaude\<rparr>"

definition API_KEY_WARNING :: string where
  "API_KEY_WARNING = ''ANTHROPIC_API_KEY is set. In non-interactive mode Claude Code always uses it, so this run will bill the API rather than your subscription. Unset it to use the subscription.''"

definition ready_status :: "env \<Rightarrow> string \<Rightarrow> auth_status \<Rightarrow> claude_availability" where
  "ready_status env version s =
     (if \<not> as_loggedIn s then
        ClaudeUnavailable ClNotAuthenticated
          ''Run `claude auth login` (interactive, opens a browser). For unattended runs, run `claude setup-token` and export CLAUDE_CODE_OAUTH_TOKEN.'' None
      else let method = or_default ''unknown'' (as_authMethod s); key = en_source env ''ANTHROPIC_API_KEY''
      in ClaudeAvailable \<lparr>cv_version = trim version, cv_authMethod = method,
           cv_subscription = (method \<in> set SUBSCRIPTION_METHODS),
           cv_warning = (if key \<noteq> None \<and> key \<noteq> Some [] then Some API_KEY_WARNING else None)\<rparr>)"

definition probeClaude :: "env \<Rightarrow> claude_availability io" where
  "probeClaude env =
     bind_io (which_io env ''claude'') (\<lambda>found.
     if found = None then return_io (ClaudeUnavailable ClNotInstalled
       ''Install Claude Code and make sure `claude` is on PATH: https://code.claude.com/docs'' None)
     else
     bind_io (exec_io env (claude_probe_call [''--version''])) (\<lambda>version.
     if res_code version \<noteq> 0 then return_io (ClaudeUnavailable ClUnreadable
       ''Run `claude --version` by hand and resolve whatever it reports.''
       (Some (or_else (trim (res_stderr version)) (trim (res_stdout version)))))
     else
     bind_io (exec_io env (claude_probe_call [''auth'', ''status'', ''--json''])) (\<lambda>st.
     if res_code st \<noteq> 0 then return_io (ClaudeUnavailable ClUnreadable
       ''Run `claude auth status` by hand and resolve whatever it reports.''
       (Some (or_else (trim (res_stderr st)) (trim (res_stdout st)))))
     else return_io (case authStatusSchema (safeJson (res_stdout st)) of
         None \<Rightarrow> ClaudeUnavailable ClUnreadable
           ''Run `claude auth status --json` by hand; the runner could not read its output.''
           (Some (join ''; '' (map snd (en_issues env ''authStatus'' (safeJson (res_stdout st))))))
       | Some s \<Rightarrow> ready_status env (res_stdout version) s))))"

record claude_result =
  cr_is_error :: bool
  cr_result :: "string option"
  cr_session_id :: "string option"
  cr_total_cost_usd :: "json option"
  cr_structured_output :: "json option"

definition claudeResultSchema :: "json \<Rightarrow> claude_result option" where
  "claudeResultSchema v = do {
     _ \<leftarrow> json_field ''type'' v \<bind> as_string;
     _ \<leftarrow> as_nullish as_string (json_field ''subtype'' v);
     e \<leftarrow> json_field ''is_error'' v \<bind> as_bool;
     r \<leftarrow> as_nullish as_string (json_field ''result'' v);
     s \<leftarrow> as_nullish as_string (json_field ''session_id'' v);
     _ \<leftarrow> as_nullish as_number (json_field ''num_turns'' v);
     _ \<leftarrow> as_nullish as_string (json_field ''stop_reason'' v);
     c \<leftarrow> as_nullish as_number (json_field ''total_cost_usd'' v);
     _ \<leftarrow> as_nullish as_number (json_field ''duration_ms'' v);
     _ \<leftarrow> as_nullish (\<lambda>x. case x of JArr _ \<Rightarrow> Some x | _ \<Rightarrow> None) (json_field ''permission_denials'' v);
     o' \<leftarrow> as_nullish Some (json_field ''structured_output'' v);
     Some \<lparr>cr_is_error = e, cr_result = r, cr_session_id = s, cr_total_cost_usd = c, cr_structured_output = o'\<rparr> }"

datatype claude_invocation = InvokeOk claude_result | InvokeBad string string string nat

definition interpretInvocation :: "nat \<Rightarrow> string \<Rightarrow> string \<Rightarrow> bool \<Rightarrow> claude_invocation" where
  "interpretInvocation exitCode stdout stderr timedOut =
     (let bad = (\<lambda>why. InvokeBad why stdout stderr exitCode)
      in if timedOut then bad ''Claude Code timed out''
         else if exitCode = 130 \<or> exitCode = 143 then bad ''Claude Code was interrupted''
         else if exitCode = 2 then
           bad ''Claude Code stopped before running: cost ceiling reached or authentication rejected''
         else (case claudeResultSchema (safeJson stdout) of
             None \<Rightarrow> bad (if exitCode = 0 then ''Claude Code returned output the runner could not parse as JSON''
                 else ''Claude Code exited '' @ dec exitCode)
           | Some r \<Rightarrow>
               (if exitCode \<noteq> 0 \<or> cr_is_error r then bad (or_default (''Claude Code exited '' @ dec exitCode) (cr_result r))
                else InvokeOk r)))"

lemma invocation_ok:
  "interpretInvocation code out err t = InvokeOk r \<longleftrightarrow>
     \<not> t \<and> code = 0 \<and> claudeResultSchema (safeJson out) = Some r \<and> \<not> cr_is_error r"
  by (auto simp: interpretInvocation_def Let_def split: option.splits)

subsection \<open>Tasks and outcomes\<close>

record coding_task =
  ct_issue :: nat
  ct_title :: string
  ct_body :: string
  ct_worktree :: string
  ct_branch :: string
  ct_review :: "review_result option"
  ct_verification :: "verification option"
  ct_feedback :: "string option"
  ct_round :: nat

datatype coding_outcome = CodeOk string "string option" "json option" | CodeBad string string

record coding_agent =
  ca_name :: string
  ca_implement :: "coding_task \<Rightarrow> coding_outcome io"

record review_task =
  rt_worktree :: string
  rt_issue :: nat
  rt_title :: string
  rt_body :: string
  rt_base :: string
  rt_branch :: string
  rt_diff :: string
  rt_changedFiles :: "string list"

datatype review_outcome = ReviewOk review_result "string option" "json option" | ReviewBad string string

record review_agent =
  ra_name :: string
  ra_review :: "review_task \<Rightarrow> review_outcome io"

subsection \<open>The agents\<close>

definition ISSUE_BODY_LIMIT :: nat where "ISSUE_BODY_LIMIT = 20000"
definition DIFF_LIMIT :: nat where "DIFF_LIMIT = 120000"
definition FEEDBACK_LIMIT :: nat where "FEEDBACK_LIMIT = 20000"

record claude_options =
  co_timeoutMs :: nat
  co_model :: "string option"
  co_maxBudgetUsd :: "string option"

definition baseArgs :: "claude_options \<Rightarrow> string list" where
  "baseArgs opts =
     [''-p'', ''--output-format'', ''json'']
     @ (case co_model opts of Some m \<Rightarrow> (if m \<noteq> [] then [''--model'', m] else []) | None \<Rightarrow> [])
     @ (case co_maxBudgetUsd opts of Some b \<Rightarrow> [''--max-budget-usd'', b] | None \<Rightarrow> [])"

definition IMPLEMENT_TOOLS :: "string list" where
  "IMPLEMENT_TOOLS = [''Read'', ''Write'', ''Edit'', ''Glob'', ''Grep'', ''Bash'', ''TodoWrite'']"

definition IMPLEMENT_ALLOWED :: "string list" where
  "IMPLEMENT_ALLOWED = [''Read'', ''Write'', ''Edit'', ''Glob'', ''Grep'', ''TodoWrite'', ''Bash(bun *)'', ''Bash(bunx *)'',
     ''Bash(git status*)'', ''Bash(git diff*)'', ''Bash(git log*)'', ''Bash(ls *)'', ''Bash(cat *)'', ''Bash(rg *)'']"

definition IMPLEMENT_DISALLOWED :: "string list" where
  "IMPLEMENT_DISALLOWED = [''WebFetch'', ''WebSearch'', ''Bash(git push*)'', ''Bash(git commit*)'', ''Bash(gh *)'',
     ''Bash(curl *)'', ''Bash(wget *)'', ''Bash(ssh *)'', ''Bash(sudo *)'', ''Bash(docker *)'']"

definition implement_args :: "string \<Rightarrow> string list" where
  "implement_args worktree =
     [''--permission-mode'', ''dontAsk'', ''--add-dir'', worktree, ''--tools''] @ IMPLEMENT_TOOLS
     @ [''--allowedTools''] @ IMPLEMENT_ALLOWED @ [''--disallowedTools''] @ IMPLEMENT_DISALLOWED"

text \<open>What a review and a failed verification become for the fixer.\<close>

definition feedback_finding :: "nat \<Rightarrow> finding \<Rightarrow> string list" where
  "feedback_finding index f =
     (let where' = (case f_file f of None \<Rightarrow> []
        | Some file \<Rightarrow> '' (`'' @ file @ (case f_line f of None \<Rightarrow> [] | Some l \<Rightarrow> '':'' @ dec l) @ ''`)'')
      in [dec (index + 1) @ ''. **'' @ severity_text (f_severity f) @ ''**'' @ where' @ '' '' @ emdash @ '' '' @ f_description f,
          ''   Suggested: '' @ f_action f])"

definition feedback_sections :: "coding_task \<Rightarrow> string list" where
  "feedback_sections t =
     (case ct_feedback t of Some s \<Rightarrow> (if s \<noteq> [] then [s, []] else []) | None \<Rightarrow> [])
     @ (case ct_verification t of
          Some v \<Rightarrow> (if \<not> vo_ok v then [''### Local verification failed'', [], formatVerification v] else [])
        | None \<Rightarrow> [])
     @ (case ct_review t of
          Some r \<Rightarrow>
            (if length (r_findings r) > 0 then
               [''### Review findings'', []] @ concat (map (\<lambda>(i, f). feedback_finding i f) (enumerate 0 (r_findings r)))
             else [])
            @ (if r_summary r \<noteq> [] then [[], ''### Reviewer summary'', [], r_summary r] else [])
        | None \<Rightarrow> [])"

definition formatFeedback :: "coding_task \<Rightarrow> string" where
  "formatFeedback t =
     (if feedback_sections t = [] then ''No specific feedback was recorded.'' else unlines (feedback_sections t))"

definition implementPrompt :: "env \<Rightarrow> coding_task \<Rightarrow> string io" where
  "implementPrompt env t = bind_io (loadTemplate env PromptImplement) (\<lambda>template. return_io (render template
     [(''BRANCH'', ct_branch t), (''ISSUE_NUMBER'', dec (ct_issue t)), (''ISSUE_TITLE'', fence (cap (ct_title t) 500)),
      (''ISSUE_BODY'', fence (cap (ct_body t) ISSUE_BODY_LIMIT))]))"

definition fixPrompt :: "env \<Rightarrow> coding_task \<Rightarrow> string io" where
  "fixPrompt env t = bind_io (loadTemplate env PromptFix) (\<lambda>template. return_io (render template
     [(''BRANCH'', ct_branch t), (''ISSUE_NUMBER'', dec (ct_issue t)), (''ROUND'', dec (ct_round t)),
      (''ISSUE_TITLE'', fence (cap (ct_title t) 500)), (''ISSUE_BODY'', fence (cap (ct_body t) ISSUE_BODY_LIMIT)),
      (''FEEDBACK'', cap (formatFeedback t) FEEDBACK_LIMIT)]))"

definition agent_call :: "claude_options \<Rightarrow> string list \<Rightarrow> string \<Rightarrow> string \<Rightarrow> call" where
  "agent_call opts args worktree prompt = \<lparr>cl_command = ''claude'', cl_args = args, cl_cwd = Some worktree,
     cl_stdin = Some prompt, cl_timeoutMs = Some (co_timeoutMs opts), cl_profile = ProfClaude\<rparr>"

definition agent_detail :: "string \<Rightarrow> string \<Rightarrow> string" where
  "agent_detail stdout stderr = take_last 2000 (redact (or_else (trim stderr) (trim stdout)))"

definition implement :: "env \<Rightarrow> claude_options \<Rightarrow> coding_task \<Rightarrow> coding_outcome io" where
  "implement env opts t =
     bind_io (if ct_round t = 0 then implementPrompt env t else fixPrompt env t) (\<lambda>prompt.
     bind_io (exec_io env (agent_call opts (baseArgs opts @ implement_args (ct_worktree t)) (ct_worktree t) prompt)) (\<lambda>r.
       case interpretInvocation (res_code r) (res_stdout r) (res_stderr r) (res_timedOut r) of
         InvokeBad why stdout stderr _ \<Rightarrow> return_io (CodeBad why (agent_detail stdout stderr))
       | InvokeOk result \<Rightarrow> return_io (CodeOk (take 8000 (redact (or_default [] (cr_result result))))
           (cr_session_id result) (cr_total_cost_usd result))))"

definition ClaudeCodeCodingAgent :: "env \<Rightarrow> claude_options \<Rightarrow> coding_agent" where
  "ClaudeCodeCodingAgent env opts = \<lparr>ca_name = ''claude-code'', ca_implement = implement env opts\<rparr>"

definition typed :: "string \<Rightarrow> (string \<times> json) list \<Rightarrow> json" where
  "typed t rest = JObj ((''type'', JStr t) # rest)"

definition REVIEW_JSON_SCHEMA :: json where
  "REVIEW_JSON_SCHEMA = typed ''object''
     [(''properties'', JObj
        [(''status'', typed ''string'' [(''enum'', JArr (map JStr [''approve'', ''request_changes'', ''blocked'']))]),
         (''findings'', typed ''array'' [(''items'', typed ''object''
            [(''properties'', JObj
               [(''severity'', typed ''string'' [(''enum'', JArr (map JStr [''info'', ''low'', ''medium'', ''high'', ''critical'']))]),
                (''file'', JObj [(''type'', JArr [JStr ''string'', JStr ''null''])]),
                (''line'', JObj [(''type'', JArr [JStr ''integer'', JStr ''null''])]),
                (''description'', typed ''string'' []), (''suggested_action'', typed ''string'' [])]),
             (''required'', JArr (map JStr [''severity'', ''description'', ''suggested_action''])),
             (''additionalProperties'', JBool False)])]),
         (''summary'', typed ''string'' [])]),
      (''required'', JArr (map JStr [''status'', ''findings'', ''summary''])),
      (''additionalProperties'', JBool False)]"

definition review_args :: "string \<Rightarrow> string list" where
  "review_args worktree = [''--restricted'', ''--strict-mcp-config'', ''--add-dir'', worktree, ''--tools'', ''Read'', ''Glob'', ''Grep'',
     ''--json-schema'', json_compact REVIEW_JSON_SCHEMA]"

definition extractReview :: "env \<Rightarrow> json option \<Rightarrow> string option \<Rightarrow> review_result option" where
  "extractReview env structured t =
     (let from_text = (case t of
            None \<Rightarrow> None
          | Some s \<Rightarrow>
              (if trim s = [] then None
               else (case parseReviewText (en_safeParseReview env) (en_syntaxMessage env) s of
                   ParseOk r \<Rightarrow> Some r | ParseBad _ _ \<Rightarrow> None)))
      in case structured of
           None \<Rightarrow> from_text
         | Some v \<Rightarrow> (case parseReviewResult (en_safeParseReview env) v of ParseOk r \<Rightarrow> Some r | ParseBad _ _ \<Rightarrow> from_text))"

definition review_prompt :: "env \<Rightarrow> review_task \<Rightarrow> string io" where
  "review_prompt env t = bind_io (loadTemplate env PromptReview) (\<lambda>template. return_io (render template
     [(''ISSUE_NUMBER'', dec (rt_issue t)), (''ISSUE_TITLE'', fence (cap (rt_title t) 500)),
      (''ISSUE_BODY'', fence (cap (rt_body t) ISSUE_BODY_LIMIT)), (''BASE'', rt_base t), (''BRANCH'', rt_branch t),
      (''CHANGED_FILES'', or_else (unlines (map (\<lambda>f. ''- '' @ f) (rt_changedFiles t))) ''- (none)''),
      (''DIFF'', fence (cap (rt_diff t) DIFF_LIMIT))]))"

definition interpret_review :: "env \<Rightarrow> run_result \<Rightarrow> review_outcome" where
  "interpret_review env r =
     (case interpretInvocation (res_code r) (res_stdout r) (res_stderr r) (res_timedOut r) of
        InvokeBad why stdout stderr _ \<Rightarrow> ReviewBad why (agent_detail stdout stderr)
      | InvokeOk result \<Rightarrow>
          (case extractReview env (cr_structured_output result) (cr_result result) of
             None \<Rightarrow> ReviewBad ''The review agent did not return a valid review result.''
               (take 2000 (redact (or_default [] (cr_result result))))
           | Some review \<Rightarrow> ReviewOk review (cr_session_id result) (cr_total_cost_usd result)))"

definition review_change :: "env \<Rightarrow> claude_options \<Rightarrow> review_task \<Rightarrow> review_outcome io" where
  "review_change env opts t =
     bind_io (review_prompt env t) (\<lambda>prompt.
     bind_io (exec_io env (agent_call opts (baseArgs opts @ review_args (rt_worktree t)) (rt_worktree t) prompt)) (\<lambda>r.
       return_io (interpret_review env r)))"

definition ClaudeCodeReviewAgent :: "env \<Rightarrow> claude_options \<Rightarrow> review_agent" where
  "ClaudeCodeReviewAgent env opts = \<lparr>ra_name = ''claude-code'', ra_review = review_change env opts\<rparr>"

subsection \<open>Fenced text\<close>

text \<open>Nothing in fenced text opens or closes the elements that wrap it in a prompt.\<close>

lemma fence_closes: "\<not> contains ''</issue>'' (fence t)" "\<not> contains ''</diff>'' (fence t)"
  "\<not> contains ''<issue'' (fence t)" "\<not> contains ''<diff'' (fence t)"
proof -
  have a: "apart ''</issue>'' (''<'' @ [backslash] @ ''/issue>'')" "apart ''</issue>'' (''<'' @ [backslash] @ ''/diff>'')"
    "apart ''</issue>'' (''<'' @ [backslash] @ ''issue'')" "apart ''</issue>'' (''<'' @ [backslash] @ ''diff'')"
    "apart ''</diff>'' (''<'' @ [backslash] @ ''/diff>'')" "apart ''</diff>'' (''<'' @ [backslash] @ ''issue'')"
    "apart ''</diff>'' (''<'' @ [backslash] @ ''diff'')" "apart ''<issue'' (''<'' @ [backslash] @ ''issue'')"
    "apart ''<issue'' (''<'' @ [backslash] @ ''diff'')" "apart ''<diff'' (''<'' @ [backslash] @ ''diff'')"
    by code_simp+
  show "\<not> contains ''</issue>'' (fence t)" "\<not> contains ''</diff>'' (fence t)"
    "\<not> contains ''<issue'' (fence t)" "\<not> contains ''<diff'' (fence t)"
    unfolding fence_def by (intro replace_all_keeps_out replace_all_removes a; simp)+
qed

subsection \<open>What an agent is started with\<close>

text \<open>
  The prompt is on the standard input, and the arguments end in those of the implementer or those of
  the reviewer; only the implementer has tools that write or run.
\<close>

definition claude_ok :: "call \<Rightarrow> bool" where
  "claude_ok c \<longleftrightarrow> cl_command c = ''claude'' \<and> cl_profile c = ProfClaude
     \<and> (case cl_cwd c of
          None \<Rightarrow> cl_args c \<in> set [[''--version''], [''auth'', ''status'', ''--json'']]
        | Some worktree \<Rightarrow> cl_stdin c \<noteq> None
            \<and> (ends_with (implement_args worktree) (cl_args c) \<or> ends_with (review_args worktree) (cl_args c)))"

lemma ends_with_append: "ends_with q (p @ q)"
  by (simp add: ends_with_def starts_with_iff)

lemma calls_loadTemplate [calls]: "calls_only ok (loadTemplate env n)"
  unfolding loadTemplate_def by (intro calls)

lemma calls_prompts [calls]:
  "calls_only ok (implementPrompt env t)" "calls_only ok (fixPrompt env t)" "calls_only ok (review_prompt env rt)"
  unfolding implementPrompt_def fixPrompt_def review_prompt_def by (intro calls)+

lemma calls_invocation [calls]:
  "(\<And>r. x = InvokeOk r \<Longrightarrow> calls_only ok (f r)) \<Longrightarrow> (\<And>a b c d. x = InvokeBad a b c d \<Longrightarrow> calls_only ok (g a b c d)) \<Longrightarrow>
    calls_only ok (case x of InvokeOk r \<Rightarrow> f r | InvokeBad a b c d \<Rightarrow> g a b c d)"
  by (cases x) auto

lemma calls_implement [calls]: "calls_only claude_ok (implement env opts t)"
  unfolding implement_def
  by (intro calls) (simp add: claude_ok_def agent_call_def ends_with_append)

lemma calls_review_change [calls]: "calls_only claude_ok (review_change env opts t)"
  unfolding review_change_def
  by (intro calls) (simp add: claude_ok_def agent_call_def ends_with_append)

lemma calls_probeClaude [calls]: "calls_only claude_ok (probeClaude env)"
  unfolding probeClaude_def
  by (intro calls) (simp_all add: claude_ok_def claude_probe_call_def)

end
