(* ===== verification/Lock.thy ===== *)
theory Lock
  imports Journal
begin

text \<open>
  \<open>tooling/local-runner/src/lock.ts\<close>: the lock file.  The file is its text, \<open>None\<close> when absent;
  \<open>alive pid\<close> answers the liveness probe.  \<open>acquireLock\<close> reads the file and later writes it, with
  other processes in between, so its two halves \<open>lock_decision\<close> and the write are also the steps
  of a relation between two runners on one machine.
\<close>

subsection \<open>The code\<close>

record lock_file =
  lk_pid :: nat
  lk_host :: string
  lk_startedAt :: string
  lk_command :: string

definition lockFileSchema :: "json \<Rightarrow> lock_file option" where
  "lockFileSchema v = do {
     p \<leftarrow> json_field ''pid'' v \<bind> as_positive;
     h \<leftarrow> json_field ''host'' v \<bind> as_string;
     s \<leftarrow> json_field ''startedAt'' v \<bind> as_string;
     c \<leftarrow> json_field ''command'' v \<bind> as_string;
     Some \<lparr>lk_pid = p, lk_host = h, lk_startedAt = s, lk_command = c\<rparr> }"

definition readLock :: "string option \<Rightarrow> lock_file option" where
  "readLock f = (case f of None \<Rightarrow> None | Some t \<Rightarrow> json_parse t \<bind> lockFileSchema)"

definition lock_json :: "lock_file \<Rightarrow> json" where
  "lock_json l = JObj [(''pid'', jnat (lk_pid l)), (''host'', JStr (lk_host l)),
     (''startedAt'', JStr (lk_startedAt l)), (''command'', JStr (lk_command l))]"

definition lock_text :: "lock_file \<Rightarrow> string" where
  "lock_text l = json_pretty (lock_json l) @ [CHR 0x0A]"

datatype acquire_outcome = Acquired | Refused string lock_file

definition lock_decision :: "(nat \<Rightarrow> bool) \<Rightarrow> string \<Rightarrow> string \<Rightarrow> lock_file option \<Rightarrow> acquire_outcome" where
  "lock_decision alive host path existing =
     (case existing of
        None \<Rightarrow> Acquired
      | Some l \<Rightarrow>
          (if lk_host l \<noteq> host then
             Refused (''The lock is held by '' @ lk_host l @ '' (pid '' @ dec (lk_pid l)
               @ ''). This machine cannot tell whether that runner is still alive; check it, then delete ''
               @ path @ ''.'') l
           else if alive (lk_pid l) then
             Refused (''Another runner is already going (pid '' @ dec (lk_pid l) @ '', started ''
               @ lk_startedAt l @ '').'') l
           else Acquired))"

definition acquireLock ::
  "(nat \<Rightarrow> bool) \<Rightarrow> string \<Rightarrow> nat \<Rightarrow> string \<Rightarrow> string \<Rightarrow> string \<Rightarrow> string option \<Rightarrow> acquire_outcome \<times> string option" where
  "acquireLock alive host pid now path command f =
     (case lock_decision alive host path (readLock f) of
        Refused reason l \<Rightarrow> (Refused reason l, f)
      | Acquired \<Rightarrow> (Acquired, Some (lock_text
          \<lparr>lk_pid = pid, lk_host = host, lk_startedAt = now, lk_command = command\<rparr>)))"

definition releaseLock :: "string \<Rightarrow> nat \<Rightarrow> string option \<Rightarrow> string option" where
  "releaseLock host pid f =
     (case readLock f of
        Some current \<Rightarrow> (if lk_pid current = pid \<and> lk_host current = host then None else f)
      | None \<Rightarrow> f)"

subsection \<open>What the file says\<close>

lemma read_lock_text: "0 < lk_pid l \<Longrightarrow> readLock (Some (lock_text l)) = Some l"
proof -
  assume pid: "0 < lk_pid l"
  have "json_canonical (lock_json l)" by (simp add: lock_json_def jnat_def)
  then have "json_parse (lock_text l) = Some (lock_json l)"
    using parse_print(1) [of "lock_json l" "Some 2" 0 "2 * length (lock_text l) + 2" "[CHR 0x0A]"]
    by (simp add: json_parse_def lock_text_def stops_number_def json_ws_def is_digit_def in_range_def)
  moreover have "lockFileSchema (lock_json l) = Some l"
    using pid by (simp add: lockFileSchema_def lock_json_def json_field_def jnat_def)
  ultimately show "readLock (Some (lock_text l)) = Some l" by (simp add: readLock_def)
qed

text \<open>One runner after the other: the second is refused while the first lives and has not released.\<close>

lemma acquire_excludes:
  assumes "fst (acquireLock alive host p now path cmd f) = Acquired" and "0 < p" and "alive' p"
  shows "\<exists>r l. acquireLock alive' host q now' path' cmd' (snd (acquireLock alive host p now path cmd f)) =
    (Refused r l, snd (acquireLock alive host p now path cmd f)) \<and> lk_pid l = p"
proof -
  have "snd (acquireLock alive host p now path cmd f) =
      Some (lock_text \<lparr>lk_pid = p, lk_host = host, lk_startedAt = now, lk_command = cmd\<rparr>)"
    using assms(1) by (auto simp: acquireLock_def split: acquire_outcome.splits)
  moreover have "readLock (Some (lock_text \<lparr>lk_pid = p, lk_host = host, lk_startedAt = now, lk_command = cmd\<rparr>)) =
      Some \<lparr>lk_pid = p, lk_host = host, lk_startedAt = now, lk_command = cmd\<rparr>"
    using assms(2) by (intro read_lock_text) simp
  ultimately show ?thesis using assms(3) by (simp add: acquireLock_def lock_decision_def)
qed

lemma acquire_stale:
  "readLock f = Some l \<Longrightarrow> lk_host l = host \<Longrightarrow> \<not> alive (lk_pid l) \<Longrightarrow> fst (acquireLock alive host p now path cmd f) = Acquired"
  by (simp add: acquireLock_def lock_decision_def)

lemma acquire_foreign:
  "readLock f = Some l \<Longrightarrow> lk_host l \<noteq> host \<Longrightarrow> fst (acquireLock alive host p now path cmd f) \<noteq> Acquired"
  by (simp add: acquireLock_def lock_decision_def)

lemma release_own:
  "0 < p \<Longrightarrow> releaseLock host p (Some (lock_text \<lparr>lk_pid = p, lk_host = host, lk_startedAt = t, lk_command = c\<rparr>)) = None"
  by (simp add: releaseLock_def read_lock_text)

lemma release_other:
  "0 < q \<Longrightarrow> q \<noteq> p \<Longrightarrow> releaseLock host p (Some (lock_text \<lparr>lk_pid = q, lk_host = h, lk_startedAt = t, lk_command = c\<rparr>)) =
     Some (lock_text \<lparr>lk_pid = q, lk_host = h, lk_startedAt = t, lk_command = c\<rparr>)"
  by (simp add: releaseLock_def read_lock_text)

subsection \<open>Two runners at once\<close>

datatype lock_phase = LpIdle | LpDecided acquire_outcome | LpHolding | LpRefused

text \<open>
  The state is the file and the phase of each runner, by process id.  Reading and deciding is one
  step, writing another, as the two \<open>await\<close>s of the code are.
\<close>

inductive lock_step :: "string \<Rightarrow> string option \<times> (nat \<Rightarrow> lock_phase) \<Rightarrow> string option \<times> (nat \<Rightarrow> lock_phase) \<Rightarrow> bool"
  for host where
  decide: "ph p = LpIdle \<Longrightarrow> lock_step host (f, ph)
    (f, ph(p := LpDecided (lock_decision (\<lambda>_. True) host path (readLock f))))"
| written: "ph p = LpDecided Acquired \<Longrightarrow> lock_step host (f, ph)
    (Some (lock_text \<lparr>lk_pid = p, lk_host = host, lk_startedAt = t, lk_command = c\<rparr>), ph(p := LpHolding))"
| refuse: "ph p = LpDecided (Refused r l) \<Longrightarrow> lock_step host (f, ph) (f, ph(p := LpRefused))"
| release: "ph p = LpHolding \<Longrightarrow> lock_step host (f, ph) (releaseLock host p f, ph(p := LpIdle))"

definition both_hold :: "string option \<times> (nat \<Rightarrow> lock_phase) \<Rightarrow> bool" where
  "both_hold s \<longleftrightarrow> snd s 1 = LpHolding \<and> snd s 2 = LpHolding"

text \<open>The check and the write are not one step: both runners can hold the lock.\<close>

lemma lock_race: "\<exists>s. (lock_step host)\<^sup>*\<^sup>* (None, \<lambda>_. LpIdle) s \<and> both_hold s"
proof -
  let ?d = "LpDecided Acquired"
  have free: "lock_decision (\<lambda>_. True) host [] (readLock None) = Acquired"
    by (simp add: lock_decision_def readLock_def)
  let ?p1 = "(\<lambda>_. LpIdle)(1 := ?d)" and ?p2 = "(\<lambda>_. LpIdle)(1 := ?d, 2 := ?d)"
  have 1: "lock_step host (None, \<lambda>_. LpIdle) (None, ?p1)"
    using decide [of "\<lambda>_. LpIdle" 1 host None "[]"] free by simp
  have 2: "lock_step host (None, ?p1) (None, ?p2)"
    using decide [of ?p1 2 host None "[]"] free by simp
  obtain f3 where 3: "lock_step host (None, ?p2) (f3, ?p2(1 := LpHolding))"
    using written [of ?p2 1 host None] by auto
  obtain f4 where 4: "lock_step host (f3, ?p2(1 := LpHolding)) (f4, ?p2(1 := LpHolding, 2 := LpHolding))"
    using written [of "?p2(1 := LpHolding)" 2 host f3] by auto
  have "(lock_step host)\<^sup>*\<^sup>* (None, \<lambda>_. LpIdle) (f4, ?p2(1 := LpHolding, 2 := LpHolding))"
    using 1 2 3 4 by (meson rtranclp.rtrancl_into_rtrancl rtranclp.rtrancl_refl)
  then show ?thesis by (intro exI [of _ "(f4, ?p2(1 := LpHolding, 2 := LpHolding))"]) (simp add: both_hold_def)
qed

end
