(* ===== verification/Preflight.thy ===== *)
theory Preflight
  imports Claude Lock
begin

text \<open>
  \<open>tooling/local-runner/src/preflight.ts\<close> and \<open>review-command.ts\<close>: what has to be true before the runner
  starts, and the advisory review of a pull request.  The probes that the code starts together run
  one after the other here; none reads what another writes.
\<close>

subsection \<open>Preflight\<close>

record preflight_result =
  pf_claude :: claude_availability
  pf_gh :: gh_availability
  pf_worktreeClean :: bool
  pf_lock :: "lock_file option"
  pf_ok :: bool
  pf_problems :: "string list"
  pf_warnings :: "string list"

fun claude_reason_text :: "claude_reason \<Rightarrow> string" where
  "claude_reason_text ClNotInstalled = ''not-installed''"
| "claude_reason_text ClNotAuthenticated = ''not-authenticated''"
| "claude_reason_text ClUnreadable = ''unreadable''"

fun gh_reason_text :: "gh_reason \<Rightarrow> string" where
  "gh_reason_text GhNotInstalled = ''not-installed''"
| "gh_reason_text GhNotAuthenticated = ''not-authenticated''"
| "gh_reason_text GhNoRepositoryAccess = ''no-repository-access''"
| "gh_reason_text GhInsufficientPermissions = ''insufficient-permissions''"

definition claude_problems :: "claude_availability \<Rightarrow> string list" where
  "claude_problems c = (case c of
       ClaudeUnavailable why remedy _ \<Rightarrow> [''Claude Code: '' @ claude_reason_text why @ ''. '' @ remedy]
     | ClaudeAvailable _ \<Rightarrow> [])"

definition gh_problems :: "gh_availability \<Rightarrow> string list" where
  "gh_problems g = (case g of
       GhUnavailable why remedy detail \<Rightarrow>
         [''GitHub CLI: '' @ gh_reason_text why @ ''. '' @ remedy
           @ (case detail of None \<Rightarrow> [] | Some d \<Rightarrow> if d = [] then [] else '' ('' @ d @ '')'')]
     | GhAvailable _ _ _ \<Rightarrow> [])"

definition lock_problems :: "lock_file option \<Rightarrow> string list" where
  "lock_problems l = (case l of None \<Rightarrow> []
     | Some f \<Rightarrow> [''A runner lock is present (pid '' @ dec (lk_pid f) @ '' on '' @ lk_host f @ '').''])"

definition claude_warnings :: "claude_availability \<Rightarrow> string list" where
  "claude_warnings c = (case c of
       ClaudeAvailable r \<Rightarrow> (case cv_warning r of Some x \<Rightarrow> [x] | None \<Rightarrow> [])
     | ClaudeUnavailable _ _ _ \<Rightarrow> [])"

definition dirty_warnings :: "bool \<Rightarrow> string list" where
  "dirty_warnings tidy = (if tidy then [] else
     [''The main checkout has uncommitted changes. The runner works in a separate worktree and will not touch them.''])"

definition billing_warnings :: "claude_availability \<Rightarrow> string list" where
  "billing_warnings c = (case c of
       ClaudeAvailable r \<Rightarrow>
         (if \<not> cv_subscription r \<and> cv_warning r = None then
            [''Claude Code is authenticated with '' @ tick (cv_authMethod r)
              @ '' rather than a subscription login. Runs will bill whatever that credential bills.'']
          else [])
     | ClaudeUnavailable _ _ _ \<Rightarrow> [])"

definition assess_preflight :: "claude_availability \<Rightarrow> gh_availability \<Rightarrow> bool \<Rightarrow> lock_file option \<Rightarrow> preflight_result" where
  "assess_preflight c g tidy l =
     (let problems = claude_problems c @ gh_problems g @ lock_problems l
      in \<lparr>pf_claude = c, pf_gh = g, pf_worktreeClean = tidy, pf_lock = l, pf_ok = (length problems = 0),
          pf_problems = problems, pf_warnings = claude_warnings c @ dirty_warnings tidy @ billing_warnings c\<rparr>)"

definition preflight :: "env \<Rightarrow> string \<Rightarrow> string option \<Rightarrow> preflight_result io" where
  "preflight env repository repo =
     bind_io (probeClaude env) (\<lambda>c.
     bind_io (probeGh env (Some repository) repo) (\<lambda>g.
     bind_io (isClean env repository) (\<lambda>tidy.
     bind_io (get_io (\<lambda>w. readLock (wd_lock w))) (\<lambda>l.
       return_io (assess_preflight c g tidy l)))))"

definition formatPreflight :: "preflight_result \<Rightarrow> string" where
  "formatPreflight p = unlines
     ([case pf_claude p of
         ClaudeAvailable r \<Rightarrow> ''Claude Code   ok ('' @ cv_version r @ '', auth: '' @ cv_authMethod r
           @ (if cv_subscription r then '', subscription'' else []) @ '')''
       | ClaudeUnavailable why _ _ \<Rightarrow> ''Claude Code   NOT READY ('' @ claude_reason_text why @ '')'',
       case pf_gh p of
         GhAvailable account repository _ \<Rightarrow> ''GitHub CLI    ok ('' @ account @ '', '' @ repository @ '')''
       | GhUnavailable why _ _ \<Rightarrow> ''GitHub CLI    NOT READY ('' @ gh_reason_text why @ '')'',
       ''Main checkout '' @ (if pf_worktreeClean p then ''clean'' else ''has uncommitted changes''),
       case pf_lock p of
         None \<Rightarrow> ''Runner lock   free''
       | Some l \<Rightarrow> ''Runner lock   held by pid '' @ dec (lk_pid l) @ '' on '' @ lk_host l @ '' since '' @ lk_startedAt l]
      @ (if length (pf_problems p) > 0 then [[], ''Problems:''] @ map (\<lambda>x. ''  - '' @ x) (pf_problems p) else [])
      @ (if length (pf_warnings p) > 0 then [[], ''Warnings:''] @ map (\<lambda>x. ''  - '' @ x) (pf_warnings p) else []))"

text \<open>Ready means: the model can be called, GitHub can be written to, and there is no lock file at all.\<close>

lemma preflight_ok:
  "pf_ok (assess_preflight c g tidy l) \<longleftrightarrow>
     (\<exists>r. c = ClaudeAvailable r) \<and> (\<exists>a n p. g = GhAvailable a n p) \<and> l = None"
  by (cases c; cases g; cases l) (simp_all add: assess_preflight_def claude_problems_def gh_problems_def lock_problems_def)

subsection \<open>The advisory review\<close>

definition cell :: "string \<Rightarrow> string" where
  "cell t = replace_all [CHR 0x0A] '' '' (replace_all ''|'' (backslash # ''|'') t)"

definition review_row :: "finding \<Rightarrow> string" where
  "review_row f =
     (let where' = (case f_file f of None \<Rightarrow> emdash
        | Some file \<Rightarrow> file @ (case f_line f of None \<Rightarrow> [] | Some l \<Rightarrow> '':'' @ dec l))
      in ''| '' @ severity_text (f_severity f) @ '' | '' @ where' @ '' | '' @ cell (f_description f) @ '' | ''
         @ cell (f_action f) @ '' |'')"

definition renderReview :: "review_result \<Rightarrow> string" where
  "renderReview r = unlines
     ([''**Status:** '' @ tick (status_text (r_status r)), [], r_summary r]
      @ (if length (r_findings r) > 0 then
           [[], ''| Severity | Where | Finding | Suggested action |'', ''| --- | --- | --- | --- |''] @ map review_row (r_findings r)
         else [])
      @ [[], ''_Advisory only. The review that gates this pull request runs in GitHub Actions._''])"

definition FILE_LINE :: rx where "FILE_LINE = re ''^%+%+%+ b%/(.+)$''"

definition fileNames :: "string \<Rightarrow> string list" where
  "fileNames diff = foldl (\<lambda>acc line. case exec_group noflags FILE_LINE 1 line of
       Some n \<Rightarrow> (if n \<noteq> ''/dev/null'' then set_add n acc else acc)
     | None \<Rightarrow> acc) [] (lines_of diff)"

record review_command_deps =
  rd_gh :: github_adapter
  rd_review :: review_agent
  rd_repository :: string
  rd_policyPath :: string
  rd_publish :: bool

record review_command_result =
  rv_pullRequest :: nat
  rv_review :: "review_result option"
  rv_published :: bool
  rv_detail :: string

text \<open>\<open>parsePolicy(JSON.parse(await readFile(path)))\<close>.\<close>

definition read_policy :: "env \<Rightarrow> string \<Rightarrow> loop_policy io" where
  "read_policy env path =
     bind_io (readFile_io env path) (\<lambda>f. case f of
       None \<Rightarrow> throw_io (''ENOENT: no such file or directory, open '' @ path)
     | Some t \<Rightarrow>
         (case json_parse t of
            None \<Rightarrow> throw_io (en_syntaxMessage env t)
          | Some v \<Rightarrow>
              (case parsePolicy (en_safeParsePolicy env) v of Inl e \<Rightarrow> throw_io e | Inr p \<Rightarrow> return_io p)))"

definition reviewPullRequest :: "env \<Rightarrow> review_command_deps \<Rightarrow> nat \<Rightarrow> review_command_result io" where
  "reviewPullRequest env d n =
     bind_io (gh_pullRequest (rd_gh d) n) (\<lambda>p.
     bind_io (gh_pullRequestDiff (rd_gh d) n) (\<lambda>diff.
     bind_io (ra_review (rd_review d)
         \<lparr>rt_worktree = rd_repository d, rt_issue = n, rt_title = ''Pull request #'' @ dec n,
          rt_body = ''Review the diff below on its own terms.'', rt_base = ''the default branch'',
          rt_branch = gp_headRefName p, rt_diff = diff, rt_changedFiles = fileNames diff\<rparr>) (\<lambda>out.
       case out of
         ReviewBad why _ \<Rightarrow> return_io \<lparr>rv_pullRequest = n, rv_review = None, rv_published = False,
           rv_detail = ''The review agent did not return a usable result: '' @ why\<rparr>
       | ReviewOk agent _ _ \<Rightarrow>
           bind_io (read_policy env (rd_policyPath d)) (\<lambda>policy.
             let review = mergeReview agent [] (pol_blockingSeverity policy)
             in if \<not> rd_publish d then return_io \<lparr>rv_pullRequest = n, rv_review = Some review, rv_published = False,
                    rv_detail = ''Not published (--dry-run).''\<rparr>
                else then_io (gh_comment (rd_gh d) n (renderRunnerComment
                    \<lparr>rc_issue = n, rc_branch = gp_headRefName p, rc_agent = ra_name (rd_review d),
                     rc_phase = ''advisory review'', rc_body = renderReview review\<rparr>))
                  (return_io \<lparr>rv_pullRequest = n, rv_review = Some review, rv_published = True,
                     rv_detail = ''Posted as a comment.''\<rparr>)))))"

text \<open>A dry run publishes nothing: its only calls are the two reads and the reviewer's.\<close>

lemma calls_read_policy [calls]: "calls_only ok (read_policy env path)"
  unfolding read_policy_def by (intro calls)

lemma calls_review_outcome [calls]:
  "(\<And>a b c. x = ReviewOk a b c \<Longrightarrow> calls_only ok (f a b c)) \<Longrightarrow> (\<And>a b. x = ReviewBad a b \<Longrightarrow> calls_only ok (g a b)) \<Longrightarrow>
    calls_only ok (case x of ReviewOk a b c \<Rightarrow> f a b c | ReviewBad a b \<Rightarrow> g a b)"
  by (cases x) auto

lemma published_iff:
  assumes "reviewPullRequest env d n w = (Inr r, w')"
  shows "rv_published r \<longleftrightarrow> rd_publish d \<and> rv_review r \<noteq> None"
  using assms unfolding reviewPullRequest_def then_io_def
  by (auto elim!: bind_cases simp: return_io_def Let_def split: review_outcome.splits if_splits)

end
