(* ===== verification/RunSummary.thy ===== *)
theory RunSummary
  imports Journal RunnerConfig
begin

text \<open>
  \<open>tooling/local-runner/src/summary.ts\<close>: what an unattended session did, keyed by issue, and its
  printed form.  Instants are the ISO texts of the clock.  \<open>toFixed(1)\<close> of the hours is the
  quotient rounded to tenths.
\<close>

datatype issue_result = Merged | StillOpen | GaveUp | Skipped

record issue_entry =
  ie_issue :: nat
  ie_title :: string
  ie_pullRequest :: "nat option"
  ie_risk :: "risk_level option"
  ie_outcome :: issue_result
  ie_detail :: string

record run_summary =
  rs_startedAt :: string
  rs_finishedAt :: string
  rs_mode :: string
  rs_stopReason :: string
  rs_issues :: "issue_entry list"
  rs_modelInvocations :: nat
  rs_runtimeMs :: int

definition emptySummary :: "string \<Rightarrow> string \<Rightarrow> run_summary" where
  "emptySummary mode startedAt = \<lparr>rs_startedAt = startedAt, rs_finishedAt = startedAt, rs_mode = mode,
     rs_stopReason = ''still running'', rs_issues = [], rs_modelInvocations = 0, rs_runtimeMs = 0\<rparr>"

definition recordIssue :: "run_summary \<Rightarrow> issue_entry \<Rightarrow> run_summary" where
  "recordIssue s r = (let rest = filter (\<lambda>x. ie_issue x \<noteq> ie_issue r) (rs_issues s)
     in s\<lparr>rs_issues := sort_by (\<lambda>a b. ie_issue a \<le> ie_issue b) (rest @ [r])\<rparr>)"

definition issue_line :: "issue_entry \<Rightarrow> string" where
  "issue_line r = ''  #'' @ dec (ie_issue r)
     @ (case ie_risk r of None \<Rightarrow> [] | Some l \<Rightarrow> '' ['' @ risk_text l @ '']'')
     @ (case ie_pullRequest r of None \<Rightarrow> [] | Some n \<Rightarrow> '' (PR #'' @ dec n @ '')'')
     @ '' '' @ emdash @ '' '' @ ie_detail r"

definition summary_section :: "string \<Rightarrow> issue_entry list \<Rightarrow> string list" where
  "summary_section title records = (if length records = 0 then []
     else (title @ '':'') # map issue_line records @ [[]])"

definition tenths :: "int \<Rightarrow> string" where
  "tenths n = dec (nat (n div 10)) @ ''.'' @ dec (nat (n mod 10))"

definition rule_line :: string where "rule_line = concat (replicate 64 hline)"

definition pr_ref :: "issue_entry \<Rightarrow> string" where
  "pr_ref r = ''#'' @ (case ie_pullRequest r of Some n \<Rightarrow> dec n | None \<Rightarrow> ''null'')"

definition formatSummary :: "run_summary \<Rightarrow> string" where
  "formatSummary s =
     (let by_outcome = (\<lambda>q. filter (\<lambda>r. ie_outcome r = q) (rs_issues s));
          merged = by_outcome Merged;
          ms = rs_runtimeMs s
      in unlines ([[], rule_line, ''Unattended run summary ('' @ rs_mode s @ '')'', rule_line, []]
         @ summary_section ''Completed'' merged
         @ summary_section ''Open (pull request raised, not yet merged)'' (by_outcome StillOpen)
         @ summary_section ''Blocked'' (by_outcome GaveUp)
         @ summary_section ''Skipped'' (by_outcome Skipped)
         @ [''Pull requests merged: '' @ (if length merged = 0 then ''none'' else join '', '' (map pr_ref merged)),
            ''Model invocations:    '' @ dec (rs_modelInvocations s),
            ''Runtime:              '' @ (if ms < 3600000 then dec (nat (round_div ms 60000)) @ ''m''
              else tenths (round_div (ms * 10) 3600000) @ ''h''),
            [], ''Stopped because: '' @ rs_stopReason s, []]))"

lemma set_recordIssue:
  "set (rs_issues (recordIssue s r)) = insert r {x \<in> set (rs_issues s). ie_issue x \<noteq> ie_issue r}"
  by (auto simp: recordIssue_def Let_def)

lemma recordIssue_keys:
  "mset (map ie_issue (rs_issues (recordIssue s r))) =
    mset (map ie_issue (filter (\<lambda>x. ie_issue x \<noteq> ie_issue r) (rs_issues s)) @ [ie_issue r])"
  by (simp add: recordIssue_def Let_def mset_sort_by)

interpretation issues: complete_store ie_issue rs_issues "\<lambda>r s. recordIssue s r"
proof
  fix x r :: issue_entry and s
  show "r \<in> set (rs_issues (recordIssue s r))" by (simp add: set_recordIssue)
  show "x = r \<or> x \<in> set (rs_issues s) \<and> ie_issue x \<noteq> ie_issue r" if "x \<in> set (rs_issues (recordIssue s r))"
    using that by (auto simp: set_recordIssue)
  show "x \<in> set (rs_issues (recordIssue s r))" if "x \<in> set (rs_issues s)" "ie_issue x \<noteq> ie_issue r"
    using that by (simp add: set_recordIssue)
  show "distinct (map ie_issue (rs_issues (recordIssue s r)))" if "distinct (map ie_issue (rs_issues s))"
    using that mset_eq_imp_distinct_iff [OF recordIssue_keys [of s r]] by (auto simp: distinct_map_filter)
qed

lemma recordIssue_sorted: "sorted (map ie_issue (rs_issues (recordIssue s r)))"
  unfolding recordIssue_def Let_def
  by (simp add: sorted_wrt_map) (rule sorted_wrt_sort_by, auto)

end
