(* ===== verification/Orchestrator.thy ===== *)
theory Orchestrator
  imports Preflight Risk Aggregate Eligibility RunSummary
begin

text \<open>
  \<open>tooling/local-runner/src/orchestrator.ts\<close>: taking one issue to a pull request, moving open pull
  requests forward, and the session that alternates between the two.  The local variables of
  \<open>workIssue\<close> that its closures share are the record \<open>work\<close>; a fix round is one call of
  \<open>work_round\<close>.  The log directory is not kept, but what is written to it passes through
  \<open>redactJson\<close>, which may throw.
\<close>

subsection \<open>Dependencies and outcomes\<close>

datatype stop_reason = NothingReady | MaxIssuesReached | StopBlocked | StopInFlight | BudgetExceeded
  | GithubUnavailable | AgentUnavailable | Interrupted

record runner_deps =
  de_config :: runner_config
  de_policy :: loop_policy
  de_repository :: string
  de_repo :: string
  de_remote :: string
  de_defaultBranch :: string
  de_gh :: github_adapter
  de_coding :: coding_agent
  de_reviewers :: "review_agent list"
  de_selectionPolicy :: "selection_policy option"

datatype work_status = WorkOpened | WorkUpdated | WorkBlocked | WorkSkipped

record issue_outcome =
  io_issue :: nat
  io_branch :: string
  io_status :: work_status
  io_pullRequest :: "nat option"
  io_risk :: "risk_assessment option"
  io_detail :: string

record once_result =
  on_outcomes :: "issue_outcome list"
  on_stopReason :: stop_reason
  on_detail :: string

definition toSummary :: "gh_issue \<Rightarrow> issue_summary" where
  "toSummary i = \<lparr>is_number = gi_number i, is_title = gi_title i,
     is_state = (if to_lower (gi_state i) = ''closed'' then IssueClosed else IssueOpen),
     is_labels = gi_labels i, is_body = gi_body i\<rparr>"

definition inFlight :: "journal \<Rightarrow> run_record list" where
  "inFlight j = filter (\<lambda>r. rr_status r = InProgress \<or> rr_status r = AwaitingReview) (jo_runs j)"

definition worktree_of :: "env \<Rightarrow> runner_deps \<Rightarrow> nat \<Rightarrow> string" where
  "worktree_of env d n = path_resolve (en_cwd env)
     [de_repository d, LOOP_WORKTREE_ROOT (de_config d), worktreeName n]"

subsection \<open>What is written to the log\<close>

definition opt_json :: "('a \<Rightarrow> json) \<Rightarrow> 'a option \<Rightarrow> json" where
  "opt_json f x = (case x of None \<Rightarrow> JNull | Some y \<Rightarrow> f y)"

definition coding_json :: "coding_outcome \<Rightarrow> json" where
  "coding_json c = (case c of
       CodeOk summary session cost \<Rightarrow> JObj [(''ok'', JBool True), (''summary'', JStr summary),
         (''sessionId'', opt_json JStr session), (''costUsd'', opt_json id cost)]
     | CodeBad why detail \<Rightarrow> JObj [(''ok'', JBool False), (''reason'', JStr why), (''detail'', JStr detail)])"

definition risk_reason_json :: "risk_reason \<Rightarrow> json" where
  "risk_reason_json r = JObj [(''risk'', JStr (risk_text (rr_risk r))), (''source'', JStr (source_text (rr_source r))),
     (''detail'', JStr (rr_detail r))]"

definition risk_json :: "risk_assessment \<Rightarrow> json" where
  "risk_json a = JObj ([(''risk'', JStr (risk_text (ra_risk a))), (''reasons'', JArr (map risk_reason_json (ra_reasons a)))]
     @ (case ra_controlPlane a of None \<Rightarrow> []
        | Some c \<Rightarrow> [(''controlPlane'', JObj [(''affected'', JBool (cs_affected c)),
            (''policyBearing'', JBool (cs_policyBearing c)), (''reasons'', JArr (map JStr (cs_reasons c)))])]))"

fun step_outcome_text :: "step_outcome \<Rightarrow> string" where
  "step_outcome_text StepPassed = ''passed''"
| "step_outcome_text StepFailed = ''failed''"
| "step_outcome_text StepNotApplicable = ''not-applicable''"
| "step_outcome_text StepUnavailable = ''unavailable''"

definition step_json :: "step_result \<Rightarrow> json" where
  "step_json s = JObj [(''name'', JStr (vs_name s)), (''outcome'', JStr (step_outcome_text (vs_outcome s))),
     (''ok'', JBool (vs_ok s)), (''durationMs'', JNum (vs_durationMs s)), (''output'', JStr (vs_output s))]"

definition verification_json :: "verification \<Rightarrow> json" where
  "verification_json v = JObj [(''ok'', JBool (vo_ok v)), (''risk'', JStr (risk_text (vo_risk v))),
     (''steps'', JArr (map step_json (vo_steps v))), (''firstFailure'', opt_json step_json (vo_firstFailure v)),
     (''unavailable'', JArr (map JStr (vo_unavailable v))), (''failed'', JArr (map JStr (vo_failed v)))]"

definition finding_json :: "finding \<Rightarrow> json" where
  "finding_json f = JObj [(''severity'', JStr (severity_text (f_severity f))), (''file'', opt_json JStr (f_file f)),
     (''line'', opt_json jnat (f_line f)), (''description'', JStr (f_description f)),
     (''suggested_action'', JStr (f_action f)), (''source'', JStr (f_source f)), (''category'', JStr (f_category f))]"

definition review_json :: "review_result \<Rightarrow> json" where
  "review_json r = JObj [(''status'', JStr (status_text (r_status r))), (''findings'', JArr (map finding_json (r_findings r))),
     (''summary'', JStr (r_summary r))]"

definition reviews_json :: "review_result list \<Rightarrow> string list \<Rightarrow> json" where
  "reviews_json usable failures =
     JObj [(''usable'', JArr (map review_json usable)), (''failures'', JArr (map JStr failures))]"

text \<open>\<open>logs.artifact\<close> of \<open>logs.ts\<close>.\<close>

definition artifact_io :: "env \<Rightarrow> json \<Rightarrow> unit io" where
  "artifact_io env v = (case redactJson v of
       None \<Rightarrow> throw_io (en_syntaxMessage env (redact (json_compact v)))
     | Some _ \<Rightarrow> return_io ())"

subsection \<open>Failing an issue\<close>

definition MOVED_ON :: string where
  "MOVED_ON = [CHR 0x0A, CHR 0x0A] @ ''The loop has moved on to independent work. This issue needs a person; nothing else is waiting on it.''"

record work_context =
  wc_issue :: issue_summary
  wc_branch :: string
  wc_worktree :: string
  wc_base :: string
  wc_startRound :: nat
  wc_feedback :: "string option"

record work =
  wk_journal :: journal
  wk_record :: run_record
  wk_verification :: "verification option"
  wk_review :: "review_result option"
  wk_risk :: "risk_assessment option"
  wk_files :: "string list"

definition save_work :: "work \<Rightarrow> work io" where
  "save_work k = (let j = upsertRun (wk_journal k) (wk_record k)
     in then_io (writeJournal_io j) (return_io (k\<lparr>wk_journal := j\<rparr>)))"

definition stopped_comment :: "runner_deps \<Rightarrow> nat \<Rightarrow> string \<Rightarrow> string \<Rightarrow> string" where
  "stopped_comment d n branch detail = renderRunnerComment
     \<lparr>rc_issue = n, rc_branch = branch, rc_agent = ca_name (de_coding d), rc_phase = ''stopped'', rc_body = detail @ MOVED_ON\<rparr>"

definition work_fail :: "runner_deps \<Rightarrow> work_context \<Rightarrow> work \<Rightarrow> string \<Rightarrow> issue_outcome io" where
  "work_fail d c k detail =
     (let n = is_number (wc_issue c)
      in bind_io (save_work (k\<lparr>wk_record := (wk_record k)\<lparr>rr_status := RunBlocked\<rparr>\<rparr>)) (\<lambda>k.
         then_io (gh_removeLabel (de_gh d) n ''agent:in-progress'')
         (then_io (gh_addLabels (de_gh d) n [''agent:blocked''])
         (then_io (gh_comment (de_gh d) n (stopped_comment d n (wc_branch c) detail))
           (return_io \<lparr>io_issue = n, io_branch = wc_branch c, io_status = WorkBlocked,
              io_pullRequest = rr_pullRequest (wk_record k), io_risk = None, io_detail = detail\<rparr>)))))"

subsection \<open>Reviews\<close>

primrec review_attempts ::
  "env \<Rightarrow> review_agent \<Rightarrow> review_task \<Rightarrow> nat \<Rightarrow> nat list \<Rightarrow> (review_result option \<times> string list) io" where
  "review_attempts env reviewer task index [] = return_io (None, [])"
| "review_attempts env reviewer task index (attempt # rest) =
     then_io (budget_io env recordInvocation)
     (bind_io (ra_review reviewer task) (\<lambda>out. case out of
        ReviewOk review _ _ \<Rightarrow> return_io (Some review, [])
      | ReviewBad why _ \<Rightarrow>
          bind_io (review_attempts env reviewer task index rest) (\<lambda>r.
            return_io (fst r, (''Reviewer '' @ dec (index + 1) @ '', attempt '' @ dec (attempt + 1) @ '': '' @ why) # snd r))))"

definition reviewer_for :: "runner_deps \<Rightarrow> nat \<Rightarrow> review_agent option" where
  "reviewer_for d index =
     (if index < length (de_reviewers d) then Some (de_reviewers d ! index)
      else if de_reviewers d = [] then None else Some (last (de_reviewers d)))"

primrec gather_from ::
  "env \<Rightarrow> runner_deps \<Rightarrow> review_task \<Rightarrow> nat list \<Rightarrow> (review_result list \<times> string list) io" where
  "gather_from env d task [] = return_io ([], [])"
| "gather_from env d task (index # rest) =
     bind_io (case reviewer_for d index of
         None \<Rightarrow> return_io (None, [''No reviewer is configured for pass '' @ dec (index + 1) @ ''.''])
       | Some reviewer \<Rightarrow> review_attempts env reviewer task index [0..<LOOP_REVIEWER_RETRY_ROUNDS (de_config d)]) (\<lambda>a.
     bind_io (gather_from env d task rest) (\<lambda>b.
       return_io ((case fst a of Some r \<Rightarrow> [r] | None \<Rightarrow> []) @ fst b, snd a @ snd b)))"

definition gatherReviews :: "env \<Rightarrow> runner_deps \<Rightarrow> nat \<Rightarrow> review_task \<Rightarrow> (review_result list \<times> string list) io" where
  "gatherReviews env d required task = gather_from env d task [0..<required]"

definition combine :: "review_result list \<Rightarrow> loop_policy \<Rightarrow> review_result" where
  "combine reviews policy =
     (let out = aggregateReviews reviews (length reviews) (pol_blockingSeverity policy)
      in \<lparr>r_status = ag_status out, r_findings = ag_findings out, r_summary = ag_summary out\<rparr>)"

subsection \<open>One round\<close>

text \<open>\<open>fail(detail)\<close> ends the issue, \<open>continue\<close> goes to the next round, \<open>break\<close> leaves with the change settled.\<close>

datatype round_outcome = RoundFail work string | RoundAgain work | RoundSettled work

definition policy_same :: "loop_policy \<Rightarrow> loop_policy \<Rightarrow> bool" where
  "policy_same p q \<longleftrightarrow> pol_retry p = pol_retry q \<and> pol_risk p = pol_risk q
     \<and> list_all (\<lambda>r. pol_tiers p r = pol_tiers q r) [Low, Medium, High]
     \<and> pol_controlPlane p = pol_controlPlane q \<and> pol_blockingSeverity p = pol_blockingSeverity q
     \<and> pol_requiredChecks p = pol_requiredChecks q"

definition proposedPolicy :: "env \<Rightarrow> string \<Rightarrow> loop_policy \<Rightarrow> loop_policy option io" where
  "proposedPolicy env worktree fallback =
     bind_io (readFile_io env (path_join [worktree, ''.github'', ''loop-policy.json''])) (\<lambda>f.
       return_io (case f of
           None \<Rightarrow> None
         | Some t \<Rightarrow>
             (case json_parse t of
                None \<Rightarrow> None
              | Some v \<Rightarrow>
                  (case parsePolicy (en_safeParsePolicy env) v of
                     Inl _ \<Rightarrow> None
                   | Inr p \<Rightarrow> (if policy_same p fallback then None else Some p)))))"

definition set_attempt :: "run_record \<Rightarrow> string \<Rightarrow> attempt_phase \<Rightarrow> bool \<Rightarrow> string \<Rightarrow> run_record" where
  "set_attempt r at' phase ok detail = appendAttempt r
     \<lparr>at_at = at', at_phase = phase, at_outcome = (if ok then AtOk else AtFailed), at_detail = detail\<rparr>"

definition coding_ok :: "coding_outcome \<Rightarrow> bool" where
  "coding_ok c = (case c of CodeOk _ _ _ \<Rightarrow> True | CodeBad _ _ \<Rightarrow> False)"

definition coding_detail :: "coding_outcome \<Rightarrow> string" where
  "coding_detail c = take 2000 (case c of CodeOk summary _ _ \<Rightarrow> summary | CodeBad why detail \<Rightarrow> why @ '': '' @ detail)"

definition coding_task_of :: "work_context \<Rightarrow> nat \<Rightarrow> work \<Rightarrow> coding_task" where
  "coding_task_of c rnd k =
     \<lparr>ct_issue = is_number (wc_issue c), ct_title = is_title (wc_issue c), ct_body = or_default [] (is_body (wc_issue c)),
      ct_worktree = wc_worktree c, ct_branch = wc_branch c, ct_review = wk_review k, ct_verification = wk_verification k,
      ct_feedback = (if rnd = wc_startRound c then wc_feedback c else None), ct_round = rnd\<rparr>"

text \<open>The commit, with the answer whether there is anything to open a pull request for.\<close>

definition commit_change :: "env \<Rightarrow> work_context \<Rightarrow> bool io" where
  "commit_change env c =
     bind_io (commitAll env (wc_worktree c)
         (is_title (wc_issue c) @ [CHR 0x0A, CHR 0x0A] @ ''Closes #'' @ dec (is_number (wc_issue c)))) (\<lambda>committed.
       if committed then return_io True else hasCommitsBeyond env (wc_worktree c) (wc_base c))"

definition review_task_of :: "work_context \<Rightarrow> string \<Rightarrow> string list \<Rightarrow> review_task" where
  "review_task_of c diff files =
     \<lparr>rt_worktree = wc_worktree c, rt_issue = is_number (wc_issue c), rt_title = is_title (wc_issue c),
      rt_body = or_default [] (is_body (wc_issue c)), rt_base = wc_base c, rt_branch = wc_branch c,
      rt_diff = diff, rt_changedFiles = files\<rparr>"

definition verify_options_of :: "runner_deps \<Rightarrow> work_context \<Rightarrow> risk_level \<Rightarrow> string list \<Rightarrow> verify_options" where
  "verify_options_of d c risk files = \<lparr>vp_cwd = wc_worktree c, vp_risk = Some risk, vp_policy = Some (de_policy d),
     vp_changedFiles = Some files, vp_only = None\<rparr>"

text \<open>What the reviews of a round add up to.\<close>

definition review_verdict ::
  "runner_deps \<Rightarrow> bool \<Rightarrow> nat \<Rightarrow> review_result list \<Rightarrow> string list \<Rightarrow> work \<Rightarrow> round_outcome" where
  "review_verdict d final required usable failures k =
     (if length usable < required then
        RoundFail k (''Only '' @ dec (length usable) @ '' of '' @ dec required
          @ '' required independent review(s) produced a usable result. A missing review is never an approval.''
          @ [CHR 0x0A, CHR 0x0A] @ unlines failures)
      else let verdict = combine usable (de_policy d)
      in if r_status verdict = Blocked then
           RoundFail k (''Independent review blocked this change: '' @ r_summary verdict)
         else if r_status verdict = RequestChanges then
           (if final then RoundFail k (''Review still asks for changes after ''
                @ dec (LOOP_CODING_FIX_ROUNDS (de_config d)) @ '' round(s).'' @ [CHR 0x0A, CHR 0x0A] @ renderReview verdict)
            else RoundAgain (k\<lparr>wk_review := Some verdict\<rparr>))
         else RoundSettled (k\<lparr>wk_review := Some verdict\<rparr>))"

text \<open>The review half of a round: from a verification that passed.\<close>

definition round_review ::
  "env \<Rightarrow> runner_deps \<Rightarrow> work_context \<Rightarrow> bool \<Rightarrow> string \<Rightarrow> risk_assessment \<Rightarrow> work \<Rightarrow> round_outcome io" where
  "round_review env d c final diff risk k =
     (let required = reviewersForRisk (de_policy d) (ra_risk risk)
      in bind_io (gatherReviews env d required (review_task_of c diff (wk_files k))) (\<lambda>(usable, failures).
         then_io (artifact_io env (reviews_json usable failures))
         (bind_io (iso_io env) (\<lambda>now.
         bind_io (save_work (k\<lparr>wk_record := set_attempt (wk_record k) now PhReview (length usable = required)
             (dec (length usable) @ ''/'' @ dec required @ '' usable review(s)'')\<rparr>)) (\<lambda>k.
           return_io (review_verdict d final required usable failures k))))))"

text \<open>The verification half: from a commit.\<close>

definition round_verified ::
  "env \<Rightarrow> runner_deps \<Rightarrow> work_context \<Rightarrow> bool \<Rightarrow> string \<Rightarrow> risk_assessment \<Rightarrow> verification \<Rightarrow> work \<Rightarrow> round_outcome io" where
  "round_verified env d c final diff risk v k =
     (if length (vo_unavailable v) > 0 then
        return_io (RoundFail k (''The '' @ tick (risk_text (ra_risk risk))
          @ '' tier requires verification this machine cannot perform: '' @ join '', '' (vo_unavailable v) @ ''.''
          @ [CHR 0x0A, CHR 0x0A] @ formatVerification v))
      else if \<not> vo_ok v then
        return_io (if final then RoundFail k (''Local verification is still failing after ''
             @ dec (LOOP_CODING_FIX_ROUNDS (de_config d)) @ '' round(s).'' @ [CHR 0x0A, CHR 0x0A] @ formatVerification v)
           else RoundAgain (k\<lparr>wk_review := None\<rparr>))
      else round_review env d c final diff risk k)"

definition round_check ::
  "env \<Rightarrow> runner_deps \<Rightarrow> work_context \<Rightarrow> bool \<Rightarrow> string \<Rightarrow> string list \<Rightarrow> risk_assessment \<Rightarrow> work \<Rightarrow> round_outcome io" where
  "round_check env d c final diff files risk k =
     then_io (artifact_io env (risk_json risk))
     (bind_io (verify env (verify_options_of d c (ra_risk risk) files)) (\<lambda>v.
      then_io (artifact_io env (verification_json v))
      (bind_io (iso_io env) (\<lambda>now.
       bind_io (save_work (k\<lparr>wk_record := set_attempt ((wk_record k)\<lparr>rr_risk' := Some (ra_risk risk)\<rparr>) now PhVerify
           (vo_ok v) (take 2000 (formatVerification v)), wk_verification := Some v, wk_risk := Some risk,
           wk_files := files\<rparr>)) (\<lambda>k.
         round_verified env d c final diff risk v k)))))"

definition round_verify :: "env \<Rightarrow> runner_deps \<Rightarrow> work_context \<Rightarrow> bool \<Rightarrow> work \<Rightarrow> round_outcome io" where
  "round_verify env d c final k =
     bind_io (changedFiles env (wc_worktree c) (wc_base c)) (\<lambda>files.
     bind_io (gitIn env (wc_worktree c) [''diff'', wc_base c @ ''...HEAD'']) (\<lambda>raw.
     bind_io (proposedPolicy env (wc_worktree c) (de_policy d)) (\<lambda>proposed.
       case classifyRiskMonotonic (en_localeCompare env) (parseUnifiedDiff (res_stdout raw))
           (is_labels (wc_issue c)) (de_policy d) proposed of
         None \<Rightarrow> throw_io ''Invalid regular expression''
       | Some risk \<Rightarrow> round_check env d c final (res_stdout raw) files risk k)))"

definition work_round :: "env \<Rightarrow> runner_deps \<Rightarrow> work_context \<Rightarrow> nat \<Rightarrow> bool \<Rightarrow> work \<Rightarrow> round_outcome io" where
  "work_round env d c rnd final k =
     then_io (budget_io env recordInvocation)
     (bind_io (ca_implement (de_coding d) (coding_task_of c rnd k)) (\<lambda>coded.
     then_io (artifact_io env (coding_json coded))
     (bind_io (iso_io env) (\<lambda>now.
     bind_io (save_work (k\<lparr>wk_record := set_attempt ((wk_record k)\<lparr>rr_fixRounds := rnd\<rparr>) now
         (if rnd = 0 then PhImplement else PhFix) (coding_ok coded) (coding_detail coded)\<rparr>)) (\<lambda>k.
       case coded of
         CodeBad why detail \<Rightarrow>
           return_io (RoundFail k (''The coding agent stopped: '' @ why @ [CHR 0x0A, CHR 0x0A] @ detail))
       | CodeOk _ _ _ \<Rightarrow>
           bind_io (try_io (commit_change env c)) (\<lambda>changed. case changed of
             Inl message \<Rightarrow> return_io (RoundFail k (''Could not commit: '' @ message))
           | Inr False \<Rightarrow> return_io (RoundFail k
               ''The agent produced no change. There is nothing to open a pull request for.'')
           | Inr True \<Rightarrow> round_verify env d c final k))))))"

text \<open>The loop over the rounds that are left.\<close>

fun work_rounds :: "env \<Rightarrow> runner_deps \<Rightarrow> work_context \<Rightarrow> nat list \<Rightarrow> work \<Rightarrow> round_outcome io" where
  "work_rounds env d c [] k = return_io (RoundAgain k)"
| "work_rounds env d c (rnd # rest) k =
     bind_io (work_round env d c rnd (rest = []) k) (\<lambda>out. case out of
       RoundAgain k' \<Rightarrow> work_rounds env d c rest k'
     | _ \<Rightarrow> return_io out)"

subsection \<open>The pull request\<close>

definition pullRequestBody ::
  "issue_summary \<Rightarrow> string list \<Rightarrow> verification \<Rightarrow> review_result option \<Rightarrow> risk_assessment \<Rightarrow> string" where
  "pullRequestBody i files v review risk = unlines
     ([''Closes #'' @ dec (is_number i), [], ''## What changed'', [],
       ''Implemented by the local Claude Code runner. '' @ dec (length files) @ '' file(s) changed.'', [],
       ''## Risk: '' @ tick (risk_text (ra_risk risk)), []]
      @ map (\<lambda>r. ''- '' @ rr_detail r) (ra_reasons risk)
      @ [[], ''Risk decides how much verification this change had to pass, not whether a person must approve it. Classified under the base branch''
           @ [CHR 0x27] @ ''s policy''
           @ (if list_ex (\<lambda>r. rr_source r = RBasePolicy) (ra_reasons risk)
              then '', which governs because this pull request proposes a different one'' else []) @ ''.'',
         [], ''## Verification'', [], formatVerification v, [], ''## Independent review'', [],
         case review of
           None \<Rightarrow> ''No usable review result. This pull request cannot merge without one.''
         | Some r \<Rightarrow> renderReview r,
         [], ''---'', [],
         ''Produced by an unattended loop. The runner has no merge authority: it enables GitHub'' @ [CHR 0x27]
           @ ''s own auto-merge, and GitHub'' @ [CHR 0x27] @ ''s required checks decide whether this actually lands.''])"

definition open_request ::
  "runner_deps \<Rightarrow> work_context \<Rightarrow> work \<Rightarrow> verification \<Rightarrow> risk_assessment \<Rightarrow> (nat \<times> work_status) io" where
  "open_request d c k v risk =
     bind_io (gh_pullRequestForBranch (de_gh d) (wc_branch c)) (\<lambda>existing.
       let create = bind_io (gh_createPullRequest (de_gh d)
               \<lparr>cq_base = de_defaultBranch d, cq_head = wc_branch c, cq_title = is_title (wc_issue c),
                cq_body = pullRequestBody (wc_issue c) (wk_files k) v (wk_review k) risk, cq_draft = False\<rparr>)
             (\<lambda>n. return_io (n, WorkOpened))
       in case existing of
            None \<Rightarrow> create
          | Some p \<Rightarrow> (if to_upper (gp_state p) = ''OPEN'' then return_io (gp_number p, WorkUpdated) else create))"

fun work_status_text :: "work_status \<Rightarrow> string" where
  "work_status_text WorkOpened = ''opened''"
| "work_status_text WorkUpdated = ''updated''"
| "work_status_text WorkBlocked = ''blocked''"
| "work_status_text WorkSkipped = ''skipped''"

definition publish ::
  "env \<Rightarrow> runner_deps \<Rightarrow> work_context \<Rightarrow> work \<Rightarrow> verification \<Rightarrow> risk_assessment \<Rightarrow> issue_outcome io" where
  "publish env d c k v risk =
     (let n = is_number (wc_issue c)
      in bind_io (open_request d c k v risk) (\<lambda>(pullRequest, status).
         bind_io (iso_io env) (\<lambda>now.
         bind_io (save_work (k\<lparr>wk_record := (set_attempt (wk_record k) now PhPublish True
               (''Pull request #'' @ dec pullRequest))\<lparr>rr_status := AwaitingReview, rr_pullRequest := Some pullRequest,
                rr_risk' := Some (ra_risk risk)\<rparr>\<rparr>)) (\<lambda>_.
         then_io (gh_removeLabel (de_gh d) n ''agent:in-progress'')
         (then_io (gh_addLabels (de_gh d) n [''agent:review''])
         (then_io (ignore_io (gh_enableAutoMerge (de_gh d) pullRequest))
           (return_io \<lparr>io_issue = n, io_branch = wc_branch c, io_status = status, io_pullRequest = Some pullRequest,
              io_risk = Some risk,
              io_detail = ''Pull request #'' @ dec pullRequest @ '' ('' @ work_status_text status @ ''), ''
                @ tick (risk_text (ra_risk risk)) @ '' risk, auto-merge requested.''\<rparr>)))))))"

definition push_and_publish :: "env \<Rightarrow> runner_deps \<Rightarrow> work_context \<Rightarrow> work \<Rightarrow> issue_outcome io" where
  "push_and_publish env d c k =
     (case (wk_verification k, wk_risk k) of
        (Some v, Some risk) \<Rightarrow>
          bind_io (try_io (pushBranch env (wc_worktree c) (de_remote d) (wc_branch c))) (\<lambda>pushed. case pushed of
            Inl message \<Rightarrow> work_fail d c k (''Could not push: '' @ message)
          | Inr r \<Rightarrow>
              (if res_code r \<noteq> 0 then
                 work_fail d c k (''Could not push '' @ tick (wc_branch c) @ '': ''
                   @ or_else (trim (res_stderr r)) (trim (res_stdout r)))
               else publish env d c k v risk))
      | _ \<Rightarrow> work_fail d c k ''The change never reached a reviewable, verified state.'')"

subsection \<open>One issue\<close>

definition new_record :: "nat \<Rightarrow> string \<Rightarrow> string \<Rightarrow> string \<Rightarrow> string \<Rightarrow> run_record" where
  "new_record n branch worktree started updated =
     \<lparr>rr_issue = n, rr_branch = branch, rr_worktree = worktree, rr_startedAt = started, rr_updatedAt = updated,
      rr_status = InProgress, rr_fixRounds = 0, rr_ciRounds = 0, rr_conflictRounds = 0, rr_pullRequest = None,
      rr_risk' = None, rr_attempts = []\<rparr>"

definition context_of :: "env \<Rightarrow> runner_deps \<Rightarrow> issue_summary \<Rightarrow> nat \<Rightarrow> string option \<Rightarrow> work_context" where
  "context_of env d i start feedback =
     \<lparr>wc_issue = i, wc_branch = branchName (en_nfkd env) (is_number i) (is_title i),
      wc_worktree = worktree_of env d (is_number i), wc_base = de_remote d @ ''/'' @ de_defaultBranch d,
      wc_startRound = start, wc_feedback = feedback\<rparr>"

text \<open>\<open>findRun(journal, issue) ?? { \<dots> }\<close>, then \<open>{ ...record, branch, worktree, status: 'in-progress' }\<close>.\<close>

definition claim_record :: "env \<Rightarrow> work_context \<Rightarrow> journal \<Rightarrow> run_record io" where
  "claim_record env c j =
     bind_io (case findRun j (is_number (wc_issue c)) of
         Some r \<Rightarrow> return_io r
       | None \<Rightarrow> bind_io (iso_io env) (\<lambda>s. bind_io (iso_io env) (\<lambda>u.
           return_io (new_record (is_number (wc_issue c)) (wc_branch c) (wc_worktree c) s u)))) (\<lambda>r.
       return_io (r\<lparr>rr_branch := wc_branch c, rr_worktree := wc_worktree c, rr_status := InProgress\<rparr>))"

definition prepare_worktree :: "env \<Rightarrow> runner_deps \<Rightarrow> work_context \<Rightarrow> unit io" where
  "prepare_worktree env d c =
     then_io (fetchBase env (de_repository d) (de_remote d) (de_defaultBranch d))
     (then_io (ensureWorktree env \<lparr>wq_repository = de_repository d, wq_path = wc_worktree c,
         wq_branch = wc_branch c, wq_base = wc_base c\<rparr>)
       (rebaseOntoBase env (wc_worktree c) (wc_base c)))"

definition install_call :: "string \<Rightarrow> call" where
  "install_call worktree = \<lparr>cl_command = fst INSTALL_STEP, cl_args = snd INSTALL_STEP, cl_cwd = Some worktree,
     cl_stdin = None, cl_timeoutMs = Some (15 * 60 * 1000), cl_profile = ProfBase\<rparr>"

definition work_from :: "env \<Rightarrow> runner_deps \<Rightarrow> work_context \<Rightarrow> work \<Rightarrow> issue_outcome io" where
  "work_from env d c k =
     (let maxRounds = LOOP_CODING_FIX_ROUNDS (de_config d)
      in bind_io (try_io (prepare_worktree env d c)) (\<lambda>prepared. case prepared of
           Inl message \<Rightarrow> work_fail d c k (''Could not prepare the worktree: '' @ message)
         | Inr _ \<Rightarrow>
             bind_io (exec_io env (install_call (wc_worktree c))) (\<lambda>installed.
               if res_code installed \<noteq> 0 then
                 work_fail d c k (''`bun install --frozen-lockfile` failed in the worktree:'' @ [CHR 0x0A, CHR 0x0A]
                   @ take_last 2000 (trim (res_stderr installed)))
               else if wc_startRound c \<ge> maxRounds then
                 work_fail d c k (''The '' @ dec maxRounds
                   @ ''-round budget for this issue is already spent. Resuming would loop without end; this needs a human.'')
               else bind_io (work_rounds env d c [wc_startRound c..<maxRounds] k) (\<lambda>out. case out of
                   RoundFail k' detail \<Rightarrow> work_fail d c k' detail
                 | RoundAgain k' \<Rightarrow> work_fail d c k' ''The change never reached a reviewable, verified state.''
                 | RoundSettled k' \<Rightarrow> push_and_publish env d c k'))))"

definition workIssue :: "env \<Rightarrow> runner_deps \<Rightarrow> issue_summary \<Rightarrow> nat \<Rightarrow> string option \<Rightarrow> issue_outcome io" where
  "workIssue env d i start feedback =
     (let c = context_of env d i start feedback
      in then_io (gh_addLabels (de_gh d) (is_number i) [''agent:in-progress''])
         (then_io (gh_removeLabel (de_gh d) (is_number i) ''agent:ready'')
         (bind_io readJournal_io (\<lambda>j.
          bind_io (claim_record env c j) (\<lambda>r.
          bind_io (save_work \<lparr>wk_journal = j, wk_record = r, wk_verification = None, wk_review = None,
              wk_risk = None, wk_files = []\<rparr>) (\<lambda>k.
            work_from env d c k))))))"

subsection \<open>Taking one issue\<close>

record resumption =
  re_actionable :: bool
  re_detail :: string
  re_feedback :: "string option"

definition not_actionable :: "string \<Rightarrow> resumption" where
  "not_actionable detail = \<lparr>re_actionable = False, re_detail = detail, re_feedback = None\<rparr>"

definition CONFLICT_FEEDBACK :: string where
  "CONFLICT_FEEDBACK = unlines
     [''### This pull request conflicts with the base branch'', [],
      ''The base branch has moved on and the merge is no longer clean. Resolve the'',
      ''conflict in favour of both intents: keep the change this issue asks for and'',
      ''keep whatever landed on the base branch. Do not discard either side.'']"

definition ci_feedback :: "string list \<Rightarrow> string" where
  "ci_feedback failing = unlines
     ([''### GitHub CI is failing'', [], ''These required checks are red on the pull request:'', []]
      @ map (\<lambda>n. ''- '' @ n) failing
      @ [[], ''Reproduce them locally with the repository'' @ [CHR 0x27] @ ''s own commands and fix the cause.'',
         ''Do not weaken or skip a test to make a check pass '' @ emdash @ '' that is caught and it blocks the merge.''])"

fun verdict_text :: "checks_verdict \<Rightarrow> string" where
  "verdict_text ChPending = ''pending''"
| "verdict_text ChPassing = ''passing''"
| "verdict_text ChFailing = ''failing''"
| "verdict_text ChNone = ''none''"

definition resume_checks :: "runner_deps \<Rightarrow> run_record \<Rightarrow> nat \<Rightarrow> gh_pull_request \<Rightarrow> resumption" where
  "resume_checks d r n p =
     (let (verdict, failing) = summariseChecks p; budget = LOOP_CI_FIX_ROUNDS (de_config d)
      in if verdict \<noteq> ChFailing then
           not_actionable (''#'' @ dec (rr_issue r) @ '' is with GitHub: pull request #'' @ dec n @ '', checks ''
             @ verdict_text verdict @ ''. Nothing for the runner to do until that changes.'')
         else if rr_ciRounds r + 1 \<ge> budget then
           not_actionable (''Checks on #'' @ dec n @ '' are failing ('' @ join '', '' failing @ '') and the '' @ dec budget
             @ ''-round budget is spent. This needs a human.'')
         else \<lparr>re_actionable = True, re_detail = ''checks are failing ('' @ join '', '' failing @ '')'',
               re_feedback = Some (ci_feedback failing)\<rparr>)"

definition resumable :: "runner_deps \<Rightarrow> run_record \<Rightarrow> resumption io" where
  "resumable d r = (case rr_pullRequest r of
       None \<Rightarrow> return_io \<lparr>re_actionable = True, re_detail = ''no pull request was opened yet'', re_feedback = None\<rparr>
     | Some n \<Rightarrow>
         bind_io (gh_pullRequest (de_gh d) n) (\<lambda>p.
           let state = to_upper (gp_state p); budget = LOOP_CONFLICT_ROUNDS (de_config d)
           in if state = ''MERGED'' \<or> state = ''CLOSED'' then
                return_io (not_actionable (''#'' @ dec n @ '' is '' @ to_lower state @ ''; the next cycle will clean it up.''))
              else bind_io (gh_mergeability (de_gh d) n) (\<lambda>m.
                if m = MgConflicted then
                  (if rr_conflictRounds r \<ge> budget then
                     return_io (not_actionable (''#'' @ dec n @ '' is conflicted and the '' @ dec budget @ ''-attempt budget is spent.''))
                   else return_io \<lparr>re_actionable = True, re_detail = ''the pull request has a merge conflict'',
                          re_feedback = Some CONFLICT_FEEDBACK\<rparr>)
                else return_io (resume_checks d r n p))))"

definition once_of :: "issue_outcome \<Rightarrow> once_result" where
  "once_of out = \<lparr>on_outcomes = [out],
     on_stopReason = (if io_status out = WorkBlocked then StopBlocked else MaxIssuesReached), on_detail = io_detail out\<rparr>"

definition select_and_work :: "env \<Rightarrow> runner_deps \<Rightarrow> nat list option \<Rightarrow> once_result io" where
  "select_and_work env d skip =
     bind_io (gh_issues (de_gh d) []) (\<lambda>found.
       let policy = (or_default DEFAULT_SELECTION_POLICY (de_selectionPolicy d))\<lparr>sp_skip := skip\<rparr>;
           selection = selectNextIssue (map toSummary found) policy
       in case sr_selected selection of
            None \<Rightarrow> return_io \<lparr>on_outcomes = [], on_stopReason = NothingReady,
                on_detail = or_default ''No issue is ready.'' (sr_stopReason selection)\<rparr>
          | Some i \<Rightarrow> bind_io (workIssue env d i 0 None) (\<lambda>out. return_io (once_of out)))"

definition runOnce :: "env \<Rightarrow> runner_deps \<Rightarrow> nat list option \<Rightarrow> once_result io" where
  "runOnce env d skip =
     bind_io readJournal_io (\<lambda>j. case inFlight j of
       r # _ \<Rightarrow>
         bind_io (resumable d r) (\<lambda>resume.
           if \<not> re_actionable resume then
             return_io \<lparr>on_outcomes = [], on_stopReason = StopInFlight, on_detail = re_detail resume\<rparr>
           else bind_io (gh_issue (de_gh d) (rr_issue r)) (\<lambda>found.
             bind_io (workIssue env d (toSummary found) (rr_fixRounds r + 1) (re_feedback resume)) (\<lambda>out.
               return_io (once_of out))))
     | [] \<Rightarrow> select_and_work env d skip)"

subsection \<open>Driving open pull requests\<close>

datatype advance_action = WaitingForCi | CiFailedFixing | ActConflict | UpdatedBranch | AwaitingMerge | ActMerged
  | ActClosed | RetriesExhausted | NothingToDo

record advance_outcome =
  av_issue :: nat
  av_title :: string
  av_pullRequest :: "nat option"
  av_risk :: "risk_level option"
  av_action :: advance_action
  av_detail :: string

definition advanced :: "run_record \<Rightarrow> advance_action \<Rightarrow> string \<Rightarrow> advance_outcome" where
  "advanced r action detail = \<lparr>av_issue = rr_issue r, av_title = ''#'' @ dec (rr_issue r),
     av_pullRequest = rr_pullRequest r, av_risk = rr_risk' r, av_action = action, av_detail = detail\<rparr>"

definition finish_run :: "env \<Rightarrow> runner_deps \<Rightarrow> run_record \<Rightarrow> run_status \<Rightarrow> unit io" where
  "finish_run env d r status =
     then_io (if rr_worktree r = worktree_of env d (rr_issue r)
         then ignore_io (removeWorktree env (de_repository d) (rr_worktree r)) else return_io ())
     (bind_io readJournal_io (\<lambda>j. writeJournal_io (upsertRun j (r\<lparr>rr_status := status\<rparr>))))"

definition block_run :: "runner_deps \<Rightarrow> run_record \<Rightarrow> string \<Rightarrow> unit io" where
  "block_run d r detail =
     bind_io readJournal_io (\<lambda>j.
     then_io (writeJournal_io (upsertRun j (r\<lparr>rr_status := RunBlocked\<rparr>)))
     (then_io (gh_removeLabel (de_gh d) (rr_issue r) ''agent:review'')
     (then_io (gh_addLabels (de_gh d) (rr_issue r) [''agent:blocked''])
       (gh_comment (de_gh d) (rr_issue r) (stopped_comment d (rr_issue r) (rr_branch r) detail)))))"

definition advance_checks :: "runner_deps \<Rightarrow> run_record \<Rightarrow> nat \<Rightarrow> gh_pull_request \<Rightarrow> advance_outcome io" where
  "advance_checks d r n p =
     (let (verdict, failing) = summariseChecks p
      in if verdict = ChPending \<or> verdict = ChNone then
           return_io (advanced r WaitingForCi (''Checks on #'' @ dec n @ '' are '' @ verdict_text verdict @ ''.''))
         else if verdict = ChFailing then
           (if rr_ciRounds r + 1 \<ge> LOOP_CI_FIX_ROUNDS (de_config d) then
              then_io (block_run d r (''CI is still failing after '' @ dec (rr_ciRounds r + 1) @ '' round(s): ''
                  @ join '', '' failing @ ''.''))
                (return_io (advanced r RetriesExhausted
                  ''Retry budget spent; the issue is marked `agent:blocked` and the loop moves on.''))
            else
              bind_io readJournal_io (\<lambda>j.
              then_io (writeJournal_io (upsertRun j (r\<lparr>rr_ciRounds := rr_ciRounds r + 1\<rparr>)))
                (return_io (advanced r CiFailedFixing (''Checks failing ('' @ join '', '' failing
                  @ ''); the next cycle will start a fix round.'')))))
         else return_io (advanced r AwaitingMerge (''#'' @ dec n @ '' is green. Merge state: ''
             @ or_default ''unknown'' (gp_mergeStateStatus p) @ ''. GitHub'' @ [CHR 0x27] @ ''s auto-merge takes it from here.'')))"

definition advance_open :: "runner_deps \<Rightarrow> run_record \<Rightarrow> nat \<Rightarrow> gh_pull_request \<Rightarrow> advance_outcome io" where
  "advance_open d r n p =
     bind_io (gh_mergeability (de_gh d) n) (\<lambda>m.
     bind_io (if m = MgBehind then try_io (gh_updateBranch (de_gh d) n) else return_io (Inl [])) (\<lambda>updated.
       case updated of
         Inr _ \<Rightarrow> return_io (advanced r UpdatedBranch (''#'' @ dec n
             @ '' was behind the base branch; updated, and checks will re-run.''))
       | Inl _ \<Rightarrow>
           (if m = MgConflicted then
              return_io (advanced r ActConflict (''#'' @ dec n
                @ '' has a merge conflict; the next cycle will attempt a bounded resolution.''))
            else advance_checks d r n p)))"

definition advance_record :: "env \<Rightarrow> runner_deps \<Rightarrow> run_record \<Rightarrow> advance_outcome io" where
  "advance_record env d r = (case rr_pullRequest r of
       None \<Rightarrow> return_io (advanced r NothingToDo ''No pull request yet; the next cycle will resume it.'')
     | Some n \<Rightarrow>
         bind_io (gh_pullRequest (de_gh d) n) (\<lambda>p.
           if to_upper (gp_state p) = ''MERGED'' then
             then_io (finish_run env d r RunDone)
               (return_io (advanced r ActMerged (''#'' @ dec n @ '' merged; worktree cleaned up.'')))
           else if to_upper (gp_state p) = ''CLOSED'' then
             then_io (finish_run env d r RunDone)
               (return_io (advanced r ActClosed (''#'' @ dec n @ '' was closed without merging. Leaving #''
                 @ dec (rr_issue r) @ '' to a person.'')))
           else advance_open d r n p))"

primrec advance_all :: "env \<Rightarrow> runner_deps \<Rightarrow> run_record list \<Rightarrow> advance_outcome list io" where
  "advance_all env d [] = return_io []"
| "advance_all env d (r # rest) =
     bind_io (advance_record env d r) (\<lambda>a. bind_io (advance_all env d rest) (\<lambda>more. return_io (a # more)))"

definition nothing_in_flight :: advance_outcome where
  "nothing_in_flight = \<lparr>av_issue = 0, av_title = [], av_pullRequest = None, av_risk = None,
     av_action = NothingToDo, av_detail = ''Nothing in flight.''\<rparr>"

definition advance :: "env \<Rightarrow> runner_deps \<Rightarrow> advance_outcome list io" where
  "advance env d =
     bind_io readJournal_io (\<lambda>j.
     bind_io (advance_all env d (inFlight j)) (\<lambda>outs.
       return_io (if length outs = 0 then [nothing_in_flight] else outs)))"

end
