(* ===== verification/Session.thy ===== *)
theory Session
  imports Orchestrator
begin

text \<open>
  \<open>runUnattended\<close>, \<open>tolerate\<close> and \<open>planDryRun\<close> of \<open>tooling/local-runner/src/orchestrator.ts\<close>.  The session is
  a loop that may go on for ever: \<open>session_cycle\<close> is one turn of it, which ends the session or says
  how it goes on, and \<open>session_run\<close> iterates it with fuel.  \<open>None\<close> means that the fuel ran out, the
  session was still going.
\<close>

subsection \<open>The session\<close>

record session =
  ss_summary :: run_summary
  ss_blocked :: "nat list"
  ss_taken :: nat
  ss_failures :: nat

record unattended_result =
  un_summary :: run_summary
  un_stopReason :: stop_reason

datatype cycle_outcome = CycleGoesOn session | CycleEnds unattended_result

definition session_finish :: "env \<Rightarrow> session \<Rightarrow> stop_reason \<Rightarrow> string \<Rightarrow> unattended_result io" where
  "session_finish env s stop detail =
     bind_io (iso_io env) (\<lambda>now.
     bind_io (budget_answer_io env budget_snapshot (0, 0, 0)) (\<lambda>(invocations, _, _).
     bind_io (budget_answer_io env budget_snapshot (0, 0, 0)) (\<lambda>(_, _, runtime).
       return_io \<lparr>un_summary = (ss_summary s)\<lparr>rs_finishedAt := now, rs_stopReason := detail,
           rs_modelInvocations := invocations, rs_runtimeMs := runtime\<rparr>, un_stopReason = stop\<rparr>)))"

definition session_ends :: "env \<Rightarrow> session \<Rightarrow> stop_reason \<Rightarrow> string \<Rightarrow> cycle_outcome io" where
  "session_ends env s stop detail = bind_io (session_finish env s stop detail) (\<lambda>u. return_io (CycleEnds u))"

text \<open>\<open>tolerate\<close>: whether to retry, and the failures counted so far; the message is only logged.\<close>

definition tolerate :: "runner_deps \<Rightarrow> nat \<Rightarrow> (bool \<times> nat) io" where
  "tolerate d failures =
     (case backoff_failed (de_config d) failures of
        (None, n) \<Rightarrow> return_io (False, n)
      | (Some (wait, _), n) \<Rightarrow> then_io (sleep_io wait) (return_io (True, n)))"

definition session_tolerate :: "env \<Rightarrow> runner_deps \<Rightarrow> session \<Rightarrow> string \<Rightarrow> string \<Rightarrow> cycle_outcome io" where
  "session_tolerate env d s what message =
     bind_io (tolerate d (ss_failures s)) (\<lambda>(retry, n).
       if retry then return_io (CycleGoesOn (s\<lparr>ss_failures := n\<rparr>))
       else session_ends env (s\<lparr>ss_failures := n\<rparr>) GithubUnavailable
         (what @ '' across '' @ dec n @ '' attempts: '' @ message))"

definition advance_entry :: "advance_outcome \<Rightarrow> issue_result \<Rightarrow> issue_entry" where
  "advance_entry a r = \<lparr>ie_issue = av_issue a, ie_title = av_title a, ie_pullRequest = av_pullRequest a,
     ie_risk = av_risk a, ie_outcome = r, ie_detail = av_detail a\<rparr>"

definition note_advanced :: "advance_outcome \<Rightarrow> session \<Rightarrow> session" where
  "note_advanced a s =
     (if av_issue a = 0 then s
      else if av_action a = ActMerged then s\<lparr>ss_summary := recordIssue (ss_summary s) (advance_entry a Merged)\<rparr>
      else if av_action a = RetriesExhausted \<or> av_action a = ActClosed then
        s\<lparr>ss_blocked := ss_blocked s @ [av_issue a],
          ss_summary := recordIssue (ss_summary s) (advance_entry a GaveUp)\<rparr>
      else s)"

definition outcome_entry :: "issue_outcome \<Rightarrow> issue_entry" where
  "outcome_entry out = \<lparr>ie_issue = io_issue out, ie_title = ''#'' @ dec (io_issue out), ie_pullRequest = io_pullRequest out,
     ie_risk = map_option ra_risk (io_risk out),
     ie_outcome = (if io_status out = WorkBlocked then GaveUp else StillOpen), ie_detail = io_detail out\<rparr>"

definition note_worked :: "issue_outcome \<Rightarrow> session \<Rightarrow> session" where
  "note_worked out s = s\<lparr>ss_taken := ss_taken s + 1, ss_summary := recordIssue (ss_summary s) (outcome_entry out),
     ss_blocked := ss_blocked s @ (if io_status out = WorkBlocked then [io_issue out] else [])\<rparr>"

text \<open>The end of a turn that got all the way: the failures are forgotten, then the poll interval.\<close>

definition session_pause :: "env \<Rightarrow> runner_deps \<Rightarrow> session \<Rightarrow> cycle_outcome io" where
  "session_pause env d s0 =
     (let s = s0\<lparr>ss_failures := 0\<rparr>
      in bind_io (get_io (en_stopping env)) (\<lambda>stopping.
           if stopping then session_ends env s Interrupted ''the runner was asked to stop''
           else then_io (sleep_io (LOOP_POLL_INTERVAL_SECONDS (de_config d) * 1000)) (return_io (CycleGoesOn s))))"

definition session_work :: "env \<Rightarrow> runner_deps \<Rightarrow> session \<Rightarrow> cycle_outcome io" where
  "session_work env d s =
     bind_io (try_io (runOnce env d (Some (ss_blocked s)))) (\<lambda>result. case result of
       Inl message \<Rightarrow> session_tolerate env d s ''the loop kept failing'' message
     | Inr r \<Rightarrow>
         (let s' = fold note_worked (on_outcomes r) s
          in then_io (each_io (\<lambda>_. budget_io env recordIssueClaim) (on_outcomes r))
             (if on_stopReason r = NothingReady \<and> length (on_outcomes r) = 0
              then session_ends env s' NothingReady (on_detail r)
              else session_pause env d s')))"

definition session_take :: "env \<Rightarrow> runner_deps \<Rightarrow> session \<Rightarrow> cycle_outcome io" where
  "session_take env d s =
     (let limit = issueBudget (de_config d)
      in bind_io readJournal_io (\<lambda>j.
         if length (inFlight j) \<noteq> 0 then session_pause env d s
         else if limit \<noteq> 0 \<and> ss_taken s \<ge> limit then
           session_ends env s MaxIssuesReached (''the '' @ dec limit @ ''-issue ceiling for this run was reached'')
         else bind_io (budget_answer_io env (budget_check (de_config d)) None) (\<lambda>exceeded. case exceeded of
             Some e \<Rightarrow> session_ends env s BudgetExceeded
               (''operational budget reached '' @ emdash @ '' '' @ bx_detail e)
           | None \<Rightarrow> session_work env d s)))"

definition session_cycle :: "env \<Rightarrow> runner_deps \<Rightarrow> session \<Rightarrow> cycle_outcome io" where
  "session_cycle env d s =
     bind_io (get_io (en_stopping env)) (\<lambda>stopping.
       if stopping then session_ends env s Interrupted ''the runner was asked to stop''
       else bind_io (try_io (advance env d)) (\<lambda>result. case result of
           Inl message \<Rightarrow> session_tolerate env d s ''GitHub stayed unreachable'' message
         | Inr outs \<Rightarrow> session_take env d (fold note_advanced outs s)))"

primrec session_run :: "nat \<Rightarrow> env \<Rightarrow> runner_deps \<Rightarrow> session \<Rightarrow> unattended_result option io" where
  "session_run 0 env d s = return_io None"
| "session_run (Suc fuel) env d s =
     bind_io (session_cycle env d s) (\<lambda>out. case out of
       CycleGoesOn s' \<Rightarrow> session_run fuel env d s'
     | CycleEnds u \<Rightarrow> return_io (Some u))"

definition new_session :: "string \<Rightarrow> session" where
  "new_session now = \<lparr>ss_summary = emptySummary ''unattended'' now, ss_blocked = [], ss_taken = 0, ss_failures = 0\<rparr>"

definition runUnattended :: "nat \<Rightarrow> env \<Rightarrow> runner_deps \<Rightarrow> unattended_result option io" where
  "runUnattended fuel env d = bind_io (iso_io env) (\<lambda>now. session_run fuel env d (new_session now))"

subsection \<open>The dry run\<close>

record dry_run_plan =
  dp_selected :: "issue_summary option"
  dp_stopReason :: "string option"
  dp_branch :: "string option"
  dp_worktree :: "string option"
  dp_command :: string
  dp_order :: "(nat \<times> string \<times> bool \<times> string) list"
  dp_inFlight :: "run_record list"

definition planDryRun :: "env \<Rightarrow> runner_deps \<Rightarrow> dry_run_plan io" where
  "planDryRun env d =
     bind_io readJournal_io (\<lambda>j.
     bind_io (gh_issues (de_gh d) []) (\<lambda>found.
       let selection = selectNextIssue (map toSummary found) (or_default DEFAULT_SELECTION_POLICY (de_selectionPolicy d));
           selected = sr_selected selection
       in return_io \<lparr>dp_selected = selected, dp_stopReason = sr_stopReason selection,
            dp_branch = map_option (\<lambda>i. branchName (en_nfkd env) (is_number i) (is_title i)) selected,
            dp_worktree = map_option (\<lambda>i. worktree_of env d (is_number i)) selected,
            dp_command = ''claude -p --output-format json --permission-mode dontAsk --add-dir <worktree> --tools ... (prompt on stdin)'',
            dp_order = map (\<lambda>c. (is_number (c_issue c), is_title (c_issue c), c_eligible c,
                if c_eligible c then ''eligible'' else join ''; '' (c_reasons c))) (sr_candidates selection),
            dp_inFlight = inFlight j\<rparr>))"

end
