(* ===== verification/LoopCommand.thy ===== *)
theory LoopCommand
  imports Session
begin

text \<open>
  \<open>tooling/local-runner/bin/loop.ts\<close>: the command line of the runner.  What it prints is in \<open>LoopReport\<close>; its
  result is the exit code, \<open>None\<close> while an unattended session still goes on.  The configuration is
  what \<open>loadConfig\<close> returned; the process (its id, host, and which processes live) is a record.
\<close>

subsection \<open>Arguments\<close>

datatype loop_command = CmdStatus | CmdOnce | CmdWatch | CmdReview

definition COMMANDS :: "(string \<times> loop_command) list" where
  "COMMANDS = [(''status'', CmdStatus), (''once'', CmdOnce), (''watch'', CmdWatch), (''review'', CmdReview)]"

record loop_args =
  la_command :: loop_command
  la_dryRun :: bool
  la_unattended :: bool
  la_maxIssues :: "nat option"
  la_repo :: "string option"
  la_positional :: "string list"

datatype parsed_args = ArgsHelp | ArgsError string | ArgsOk loop_args

record arg_flags =
  af_dryRun :: bool
  af_unattended :: bool
  af_maxIssues :: "nat option"
  af_repo :: "string option"
  af_positional :: "string list"

definition ISSUE_NUMBER_ARG :: rx where "ISSUE_NUMBER_ARG = re ''^%d{1,4}$''"
definition REPO_ARG :: rx where "REPO_ARG = re ''^[A-Za-z0-9._-]+%/[A-Za-z0-9._-]+$''"

definition args_done :: "arg_flags \<Rightarrow> parsed_args" where
  "args_done a = (case af_positional a of
       [] \<Rightarrow> ArgsHelp
     | name # rest \<Rightarrow>
         (case map_of COMMANDS name of
            None \<Rightarrow> ArgsError (''Unknown command: '' @ name)
          | Some c \<Rightarrow> ArgsOk \<lparr>la_command = c, la_dryRun = af_dryRun a, la_unattended = af_unattended a,
              la_maxIssues = af_maxIssues a, la_repo = af_repo a, la_positional = rest\<rparr>))"

fun args_step :: "string list \<Rightarrow> arg_flags \<Rightarrow> parsed_args" where
  "args_step [] a = args_done a"
| "args_step (arg # rest) a =
     (if arg = ''--help'' \<or> arg = ''-h'' then ArgsHelp
      else if arg = ''--dry-run'' then args_step rest (a\<lparr>af_dryRun := True\<rparr>)
      else if arg = ''--unattended'' then args_step rest (a\<lparr>af_unattended := True\<rparr>)
      else if arg = ''--max-issues'' then
        (case rest of
           [] \<Rightarrow> ArgsError ''--max-issues needs a non-negative number (0 means unlimited)''
         | v # others \<Rightarrow>
             (if \<not> rx_test noflags ISSUE_NUMBER_ARG v then
                ArgsError ''--max-issues needs a non-negative number (0 means unlimited)''
              else args_step others (a\<lparr>af_maxIssues := Some (undec v)\<rparr>)))
      else if arg = ''--repo'' then
        (case rest of
           [] \<Rightarrow> ArgsError ''--repo needs a value''
         | v # others \<Rightarrow>
             (if \<not> rx_test noflags REPO_ARG v then ArgsError (''--repo must be owner/name, got: '' @ v)
              else args_step others (a\<lparr>af_repo := Some v\<rparr>)))
      else if starts_with ''-'' arg then ArgsError (''Unknown option: '' @ arg)
      else args_step rest (a\<lparr>af_positional := af_positional a @ [arg]\<rparr>))"

definition parseArgs :: "string list \<Rightarrow> parsed_args" where
  "parseArgs argv = args_step argv
     \<lparr>af_dryRun = False, af_unattended = False, af_maxIssues = None, af_repo = None, af_positional = []\<rparr>"

definition applyFlags :: "runner_config \<Rightarrow> loop_args \<Rightarrow> runner_config" where
  "applyFlags config a = config\<lparr>LOOP_UNATTENDED := la_unattended a \<or> LOOP_UNATTENDED config,
     LOOP_MAX_ISSUES := (case la_maxIssues a of Some n \<Rightarrow> Some n | None \<Rightarrow> LOOP_MAX_ISSUES config)\<rparr>"

subsection \<open>The repository\<close>

definition remote_call :: "string \<Rightarrow> call" where
  "remote_call repository = \<lparr>cl_command = ''git'', cl_args = [''remote'', ''get-url'', ''origin''], cl_cwd = Some repository,
     cl_stdin = None, cl_timeoutMs = None, cl_profile = ProfBase\<rparr>"

definition GITHUB_URL :: rx where "GITHUB_URL = re ''github%.com[:/]([^/]+)%/(.+?)(?:%.git)?$''"

definition detectRepo :: "env \<Rightarrow> string \<Rightarrow> string io" where
  "detectRepo env repository =
     bind_io (exec_io env (remote_call repository)) (\<lambda>r.
       if res_code r \<noteq> 0 then throw_io ''Could not read the `origin` remote. Pass --repo owner/name.''
       else (case rx_exec noflags GITHUB_URL (trim (res_stdout r)) of
           None \<Rightarrow> throw_io (''Could not read owner/name out of the origin remote: '' @ trim (res_stdout r))
         | Some m \<Rightarrow> return_io (capture m 1 @ ''/'' @ capture m 2)))"

definition detectDefaultBranch :: "env \<Rightarrow> string \<Rightarrow> string \<Rightarrow> string io" where
  "detectDefaultBranch env repository repo =
     bind_io (exec_io env \<lparr>cl_command = ''gh'',
         cl_args = [''repo'', ''view'', repo, ''--json'', ''defaultBranchRef'', ''--jq'', ''.defaultBranchRef.name''],
         cl_cwd = Some repository, cl_stdin = None, cl_timeoutMs = Some 60000, cl_profile = ProfGithub\<rparr>) (\<lambda>r.
       if res_code r \<noteq> 0 \<or> trim (res_stdout r) = [] then throw_io ''Could not read the default branch from GitHub.''
       else return_io (trim (res_stdout r)))"

definition loadPolicy :: "env \<Rightarrow> string \<Rightarrow> loop_policy io" where
  "loadPolicy env repository = read_policy env (path_join [repository, ''.github'', ''loop-policy.json''])"

subsection \<open>Status\<close>

definition status_command :: "env \<Rightarrow> string \<Rightarrow> string \<Rightarrow> nat io" where
  "status_command env repository repo =
     bind_io (preflight env repository (Some repo)) (\<lambda>checks.
     then_io (currentBranch env repository)
     (bind_io readJournal_io (\<lambda>j. case pf_gh checks of
        GhUnavailable _ _ _ \<Rightarrow> return_io 1
      | GhAvailable _ _ _ \<Rightarrow>
          (let gh = createGhClient env \<lparr>go_repo = repo, go_cwd = Some repository, go_timeoutMs = None\<rparr>
           in then_io (loadPolicy env repository)
              (then_io (each_io (\<lambda>r. case rr_pullRequest r of
                   None \<Rightarrow> return_io ()
                 | Some n \<Rightarrow> then_io (gh_pullRequest gh n) (return_io ())) (inFlight j))
              (then_io (gh_issues gh [''agent:ready''])
                (return_io (if pf_ok checks then 0 else 1))))))))"

subsection \<open>The command\<close>

record machine =
  mc_alive :: "nat \<Rightarrow> bool"
  mc_host :: string
  mc_pid :: nat

definition agent_options :: "runner_config \<Rightarrow> string \<Rightarrow> claude_options" where
  "agent_options config model = \<lparr>co_timeoutMs = LOOP_AGENT_TIMEOUT_MINUTES config * 60000, co_model = Some model,
     co_maxBudgetUsd = None\<rparr>"

definition cli_deps :: "env \<Rightarrow> runner_config \<Rightarrow> loop_policy \<Rightarrow> string \<Rightarrow> string \<Rightarrow> string \<Rightarrow> runner_deps" where
  "cli_deps env config policy repository repo branch =
     \<lparr>de_config = config, de_policy = policy, de_repository = repository, de_repo = repo, de_remote = ''origin'',
      de_defaultBranch = branch,
      de_gh = createGhClient env \<lparr>go_repo = repo, go_cwd = Some repository, go_timeoutMs = None\<rparr>,
      de_coding = ClaudeCodeCodingAgent env (agent_options config (LOOP_AGENT_MODEL config)),
      de_reviewers =
        [ClaudeCodeReviewAgent env (agent_options config (LOOP_AGENT_MODEL config)),
         ClaudeCodeReviewAgent env (agent_options config (or_else (LOOP_REVIEWER_B_MODEL config) (LOOP_AGENT_MODEL config)))],
      de_selectionPolicy = None\<rparr>"

definition review_number :: "string list \<Rightarrow> nat option" where
  "review_number positional = (case positional of
       [] \<Rightarrow> None
     | t # _ \<Rightarrow> (case js_number t of Some n \<Rightarrow> (if n > 0 then Some (nat n) else None) | None \<Rightarrow> None))"

definition review_command :: "env \<Rightarrow> runner_config \<Rightarrow> string \<Rightarrow> string \<Rightarrow> loop_args \<Rightarrow> nat io" where
  "review_command env config repository repo a = (case review_number (la_positional a) of
       None \<Rightarrow> return_io 2
     | Some n \<Rightarrow>
         bind_io (reviewPullRequest env
             \<lparr>rd_gh = createGhClient env \<lparr>go_repo = repo, go_cwd = Some repository, go_timeoutMs = None\<rparr>,
              rd_review = ClaudeCodeReviewAgent env (agent_options config (LOOP_AGENT_MODEL config)),
              rd_repository = repository,
              rd_policyPath = path_join [repository, ''.github'', ''loop-policy.json''],
              rd_publish = (\<not> la_dryRun a)\<rparr> n) (\<lambda>r.
           return_io (if rv_review r = None then 1 else 0)))"

text \<open>\<open>try { m } finally { k }\<close>.\<close>

definition finally_io :: "'a io \<Rightarrow> unit io \<Rightarrow> 'a io" where
  "finally_io m k = bind_io (try_io m) (\<lambda>r. then_io k (case r of Inl e \<Rightarrow> throw_io e | Inr x \<Rightarrow> return_io x))"

definition run_command :: "nat \<Rightarrow> env \<Rightarrow> runner_deps \<Rightarrow> loop_command \<Rightarrow> nat option io" where
  "run_command fuel env d command =
     (if command = CmdOnce then
        bind_io (runOnce env d None) (\<lambda>r. return_io (Some (if on_stopReason r = StopBlocked then 1 else 0)))
      else bind_io (runUnattended fuel env d) (\<lambda>u. return_io (map_option (\<lambda>x.
          if un_stopReason x \<in> {NothingReady, MaxIssuesReached, Interrupted} then 0 else 1) u)))"

fun command_text :: "loop_command \<Rightarrow> string" where
  "command_text CmdStatus = ''status''"
| "command_text CmdOnce = ''once''"
| "command_text CmdWatch = ''watch''"
| "command_text CmdReview = ''review''"

definition take_lock :: "env \<Rightarrow> machine \<Rightarrow> string \<Rightarrow> string \<Rightarrow> acquire_outcome io" where
  "take_lock env mc path command =
     bind_io (iso_io env) (\<lambda>now.
     bind_io (get_io (\<lambda>w. acquireLock (mc_alive mc) (mc_host mc) (mc_pid mc) now path command (wd_lock w))) (\<lambda>(out, f).
       then_io (update_io (\<lambda>w. w\<lparr>wd_lock := f\<rparr>)) (return_io out)))"

definition drop_lock :: "machine \<Rightarrow> unit io" where
  "drop_lock mc = update_io (\<lambda>w. w\<lparr>wd_lock := releaseLock (mc_host mc) (mc_pid mc) (wd_lock w)\<rparr>)"

definition locked_command :: "nat \<Rightarrow> env \<Rightarrow> machine \<Rightarrow> runner_deps \<Rightarrow> loop_command \<Rightarrow> nat option io" where
  "locked_command fuel env mc d command =
     bind_io (take_lock env mc (path_join [de_repository d, ''.loop'', ''runner.lock'']) (command_text command)) (\<lambda>lock.
       case lock of
         Refused _ _ \<Rightarrow> return_io (Some 1)
       | Acquired \<Rightarrow> finally_io (run_command fuel env d command) (drop_lock mc))"

definition start_command :: "nat \<Rightarrow> env \<Rightarrow> machine \<Rightarrow> runner_config \<Rightarrow> string \<Rightarrow> string \<Rightarrow> loop_args \<Rightarrow> nat option io" where
  "start_command fuel env mc config repository repo a =
     bind_io (preflight env repository (Some repo)) (\<lambda>checks.
       if \<not> pf_ok checks then return_io (Some 1)
       else if la_command a = CmdReview then
         bind_io (review_command env config repository repo a) (\<lambda>n. return_io (Some n))
       else
         bind_io (now_io env) (\<lambda>now.
         then_io (update_io (\<lambda>w. w\<lparr>wd_budget := Some (new_budget now)\<rparr>))
         (bind_io (loadPolicy env repository) (\<lambda>policy.
          bind_io (detectDefaultBranch env repository repo) (\<lambda>branch.
            let d = cli_deps env config policy repository repo branch
            in if la_dryRun a then then_io (planDryRun env d) (return_io (Some 0))
               else locked_command fuel env mc d (la_command a))))))"

definition loop_main :: "nat \<Rightarrow> env \<Rightarrow> machine \<Rightarrow> runner_config \<Rightarrow> string list \<Rightarrow> nat option io" where
  "loop_main fuel env mc config0 argv = (case parseArgs argv of
       ArgsHelp \<Rightarrow> return_io (Some 0)
     | ArgsError _ \<Rightarrow> return_io (Some 2)
     | ArgsOk a \<Rightarrow>
         bind_io (repositoryRoot env (en_cwd env)) (\<lambda>repository.
         bind_io (case la_repo a of Some r \<Rightarrow> return_io r | None \<Rightarrow> detectRepo env repository) (\<lambda>repo.
           if la_command a = CmdStatus then bind_io (status_command env repository repo) (\<lambda>n. return_io (Some n))
           else start_command fuel env mc (applyFlags config0 a) repository repo a)))"

end
