(* ===== verification/RunnerCalls.thy ===== *)
theory RunnerCalls
  imports LoopCommand
begin

text \<open>
  What the runner may do to the outside, and how much.  The orchestrator is a client of the GitHub
  adapter and of the agents: the locale \<open>github_client\<close> is the contract of the adapter for a kind of
  calls \<open>ok\<close>, \<open>runner_client\<close> adds what the orchestrator calls itself, \<open>agent_client\<close> the agents, and
  \<open>metered_client\<close> bounds the invocations of the model.  Each is interpreted on the adapters of the
  command line.
\<close>

subsection \<open>Case distinctions\<close>

lemma calls_coding_outcome [calls]:
  "(\<And>a b c. x = CodeOk a b c \<Longrightarrow> calls_only ok (f a b c)) \<Longrightarrow> (\<And>a b. x = CodeBad a b \<Longrightarrow> calls_only ok (g a b)) \<Longrightarrow>
    calls_only ok (case x of CodeOk a b c \<Rightarrow> f a b c | CodeBad a b \<Rightarrow> g a b)"
  by (cases x) auto

lemma calls_bool [calls]:
  "(b \<Longrightarrow> calls_only ok m) \<Longrightarrow> (\<not> b \<Longrightarrow> calls_only ok k) \<Longrightarrow> calls_only ok (case b of True \<Rightarrow> m | False \<Rightarrow> k)"
  by (cases b) auto

lemma calls_round_outcome [calls]:
  "(\<And>k t. x = RoundFail k t \<Longrightarrow> calls_only ok (f k t)) \<Longrightarrow> (\<And>k. x = RoundAgain k \<Longrightarrow> calls_only ok (g k)) \<Longrightarrow>
    (\<And>k. x = RoundSettled k \<Longrightarrow> calls_only ok (h k)) \<Longrightarrow>
    calls_only ok (case x of RoundFail k t \<Rightarrow> f k t | RoundAgain k \<Rightarrow> g k | RoundSettled k \<Rightarrow> h k)"
  by (cases x) auto

lemma calls_cycle_outcome [calls]:
  "(\<And>s. x = CycleGoesOn s \<Longrightarrow> calls_only ok (f s)) \<Longrightarrow> (\<And>u. x = CycleEnds u \<Longrightarrow> calls_only ok (g u)) \<Longrightarrow>
    calls_only ok (case x of CycleGoesOn s \<Rightarrow> f s | CycleEnds u \<Rightarrow> g u)"
  by (cases x) auto

lemma calls_acquire [calls]:
  "(x = Acquired \<Longrightarrow> calls_only ok m) \<Longrightarrow> (\<And>a b. x = Refused a b \<Longrightarrow> calls_only ok (f a b)) \<Longrightarrow>
    calls_only ok (case x of Acquired \<Rightarrow> m | Refused a b \<Rightarrow> f a b)"
  by (cases x) auto

lemma calls_availability [calls]:
  "(\<And>a b c. x = GhUnavailable a b c \<Longrightarrow> calls_only ok (f a b c)) \<Longrightarrow>
    (\<And>a b c. x = GhAvailable a b c \<Longrightarrow> calls_only ok (g a b c)) \<Longrightarrow>
    calls_only ok (case x of GhUnavailable a b c \<Rightarrow> f a b c | GhAvailable a b c \<Rightarrow> g a b c)"
  by (cases x) auto

lemma calls_artifact [calls]: "calls_only ok (artifact_io env v)"
  unfolding artifact_io_def by (intro calls)

lemma calls_save_work [calls]: "calls_only ok (save_work k)"
  unfolding save_work_def by (intro calls)

lemma calls_proposedPolicy [calls]: "calls_only ok (proposedPolicy env worktree p)"
  unfolding proposedPolicy_def by (intro calls)

lemma calls_claim_record [calls]: "calls_only ok (claim_record env c j)"
  unfolding claim_record_def by (intro calls)

subsection \<open>The adapter\<close>

locale github_client =
  fixes gh :: github_adapter and ok :: "call \<Rightarrow> bool"
  assumes gh_reads:
      "calls_only ok (gh_issues gh labels)" "calls_only ok (gh_issue gh n)" "calls_only ok (gh_pullRequest gh n)"
      "calls_only ok (gh_pullRequestForBranch gh br)" "calls_only ok (gh_pullRequestDiff gh n)" "calls_only ok (gh_mergeability gh n)"
    and gh_writes:
      "calls_only ok (gh_addLabels gh n labels)" "calls_only ok (gh_removeLabel gh n l)" "calls_only ok (gh_comment gh n body)"
      "calls_only ok (gh_createPullRequest gh q)" "calls_only ok (gh_enableAutoMerge gh n)" "calls_only ok (gh_updateBranch gh n)"

context github_client
begin

lemma weaken: "(\<And>c. ok c \<Longrightarrow> ok' c) \<Longrightarrow> github_client gh ok'"
  by unfold_locales (rule calls_mono, (rule gh_reads gh_writes)?, blast)+

end

text \<open>A command of the policy: a verification step of some tier, or the probe of one.\<close>

definition policy_command :: "loop_policy \<Rightarrow> call \<Rightarrow> bool" where
  "policy_command policy c \<longleftrightarrow> list_ex (\<lambda>risk. case stepsForRisk policy risk of
       None \<Rightarrow> False
     | Some steps \<Rightarrow> list_ex (\<lambda>s. cl_command c = step_command s \<and> cl_args c = step_args s
         \<or> step_requiresProbe s = Some (cl_command c # cl_args c)) steps) [Low, Medium, High]"

locale runner_client = github_client "de_gh d" ok for d :: runner_deps and ok +
  assumes git_calls: "git_ok c \<Longrightarrow> ok c"
    and policy_calls: "cl_profile c = ProfBase \<Longrightarrow> policy_command (de_policy d) c \<Longrightarrow> ok c"
    and install_calls: "ok (install_call worktree)"
begin

lemma git_only: "calls_only git_ok m \<Longrightarrow> calls_only ok m"
  by (rule calls_mono [OF _ git_calls])

lemma calls_gitIn_ok [calls]: "git_args_ok args \<Longrightarrow> calls_only ok (gitIn env cwd args)"
  by (intro git_only calls)

lemma calls_git_ok [calls]:
  "calls_only ok (changedFiles env cwd base)" "calls_only ok (hasCommitsBeyond env cwd base)"
  "calls_only ok (removeWorktree env repo path)" "calls_only ok (fetchBase env repo remote br)"
  "calls_only ok (commitAll env cwd message)" "calls_only ok (rebaseOntoBase env cwd base)"
  "calls_only ok (pushBranch env cwd remote br)"
  by (intro git_only calls)+

lemmas calls_gh [calls] = gh_reads gh_writes

lemma calls_verify_ok [calls]: "calls_only ok (verify env (verify_options_of d c risk files))"
proof (cases "stepsForRisk (de_policy d) risk")
  case None
  then show ?thesis by (simp add: verify_def verify_options_of_def tierSteps_def or_default_def calls_throw)
next
  case (Some steps)
  then have "tierSteps (verify_options_of d c risk files) = Some steps"
    by (simp add: tierSteps_def verify_options_of_def or_default_def)
  then have "calls_only (verify_ok_call (verify_options_of d c risk files) steps) (verify env (verify_options_of d c risk files))"
    by (rule calls_verify)
  moreover have "ok x" if "verify_ok_call (verify_options_of d c risk files) steps x" for x
  proof (rule policy_calls)
    show "cl_profile x = ProfBase" using that by (auto simp: verify_ok_call_def step_call_def probe_call_def)
    have "list_ex (\<lambda>s. cl_command x = step_command s \<and> cl_args x = step_args s
        \<or> step_requiresProbe s = Some (cl_command x # cl_args x)) steps"
      using that by (auto simp: verify_ok_call_def step_call_def probe_call_def list_ex_iff)
    then show "policy_command (de_policy d) x"
      using Some by (cases risk) (simp_all add: policy_command_def)
  qed
  ultimately show ?thesis by (rule calls_mono)
qed

lemma calls_work_fail [calls]: "calls_only ok (work_fail d c k detail)"
  unfolding work_fail_def by (intro calls)

lemma calls_commit_change [calls]: "calls_only ok (commit_change env c)"
  unfolding commit_change_def by (intro calls)

lemma calls_open_request [calls]: "calls_only ok (open_request d c k v risk)"
  unfolding open_request_def by (intro calls) (auto intro!: calls)

lemma calls_publish [calls]: "calls_only ok (publish env d c k v risk)"
  unfolding publish_def by (intro calls)

lemma calls_push_and_publish [calls]: "calls_only ok (push_and_publish env d c k)"
  unfolding push_and_publish_def by (intro calls)

lemma calls_prepare [calls]: "calls_only ok (prepare_worktree env d (context_of env d i start feedback))"
proof -
  have "calls_only git_ok (ensureWorktree env \<lparr>wq_repository = r, wq_path = worktree_of env d n, wq_branch = b, wq_base = x\<rparr>)"
    for r n b x
    by (rule calls_ensureWorktree) (simp add: worktree_of_def path_resolve_no_option)
  then show ?thesis
    unfolding prepare_worktree_def context_of_def by (auto intro!: calls intro: git_only)
qed

lemma calls_install [calls]: "calls_only ok (exec_io env (install_call worktree))"
  by (intro calls install_calls)

lemma calls_resumable [calls]: "calls_only ok (resumable d r)"
  unfolding resumable_def by (intro calls)

lemma calls_finish_run [calls]: "calls_only ok (finish_run env d r status)"
  unfolding finish_run_def by (intro calls)

lemma calls_block_run [calls]: "calls_only ok (block_run d r detail)"
  unfolding block_run_def by (intro calls)

lemma calls_advance_record [calls]: "calls_only ok (advance_record env d r)"
  unfolding advance_record_def advance_open_def advance_checks_def by (intro calls)

lemma calls_advance_all [calls]: "calls_only ok (advance_all env d rs)"
  by (induction rs) (auto intro!: calls)

lemma calls_advance [calls]: "calls_only ok (advance env d)"
  unfolding advance_def by (intro calls)

lemma calls_planDryRun [calls]: "calls_only ok (planDryRun env d)"
  unfolding planDryRun_def by (intro calls)

lemma calls_session_parts [calls]:
  "calls_only ok (session_ends env s stop detail)" "calls_only ok (session_tolerate env d s what message)"
  "calls_only ok (session_pause env d s)"
  unfolding session_tolerate_def session_pause_def session_ends_def session_finish_def tolerate_def
  by (intro calls)+

end

subsection \<open>The agents\<close>

locale agent_client = runner_client d ok for d :: runner_deps and ok +
  assumes coding_calls: "calls_only ok (ca_implement (de_coding d) t)"
    and reviewer_calls: "r \<in> set (de_reviewers d) \<Longrightarrow> calls_only ok (ra_review r rt)"
begin

lemmas calls_coding [calls] = coding_calls

lemma calls_review_attempts [calls]:
  "r \<in> set (de_reviewers d) \<Longrightarrow> calls_only ok (review_attempts env r task index attempts)"
  by (induction attempts) (auto intro!: calls reviewer_calls)

lemma reviewer_member: "reviewer_for d index = Some r \<Longrightarrow> r \<in> set (de_reviewers d)"
  by (auto simp: reviewer_for_def split: if_splits)

lemma calls_gather_from [calls]: "calls_only ok (gather_from env d task indices)"
  by (induction indices) (auto intro!: calls dest: reviewer_member)

lemma calls_rounds [calls]: "calls_only ok (work_round env d c rnd final k)"
  unfolding work_round_def round_verify_def round_check_def round_verified_def round_review_def gatherReviews_def
  by (intro calls) (simp add: git_args_ok_def)

lemma calls_work_rounds [calls]: "calls_only ok (work_rounds env d c rs k)"
  by (induction rs arbitrary: k) (auto intro!: calls)

lemma calls_workIssue [calls]: "calls_only ok (workIssue env d i start feedback)"
  unfolding workIssue_def work_from_def by (intro calls) (auto intro!: calls)

lemma calls_runOnce [calls]: "calls_only ok (runOnce env d skip)"
  unfolding runOnce_def select_and_work_def by (intro calls)

lemma calls_session_cycle [calls]: "calls_only ok (session_cycle env d s)"
  unfolding session_cycle_def session_take_def session_work_def by (intro calls)

lemma calls_session_run [calls]: "calls_only ok (session_run fuel env d s)"
  by (induction fuel arbitrary: s) (auto intro!: calls)

lemma calls_runUnattended [calls]: "calls_only ok (runUnattended fuel env d)"
  unfolding runUnattended_def by (intro calls)

end

subsection \<open>Invocations of the model\<close>

definition model_call :: "call \<Rightarrow> bool" where "model_call c \<longleftrightarrow> cl_profile c = ProfClaude"

definition most_reviewers :: "loop_policy \<Rightarrow> nat" where
  "most_reviewers p = max (reviewersForRisk p Low) (max (reviewersForRisk p Medium) (reviewersForRisk p High))"

text \<open>The most invocations one round may cost, and one issue.\<close>

definition round_price :: "runner_deps \<Rightarrow> nat" where
  "round_price d = 1 + most_reviewers (de_policy d) * LOOP_REVIEWER_RETRY_ROUNDS (de_config d)"

definition issue_price :: "runner_deps \<Rightarrow> nat" where
  "issue_price d = LOOP_CODING_FIX_ROUNDS (de_config d) * round_price d"

lemma reviewers_most: "reviewersForRisk p r \<le> most_reviewers p"
  by (cases r) (simp_all add: most_reviewers_def)

lemma costs_quiet: "calls_only (\<lambda>c. \<not> p c) m \<Longrightarrow> costs p n m"
  by (rule costs_none) auto

lemma costs_after: "calls_only (\<lambda>c. \<not> p c) m \<Longrightarrow> (\<And>x. costs p n (f x)) \<Longrightarrow> costs p n (bind_io m f)"
  by (rule costs_bind [of _ 0 _ n]) (auto intro: costs_quiet)

lemma costs_then_after: "calls_only (\<lambda>c. \<not> p c) m \<Longrightarrow> costs p n k \<Longrightarrow> costs p n (then_io m k)"
  unfolding then_io_def by (rule costs_after)

lemma costs_before: "costs p n m \<Longrightarrow> (\<And>x. calls_only (\<lambda>c. \<not> p c) (f x)) \<Longrightarrow> costs p n (bind_io m f)"
  by (rule costs_bind [of _ n _ 0]) (auto intro: costs_quiet)

named_theorems price \<open>costs along the structure of a computation whose costly part comes last\<close>

lemma price_base [price]: "costs p n (return_io x)" "costs p n (throw_io t)"
  by (rule costs_quiet, rule calls)+

lemmas price_binds [price] = costs_after costs_then_after

lemma price_if [price]: "(c \<Longrightarrow> costs p n m) \<Longrightarrow> (\<not> c \<Longrightarrow> costs p n k) \<Longrightarrow> costs p n (if c then m else k)"
  by simp

lemma price_option [price]:
  "(x = None \<Longrightarrow> costs p n m) \<Longrightarrow> (\<And>y. x = Some y \<Longrightarrow> costs p n (f y)) \<Longrightarrow>
    costs p n (case x of None \<Rightarrow> m | Some y \<Rightarrow> f y)"
  by (cases x) auto

lemma price_sum [price]:
  "(\<And>e. x = Inl e \<Longrightarrow> costs p n (f e)) \<Longrightarrow> (\<And>y. x = Inr y \<Longrightarrow> costs p n (g y)) \<Longrightarrow>
    costs p n (case x of Inl e \<Rightarrow> f e | Inr y \<Rightarrow> g y)"
  by (cases x) auto

lemma price_bool [price]:
  "(b \<Longrightarrow> costs p n m) \<Longrightarrow> (\<not> b \<Longrightarrow> costs p n k) \<Longrightarrow> costs p n (case b of True \<Rightarrow> m | False \<Rightarrow> k)"
  by (cases b) auto

lemma price_coding [price]:
  "(\<And>a b c. x = CodeOk a b c \<Longrightarrow> costs p n (f a b c)) \<Longrightarrow> (\<And>a b. x = CodeBad a b \<Longrightarrow> costs p n (g a b)) \<Longrightarrow>
    costs p n (case x of CodeOk a b c \<Rightarrow> f a b c | CodeBad a b \<Rightarrow> g a b)"
  by (cases x) auto

lemma price_review [price]:
  "(\<And>a b c. x = ReviewOk a b c \<Longrightarrow> costs p n (f a b c)) \<Longrightarrow> (\<And>a b. x = ReviewBad a b \<Longrightarrow> costs p n (g a b)) \<Longrightarrow>
    costs p n (case x of ReviewOk a b c \<Rightarrow> f a b c | ReviewBad a b \<Rightarrow> g a b)"
  by (cases x) auto

lemma price_round [price]:
  "(\<And>k t. x = RoundFail k t \<Longrightarrow> costs p n (f k t)) \<Longrightarrow> (\<And>k. x = RoundAgain k \<Longrightarrow> costs p n (g k)) \<Longrightarrow>
    (\<And>k. x = RoundSettled k \<Longrightarrow> costs p n (h k)) \<Longrightarrow>
    costs p n (case x of RoundFail k t \<Rightarrow> f k t | RoundAgain k \<Rightarrow> g k | RoundSettled k \<Rightarrow> h k)"
  by (cases x) auto

lemma price_let [price]: "(\<And>y. y = x \<Longrightarrow> costs p n (f y)) \<Longrightarrow> costs p n (let y = x in f y)"
  by simp

locale metered_client = runner_client d "\<lambda>c. \<not> model_call c" for d :: runner_deps +
  assumes coding_cost: "costs model_call 1 (ca_implement (de_coding d) t)"
    and reviewer_cost: "r \<in> set (de_reviewers d) \<Longrightarrow> costs model_call 1 (ra_review r rt)"
begin

lemma cost_review_attempts:
  assumes "r \<in> set (de_reviewers d)"
  shows "costs model_call (length attempts) (review_attempts env r task index attempts)"
proof (induction attempts)
  case (Cons a rest)
  show ?case
    unfolding review_attempts.simps
    by (intro costs_then_after costs_bind [of _ 1 _ "length rest"] reviewer_cost assms calls)
      (auto intro!: price costs_before Cons.IH calls)
qed (auto intro!: price)

lemma cost_gather_from:
  "costs model_call (length indices * LOOP_REVIEWER_RETRY_ROUNDS (de_config d)) (gather_from env d task indices)"
proof (induction indices)
  case (Cons i rest)
  let ?t = "LOOP_REVIEWER_RETRY_ROUNDS (de_config d)"
  have "costs model_call ?t (case reviewer_for d i of
      None \<Rightarrow> return_io (None, m)
    | Some reviewer \<Rightarrow> review_attempts env reviewer task i [0..<?t])" for m
  proof (cases "reviewer_for d i")
    case (Some r)
    then have "r \<in> set (de_reviewers d)" by (auto simp: reviewer_for_def split: if_splits)
    from cost_review_attempts [OF this, of "[0..<?t]"] Some show ?thesis by simp
  qed (auto intro!: price)
  then show ?case
    unfolding gather_from.simps
    by (rule costs_bind [of _ ?t _ "length rest * ?t"]) (auto intro!: costs_before Cons.IH calls)
qed (auto intro!: price)

lemma cost_round_review:
  "costs model_call (round_price d - 1) (round_review env d c final diff risk k)"
  unfolding round_review_def Let_def gatherReviews_def
proof (rule costs_before)
  have "reviewersForRisk (de_policy d) (ra_risk risk) * LOOP_REVIEWER_RETRY_ROUNDS (de_config d) \<le> round_price d - 1"
    using reviewers_most by (simp add: round_price_def)
  then show "costs model_call (round_price d - 1) (gather_from env d (review_task_of c diff (wk_files k))
      [0..<reviewersForRisk (de_policy d) (ra_risk risk)])"
    using cost_gather_from [of "[0..<reviewersForRisk (de_policy d) (ra_risk risk)]"] by (auto intro: costs_mono)
qed (intro calls)

lemma cost_round_verify: "costs model_call (round_price d - 1) (round_verify env d c final k)"
  unfolding round_verify_def round_check_def round_verified_def
  by (intro price cost_round_review calls) (simp add: git_args_ok_def)

lemma cost_work_round: "costs model_call (round_price d) (work_round env d c rnd final k)"
  unfolding work_round_def
proof (rule costs_then_after [OF calls_budget], rule costs_bind [of _ 1 _ "round_price d - 1"])
  show "costs model_call 1 (ca_implement (de_coding d) (coding_task_of c rnd k))" by (rule coding_cost)
qed (intro price calls cost_round_verify, simp add: round_price_def)

lemma cost_work_rounds: "costs model_call (length rs * round_price d) (work_rounds env d c rs k)"
proof (induction rs arbitrary: k)
  case (Cons r rest)
  show ?case
    unfolding work_rounds.simps
    by (rule costs_bind [of _ "round_price d" _ "length rest * round_price d"])
      (auto intro!: price Cons.IH cost_work_round)
qed (auto intro!: price)

lemma cost_workIssue: "costs model_call (issue_price d) (workIssue env d i start feedback)"
proof -
  have rounds: "costs model_call (issue_price d) (work_rounds env d c [start..<LOOP_CODING_FIX_ROUNDS (de_config d)] k)" for c k
    by (rule costs_mono [OF cost_work_rounds]) (simp add: issue_price_def)
  let ?c = "context_of env d i start feedback"
  have worked: "costs model_call (issue_price d) (bind_io
      (work_rounds env d ?c [wc_startRound ?c..<LOOP_CODING_FIX_ROUNDS (de_config d)] k) (\<lambda>out. case out of
          RoundFail k' detail \<Rightarrow> work_fail d ?c k' detail
        | RoundAgain k' \<Rightarrow> work_fail d ?c k' ''The change never reached a reviewable, verified state.''
        | RoundSettled k' \<Rightarrow> push_and_publish env d ?c k'))" for k
    using rounds [of ?c] by (intro costs_before calls) (simp add: context_of_def)
  have quiet: "costs model_call (issue_price d) (work_fail d ?c k detail)" for k detail
    by (intro costs_quiet calls)
  have "costs model_call (issue_price d) (work_from env d ?c k)" for k
    unfolding work_from_def Let_def by (intro worked quiet price calls)
  then show ?thesis
    unfolding workIssue_def Let_def by (intro costs_after costs_then_after calls)
qed

end

subsection \<open>The runner of the command line\<close>

definition runner_ok :: "loop_policy \<Rightarrow> call \<Rightarrow> bool" where
  "runner_ok policy c \<longleftrightarrow> gh_ok c \<or> git_ok c \<or> claude_ok c
     \<or> (cl_profile c = ProfBase \<and> (policy_command policy c \<or> cl_command c = fst INSTALL_STEP \<and> cl_args c = snd INSTALL_STEP))"

lemma runner_okI [intro]: "gh_ok c \<Longrightarrow> runner_ok p c" "git_ok c \<Longrightarrow> runner_ok p c" "claude_ok c \<Longrightarrow> runner_ok p c"
  by (simp_all add: runner_ok_def)

interpretation cli_gh: github_client "createGhClient env opts" gh_ok for env opts
  by unfold_locales (simp_all add: createGhClient_def calls)

interpretation cli: agent_client "cli_deps env config policy repository repo branch" "runner_ok policy"
  for env config policy repository repo branch
proof (intro agent_client.intro runner_client.intro runner_client_axioms.intro agent_client_axioms.intro)
  let ?d = "cli_deps env config policy repository repo branch"
  have de: "de_policy ?d = policy" "de_coding ?d = ClaudeCodeCodingAgent env (agent_options config (LOOP_AGENT_MODEL config))"
    "de_gh ?d = createGhClient env \<lparr>go_repo = repo, go_cwd = Some repository, go_timeoutMs = None\<rparr>"
    by (simp_all add: cli_deps_def)
  show "github_client (de_gh ?d) (runner_ok policy)" unfolding de by (rule cli_gh.weaken) blast
  show "runner_ok policy c" if "git_ok c" for c using that by blast
  show "runner_ok policy c" if "cl_profile c = ProfBase" "policy_command (de_policy ?d) c" for c
    using that by (simp add: runner_ok_def de)
  show "runner_ok policy (install_call worktree)" for worktree by (simp add: runner_ok_def install_call_def)
  show "calls_only (runner_ok policy) (ca_implement (de_coding ?d) t)" for t
    unfolding de ClaudeCodeCodingAgent_def by (simp add: calls_mono [OF calls_implement runner_okI(3)])
  show "calls_only (runner_ok policy) (ra_review r rt)" if "r \<in> set (de_reviewers ?d)" for r rt
    using that by (auto simp: cli_deps_def ClaudeCodeReviewAgent_def intro: calls_mono [OF calls_review_change runner_okI(3)])
qed

lemma quiet_calls: "gh_ok c \<Longrightarrow> \<not> model_call c" "git_ok c \<Longrightarrow> \<not> model_call c"
  by (simp_all add: gh_ok_def git_ok_def model_call_def)

lemma one_call:
  assumes "\<And>ok. calls_only ok m" and "\<And>r ok. calls_only ok (f r)"
  shows "costs p 1 (bind_io m (\<lambda>x. bind_io (exec_io env (c x)) f))"
  by (intro costs_after assms costs_before costs_exec) simp_all

lemma cost_implement: "costs p 1 (implement env opts t)"
  unfolding implement_def by (rule one_call) (intro calls)+

lemma cost_review_change: "costs p 1 (review_change env opts t)"
  unfolding review_change_def by (rule one_call) (intro calls)+

interpretation meter: metered_client "cli_deps env config policy repository repo branch"
  for env config policy repository repo branch
proof (intro metered_client.intro runner_client.intro runner_client_axioms.intro metered_client_axioms.intro)
  let ?d = "cli_deps env config policy repository repo branch"
  have gh: "de_gh ?d = createGhClient env \<lparr>go_repo = repo, go_cwd = Some repository, go_timeoutMs = None\<rparr>"
    by (simp add: cli_deps_def)
  show "github_client (de_gh ?d) (\<lambda>c. \<not> model_call c)" unfolding gh by (rule cli_gh.weaken) (rule quiet_calls)
  show "\<not> model_call c" if "git_ok c" for c using that by (rule quiet_calls)
  show "\<not> model_call c" if "cl_profile c = ProfBase" for c using that by (simp add: model_call_def)
  show "\<not> model_call (install_call worktree)" for worktree by (simp add: model_call_def install_call_def)
  show "costs model_call 1 (ca_implement (de_coding ?d) t)" for t
    using cost_implement by (simp add: cli_deps_def ClaudeCodeCodingAgent_def)
  show "costs model_call 1 (ra_review r rt)" if "r \<in> set (de_reviewers ?d)" for r rt
    using that cost_review_change by (auto simp: cli_deps_def ClaudeCodeReviewAgent_def)
qed

text \<open>Every subprocess of a command: the rest is the repository's own, without any credential.\<close>

definition command_ok :: "call \<Rightarrow> bool" where
  "command_ok c \<longleftrightarrow> gh_ok c \<or> git_ok c \<or> claude_ok c \<or> cl_profile c = ProfBase"

lemma runner_command_ok: "runner_ok p c \<Longrightarrow> command_ok c"
  by (auto simp: runner_ok_def command_ok_def)

lemma command_okI: "gh_ok c \<Longrightarrow> command_ok c" "git_ok c \<Longrightarrow> command_ok c" "claude_ok c \<Longrightarrow> command_ok c"
  by (simp_all add: command_ok_def)

lemmas command_calls =
  cli_gh.gh_reads [THEN calls_mono, OF command_okI(1)] cli_gh.gh_writes [THEN calls_mono, OF command_okI(1)]
  calls_probeGh [THEN calls_mono, OF command_okI(1)] calls_probeClaude [THEN calls_mono, OF command_okI(3)]
  calls_git [THEN calls_mono, OF command_okI(2)] calls_review_change [THEN calls_mono, OF command_okI(3)]

lemma calls_preflight: "calls_only command_ok (preflight env repository repo)"
  unfolding preflight_def by (intro calls command_calls)

lemma calls_review_command: "calls_only command_ok (review_command env config repository repo a)"
  unfolding review_command_def reviewPullRequest_def ClaudeCodeReviewAgent_def review_command_deps.select_convs
    review_agent.select_convs
  by (intro calls command_calls)

lemma calls_status: "calls_only command_ok (status_command env repository repo)"
  unfolding status_command_def loadPolicy_def Let_def by (intro calls command_calls calls_preflight)

lemma calls_locked: "calls_only command_ok (locked_command fuel env mc (cli_deps env config policy repository repo branch) command)"
proof -
  have once: "calls_only command_ok (runOnce env (cli_deps env config policy repository repo branch) None)"
    by (rule calls_mono [OF cli.calls_runOnce runner_command_ok])
  have watch: "calls_only command_ok (runUnattended fuel env (cli_deps env config policy repository repo branch))"
    by (rule calls_mono [OF cli.calls_runUnattended runner_command_ok])
  show ?thesis
    unfolding locked_command_def take_lock_def drop_lock_def finally_io_def run_command_def
    by (intro calls once watch) simp_all
qed

lemma calls_loop_main: "calls_only command_ok (loop_main fuel env mc config0 argv)"
proof -
  have dry: "calls_only command_ok (planDryRun env (cli_deps env config policy repository repo branch))"
    for config policy repository repo branch
    by (rule calls_mono [OF cli.calls_planDryRun runner_command_ok])
  have start: "calls_only command_ok (start_command fuel env mc config repository repo a)" for config repository repo a
    unfolding start_command_def loadPolicy_def detectDefaultBranch_def Let_def
    by (intro calls calls_preflight calls_review_command dry calls_locked)
      (auto simp: command_ok_def gh_ok_def gh_args_ok_def intro!: calls calls_locked dry)
  show ?thesis
    unfolding loop_main_def detectRepo_def
  proof (cases "parseArgs argv")
    case (ArgsOk a)
    then show "calls_only command_ok (case parseArgs argv of ArgsHelp \<Rightarrow> return_io (Some 0) | ArgsError _ \<Rightarrow> return_io (Some 2)
      | ArgsOk a \<Rightarrow> bind_io (repositoryRoot env (en_cwd env)) (\<lambda>repository.
          bind_io (case la_repo a of Some r \<Rightarrow> return_io r | None \<Rightarrow> bind_io (exec_io env (remote_call repository)) (\<lambda>r.
            if res_code r \<noteq> 0 then throw_io ''Could not read the `origin` remote. Pass --repo owner/name.''
            else (case rx_exec noflags GITHUB_URL (trim (res_stdout r)) of
                None \<Rightarrow> throw_io (''Could not read owner/name out of the origin remote: '' @ trim (res_stdout r))
              | Some m \<Rightarrow> return_io (capture m 1 @ ''/'' @ capture m 2)))) (\<lambda>repo.
            if la_command a = CmdStatus then bind_io (status_command env repository repo) (\<lambda>n. return_io (Some n))
            else start_command fuel env mc (applyFlags config0 a) repository repo a)))"
      by (simp, intro calls command_calls calls_status start) (simp_all add: command_ok_def remote_call_def)
  qed (auto intro!: calls)
qed

text \<open>
  What a call may be, by the credential its environment carries: \<open>gh\<close>, which merges with \<open>--auto\<close> only;
  \<open>git\<close>, which pushes one agent branch to itself and without force only; \<open>claude\<close>.
\<close>

definition credential_ok :: "call \<Rightarrow> bool" where
  "credential_ok c = (case cl_profile c of
       ProfBase \<Rightarrow> True
     | ProfClaude \<Rightarrow> cl_command c = ''claude''
     | ProfGithub \<Rightarrow> cl_command c = ''gh''
         \<and> (take 2 (cl_args c) = [''pr'', ''merge''] \<longrightarrow> ''--auto'' \<in> set (cl_args c))
     | ProfGit \<Rightarrow> cl_command c = ''git''
         \<and> (take 1 (cl_args c) = [''push''] \<longrightarrow>
             (case cl_args c of [_, option, _, ref] \<Rightarrow> option = ''-u'' \<and> own_refspec ref | _ \<Rightarrow> False)))"

lemma command_kinds:
  assumes "command_ok c"
  shows "credential_ok c"
proof -
  have gh: "''--auto'' \<in> set (cl_args c)" if "gh_ok c" "take 2 (cl_args c) = [''pr'', ''merge'']"
  proof -
    have "\<exists>rest. cl_args c = ''pr'' # ''merge'' # rest \<and> drop 3 rest = [''--squash'', ''--auto'']"
      using that by (auto simp: gh_ok_def gh_args_ok_def numeral_2_eq_2 split: list.splits)
    then obtain rest where "cl_args c = ''pr'' # ''merge'' # rest" "drop 3 rest = [''--squash'', ''--auto'']"
      by blast
    then show ?thesis using in_set_dropD [of "''--auto''" 3 rest] by simp
  qed
  have push: "case cl_args c of [_, option, _, ref] \<Rightarrow> option = ''-u'' \<and> own_refspec ref | _ \<Rightarrow> False"
    if g: "git_ok c" and t: "take 1 (cl_args c) = [''push'']"
  proof -
    obtain rest where args: "cl_args c = ''push'' # rest" using t by (cases "cl_args c") auto
    then have "length rest = 3" "rest ! 0 = ''-u''" "own_refspec (rest ! 2)"
      using g by (simp_all add: git_ok_def git_args_ok_def)
    moreover from this(1) obtain x y z where "rest = [x, y, z]"
      by (auto simp: length_Suc_conv numeral_3_eq_3)
    ultimately show ?thesis using args by auto
  qed
  have "cl_profile c = ProfGithub \<Longrightarrow> gh_ok c" "cl_profile c = ProfGit \<Longrightarrow> git_ok c" "cl_profile c = ProfClaude \<Longrightarrow> claude_ok c"
    using assms by (auto simp: command_ok_def gh_ok_def git_ok_def claude_ok_def)
  then show ?thesis
    using gh push by (cases "cl_profile c") (auto simp: credential_ok_def gh_ok_def git_ok_def claude_ok_def)
qed

end
