(* ===== verification/RunnerOutcome.thy ===== *)
theory RunnerOutcome
  imports RunnerCalls
begin

text \<open>
  What an issue that ends in a pull request went through, and in which state an issue is left.  The
  trace of subprocesses is the witness: after the last time the coding agent could write, every
  step of the tier passed and enough reviewers approved.
\<close>

lemma save_work_result:
  "save_work k w = (Inr (k\<lparr>wk_journal := upsertRun (wk_journal k) (wk_record k)\<rparr>),
     w\<lparr>wd_journal := Some (journal_text (upsertRun (wk_journal k) (wk_record k)))\<rparr>)"
  by (simp add: save_work_def then_io_def bind_io_def writeJournal_io_def update_io_def return_io_def Let_def)

subsection \<open>Approvals in the trace\<close>

definition approving :: "loop_policy \<Rightarrow> review_result \<Rightarrow> bool" where
  "approving p r \<longleftrightarrow> r_status r = Approve \<and> list_all (\<lambda>f. f_severity f < pol_blockingSeverity p) (r_findings r)"

definition approving_call :: "env \<Rightarrow> loop_policy \<Rightarrow> call \<times> (string + run_result) \<Rightarrow> bool" where
  "approving_call env p x = (case snd x of
       Inl _ \<Rightarrow> False
     | Inr res \<Rightarrow> (case interpret_review env res of ReviewOk r _ _ \<Rightarrow> approving p r | ReviewBad _ _ \<Rightarrow> False))"

definition approvals :: "nat \<Rightarrow> env \<Rightarrow> loop_policy \<Rightarrow> world \<Rightarrow> nat" where
  "approvals n env p w = length (filter (approving_call env p) (drop n (wd_calls w)))"

lemma approvals_grow:
  "calls_only ok m \<Longrightarrow> m w = (r, w') \<Longrightarrow> n \<le> length (wd_calls w) \<Longrightarrow> approvals n env p w \<le> approvals n env p w'"
  by (erule (1) calls_onlyE) (simp add: approvals_def)

lemma combine_approve:
  "r_status (combine usable p) \<notin> {Blocked, RequestChanges} \<Longrightarrow> list_all (approving p) usable"
  by (cases "r_status (combine usable p)")
    (auto simp: combine_def aggregate_status approving_def list_all_iff not_le Let_def
      intro: review_status.exhaust split: if_splits)

text \<open>The arguments of the implementer, who is the only one to write.\<close>

definition editing :: "call \<Rightarrow> bool" where
  "editing c \<longleftrightarrow> model_call c \<and> ends_with IMPLEMENT_DISALLOWED (cl_args c)"

locale careful_client = runner_client d "\<lambda>c. \<not> editing c" for d :: runner_deps +
  fixes env :: env
  assumes review_answer: "r \<in> set (de_reviewers d) \<Longrightarrow> ra_review r rt w = (Inr (ReviewOk rv s x), w') \<Longrightarrow>
      \<exists>c res. wd_calls w' = wd_calls w @ [(c, Inr res)] \<and> interpret_review env res = ReviewOk rv s x"
    and review_quiet: "r \<in> set (de_reviewers d) \<Longrightarrow> calls_only (\<lambda>c. \<not> editing c) (ra_review r rt)"
begin

lemma quiet_attempts:
  "r \<in> set (de_reviewers d) \<Longrightarrow> calls_only (\<lambda>c. \<not> editing c) (review_attempts env r task index attempts)"
  by (induction attempts) (auto intro!: calls review_quiet)

lemma quiet_gather: "calls_only (\<lambda>c. \<not> editing c) (gather_from env d task indices)"
  by (induction indices) (auto intro!: calls quiet_attempts simp: reviewer_for_def split: if_splits)

lemma quiet_round_verify: "calls_only (\<lambda>c. \<not> editing c) (round_verify env d c final k)"
  unfolding round_verify_def round_check_def round_verified_def round_review_def gatherReviews_def
  by (intro calls quiet_gather) (simp add: git_args_ok_def)

lemma attempts_approved:
  assumes "r \<in> set (de_reviewers d)" and "review_attempts env r task index attempts w = (Inr (Some rv, fs), w')"
    and "n \<le> length (wd_calls w)"
  shows "approvals n env p w + (if approving p rv then 1 else 0) \<le> approvals n env p w'"
  using assms(2,3)
proof (induction attempts arbitrary: w fs)
  case (Cons a rest)
  from Cons.prems(1) obtain v1 out v2 where
    v1: "budget_io env recordInvocation w = (Inr (), v1)" and out: "ra_review r task v1 = (Inr out, v2)" and
    cont: "(case out of ReviewOk review _ _ \<Rightarrow> return_io (Some review, [])
      | ReviewBad why _ \<Rightarrow> bind_io (review_attempts env r task index rest) (\<lambda>r. return_io (fst r,
          (''Reviewer '' @ dec (index + 1) @ '', attempt '' @ dec (a + 1) @ '': '' @ why) # snd r))) v2 = (Inr (Some rv, fs), w')"
    by (auto simp: then_io_def elim!: bind_cases)
  have same: "wd_calls v1 = wd_calls w" using v1 by (auto simp: budget_io_def split: option.splits)
  show ?case
  proof (cases out)
    case (ReviewOk review s x)
    then have w': "review = rv" "v2 = w'" using cont by (auto simp: return_io_def)
    obtain c res where "wd_calls v2 = wd_calls v1 @ [(c, Inr res)]" "interpret_review env res = ReviewOk rv s x"
      using review_answer [OF assms(1)] out ReviewOk w'(1) by blast
    then show ?thesis
      using Cons.prems(2) same w'(2) by (simp add: approvals_def approving_call_def)
  next
    case (ReviewBad why detail)
    then obtain fs' where more: "review_attempts env r task index rest v2 = (Inr (Some rv, fs'), w')"
      using cont by (auto simp: return_io_def elim!: bind_cases)
    have len: "n \<le> length (wd_calls v1)" using Cons.prems(2) same by simp
    have "approvals n env p v1 \<le> approvals n env p v2" "n \<le> length (wd_calls v2)"
      using approvals_grow [OF review_quiet [OF assms(1)] out len] calls_grow [OF review_quiet [OF assms(1)] out len] by auto
    moreover have "approvals n env p v1 = approvals n env p w" using same by (simp add: approvals_def)
    ultimately show ?thesis using Cons.IH [OF more] by fastforce
  qed
qed (simp add: return_io_def)

lemma gather_approved:
  assumes "gather_from env d task indices w = (Inr (usable, fs), w')" and "n \<le> length (wd_calls w)"
  shows "approvals n env p w + length (filter (approving p) usable) \<le> approvals n env p w'"
  using assms
proof (induction indices arbitrary: w usable fs)
  case (Cons i rest)
  let ?one = "case reviewer_for d i of
      None \<Rightarrow> return_io (None, [''No reviewer is configured for pass '' @ dec (i + 1) @ ''.''])
    | Some reviewer \<Rightarrow> review_attempts env reviewer task i [0..<LOOP_REVIEWER_RETRY_ROUNDS (de_config d)]"
  from Cons.prems(1) obtain a v us gs where a: "?one w = (Inr a, v)" and
    rest: "gather_from env d task rest v = (Inr (us, gs), w')" and
    usable: "usable = (case fst a of Some r \<Rightarrow> [r] | None \<Rightarrow> []) @ us"
    by (auto simp: return_io_def elim!: bind_cases)
  have quiet: "calls_only (\<lambda>c. \<not> editing c) ?one"
    by (auto intro!: calls quiet_attempts simp: reviewer_for_def split: if_splits)
  have len: "n \<le> length (wd_calls v)" by (rule calls_grow [OF quiet a Cons.prems(2)])
  have "approvals n env p w + length (filter (approving p) (case fst a of Some r \<Rightarrow> [r] | None \<Rightarrow> [])) \<le> approvals n env p v"
  proof (cases "fst a")
    case None
    then show ?thesis using approvals_grow [OF quiet a Cons.prems(2)] by simp
  next
    case (Some rv)
    then obtain fs' where a': "a = (Some rv, fs')" by (cases a) auto
    obtain reviewer where rev: "reviewer_for d i = Some reviewer"
      using a a' by (cases "reviewer_for d i") (auto simp: return_io_def)
    then have "reviewer \<in> set (de_reviewers d)" by (auto simp: reviewer_for_def split: if_splits)
    from attempts_approved [OF this, of task i "[0..<LOOP_REVIEWER_RETRY_ROUNDS (de_config d)]" w rv fs' v n p] show ?thesis
      using a a' rev Some Cons.prems(2) by (simp split: if_splits)
  qed
  then show ?case using Cons.IH [OF rest len] usable by simp
qed (simp add: return_io_def)

text \<open>What a settled round leaves behind, after the first \<open>n\<close> calls.\<close>

definition earned :: "nat \<Rightarrow> work_context \<Rightarrow> work \<Rightarrow> world \<Rightarrow> bool" where
  "earned n c k w \<longleftrightarrow> (\<exists>v risk steps. wk_verification k = Some v \<and> wk_risk k = Some risk \<and> vo_ok v
     \<and> stepsForRisk (de_policy d) (ra_risk risk) = Some steps
     \<and> list_all (\<lambda>s. step_applies (verify_options_of d c (ra_risk risk) (wk_files k)) s \<longrightarrow>
          step_ran n (verify_options_of d c (ra_risk risk) (wk_files k)) s w) steps
     \<and> reviewersForRisk (de_policy d) (ra_risk risk) \<le> approvals n env (de_policy d) w)"

lemma earned_grow:
  assumes "earned n c k w" and "calls_only ok m" and "m w = (r, w')" and "n \<le> length (wd_calls w)"
  shows "earned n c k w'"
proof -
  obtain v risk steps where e: "wk_verification k = Some v" "wk_risk k = Some risk" "vo_ok v"
    "stepsForRisk (de_policy d) (ra_risk risk) = Some steps"
    "list_all (\<lambda>s. step_applies (verify_options_of d c (ra_risk risk) (wk_files k)) s \<longrightarrow>
          step_ran n (verify_options_of d c (ra_risk risk) (wk_files k)) s w) steps"
    "reviewersForRisk (de_policy d) (ra_risk risk) \<le> approvals n env (de_policy d) w"
    using assms(1) unfolding earned_def by blast
  have "list_all (\<lambda>s. step_applies (verify_options_of d c (ra_risk risk) (wk_files k)) s \<longrightarrow>
          step_ran n (verify_options_of d c (ra_risk risk) (wk_files k)) s w') steps"
    using e(5) calls_keep_ran [OF assms(2,3)] by (auto simp: list_all_iff)
  then show ?thesis
    using e approvals_grow [OF assms(2-4), of env "de_policy d"] unfolding earned_def by fastforce
qed

lemma round_review_settled:
  assumes "round_review env d c final diff risk k w = (Inr (RoundSettled k'), w')" and "n \<le> length (wd_calls w)"
  shows "reviewersForRisk (de_policy d) (ra_risk risk) \<le> approvals n env (de_policy d) w'
    \<and> wk_verification k' = wk_verification k \<and> wk_risk k' = wk_risk k \<and> wk_files k' = wk_files k"
proof -
  let ?req = "reviewersForRisk (de_policy d) (ra_risk risk)"
  let ?rest = "\<lambda>usable fs. then_io (artifact_io env (reviews_json usable fs))
       (bind_io (iso_io env) (\<lambda>now.
        bind_io (save_work (k\<lparr>wk_record := set_attempt (wk_record k) now PhReview (length usable = ?req)
            (dec (length usable) @ ''/'' @ dec ?req @ '' usable review(s)'')\<rparr>)) (\<lambda>k.
          return_io (review_verdict d final ?req usable fs k))))"
  from assms(1) obtain usable fs v1 where
    g: "gather_from env d (review_task_of c diff (wk_files k)) [0..<?req] w = (Inr (usable, fs), v1)" and
    rest: "?rest usable fs v1 = (Inr (RoundSettled k'), w')"
    unfolding round_review_def Let_def gatherReviews_def by (elim bind_cases) auto
  obtain k1 where k1: "wk_verification k1 = wk_verification k" "wk_risk k1 = wk_risk k" "wk_files k1 = wk_files k"
    "review_verdict d final ?req usable fs k1 = RoundSettled k'"
  proof -
    obtain now v2 v3 k1 where "save_work (k\<lparr>wk_record := set_attempt (wk_record k) now PhReview (length usable = ?req)
          (dec (length usable) @ ''/'' @ dec ?req @ '' usable review(s)'')\<rparr>) v2 = (Inr k1, v3)"
      "review_verdict d final ?req usable fs k1 = RoundSettled k'"
      using rest by (auto simp: then_io_def return_io_def elim!: bind_cases)
    then show thesis by (intro that [of k1]) (auto simp: save_work_result)
  qed
  have len: "\<not> length usable < ?req" and ok: "r_status (combine usable (de_policy d)) \<notin> {Blocked, RequestChanges}"
    and same: "wk_verification k' = wk_verification k" "wk_risk k' = wk_risk k" "wk_files k' = wk_files k"
    using k1 by (auto simp: review_verdict_def Let_def split: if_splits)
  have "calls_only (\<lambda>c. \<not> editing c) (?rest usable fs)" by (intro calls)
  from approvals_grow [OF this rest, of n env "de_policy d"]
  have 1: "n \<le> length (wd_calls v1) \<Longrightarrow> approvals n env (de_policy d) v1 \<le> approvals n env (de_policy d) w'" .
  have 2: "n \<le> length (wd_calls v1)" by (rule calls_grow [OF quiet_gather g assms(2)])
  have "filter (approving (de_policy d)) usable = usable"
    using combine_approve [OF ok] by (simp add: list_all_iff filter_id_conv)
  then have "length usable \<le> approvals n env (de_policy d) v1"
    using gather_approved [OF g assms(2), of "de_policy d"] by simp
  then show ?thesis using len 1 [OF 2] same by simp
qed

lemma round_verified_settled:
  assumes "round_verified env d c final diff risk v k w = (Inr (RoundSettled k'), w')"
  shows "vo_ok v \<and> round_review env d c final diff risk k w = (Inr (RoundSettled k'), w')"
  using assms by (auto simp: round_verified_def return_io_def split: if_splits)

lemma round_check_settled:
  assumes "round_check env d c final diff files risk k w = (Inr (RoundSettled k'), w')" and n: "n \<le> length (wd_calls w)"
  shows "earned n c k' w'"
proof -
  let ?r = "\<lambda>v now. set_attempt ((wk_record k)\<lparr>rr_risk' := Some (ra_risk risk)\<rparr>) now PhVerify (vo_ok v) (take 2000 (formatVerification v))"
  let ?k = "\<lambda>v now. k\<lparr>wk_record := ?r v now, wk_verification := Some v, wk_risk := Some risk, wk_files := files,
    wk_journal := upsertRun (wk_journal k) (?r v now)\<rparr>"
  obtain v now w4 w5 w6 w7 where
    4: "artifact_io env (risk_json risk) w = (Inr (), w4)" and
    5: "verify env (verify_options_of d c (ra_risk risk) files) w4 = (Inr v, w5)" and
    6: "artifact_io env (verification_json v) w5 = (Inr (), w6)" and
    7: "iso_io env w6 = (Inr now, w7)" and
    9: "round_verified env d c final diff risk v (?k v now)
      (w7\<lparr>wd_journal := Some (journal_text (upsertRun (wk_journal k) (?r v now)))\<rparr>) = (Inr (RoundSettled k'), w')"
    using assms(1) unfolding round_check_def then_io_def
    by (elim bind_cases) (auto simp: save_work_result)
  define w8 where "w8 = w7\<lparr>wd_journal := Some (journal_text (upsertRun (wk_journal k) (?r v now)))\<rparr>"
  define k1 where "k1 = ?k v now"
  have 8: "wd_calls w8 = wd_calls w7" and k1: "wk_verification k1 = Some v" "wk_risk k1 = Some risk" "wk_files k1 = files"
    by (simp_all add: w8_def k1_def)
  note 9 = 9 [folded w8_def k1_def]
  have n4: "n \<le> length (wd_calls w4)" by (rule calls_grow [OF calls_artifact 4 n])
  then have "n \<le> length (wd_calls w5)" by (rule calls_grow [OF calls_verify_ok 5])
  then have n6: "n \<le> length (wd_calls w6)" by (rule calls_grow [OF calls_artifact 6])
  then have n8: "n \<le> length (wd_calls w8)" using calls_grow [OF calls_iso 7 n6] 8 by simp
  let ?o = "verify_options_of d c (ra_risk risk) files"
  have all: "vp_only ?o = None" "tierSteps ?o = stepsForRisk (de_policy d) (ra_risk risk)"
    by (simp_all add: verify_options_of_def tierSteps_def or_default_def)
  have ok: "vo_ok v" and 10: "round_review env d c final diff risk k1 w8 = (Inr (RoundSettled k'), w')"
    using round_verified_settled [OF 9] by auto
  obtain steps where steps: "stepsForRisk (de_policy d) (ra_risk risk) = Some steps"
    "list_all (\<lambda>s. step_applies ?o s \<longrightarrow> step_ran n ?o s w5) steps"
    using verify_ran [OF all(1) 5 ok n4] unfolding all(2) by blast
  have "step_ran n ?o s w'" if "step_ran n ?o s w5" for s
  proof -
    have "step_ran n ?o s w6" by (rule calls_keep_ran [OF calls_artifact 6 that])
    then have "step_ran n ?o s w7" by (rule calls_keep_ran [OF calls_iso 7])
    then have "step_ran n ?o s w8" using 8 by (simp add: step_ran_def)
    moreover have "calls_only (\<lambda>c. \<not> editing c) (round_review env d c final diff risk k1)"
      unfolding round_review_def gatherReviews_def by (intro calls quiet_gather)
    ultimately show ?thesis using 10 calls_keep_ran by blast
  qed
  then have "list_all (\<lambda>s. step_applies ?o s \<longrightarrow> step_ran n ?o s w') steps"
    using steps(2) by (auto simp: list_all_iff)
  then show ?thesis
    using round_review_settled [OF 10 n8] k1 ok steps(1) unfolding earned_def by auto
qed

lemma round_verify_settled:
  assumes "round_verify env d c final k w = (Inr (RoundSettled k'), w')" and n: "n \<le> length (wd_calls w)"
  shows "earned n c k' w'"
proof -
  obtain files raw proposed risk w1 w2 w3 where
    1: "changedFiles env (wc_worktree c) (wc_base c) w = (Inr files, w1)" and
    2: "gitIn env (wc_worktree c) [''diff'', wc_base c @ ''...HEAD''] w1 = (Inr raw, w2)" and
    3: "proposedPolicy env (wc_worktree c) (de_policy d) w2 = (Inr proposed, w3)" and
    4: "round_check env d c final (res_stdout raw) files risk k w3 = (Inr (RoundSettled k'), w')"
    using assms(1) unfolding round_verify_def
    by (elim bind_cases) (auto simp: throw_io_def split: option.splits)
  have "n \<le> length (wd_calls w1)" by (rule calls_grow [OF calls_git_ok(1) 1 n])
  then have "n \<le> length (wd_calls w2)" by (rule calls_grow [OF calls_gitIn_ok 2, rotated]) (simp add: git_args_ok_def)
  then have "n \<le> length (wd_calls w3)" by (rule calls_grow [OF calls_proposedPolicy 3])
  then show ?thesis by (rule round_check_settled [OF 4])
qed

text \<open>The calls since the coding agent last wrote.\<close>

lemma work_round_settled:
  assumes "work_round env d c rnd final k w = (Inr (RoundSettled k'), w')"
  shows "\<exists>n. n \<le> length (wd_calls w') \<and> earned n c k' w' \<and> list_all (\<lambda>x. \<not> editing (fst x)) (drop n (wd_calls w'))"
proof -
  let ?r = "\<lambda>coded now. set_attempt ((wk_record k)\<lparr>rr_fixRounds := rnd\<rparr>) now
    (if rnd = 0 then PhImplement else PhFix) (coding_ok coded) (coding_detail coded)"
  let ?j = "\<lambda>coded now. upsertRun (wk_journal k) (?r coded now)"
  obtain coded now w1 w2 w3 w4 w6 where
    2: "ca_implement (de_coding d) (coding_task_of c rnd k) w1 = (Inr coded, w2)" and
    3: "artifact_io env (coding_json coded) w2 = (Inr (), w3)" and
    4: "iso_io env w3 = (Inr now, w4)" and
    6: "try_io (commit_change env c) (w4\<lparr>wd_journal := Some (journal_text (?j coded now))\<rparr>) = (Inr (Inr True), w6)" and
    7: "round_verify env d c final (k\<lparr>wk_record := ?r coded now, wk_journal := ?j coded now\<rparr>) w6 = (Inr (RoundSettled k'), w')"
    using assms unfolding work_round_def then_io_def
    by (elim bind_cases) (auto simp: save_work_result return_io_def elim!: bind_cases
        split: coding_outcome.splits sum.splits bool.splits)
  define w5 where "w5 = w4\<lparr>wd_journal := Some (journal_text (?j coded now))\<rparr>"
  have 5: "wd_calls w5 = wd_calls w4" by (simp add: w5_def)
  note 6 = 6 [folded w5_def]
  let ?n = "length (wd_calls w2)"
  have quiet: "calls_only (\<lambda>c. \<not> editing c) (artifact_io env (coding_json coded))"
    "calls_only (\<lambda>c. \<not> editing c) (iso_io env)" "calls_only (\<lambda>c. \<not> editing c) (try_io (commit_change env c))"
    by (intro calls)+
  obtain a where a: "wd_calls w3 = wd_calls w2 @ a" "list_all (\<lambda>x. \<not> editing (fst x)) a" by (rule calls_onlyE [OF quiet(1) 3])
  obtain b where b: "wd_calls w4 = wd_calls w3 @ b" "list_all (\<lambda>x. \<not> editing (fst x)) b" by (rule calls_onlyE [OF quiet(2) 4])
  obtain e where e: "wd_calls w6 = wd_calls w5 @ e" "list_all (\<lambda>x. \<not> editing (fst x)) e" by (rule calls_onlyE [OF quiet(3) 6])
  obtain f where f: "wd_calls w' = wd_calls w6 @ f" "list_all (\<lambda>x. \<not> editing (fst x)) f"
    by (rule calls_onlyE [OF quiet_round_verify 7])
  have "earned ?n c k' w'" using a b e 5 by (intro round_verify_settled [OF 7]) simp
  then show ?thesis using a b e f 5 by (intro exI [of _ ?n]) simp
qed

lemma work_rounds_settled:
  "work_rounds env d c rs k w = (Inr (RoundSettled k'), w') \<Longrightarrow>
    \<exists>n. n \<le> length (wd_calls w') \<and> earned n c k' w' \<and> list_all (\<lambda>x. \<not> editing (fst x)) (drop n (wd_calls w'))"
proof (induction rs arbitrary: k w)
  case (Cons r rest)
  then obtain out v where out: "work_round env d c r (rest = []) k w = (Inr out, v)"
    "(case out of RoundAgain k' \<Rightarrow> work_rounds env d c rest k' | _ \<Rightarrow> return_io out) v = (Inr (RoundSettled k'), w')"
    by (auto elim!: bind_cases)
  show ?case
  proof (cases out)
    case (RoundSettled k1)
    then show ?thesis using out work_round_settled by (auto simp: return_io_def)
  qed (use out Cons.IH in \<open>auto simp: return_io_def\<close>)
qed (simp add: return_io_def)

text \<open>An issue that ends in a pull request.\<close>

definition earned_outcome :: "work_context \<Rightarrow> issue_outcome \<Rightarrow> world \<Rightarrow> bool" where
  "earned_outcome c out w \<longleftrightarrow> (\<exists>n risk files steps. io_risk out = Some risk
     \<and> stepsForRisk (de_policy d) (ra_risk risk) = Some steps
     \<and> list_all (\<lambda>s. step_applies (verify_options_of d c (ra_risk risk) files) s \<longrightarrow>
          step_ran n (verify_options_of d c (ra_risk risk) files) s w) steps
     \<and> reviewersForRisk (de_policy d) (ra_risk risk) \<le> approvals n env (de_policy d) w
     \<and> list_all (\<lambda>x. \<not> editing (fst x)) (drop n (wd_calls w)))"

lemma work_fail_status:
  "work_fail d c k detail w = (Inr out, w') \<Longrightarrow> io_status out = WorkBlocked"
  by (auto simp: work_fail_def then_io_def return_io_def Let_def elim!: bind_cases)

lemma publish_risk: "publish env d c k v risk w = (Inr out, w') \<Longrightarrow> io_risk out = Some risk"
  by (auto simp: publish_def then_io_def return_io_def Let_def elim!: bind_cases)

lemma push_outcome:
  assumes "push_and_publish env d c k w = (Inr out, w')" and "io_status out \<noteq> WorkBlocked"
  shows "io_risk out = wk_risk k"
  using assms unfolding push_and_publish_def
  by (auto elim!: bind_cases dest: work_fail_status publish_risk split: option.splits sum.splits if_splits)

lemma settled_outcome:
  assumes "push_and_publish env d c k w = (Inr out, w')" and "io_status out \<noteq> WorkBlocked"
    and "n \<le> length (wd_calls w)" and "earned n c k w" and "list_all (\<lambda>x. \<not> editing (fst x)) (drop n (wd_calls w))"
  shows "earned_outcome c out w'"
proof -
  have "earned n c k w'" by (rule earned_grow [OF assms(4) calls_push_and_publish assms(1) assms(3)])
  then obtain risk steps where e: "wk_risk k = Some risk" "stepsForRisk (de_policy d) (ra_risk risk) = Some steps"
    "list_all (\<lambda>s. step_applies (verify_options_of d c (ra_risk risk) (wk_files k)) s \<longrightarrow>
          step_ran n (verify_options_of d c (ra_risk risk) (wk_files k)) s w') steps"
    "reviewersForRisk (de_policy d) (ra_risk risk) \<le> approvals n env (de_policy d) w'"
    unfolding earned_def by blast
  obtain cs where "wd_calls w' = wd_calls w @ cs" "list_all (\<lambda>x. \<not> editing (fst x)) cs"
    by (rule calls_onlyE [OF calls_push_and_publish assms(1)])
  then have "list_all (\<lambda>x. \<not> editing (fst x)) (drop n (wd_calls w'))" using assms(3,5) by simp
  then show ?thesis
    using e push_outcome [OF assms(1,2)] unfolding earned_outcome_def
    by (intro exI [of _ n] exI [of _ risk] exI [of _ "wk_files k"] exI [of _ steps]) simp
qed

lemma work_from_earned:
  assumes "work_from env d c k w = (Inr out, w')" and "io_status out \<noteq> WorkBlocked"
  shows "earned_outcome c out w'"
proof -
  obtain k' v rs k0 v0 where "work_rounds env d c rs k0 v0 = (Inr (RoundSettled k'), v)"
    "push_and_publish env d c k' v = (Inr out, w')"
    using assms unfolding work_from_def Let_def
    by (auto elim!: bind_cases dest!: work_fail_status split: sum.splits if_splits round_outcome.splits)
  then show ?thesis using work_rounds_settled settled_outcome assms(2) by blast
qed

lemma workIssue_earned:
  assumes "workIssue env d i start feedback w = (Inr out, w')" and "io_status out \<noteq> WorkBlocked"
  shows "earned_outcome (context_of env d i start feedback) out w'"
  using assms unfolding workIssue_def Let_def then_io_def
  by (auto elim!: bind_cases intro: work_from_earned)

end

subsection \<open>The reviewers of the command line\<close>

lemma reviewer_never_edits: "\<not> ends_with IMPLEMENT_DISALLOWED (base @ review_args worktree)"
proof
  assume "ends_with IMPLEMENT_DISALLOWED (base @ review_args worktree)"
  then obtain r where "rev (base @ review_args worktree) = rev IMPLEMENT_DISALLOWED @ r"
    unfolding ends_with_def starts_with_iff by blast
  then have "rev (rev (base @ review_args worktree)) = rev (rev IMPLEMENT_DISALLOWED @ r)" by (rule arg_cong)
  then obtain p where "base @ review_args worktree = p @ IMPLEMENT_DISALLOWED"
    unfolding rev_append rev_rev_ident by blast
  then have "last (base @ review_args worktree) = last (p @ IMPLEMENT_DISALLOWED)" by simp
  then have "json_compact REVIEW_JSON_SCHEMA = ''Bash(docker *)''"
    by (simp add: review_args_def IMPLEMENT_DISALLOWED_def)
  then show False by (simp add: REVIEW_JSON_SCHEMA_def typed_def)
qed

lemma quiet_review: "calls_only (\<lambda>c. \<not> editing c) (review_change env opts t)"
  unfolding review_change_def
  by (intro calls) (simp add: editing_def agent_call_def reviewer_never_edits)

lemma review_change_answer:
  assumes "review_change env opts t w = (Inr (ReviewOk rv s x), w')"
  shows "\<exists>c res. wd_calls w' = wd_calls w @ [(c, Inr res)] \<and> interpret_review env res = ReviewOk rv s x"
proof -
  obtain prompt v where v: "review_prompt env t w = (Inr prompt, v)" and
    rest: "bind_io (exec_io env (agent_call opts (baseArgs opts @ review_args (rt_worktree t)) (rt_worktree t) prompt)) (\<lambda>r.
       return_io (interpret_review env r)) v = (Inr (ReviewOk rv s x), w')"
    using assms unfolding review_change_def by (rule bind_cases) simp_all
  have "wd_calls v = wd_calls w"
    using v by (auto simp: review_prompt_def loadTemplate_def Let_def readFile_io_def throw_io_def return_io_def
        elim!: bind_cases split: option.splits)
  then show ?thesis using rest by (auto simp: exec_io_def Let_def return_io_def elim!: bind_cases)
qed

interpretation careful: careful_client "cli_deps env config policy repository repo branch" env
  for env config policy repository repo branch
proof (intro careful_client.intro runner_client.intro runner_client_axioms.intro careful_client_axioms.intro)
  let ?d = "cli_deps env config policy repository repo branch"
  have gh: "de_gh ?d = createGhClient env \<lparr>go_repo = repo, go_cwd = Some repository, go_timeoutMs = None\<rparr>"
    by (simp add: cli_deps_def)
  show "github_client (de_gh ?d) (\<lambda>c. \<not> editing c)"
    unfolding gh by (rule cli_gh.weaken) (simp add: editing_def quiet_calls)
  show "\<not> editing c" if "git_ok c" for c using that by (simp add: editing_def quiet_calls)
  show "\<not> editing c" if "cl_profile c = ProfBase" for c using that by (simp add: editing_def model_call_def)
  show "\<not> editing (install_call worktree)" for worktree by (simp add: editing_def model_call_def install_call_def)
  show "calls_only (\<lambda>c. \<not> editing c) (ra_review r rt)" if "r \<in> set (de_reviewers ?d)" for r rt
    using that quiet_review by (auto simp: cli_deps_def ClaudeCodeReviewAgent_def)
  show "\<exists>c res. wd_calls w' = wd_calls w @ [(c, Inr res)] \<and> interpret_review env res = ReviewOk rv s x"
    if "r \<in> set (de_reviewers ?d)" "ra_review r rt w = (Inr (ReviewOk rv s x), w')" for r rt w rv s x w'
    using that review_change_answer by (auto simp: cli_deps_def ClaudeCodeReviewAgent_def)
qed

end
