(* ===== verification/RunnerSamples.thy ===== *)
theory RunnerSamples
  imports RunnerOutcome
begin

text \<open>
  An outside on which the runner takes an issue to a pull request: every tool succeeds, the agents
  answer, the reviewer approves.  Properties of complete runs are exercised on it.
\<close>

definition lint_step :: tier_step where
  "lint_step = \<lparr>step_name = ''lint'', step_command = ''bun'', step_args = [''run'', ''lint''], step_whenChanged = None,
     step_requires = None, step_requiresProbe = None, step_timeoutMinutes = 10\<rparr>"

definition lint_policy :: loop_policy where
  "lint_policy = \<lparr>pol_retry = \<lparr>maxReviewAttempts = 3, codingFixRounds = 2, reviewFixRounds = 3,
       ciFixRounds = 2, reviewerRetryRounds = 1, conflictRounds = 2\<rparr>,
     pol_risk = \<lparr>risk_default = Low, risk_paths = [], risk_escalations = \<lparr>maxChangedFiles = 50, maxDeletedLines = 500,
         destructiveMigrationGlobs = [], publicContractGlobs = []\<rparr>\<rparr>,
     pol_tiers = (\<lambda>_. \<lparr>tier_inherits = None, tier_steps = [lint_step], tier_reviewers = 1\<rparr>),
     pol_controlPlane = \<lparr>cp_patterns = [], cp_policySignals = [], cp_alwaysPolicy = []\<rparr>,
     pol_blockingSeverity = SHigh, pol_requiredChecks = []\<rparr>"

definition answered :: "nat \<Rightarrow> string \<Rightarrow> run_result" where
  "answered code out = \<lparr>res_code = code, res_stdout = out, res_stderr = [], res_timedOut = False\<rparr>"

definition sample_answer :: "call \<Rightarrow> run_result" where
  "sample_answer c =
     (if cl_command c = ''claude'' then answered 0
        ''{\"type\":\"result\",\"is_error\":false,\"result\":\"done\",\"structured_output\":{}}''
      else if cl_command c = ''gh'' then answered 0
        (if take 2 (cl_args c) = [''pr'', ''create''] then ''https://github.com/o/r/pull/7''
         else if take 2 (cl_args c) = [''pr'', ''list''] then ''[]'' else [])
      else if cl_args c = [''diff'', ''--cached'', ''--quiet''] then answered 1 []
      else answered 0 [])"

definition sample_outside :: env where
  "sample_outside = \<lparr>en_exec = (\<lambda>_ c. Inr (sample_answer c)), en_now = (\<lambda>_. 0), en_iso = (\<lambda>_. ''t''),
     en_readFile = (\<lambda>_ _. Some []), en_which = (\<lambda>_ c. Some c), en_source = Map.empty, en_cwd = ''/r'',
     en_stopping = (\<lambda>_. False), en_nfkd = id, en_localeCompare = (\<lambda>_ _. False), en_syntaxMessage = (\<lambda>_. []),
     en_issues = (\<lambda>_ _. []),
     en_safeParseReview = (\<lambda>_. Inr \<lparr>r_status = Approve, r_findings = [], r_summary = ''fine''\<rparr>),
     en_safeParsePolicy = (\<lambda>_. Inl [])\<rparr>"

definition fresh_world :: world where
  "fresh_world = \<lparr>wd_calls = [], wd_ticks = 0, wd_journal = None, wd_lock = None, wd_budget = None\<rparr>"

definition sample_issue :: issue_summary where
  "sample_issue = \<lparr>is_number = 1, is_title = ''a'', is_state = IssueOpen, is_labels = [], is_body = None\<rparr>"

abbreviation sample_deps :: runner_deps where
  "sample_deps \<equiv> cli_deps sample_outside default_config lint_policy ''/r'' ''o/r'' ''main''"

subsection \<open>Runs that end well\<close>

text \<open>\<open>reaches P m\<close>: from every world, \<open>m\<close> ends without an exception and with a value in \<open>P\<close>.\<close>

definition reaches :: "('a \<Rightarrow> bool) \<Rightarrow> 'a io \<Rightarrow> bool" where
  "reaches P m \<longleftrightarrow> (\<forall>w. \<exists>x w'. m w = (Inr x, w') \<and> P x)"

named_theorems reach \<open>good ends along the structure of a computation\<close>

lemma reaches_bind: "reaches Q m \<Longrightarrow> (\<And>x. Q x \<Longrightarrow> reaches P (f x)) \<Longrightarrow> reaches P (bind_io m f)"
  unfolding reaches_def bind_io_def by (metis (mono_tags, lifting) case_prod_conv sum.case(2))

lemma reaches_then: "reaches Q m \<Longrightarrow> reaches P k \<Longrightarrow> reaches P (then_io m k)"
  unfolding then_io_def by (rule reaches_bind)

lemma reaches_return: "P x \<Longrightarrow> reaches P (return_io x)"
  by (simp add: reaches_def return_io_def)

lemma reaches_update: "reaches (\<lambda>_. True) (update_io f)" "reaches (\<lambda>_. True) (writeJournal_io j)"
  "reaches (\<lambda>_. True) readJournal_io" "reaches (\<lambda>_. True) (budget_io env g)"
  by (simp_all add: reaches_def update_io_def writeJournal_io_def readJournal_io_def get_io_def budget_io_def split: option.split)

lemma reaches_now: "reaches (\<lambda>t. t = 0) (now_io sample_outside)" "reaches (\<lambda>_. True) (iso_io env)"
  by (simp_all add: reaches_def now_io_def iso_io_def bind_io_def return_io_def sample_outside_def)

lemma reaches_exec: "reaches (\<lambda>r. r = sample_answer c) (exec_io sample_outside c)"
  by (simp add: reaches_def exec_io_def sample_outside_def Let_def)

lemma reaches_try: "reaches (\<lambda>x. P (Inr x)) m \<Longrightarrow> reaches P (try_io m)"
  unfolding reaches_def try_io_def catch_io_def bind_io_def return_io_def
  by (metis (mono_tags, lifting) case_prod_conv sum.case(2))

lemma reaches_mono: "reaches Q m \<Longrightarrow> (\<And>x. Q x \<Longrightarrow> P x) \<Longrightarrow> reaches P m"
  unfolding reaches_def by metis

lemma reaches_if: "(c \<Longrightarrow> reaches P m) \<Longrightarrow> (\<not> c \<Longrightarrow> reaches P k) \<Longrightarrow> reaches P (if c then m else k)"
  by simp

subsection \<open>The tools\<close>

lemma sample_gh: "cl_command c = ''gh'' \<Longrightarrow> res_code (sample_answer c) = 0"
  by (simp add: sample_answer_def answered_def)

lemma reaches_gh: "reaches (\<lambda>s. s = res_stdout (sample_answer (gh_call opts args stdin))) (gh_io sample_outside opts args stdin)"
  unfolding gh_io_def
  by (rule reaches_bind [OF reaches_exec]) (simp add: sample_gh gh_call_def reaches_return)

lemma reaches_labels:
  "reaches (\<lambda>_. True) (client_addLabels sample_outside opts n [l])"
  "reaches (\<lambda>_. True) (client_removeLabel sample_outside opts n l)"
  "reaches (\<lambda>_. True) (client_enableAutoMerge sample_outside opts n)"
  unfolding client_addLabels_def client_removeLabel_def client_enableAutoMerge_def
  by (auto intro!: reaches_then [OF reaches_gh] reaches_bind [OF reaches_exec] reaches_return
      simp: sample_gh gh_call_def)

lemma reaches_ignore: "reaches (\<lambda>_. True) m \<Longrightarrow> reaches (\<lambda>_. True) (ignore_io m)"
  unfolding reaches_def ignore_io_def catch_io_def bind_io_def return_io_def
  by (metis (mono_tags, lifting) case_prod_conv sum.case(2))

lemma reaches_branch: "reaches (\<lambda>x. x = None) (client_pullRequestForBranch sample_outside opts br)"
proof -
  have "res_stdout (sample_answer (gh_call opts ([''pr'', ''list''] @ rest) None)) = ''[]''" for rest
    by (simp add: sample_answer_def gh_call_def answered_def)
  moreover have "json_parse ''[]'' = Some (JArr [])" by code_simp
  ultimately show ?thesis
    unfolding client_pullRequestForBranch_def
    by (intro reaches_bind [OF reaches_gh] reaches_bind [of "\<lambda>l. l = []"])
      (auto intro!: reaches_return simp: parse_gh_def as_any_array_def)
qed

lemma reaches_create: "reaches (\<lambda>n. n = 7) (client_createPullRequest sample_outside opts q)"
proof -
  have out: "res_stdout (sample_answer (gh_call opts (create_args opts q) stdin)) = ''https://github.com/o/r/pull/7''" for stdin
    by (simp add: sample_answer_def gh_call_def answered_def create_args_def)
  have "exec_group noflags PULL_URL 1 (trim ''https://github.com/o/r/pull/7'') = Some ''7''" "undec ''7'' = 7" by code_simp+
  then show ?thesis
    unfolding client_createPullRequest_def
    by (intro reaches_bind [OF reaches_gh]) (simp add: out reaches_return)
qed

lemma reaches_git: "reaches (\<lambda>r. r = sample_answer \<lparr>cl_command = ''git'', cl_args = args, cl_cwd = Some cwd, cl_stdin = None,
     cl_timeoutMs = Some 300000, cl_profile = ProfGit\<rparr>) (gitIn sample_outside cwd args)"
  unfolding gitIn_def by (rule reaches_exec)

lemma sample_git: "cl_command c = ''git'' \<Longrightarrow> cl_args c \<noteq> [''diff'', ''--cached'', ''--quiet''] \<Longrightarrow>
    sample_answer c = answered 0 []"
  by (simp add: sample_answer_def)

lemma reaches_expect_git:
  assumes "args \<noteq> [''diff'', ''--cached'', ''--quiet'']"
  shows "reaches (\<lambda>s. s = []) (expect_git sample_outside cwd args)"
proof -
  have "trim [] = []" by code_simp
  then show ?thesis
    using assms unfolding expect_git_def
    by (intro reaches_bind [OF reaches_git]) (simp add: sample_git answered_def reaches_return)
qed

lemma reaches_push: "isAgentBranch br \<Longrightarrow> reaches (\<lambda>r. res_code r = 0) (pushBranch sample_outside cwd remote br)"
  unfolding pushBranch_def by (simp, rule reaches_mono [OF reaches_git]) (simp add: sample_git answered_def)

lemma reaches_commit: "reaches (\<lambda>b. b) (commitAll sample_outside cwd message)"
  unfolding commitAll_def
  by (intro reaches_then [OF reaches_expect_git] reaches_bind [OF reaches_git])
    (auto simp: sample_answer_def answered_def intro!: reaches_then [OF reaches_expect_git] reaches_return)

lemma reaches_changed: "reaches (\<lambda>fs. fs = []) (changedFiles sample_outside cwd base)"
  unfolding changedFiles_def by (intro reaches_bind [OF reaches_expect_git]) (simp_all add: reaches_return)

lemma reaches_prepare:
  assumes "isAgentBranch (wc_branch c)"
  shows "reaches (\<lambda>_. True) (prepare_worktree sample_outside d c)"
proof -
  have "js_number (trim []) = Some 0" by code_simp
  then show ?thesis
    using assms
    unfolding prepare_worktree_def fetchBase_def ensureWorktree_def rebaseOntoBase_def
    by (intro reaches_then reaches_then [OF reaches_expect_git] reaches_return)
      (auto simp: sample_git answered_def Let_def intro!: reaches_bind [OF reaches_git] reaches_then [OF reaches_expect_git]
         reaches_return reaches_if)
qed

subsection \<open>The agents\<close>

lemma sample_invocation:
  "interpretInvocation 0 ''{\"type\":\"result\",\"is_error\":false,\"result\":\"done\",\"structured_output\":{}}'' [] False =
     InvokeOk \<lparr>cr_is_error = False, cr_result = Some ''done'', cr_session_id = None, cr_total_cost_usd = None,
       cr_structured_output = Some (JObj [])\<rparr>"
  by code_simp

lemma reaches_readFile: "reaches (\<lambda>t. t = Some []) (readFile_io sample_outside path)"
  by (simp add: reaches_def readFile_io_def sample_outside_def)

lemma reaches_template: "reaches (\<lambda>t. t = []) (loadTemplate sample_outside name)"
  unfolding loadTemplate_def Let_def by (rule reaches_bind [OF reaches_readFile]) (simp add: reaches_return)

lemma reaches_implement: "reaches (\<lambda>x. x = CodeOk ''done'' None None) (implement sample_outside opts t)"
proof -
  have prompt: "reaches (\<lambda>_. True) (if ct_round t = 0 then implementPrompt sample_outside t else fixPrompt sample_outside t)"
    unfolding implementPrompt_def fixPrompt_def by (intro reaches_if reaches_bind [OF reaches_template] reaches_return TrueI)
  have "take 8000 (redact ''done'') = ''done''" by code_simp
  then show ?thesis
    unfolding implement_def
    by (intro reaches_bind [OF prompt] reaches_bind [OF reaches_exec])
      (simp add: sample_answer_def agent_call_def answered_def sample_invocation or_default_def reaches_return)
qed

definition fine_review :: review_result where
  "fine_review = \<lparr>r_status = Approve, r_findings = [], r_summary = ''fine''\<rparr>"

lemma reaches_review: "reaches (\<lambda>x. x = ReviewOk fine_review None None) (review_change sample_outside opts t)"
proof -
  have prompt: "reaches (\<lambda>_. True) (review_prompt sample_outside t)"
    unfolding review_prompt_def by (intro reaches_bind [OF reaches_template] reaches_return TrueI)
  have "parseReviewResult (en_safeParseReview sample_outside) (JObj []) = ParseOk fine_review"
    by code_simp
  then show ?thesis
    unfolding review_change_def
    by (intro reaches_bind [OF prompt] reaches_bind [OF reaches_exec])
      (simp add: sample_answer_def agent_call_def answered_def interpret_review_def sample_invocation extractReview_def
        reaches_return)
qed

subsection \<open>A round\<close>

definition default_risk :: risk_assessment where
  "default_risk = \<lparr>ra_risk = Low, ra_reasons = [\<lparr>rr_risk = Low, rr_source = RDefault, rr_detail = ''policy default''\<rparr>],
     ra_controlPlane = Some \<lparr>cs_affected = False, cs_policyBearing = False, cs_reasons = []\<rparr>\<rparr>"

definition lint_passed :: step_result where
  "lint_passed = \<lparr>vs_name = ''lint'', vs_outcome = StepPassed, vs_ok = True, vs_durationMs = 0, vs_output = []\<rparr>"

definition fine_verification :: verification where
  "fine_verification = verification_of Low [lint_passed]"

lemma sample_risk:
  "classifyRiskMonotonic (en_localeCompare sample_outside) (parseUnifiedDiff []) [] lint_policy None = Some default_risk"
  by code_simp

lemma sample_steps: "stepsForRisk lint_policy Low = Some [lint_step]"
  unfolding stepsForRisk_def by (subst collect.simps) (simp add: lint_policy_def add_step_def lint_step_def)

lemma reaches_artifact:
  "reaches (\<lambda>_. True) (artifact_io sample_outside (coding_json (CodeOk ''done'' None None)))"
  "reaches (\<lambda>_. True) (artifact_io sample_outside (risk_json default_risk))"
  "reaches (\<lambda>_. True) (artifact_io sample_outside (verification_json fine_verification))"
  "reaches (\<lambda>_. True) (artifact_io sample_outside (reviews_json [fine_review] []))"
proof -
  have "redactJson (coding_json (CodeOk ''done'' None None)) \<noteq> None" "redactJson (risk_json default_risk) \<noteq> None"
    "redactJson (verification_json fine_verification) \<noteq> None" "redactJson (reviews_json [fine_review] []) \<noteq> None"
    by (subst redactJson_quiet; code_simp)+
  then show "reaches (\<lambda>_. True) (artifact_io sample_outside (coding_json (CodeOk ''done'' None None)))"
    "reaches (\<lambda>_. True) (artifact_io sample_outside (risk_json default_risk))"
    "reaches (\<lambda>_. True) (artifact_io sample_outside (verification_json fine_verification))"
    "reaches (\<lambda>_. True) (artifact_io sample_outside (reviews_json [fine_review] []))"
    by (auto simp: artifact_io_def intro: reaches_return)
qed

lemma reaches_verify: "reaches (\<lambda>v. v = fine_verification) (verify sample_outside (verify_options_of sample_deps c Low files))"
proof -
  have tier: "tierSteps (verify_options_of sample_deps c Low files) = Some [lint_step]"
    by (simp add: tierSteps_def verify_options_of_def or_default_def cli_deps_def sample_steps)
  have out: "take_last OUTPUT_TAIL_CHARACTERS (redact (trim ([] @ [CHR 0x0A] @ []))) = []" by code_simp
  have call: "sample_answer (step_call opts lint_step) = answered 0 []" for opts
    by (simp add: sample_answer_def step_call_def lint_step_def)
  have name: "step_name lint_step = ''lint''" by (simp add: lint_step_def)
  have "reaches (\<lambda>r. r = lint_passed) (run_step sample_outside opts lint_step)" for opts
    unfolding run_step_def
    by (intro reaches_bind [OF reaches_now(1)] reaches_bind [OF reaches_exec] reaches_return)
      (simp add: call name answered_def step_passed_def step_record_def lint_passed_def out [simplified])
  then have "reaches (\<lambda>r. r = Some lint_passed) (verify_step sample_outside (verify_options_of sample_deps c Low files) lint_step)"
    unfolding verify_step_def probed_step_def
    by (auto simp: verify_options_of_def step_applies_def lint_step_def intro!: reaches_bind reaches_return)
  then have "reaches (\<lambda>rs. rs = [lint_passed]) (verify_steps sample_outside (verify_options_of sample_deps c Low files) [lint_step])"
    by (auto simp: lint_passed_def intro!: reaches_bind [of "\<lambda>rs. rs = []"] reaches_return elim!: reaches_bind)
  then show ?thesis
    unfolding verify_def tier
    by (auto simp: fine_verification_def verify_options_of_def or_default_def intro!: reaches_return elim!: reaches_bind)
qed

lemma reaches_attempts:
  "reaches (\<lambda>x. x = (Some fine_review, []))
     (review_attempts sample_outside (ClaudeCodeReviewAgent sample_outside opts) task i (a # as))"
  unfolding review_attempts.simps
proof (rule reaches_then [OF reaches_update(4)], rule reaches_bind)
  show "reaches (\<lambda>x. x = ReviewOk fine_review None None) (ra_review (ClaudeCodeReviewAgent sample_outside opts) task)"
    unfolding ClaudeCodeReviewAgent_def review_agent.select_convs by (rule reaches_review)
qed (simp add: reaches_return)

lemma reaches_gather: "reaches (\<lambda>x. x = ([fine_review], [])) (gatherReviews sample_outside sample_deps 1 task)"
proof -
  have rev: "reviewer_for sample_deps 0 = Some (ClaudeCodeReviewAgent sample_outside
      (agent_options default_config (LOOP_AGENT_MODEL default_config)))"
    by (simp add: reviewer_for_def cli_deps_def)
  have tries: "[0..<LOOP_REVIEWER_RETRY_ROUNDS (de_config sample_deps)] = 0 # [1]"
    by (simp add: cli_deps_def default_config_def upt_rec)
  have "reaches (\<lambda>x. x = ([fine_review], [])) (gather_from sample_outside sample_deps task (0 # []))"
    unfolding gather_from.simps rev option.case tries
    by (rule reaches_bind [OF reaches_attempts], rule reaches_bind [of "\<lambda>x. x = ([], [])"])
      (simp_all add: reaches_return)
  then show ?thesis by (simp add: gatherReviews_def)
qed

lemma reaches_save: "reaches (\<lambda>k'. \<exists>j. k' = k\<lparr>wk_journal := j\<rparr>) (save_work k)"
  by (auto simp: reaches_def save_work_result)

definition settled_work :: "round_outcome \<Rightarrow> bool" where
  "settled_work out \<longleftrightarrow> (\<exists>k. out = RoundSettled k \<and> wk_verification k = Some fine_verification \<and> wk_risk k = Some default_risk)"

lemma fine_verdict: "r_status (combine [fine_review] lint_policy) = Approve"
  by code_simp

lemma fine_ok: "vo_ok fine_verification" "vo_unavailable fine_verification = []"
  by code_simp+

lemma reaches_round_review:
  assumes "wk_verification k = Some fine_verification" and "wk_risk k = Some default_risk"
  shows "reaches settled_work (round_review sample_outside sample_deps c final diff default_risk k)"
proof -
  have one: "reviewersForRisk (de_policy sample_deps) (ra_risk default_risk) = 1"
    by (simp add: reviewersForRisk_def cli_deps_def lint_policy_def)
  have "settled_work (review_verdict sample_deps final 1 [fine_review] [] k')"
    if "wk_verification k' = Some fine_verification" "wk_risk k' = Some default_risk" for k'
    using that fine_verdict by (simp add: settled_work_def review_verdict_def cli_deps_def Let_def)
  then show ?thesis
    unfolding round_review_def one Let_def
    by (intro reaches_bind [OF reaches_gather])
      (auto simp: assms intro!: reaches_then [OF reaches_artifact(4)] reaches_bind [OF reaches_now(2)]
        reaches_bind [OF reaches_save] reaches_return)
qed


lemma reaches_round_check:
  "reaches settled_work (round_check sample_outside sample_deps c final diff files default_risk k)"
proof -
  have low: "ra_risk default_risk = Low" by (simp add: default_risk_def)
  have "reaches settled_work (round_verified sample_outside sample_deps c final diff default_risk fine_verification k')"
    if "wk_verification k' = Some fine_verification" "wk_risk k' = Some default_risk" for k'
    unfolding round_verified_def using that by (simp add: fine_ok reaches_round_review)
  then show ?thesis
    unfolding round_check_def low
    by (auto intro!: reaches_then [OF reaches_artifact(2)] reaches_bind [OF reaches_verify]
        reaches_then [OF reaches_artifact(3)] reaches_bind [OF reaches_now(2)] reaches_bind [OF reaches_save])
qed

lemma reaches_round_verify:
  assumes "is_labels (wc_issue c) = []"
  shows "reaches settled_work (round_verify sample_outside sample_deps c final k)"
proof -
  have diff: "sample_answer \<lparr>cl_command = ''git'', cl_args = [''diff'', b @ ''...HEAD''], cl_cwd = d, cl_stdin = None,
      cl_timeoutMs = t, cl_profile = ProfGit\<rparr> = answered 0 []" for b d t
    by (rule sample_git) simp_all
  have policy: "reaches (\<lambda>p. p = None) (proposedPolicy sample_outside tree p)" for tree p
  proof -
    have "json_parse [] = None" by code_simp
    then show ?thesis unfolding proposedPolicy_def by (intro reaches_bind [OF reaches_readFile]) (simp add: reaches_return)
  qed
  have "de_policy sample_deps = lint_policy" by (simp add: cli_deps_def)
  then show ?thesis
    unfolding round_verify_def
    by (intro reaches_bind [OF reaches_changed] reaches_bind [OF reaches_git] reaches_bind [OF policy])
      (simp add: diff [simplified] answered_def assms sample_risk reaches_round_check)
qed

lemma reaches_work_round:
  assumes "is_labels (wc_issue c) = []"
  shows "reaches settled_work (work_round sample_outside sample_deps c rnd final k)"
proof -
  have code: "ca_implement (de_coding sample_deps) = implement sample_outside (agent_options default_config (LOOP_AGENT_MODEL default_config))"
    by (simp add: cli_deps_def ClaudeCodeCodingAgent_def)
  have "reaches (\<lambda>x. x = Inr True) (try_io (commit_change sample_outside c))"
    unfolding commit_change_def
    by (intro reaches_try reaches_bind [OF reaches_commit]) (simp add: reaches_return)
  then show ?thesis
    unfolding work_round_def code
    by (auto intro!: reaches_then [OF reaches_update(4)] reaches_bind [OF reaches_implement]
        reaches_then [OF reaches_artifact(1)] reaches_bind [OF reaches_now(2)] reaches_bind [OF reaches_save]
        reaches_round_verify assms elim!: reaches_bind)
qed

subsection \<open>The issue\<close>

lemma sample_gh_deps:
  "gh_addLabels (de_gh sample_deps) = client_addLabels sample_outside \<lparr>go_repo = ''o/r'', go_cwd = Some ''/r'', go_timeoutMs = None\<rparr>"
  "gh_removeLabel (de_gh sample_deps) = client_removeLabel sample_outside \<lparr>go_repo = ''o/r'', go_cwd = Some ''/r'', go_timeoutMs = None\<rparr>"
  "gh_enableAutoMerge (de_gh sample_deps) = client_enableAutoMerge sample_outside \<lparr>go_repo = ''o/r'', go_cwd = Some ''/r'', go_timeoutMs = None\<rparr>"
  "gh_pullRequestForBranch (de_gh sample_deps) = client_pullRequestForBranch sample_outside \<lparr>go_repo = ''o/r'', go_cwd = Some ''/r'', go_timeoutMs = None\<rparr>"
  "gh_createPullRequest (de_gh sample_deps) = client_createPullRequest sample_outside \<lparr>go_repo = ''o/r'', go_cwd = Some ''/r'', go_timeoutMs = None\<rparr>"
  by (simp_all add: cli_deps_def createGhClient_def)

lemma reaches_publish:
  "reaches (\<lambda>out. io_status out = WorkOpened) (publish sample_outside sample_deps c k v risk)"
proof -
  have "reaches (\<lambda>x. x = (7, WorkOpened)) (open_request sample_deps c k v risk)"
    unfolding open_request_def sample_gh_deps
    by (intro reaches_bind [OF reaches_branch]) (auto intro!: reaches_bind [OF reaches_create] reaches_return)
  then show ?thesis
    unfolding publish_def sample_gh_deps Let_def
    by (rule reaches_bind)
      (auto intro!: reaches_bind [OF reaches_now(2)] reaches_bind [OF reaches_save] reaches_then [OF reaches_labels(2)]
        reaches_then [OF reaches_labels(1)] reaches_then [OF reaches_ignore [OF reaches_labels(3)]] reaches_return)
qed

lemma sample_opens:
  "reaches (\<lambda>out. io_status out = WorkOpened) (workIssue sample_outside sample_deps sample_issue 0 None)"
proof -
  let ?c = "context_of sample_outside sample_deps sample_issue 0 None"
  have agent: "isAgentBranch (wc_branch ?c)" by (simp add: context_of_def branchName_agent)
  have labels: "is_labels (wc_issue ?c) = []" by (simp add: context_of_def sample_issue_def)
  have rounds: "reaches settled_work (work_rounds sample_outside sample_deps ?c
      [wc_startRound ?c..<LOOP_CODING_FIX_ROUNDS (de_config sample_deps)] k)" for k
  proof -
    have "[wc_startRound ?c..<LOOP_CODING_FIX_ROUNDS (de_config sample_deps)] = 0 # [1, 2]"
      by (simp add: context_of_def cli_deps_def default_config_def upt_rec)
    then show ?thesis
      using reaches_work_round [OF labels] by (auto simp: settled_work_def intro!: reaches_bind reaches_return)
  qed
  have pushed: "reaches (\<lambda>x. \<exists>r. x = Inr r \<and> res_code r = 0) (try_io (pushBranch sample_outside tree remote (wc_branch ?c)))"
    for tree remote
    by (rule reaches_try, rule reaches_mono [OF reaches_push [OF agent]]) simp
  have prepared: "reaches (\<lambda>x. \<exists>r. x = Inr r) (try_io (prepare_worktree sample_outside sample_deps ?c))"
    by (rule reaches_try, rule reaches_mono [OF reaches_prepare [OF agent]]) simp
  have published: "reaches (\<lambda>out. io_status out = WorkOpened) (push_and_publish sample_outside sample_deps ?c k)"
    if "wk_verification k = Some fine_verification" "wk_risk k = Some default_risk" for k
    unfolding push_and_publish_def that option.case prod.case
    by (rule reaches_bind [OF pushed]) (auto intro: reaches_publish)
  have start: "\<not> LOOP_CODING_FIX_ROUNDS (de_config sample_deps) \<le> wc_startRound ?c"
    by (simp add: context_of_def cli_deps_def default_config_def)
  have install: "res_code (sample_answer (install_call t)) = 0" for t
    by (simp add: sample_answer_def install_call_def INSTALL_STEP_def answered_def)
  have claimed: "reaches (\<lambda>_. True) (claim_record sample_outside ?c j)" for j
    unfolding claim_record_def
    by (intro reaches_bind [of "\<lambda>_. True"] reaches_return TrueI)
      (auto split: option.split intro!: reaches_bind [OF reaches_now(2)] reaches_return)
  have "reaches (\<lambda>out. io_status out = WorkOpened) (work_from sample_outside sample_deps ?c k)" for k
    unfolding work_from_def Let_def
  proof (rule reaches_bind [OF prepared], elim exE, simp only: sum.case, rule reaches_bind [OF reaches_exec])
  qed (simp add: install start, rule reaches_bind [OF rounds], auto simp: settled_work_def intro: published)
  then show ?thesis
    unfolding workIssue_def Let_def sample_gh_deps
    by (intro reaches_then [OF reaches_labels(1)] reaches_then [OF reaches_labels(2)] reaches_bind [OF reaches_update(3)]
        reaches_bind [OF claimed] reaches_bind [OF reaches_save])
qed

lemma sample_outcome:
  "\<exists>out w'. workIssue sample_outside sample_deps sample_issue 0 None fresh_world = (Inr out, w')
     \<and> io_status out = WorkOpened"
  using sample_opens unfolding reaches_def by blast

end
