(* ===== verification/RunnerProperties.thy ===== *)
theory RunnerProperties
  imports Branch RunSummary Redact Lock Effects
begin

text \<open>
  Properties of the local runner's parts: its names, its journal, its limits, its lock and what it
  publishes.
\<close>

section \<open>Names\<close>

text \<open>C14. Every branch the runner makes up for an issue, whatever the title is, is one it is allowed to
  push to, and different issues never share a branch or a worktree.\<close>
theorem own_branches:
  assumes "n \<noteq> m"
  shows "isAgentBranch (branchName nfkd n t) \<and> branchName nfkd n t \<noteq> branchName nfkd m u
    \<and> worktreeName n \<noteq> worktreeName m"
proof -
  have "worktreeName n \<noteq> worktreeName m"
    using assms by (metis append_same_eq same_append_eq undec_dec worktreeName_def)
  then show ?thesis using assms branchName_agent branchName_inj by blast
qed

lemma own_branches_witness: "branchName id 1 ''a'' \<noteq> branchName id 2 ''a'' \<and> worktreeName 1 \<noteq> worktreeName 2"
  using own_branches [of 1 2 id "''a''" "''a''"] by simp

section \<open>The journal\<close>

text \<open>C15. Reading a written journal gives it back exactly when it satisfies the limits of the schema,
  and the empty journal otherwise.\<close>
theorem journal_roundtrip:
  "readJournal (Some (journal_text j)) = (if journal_ok j then j else emptyJournal)"
  by (rule read_written)

text \<open>Whatever is stored, in any order, the journal has at most one record for an issue and at most
  200 records, and the record stored last is the one that is found.\<close>
theorem journal_keyed:
  "distinct (map rr_issue (jo_runs (fold (\<lambda>r j. upsertRun j r) rs emptyJournal)))
   \<and> length (jo_runs (fold (\<lambda>r j. upsertRun j r) rs emptyJournal)) \<le> 200
   \<and> findRun (upsertRun j r) (rr_issue r) = Some r"
proof -
  have "distinct (map rr_issue (jo_runs j)) \<and> length (jo_runs j) \<le> 200 \<Longrightarrow>
      distinct (map rr_issue (jo_runs (fold (\<lambda>r j. upsertRun j r) rs j)))
      \<and> length (jo_runs (fold (\<lambda>r j. upsertRun j r) rs j)) \<le> 200" for j
  proof (induction rs arbitrary: j)
    case (Cons r rs)
    have "length (jo_runs (upsertRun j r)) \<le> 200" by (simp add: upsertRun_def Let_def)
    then show ?case using Cons.IH [of "upsertRun j r"] Cons.prems runs.put_distinct [of j r] by simp
  qed simp
  from this [of emptyJournal] show ?thesis
    using runs.lookup_put [of r j] by (simp add: emptyJournal_def findRun_lookup)
qed

text \<open>A title that is one long word is not cut at \<open>MAX_SLUG_LENGTH\<close>, so the branch of a record can
  be longer than the schema of the journal allows, and the journal written with that record reads
  back as the empty one: every record is lost.\<close>
theorem long_title_loses_journal:
  assumes "list_all (\<lambda>c. is_lower c \<or> is_digit c) w" and "255 < length w" and "to_lower (nfkd t) = w"
    and "r \<in> set (jo_runs j)" and "rr_branch r = branchName nfkd n t"
  shows "readJournal (Some (journal_text j)) = emptyJournal"
proof -
  have "length (rr_branch r) > 255"
    using assms(2,5) long_word_uncut [of w nfkd t] assms(1,3) by (simp add: branchName_def)
  then have "\<not> journal_ok j" using assms(4) by (force simp: journal_ok_def list_all_iff run_ok_def)
  then show ?thesis by (simp add: read_written)
qed

definition sample_run :: "nat \<Rightarrow> string \<Rightarrow> run_record" where
  "sample_run n b = \<lparr>rr_issue = n, rr_branch = b, rr_worktree = ''w'', rr_startedAt = ''t'', rr_updatedAt = ''t'',
     rr_status = InProgress, rr_fixRounds = 0, rr_ciRounds = 0, rr_conflictRounds = 0, rr_pullRequest = None,
     rr_risk' = None, rr_attempts = []\<rparr>"

lemma long_title_loses_journal_witness:
  "readJournal (Some (journal_text \<lparr>jo_runs = [sample_run 1 ''agent/issue-1-ok'',
     sample_run 2 (branchName id 2 (replicate 256 (CHR ''a'')))]\<rparr>)) = emptyJournal"
proof -
  let ?w = "replicate 256 (CHR ''a'')"
  have "list_all (\<lambda>c. is_lower c \<or> is_digit c) ?w" by (simp add: list_all_iff is_lower_def in_range_def)
  moreover have "to_lower (id ?w) = ?w" by (simp add: lower_char_def is_upper_def in_range_def)
  ultimately show ?thesis
    using long_title_loses_journal [of ?w id ?w "sample_run 2 (branchName id 2 ?w)"
      "\<lparr>jo_runs = [sample_run 1 ''agent/issue-1-ok'', sample_run 2 (branchName id 2 ?w)]\<rparr>" 2]
    by (simp add: sample_run_def)
qed

section \<open>Limits\<close>

text \<open>The budget lets the runner go on exactly while every enabled limit has room: invocations in
  the last hour, issues in the last day, hours since the start.  Forgetting old entries never
  changes the answer.\<close>
theorem budget_exact:
  "fst (budget_check c now b) = None \<longleftrightarrow>
    (LOOP_MAX_MODEL_INVOCATIONS_PER_HOUR c = 0 \<or>
       within_window now (bu_invocations b) hour_ms < LOOP_MAX_MODEL_INVOCATIONS_PER_HOUR c)
  \<and> (LOOP_MAX_ISSUES_PER_DAY c = 0 \<or> within_window now (bu_issues b) day_ms < LOOP_MAX_ISSUES_PER_DAY c)
  \<and> (LOOP_MAX_RUNTIME_HOURS c = 0 \<or> now - bu_startedAt b < int (LOOP_MAX_RUNTIME_HOURS c) * hour_ms)"
  by (rule budget_free)

text \<open>Backing off after the \<open>n\<close>th consecutive failure stops the session exactly when the ceiling is
  reached; otherwise the wait lies between a second and the configured maximum and never shrinks.\<close>
theorem backoff_bounds:
  assumes "config_ok c" and "backoff_failed c n = (Some (wait, k), k')"
  shows "n < LOOP_MAX_CONSECUTIVE_FAILURES c \<and> k' = Suc n \<and> 1000 \<le> wait
    \<and> wait \<le> LOOP_BACKOFF_MAX_SECONDS c * 1000 \<and> wait \<le> wait_of c (Suc n)"
  using assms wait_bounds [OF assms(1), of n] wait_mono [of n "Suc n" c]
  by (auto simp: backoff_failed_cases split: if_splits)

lemma backoff_bounds_witness:
  "backoff_failed default_config 2 = (Some (120000, 3), 3) \<and> 120000 \<le> wait_of default_config 3"
proof -
  have ok: "config_ok default_config" and b: "backoff_failed default_config 2 = (Some (120000, 3), 3)"
    by (simp_all add: config_ok_def default_config_def between_def backoff_failed_def)
  show ?thesis using backoff_bounds [OF ok b] b by (simp add: numeral_3_eq_3)
qed

section \<open>Credentials\<close>

text \<open>A child process sees a variable of the runner's environment only when its profile lists it, so
  the model's credentials reach the model only, GitHub's the \<open>gh\<close> client only, and a verification
  step sees neither nor the ssh agent.\<close>
theorem credentials_scoped:
  "dom (filteredEnvironment source Map.empty profile) = dom source \<inter> set (ENV_PROFILES profile)
   \<and> set CLAUDE_VARIABLES \<inter> set (ENV_PROFILES ProfGithub @ ENV_PROFILES ProfGit @ ENV_PROFILES ProfBase) = {}
   \<and> set GITHUB_VARIABLES \<inter> set (ENV_PROFILES ProfClaude @ ENV_PROFILES ProfGit @ ENV_PROFILES ProfBase) = {}
   \<and> set GIT_VARIABLES \<inter> set (ENV_PROFILES ProfClaude @ ENV_PROFILES ProfBase) = {}"
proof -
  have "list_all (\<lambda>x. x \<notin> set (ENV_PROFILES ProfGithub @ ENV_PROFILES ProfGit @ ENV_PROFILES ProfBase)) CLAUDE_VARIABLES"
    "list_all (\<lambda>x. x \<notin> set (ENV_PROFILES ProfClaude @ ENV_PROFILES ProfGit @ ENV_PROFILES ProfBase)) GITHUB_VARIABLES"
    "list_all (\<lambda>x. x \<notin> set (ENV_PROFILES ProfClaude @ ENV_PROFILES ProfBase)) GIT_VARIABLES"
    by code_simp+
  then show ?thesis unfolding dom_filteredEnvironment list_all_iff dom_empty by (simp only: Un_empty_right) blast
qed

section \<open>The lock\<close>



text \<open>The check and the write of the lock are two steps, and two runners that start together can
  both hold it.\<close>
theorem lock_not_atomic: "\<exists>s. (lock_step host)\<^sup>*\<^sup>* (None, \<lambda>_. LpIdle) s \<and> both_hold s"
  by (rule lock_race)

section \<open>Publishing\<close>

text \<open>No comment the runner publishes is read back as the stored state of a pull request, whatever
  text of the model it carries.\<close>
theorem runner_comment_inert:
  "parseLoopState safe_parse (Some (renderRunnerComment i)) issue = initialState issue"
  by (rule runner_comment_no_state)

end
