(* ===== verification/RunnerSafety.thy ===== *)
theory RunnerSafety
  imports RunnerSamples RunnerProperties
begin

text \<open>
  Properties of the runner as a whole: what its commands may do to the outside, what an issue costs,
  and what a published change went through.
\<close>

section \<open>What the command may do\<close>

text \<open>C17. Whatever the arguments, the files and the answers of the outside are, every subprocess a command of
  the runner starts with a credential is one of three kinds.  One with GitHub's is \<open>gh\<close>, and when it
  merges then with \<open>--auto\<close>, which leaves the merge to GitHub's required checks.  One with the ssh
  agent is \<open>git\<close>, and when it pushes then one agent branch to itself and without force.  One with the
  model's is \<open>claude\<close>.  The trace only grows.\<close>
theorem runner_never_merges:
  "\<exists>cs. wd_calls (snd (loop_main fuel env mc config argv w)) = wd_calls w @ cs
     \<and> list_all (\<lambda>x. credential_ok (fst x)) cs"
proof -
  obtain r w' where m: "loop_main fuel env mc config argv w = (r, w')" by (cases "loop_main fuel env mc config argv w")
  obtain cs where cs: "wd_calls w' = wd_calls w @ cs" "list_all (\<lambda>x. command_ok (fst x)) cs"
    by (rule calls_onlyE [OF calls_loop_main m])
  then have "list_all (\<lambda>x. credential_ok (fst x)) cs" by (auto simp: list_all_iff intro: command_kinds)
  then show ?thesis using cs(1) m by auto
qed

section \<open>What an issue costs\<close>

text \<open>C18. Working on one issue invokes the model at most \<open>LOOP_CODING_FIX_ROUNDS\<close> times the price of a
  round: the coding agent once, and for every review the tier asks for at most
  \<open>LOOP_REVIEWER_RETRY_ROUNDS\<close> attempts.\<close>
theorem issue_invocations_bounded:
  "count_calls model_call (snd (workIssue env (cli_deps env config policy repository repo branch) i start feedback w))
     \<le> count_calls model_call w + LOOP_CODING_FIX_ROUNDS config
         * (1 + most_reviewers policy * LOOP_REVIEWER_RETRY_ROUNDS config)"
  using meter.cost_workIssue [of env config policy repository repo branch env i start feedback]
  by (simp add: costs_def issue_price_def round_price_def cli_deps_def)

section \<open>What a published change went through\<close>



end
