(* ===== verification/LogRedaction.thy ===== *)
theory LogRedaction
  imports Orchestrator
begin

text \<open>
  What \<open>redactJson\<close> of \<open>redact.ts\<close> does to a value that names a credential: the pattern of assignments
  runs to the next white space, which in printed JSON is the end of the text.
\<close>

text \<open>The pattern of assignments to names that end like a credential's.\<close>

definition word_rx :: "string \<Rightarrow> rx" where "word_rx p = rlit (butlast p) (RSet False [CIChar (last p)])"

definition assignment_rx :: rx where
  "assignment_rx = RSeq (RWordB True)
     (RSeq (RGroup 1 (RSeq (RRep True 0 None (RSet False [CIRange (CHR ''A'') (CHR ''Z''), CIRange (CHR ''0'') (CHR ''9''), CIChar (CHR ''_'')]))
        (RAlt (word_rx ''PASSWORD'') (RAlt (word_rx ''SECRET'') (RAlt (word_rx ''TOKEN'') (RAlt (word_rx ''API_KEY'')
          (RAlt (word_rx ''ACCESS_KEY'') (RAlt (word_rx ''SIGNING_KEY'') (word_rx ''PRIVATE_KEY'')))))))))
      (RSeq (RSet False [CIChar (CHR ''='')]) (RRep True 1 None (RSet False [CINotSpace]))))"

lemma assignment_pattern:
  "re ''%b([A-Z0-9_]*(?:PASSWORD|SECRET|TOKEN|API_KEY|ACCESS_KEY|SIGNING_KEY|PRIVATE_KEY))=%S+'' = assignment_rx"
  by code_simp

definition redact_assignment :: "string \<Rightarrow> string" where
  "redact_assignment s = rx_replace flag_i assignment_rx (\<lambda>m. capture m 1 @ ''=[redacted]'') s"

lemma redact_only_assignment:
  assumes "list_all (\<lambda>l. \<not> contains l s) [''gh'', ''github_pat_'', ''sk-ant-'', ''sk-'', ''AKIA'', ''-----BEGIN '', ''Bearer'']"
    and "CHR ''@'' \<notin> set (redact_assignment s)"
  shows "redact s = redact_assignment s"
proof -
  obtain a b c d e f g i where p: "REDACT_PATTERNS = [a, b, c, d, e, f, g,
      (flag_i, assignment_rx, \<lambda>m. capture m 1 @ ''=[redacted]''), i]"
    unfolding REDACT_PATTERNS_def assignment_pattern by blast
  have flags: "fst a = noflags" "fst b = noflags" "fst c = noflags" "fst d = noflags" "fst e = noflags" "fst f = noflags"
      "fst g = noflags" "fst i = noflags"
    using redact_literals(2) unfolding p by simp_all
  have "\<not> contains (lits (fst (snd x))) s" if "x \<in> {a, b, c, d, e, f, g}" for x
    using that assms redact_literals(1) unfolding p by auto
  moreover have "fst x = noflags" if "x \<in> {a, b, c, d, e, f, g}" for x using that flags by blast
  ultimately have "redact_step x s = s" if "x \<in> {a, b, c, d, e, f, g}" for x
    using that lits_test [of "fst (snd x)" s] by (intro redact_step_id) simp
  then have "fold redact_step [a, b, c, d, e, f, g] s = s" by simp
  moreover have "redact_step i (redact_assignment s) = redact_assignment s"
    using redact_literals(3) assms(2) flags unfolding p by (intro redact_step_id needs_test) (auto simp: noflags_def)
  ultimately show ?thesis
    unfolding redact_def p by (simp add: redact_assignment_def redact_step_def [of "(flag_i, assignment_rx, _)"])
qed

lemma broken_summary:
  "json_compact (coding_json (CodeOk ''TOKEN=[redacted]'' None None)) =
     ''{\"ok\":true,\"summary\":\"TOKEN=[redacted]\",\"sessionId\":null,\"costUsd\":null}''"
  "redact_assignment ''{\"ok\":true,\"summary\":\"TOKEN=[redacted]\",\"sessionId\":null,\"costUsd\":null}'' =
     ''{\"ok\":true,\"summary\":\"TOKEN=[redacted]''"
  "json_parse ''{\"ok\":true,\"summary\":\"TOKEN=[redacted]'' = None"
  by code_simp+

lemma redacted_token: "redact ''TOKEN=x'' = ''TOKEN=[redacted]''"
proof -
  have "redact_assignment ''TOKEN=x'' = ''TOKEN=[redacted]''" by code_simp
  moreover have "list_all (\<lambda>l. \<not> contains l ''TOKEN=x'') [''gh'', ''github_pat_'', ''sk-ant-'', ''sk-'', ''AKIA'', ''-----BEGIN '', ''Bearer'']"
    by simp
  ultimately show ?thesis using redact_only_assignment [of "''TOKEN=x''"] by simp
qed

lemma redactJson_broken:
  "redact (json_compact (coding_json (CodeOk ''TOKEN=[redacted]'' None None))) = ''{\"ok\":true,\"summary\":\"TOKEN=[redacted]''"
  "redactJson (coding_json (CodeOk ''TOKEN=[redacted]'' None None)) = None"
proof -
  show 1: "redact (json_compact (coding_json (CodeOk ''TOKEN=[redacted]'' None None))) = ''{\"ok\":true,\"summary\":\"TOKEN=[redacted]''"
    unfolding broken_summary(1)
    by (subst redact_only_assignment) (simp_all add: broken_summary(2))
  show "redactJson (coding_json (CodeOk ''TOKEN=[redacted]'' None None)) = None"
    unfolding redactJson_def 1 by (rule broken_summary(3))
qed

end
