(* ===== verification/RunnerFiles.thy ===== *)
theory RunnerFiles
  imports RunnerCalls
begin

text \<open>
  Who touches the runner's own files: talking to git, to GitHub, to the agents and running the
  verification leaves the journal and the lock alone.
\<close>

definition same_files :: "world \<Rightarrow> world \<Rightarrow> bool" where
  "same_files v w \<longleftrightarrow> wd_journal w = wd_journal v \<and> wd_lock w = wd_lock v"

named_theorems files \<open>computations that leave the files alone\<close>

lemma files_primitive [files]:
  "keeps (same_files v) (exec_io env c)" "keeps (same_files v) (now_io env)" "keeps (same_files v) (sleep_io n)"
  "keeps (same_files v) (budget_io env f)" "keeps (same_files v) (budget_answer_io env g x)"
  "keeps (same_files v) readJournal_io"
  by (simp_all add: keeps_def same_files_def exec_io_def now_io_def sleep_io_def budget_io_def budget_answer_io_def
      readJournal_io_def get_io_def Let_def split: option.split prod.split)

lemma files_iso [files]: "keeps (same_files v) (iso_io env)"
  unfolding iso_io_def by (intro keep files)

lemma files_try [files]: "keeps (same_files v) m \<Longrightarrow> keeps (same_files v) (try_io m)"
  unfolding try_io_def by (intro keep)

lemma files_list [files]:
  "(x = [] \<Longrightarrow> keeps I m) \<Longrightarrow> (\<And>y ys. x = y # ys \<Longrightarrow> keeps I (f y ys)) \<Longrightarrow> keeps I (case x of [] \<Rightarrow> m | y # ys \<Rightarrow> f y ys)"
  by (cases x) auto

lemma files_git [files]:
  "keeps (same_files v) (gitIn env cwd args)" "keeps (same_files v) (expect_git env cwd args)"
  "keeps (same_files v) (repositoryRoot env cwd)" "keeps (same_files v) (isClean env cwd)"
  "keeps (same_files v) (changedFiles env cwd base)" "keeps (same_files v) (hasCommitsBeyond env cwd base)"
  "keeps (same_files v) (removeWorktree env repo path)" "keeps (same_files v) (fetchBase env repo remote br)"
  "keeps (same_files v) (commitAll env cwd message)" "keeps (same_files v) (rebaseOntoBase env cwd base)"
  "keeps (same_files v) (ensureWorktree env q)" "keeps (same_files v) (pushBranch env cwd remote br)"
  unfolding repositoryRoot_def isClean_def changedFiles_def hasCommitsBeyond_def removeWorktree_def fetchBase_def
    commitAll_def rebaseOntoBase_def ensureWorktree_def pushBranch_def expect_git_def gitIn_def Let_def
  by (intro keep files)+

lemma files_gh [files]:
  "keeps (same_files v) (gh_io env opts args stdin)" "keeps (same_files v) (parse_gh env schema decode raw what)"
  unfolding gh_io_def parse_gh_def by (intro keep files)+

lemma files_client:
  "keeps (same_files v) (client_issues env opts labels)" "keeps (same_files v) (client_issue env opts n)"
  "keeps (same_files v) (client_addLabels env opts n labels)" "keeps (same_files v) (client_removeLabel env opts n l)"
  "keeps (same_files v) (client_comment env opts n body)" "keeps (same_files v) (client_createPullRequest env opts q)"
  "keeps (same_files v) (client_pullRequest env opts n)" "keeps (same_files v) (client_pullRequestForBranch env opts br)"
  "keeps (same_files v) (client_enableAutoMerge env opts n)" "keeps (same_files v) (client_updateBranch env opts n)"
  unfolding client_issues_def client_issue_def client_addLabels_def client_removeLabel_def client_comment_def
    client_createPullRequest_def client_pullRequest_def client_pullRequestForBranch_def client_enableAutoMerge_def
    client_updateBranch_def
  by (intro keep files)+

lemma files_probes [files]:
  "keeps (same_files v) (probeGh env cwd repo)" "keeps (same_files v) (probeClaude env)"
  unfolding probeGh_def probe_repository_def probeClaude_def Let_def by (intro keep files)+

lemma files_preflight [files]: "keeps (same_files v) (preflight env repository repo)"
  unfolding preflight_def by (intro keep files)

lemma keeps_result: "keeps I m \<Longrightarrow> I w \<Longrightarrow> m w = (r, w') \<Longrightarrow> I w'"
  unfolding keeps_def by (metis snd_conv)

lemma files_result: "keeps (same_files w) m \<Longrightarrow> m w = (r, w') \<Longrightarrow> wd_journal w' = wd_journal w \<and> wd_lock w' = wd_lock w"
  using keeps_result [of "same_files w" m w r w'] by (simp add: same_files_def)

text \<open>The preflight reports the lock that was there.\<close>

lemma preflight_lock:
  assumes "preflight env repository repo w = (Inr p, w')"
  shows "pf_ok p \<longrightarrow> readLock (wd_lock w) = None" and "wd_lock w' = wd_lock w"
proof -
  show lock: "wd_lock w' = wd_lock w" using files_result [OF files_preflight assms] by simp
  obtain c g tidy v where "p = assess_preflight c g tidy (readLock (wd_lock v))" "w' = v"
    using assms unfolding preflight_def by (auto simp: return_io_def get_io_def elim!: bind_cases)
  then show "pf_ok p \<longrightarrow> readLock (wd_lock w) = None" using lock by (simp add: preflight_ok)
qed

text \<open>A command that finds a lock goes no further.\<close>

lemma files_repo [files]: "keeps (same_files v) (detectRepo env repository)"
  unfolding detectRepo_def by (intro keep files)

lemma start_refused:
  assumes "start_command fuel env mc config repository repo a w = (Inr r, w')" and "readLock (wd_lock w) \<noteq> None"
  shows "r = Some 1 \<and> same_files w w'"
  using assms(1) unfolding start_command_def
  by (rule bind_cases) (use assms(2) preflight_lock files_result [OF files_preflight] in
      \<open>force simp: same_files_def return_io_def split: if_splits\<close>)+

end
