(* ===== verification/RunnerJournal.thy ===== *)
theory RunnerJournal
  imports RunnerFiles RunnerOutcome
begin

text \<open>
  What an issue leaves in the journal: whoever talks to GitHub without touching the files of the runner
  ends \<open>workIssue\<close> with a record that says what the outcome says.
\<close>

section \<open>Results\<close>

text \<open>\<open>ends_in Q m\<close>: a value that \<open>m\<close> returns satisfies \<open>Q\<close> in the world it leaves.\<close>

definition ends_in :: "('a \<Rightarrow> world \<Rightarrow> bool) \<Rightarrow> 'a io \<Rightarrow> bool" where
  "ends_in Q m \<longleftrightarrow> (\<forall>w x w'. m w = (Inr x, w') \<longrightarrow> Q x w')"

named_theorems ends \<open>results along the structure of a computation\<close>

lemma ends_bind:
  assumes "ends_in (\<lambda>x _. R x) m" and "\<And>x. R x \<Longrightarrow> ends_in Q (f x)"
  shows "ends_in Q (bind_io m f)"
  unfolding ends_in_def
proof (intro allI impI)
  fix w x w'
  assume "bind_io m f w = (Inr x, w')"
  then obtain y v where "m w = (Inr y, v)" "f y v = (Inr x, w')" by (rule bind_cases) auto
  then show "Q x w'" using assms unfolding ends_in_def by blast
qed

lemma ends_bind_any [ends]: "(\<And>x. ends_in Q (f x)) \<Longrightarrow> ends_in Q (bind_io m f)"
  by (rule ends_bind [of "\<lambda>_. True"]) (simp_all add: ends_in_def)

lemma ends_mono: "ends_in P m \<Longrightarrow> (\<And>x w. P x w \<Longrightarrow> Q x w) \<Longrightarrow> ends_in Q m"
  unfolding ends_in_def by blast

lemma ends_then [ends]: "ends_in Q k \<Longrightarrow> ends_in Q (then_io m k)"
  unfolding then_io_def by (rule ends_bind_any)

lemma ends_return: "(\<And>w. Q x w) \<Longrightarrow> ends_in Q (return_io x)"
  by (simp add: ends_in_def return_io_def)

lemma ends_throw [ends]: "ends_in Q (throw_io e)"
  by (simp add: ends_in_def throw_io_def)

lemma ends_if [ends]: "(c \<Longrightarrow> ends_in Q m) \<Longrightarrow> (\<not> c \<Longrightarrow> ends_in Q k) \<Longrightarrow> ends_in Q (if c then m else k)"
  by simp

lemma ends_option [ends]:
  "(x = None \<Longrightarrow> ends_in Q m) \<Longrightarrow> (\<And>y. x = Some y \<Longrightarrow> ends_in Q (f y)) \<Longrightarrow>
    ends_in Q (case x of None \<Rightarrow> m | Some y \<Rightarrow> f y)"
  by (cases x) auto

lemma ends_sum [ends]:
  "(\<And>e. x = Inl e \<Longrightarrow> ends_in Q (f e)) \<Longrightarrow> (\<And>y. x = Inr y \<Longrightarrow> ends_in Q (g y)) \<Longrightarrow>
    ends_in Q (case x of Inl e \<Rightarrow> f e | Inr y \<Rightarrow> g y)"
  by (cases x) auto

lemma ends_prod [ends]: "(\<And>a b. x = (a, b) \<Longrightarrow> ends_in Q (f a b)) \<Longrightarrow> ends_in Q (case x of (a, b) \<Rightarrow> f a b)"
  by (cases x) auto

lemma ends_bool [ends]:
  "(b \<Longrightarrow> ends_in Q m) \<Longrightarrow> (\<not> b \<Longrightarrow> ends_in Q k) \<Longrightarrow> ends_in Q (case b of True \<Rightarrow> m | False \<Rightarrow> k)"
  by (cases b) auto

lemma ends_coding [ends]:
  "(\<And>a b c. x = CodeOk a b c \<Longrightarrow> ends_in Q (f a b c)) \<Longrightarrow> (\<And>a b. x = CodeBad a b \<Longrightarrow> ends_in Q (g a b)) \<Longrightarrow>
    ends_in Q (case x of CodeOk a b c \<Rightarrow> f a b c | CodeBad a b \<Rightarrow> g a b)"
  by (cases x) auto

lemma ends_let [ends]: "(\<And>y. y = x \<Longrightarrow> ends_in Q (f y)) \<Longrightarrow> ends_in Q (let y = x in f y)"
  by simp

section \<open>The record of the issue\<close>

text \<open>The record of a round stays the record of its issue.\<close>

primrec work_of :: "round_outcome \<Rightarrow> work" where
  "work_of (RoundFail k t) = k"
| "work_of (RoundAgain k) = k"
| "work_of (RoundSettled k) = k"

definition about :: "nat \<Rightarrow> work \<Rightarrow> bool" where "about n k \<longleftrightarrow> rr_issue (wk_record k) = n"

lemma ends_save: "ends_in (\<lambda>k' _. wk_record k' = wk_record k) (save_work k)"
  by (simp add: ends_in_def save_work_result)

lemma about_attempt [simp]: "rr_issue (set_attempt r a p ok t) = rr_issue r"
  by (simp add: set_attempt_def appendAttempt_def)

lemma ends_round_review:
  "about n k \<Longrightarrow> ends_in (\<lambda>out _. about n (work_of out)) (round_review env d c final diff risk k)"
  unfolding round_review_def
  by (intro ends ends_bind [OF ends_save] ends_return) (auto simp: review_verdict_def about_def Let_def)

lemma ends_work_round:
  assumes "about n k"
  shows "ends_in (\<lambda>out _. about n (work_of out)) (work_round env d c rnd final k)"
proof -
  have "ends_in (\<lambda>out _. about n (work_of out)) (round_verify env d c final k')" if "about n k'" for k'
    unfolding round_verify_def round_check_def round_verified_def
    by (intro ends ends_bind [OF ends_save] ends_return ends_round_review) (use that in \<open>auto simp: about_def\<close>)
  then show ?thesis
    using assms unfolding work_round_def
    by (intro ends ends_bind [OF ends_save] ends_return) (auto simp: about_def)
qed

lemma ends_work_rounds:
  "about n k \<Longrightarrow> ends_in (\<lambda>out _. about n (work_of out)) (work_rounds env d c rs k)"
proof (induction rs arbitrary: k)
  case (Cons r rest)
  show ?case
    unfolding work_rounds.simps
    by (rule ends_bind [OF ends_work_round [OF Cons.prems]])
      (auto intro: Cons.IH ends_return split: round_outcome.split)
qed (auto intro: ends_return)

definition journal_settles :: "nat \<Rightarrow> issue_outcome \<Rightarrow> world \<Rightarrow> bool" where
  "journal_settles n out w \<longleftrightarrow> (\<exists>j r. wd_journal w = Some (journal_text j) \<and> findRun j n = Some r
     \<and> rr_status r = (if io_status out = WorkBlocked then RunBlocked else AwaitingReview)
     \<and> rr_pullRequest r = io_pullRequest out)"

lemma ends_saved:
  assumes "\<And>v k'. keeps (same_files v) (f k')"
    and "\<And>k'. wk_record k' = wk_record k \<Longrightarrow> ends_in (\<lambda>out _. S out) (f k')"
  shows "ends_in (\<lambda>out w. wd_journal w = Some (journal_text (upsertRun (wk_journal k) (wk_record k))) \<and> S out)
    (bind_io (save_work k) f)"
  unfolding ends_in_def
proof (intro allI impI)
  fix w out w'
  let ?j = "upsertRun (wk_journal k) (wk_record k)"
  assume "bind_io (save_work k) f w = (Inr out, w')"
  then have f: "f (k\<lparr>wk_journal := ?j\<rparr>) (w\<lparr>wd_journal := Some (journal_text ?j)\<rparr>) = (Inr out, w')"
    by (auto simp: save_work_result elim!: bind_cases)
  then have "wd_journal w' = Some (journal_text ?j)" using files_result [OF assms(1) f] by simp
  then show "wd_journal w' = Some (journal_text ?j) \<and> S out"
    using assms(2) [of "k\<lparr>wk_journal := ?j\<rparr>"] f unfolding ends_in_def by fastforce
qed

lemma settled_record:
  assumes "rr_issue r = n" and "rr_status r = (if io_status out = WorkBlocked then RunBlocked else AwaitingReview)"
    and "rr_pullRequest r = io_pullRequest out" and "wd_journal w = Some (journal_text (upsertRun j r))"
  shows "journal_settles n out w"
  using assms runs.lookup_put [of r j] unfolding journal_settles_def findRun_lookup by blast

text \<open>An adapter whose operations leave the runner's files alone.\<close>

locale filing_client =
  fixes d :: runner_deps
  assumes adapter_files: "keeps (same_files v) (gh_removeLabel (de_gh d) n l)" "keeps (same_files v) (gh_addLabels (de_gh d) n ls)"
    "keeps (same_files v) (gh_comment (de_gh d) n body)" "keeps (same_files v) (gh_enableAutoMerge (de_gh d) n)"
begin

lemma fail_settles:
  assumes "about n k" and "n = is_number (wc_issue c)"
  shows "ends_in (journal_settles n) (work_fail d c k detail)"
  unfolding work_fail_def Let_def
proof (rule ends_mono, rule ends_saved)
  let ?S = "\<lambda>out. io_status out = WorkBlocked \<and> io_pullRequest out = rr_pullRequest (wk_record k)"
  let ?k = "k\<lparr>wk_record := (wk_record k)\<lparr>rr_status := RunBlocked\<rparr>\<rparr>"
  show "journal_settles n out w"
    if "wd_journal w = Some (journal_text (upsertRun (wk_journal ?k) (wk_record ?k))) \<and> ?S out" for out w
    by (rule settled_record [where r = "wk_record ?k" and j = "wk_journal k"]) (use that assms(1) in \<open>auto simp: about_def\<close>)
qed (auto intro!: keep adapter_files ends ends_return)

lemma publish_settles:
  assumes "about n k"
  shows "ends_in (journal_settles n) (publish env d c k v risk)"
proof -
  have opened: "ends_in (\<lambda>x _. snd x \<noteq> WorkBlocked) (open_request d c k v risk)"
    unfolding open_request_def Let_def by (auto intro!: ends_bind_any ends_return split: option.split)
  show ?thesis
    unfolding publish_def Let_def
  proof (rule ends_bind [OF opened], rule ends_prod, rule ends_bind_any, rule ends_mono, rule ends_saved)
    fix x :: "nat \<times> work_status" and number status now
    assume x: "snd x \<noteq> WorkBlocked" "x = (number, status)"
    let ?S = "\<lambda>out. io_status out = status \<and> io_pullRequest out = Some number"
    let ?k = "k\<lparr>wk_record := (set_attempt (wk_record k) now PhPublish True
        (''Pull request #'' @ dec number))\<lparr>rr_status := AwaitingReview, rr_pullRequest := Some number, rr_risk' := Some (ra_risk risk)\<rparr>\<rparr>"
    show "journal_settles n out w"
      if "wd_journal w = Some (journal_text (upsertRun (wk_journal ?k) (wk_record ?k))) \<and> ?S out" for out w
      by (rule settled_record [where r = "wk_record ?k" and j = "wk_journal k"]) (use that x assms in \<open>auto simp: about_def\<close>)
  qed (auto intro!: keep adapter_files ends ends_return)
qed

lemma workIssue_settles: "ends_in (journal_settles (is_number i)) (workIssue env d i start feedback)"
proof -
  let ?c = "context_of env d i start feedback" and ?n = "is_number i"
  have n: "?n = is_number (wc_issue ?c)" by (simp add: context_of_def)
  have claimed: "ends_in (\<lambda>r _. rr_issue r = ?n) (claim_record env ?c j)" for j
  proof -
    have "rr_issue r = is_number (wc_issue ?c)" if "findRun j (is_number (wc_issue ?c)) = Some r" for r
      using that unfolding findRun_lookup by (auto dest: runs.lookup_key)
    then show ?thesis
      unfolding claim_record_def
      by (intro ends_bind [of "\<lambda>r. rr_issue r = ?n"] ends ends_return) (auto simp: n new_record_def)
  qed
  have push: "ends_in (journal_settles ?n) (push_and_publish env d ?c k)" if "about ?n k" for k
    unfolding push_and_publish_def
    by (auto intro!: ends fail_settles publish_settles that n split: option.split)
  have "ends_in (journal_settles ?n) (work_from env d ?c k)" if k: "about ?n k" for k
    unfolding work_from_def Let_def
    by (intro ends ends_bind [OF ends_work_rounds [OF k]] fail_settles k n)
      (auto split: round_outcome.split intro: push fail_settles n)
  then show ?thesis
    unfolding workIssue_def Let_def
    by (intro ends_then ends_bind_any ends_bind [OF claimed] ends_bind [OF ends_save]) (simp add: about_def)
qed

end

interpretation cli_files: filing_client "cli_deps env config policy repository repo branch"
  for env config policy repository repo branch
  by unfold_locales (simp_all add: cli_deps_def createGhClient_def files_client)

end
