(* ===== verification/SessionProperties.thy ===== *)
theory SessionProperties
  imports RunnerSafety LogRedaction RunnerJournal
begin

text \<open>
  Properties of the unattended session: when it ends, when it does not, and what keeps it from
  starting.
\<close>

section \<open>Open work without a pull request\<close>

text \<open>A turn while every record in flight lacks a pull request: nothing is called, nothing is written.\<close>

definition only_unopened :: "world \<Rightarrow> bool" where
  "only_unopened w \<longleftrightarrow> inFlight (readJournal (wd_journal w)) \<noteq> []
     \<and> list_all (\<lambda>r. rr_pullRequest r = None) (inFlight (readJournal (wd_journal w)))"

lemma advance_all_unopened:
  "list_all (\<lambda>r. rr_pullRequest r = None) rs \<Longrightarrow>
    advance_all env d rs w = (Inr (map (\<lambda>r. advanced r NothingToDo ''No pull request yet; the next cycle will resume it.'') rs), w)"
  by (induction rs) (simp_all add: return_io_def bind_io_def advance_record_def)

lemma advance_unopened:
  assumes "only_unopened w"
  shows "\<exists>outs. advance env d w = (Inr outs, w) \<and> list_all (\<lambda>a. av_action a = NothingToDo) outs"
  using assms unfolding only_unopened_def advance_def
  by (auto simp: bind_io_def readJournal_io_def get_io_def return_io_def advance_all_unopened list_all_iff advanced_def)

lemma fold_note_idle:
  "list_all (\<lambda>a. av_action a = NothingToDo) outs \<Longrightarrow> fold note_advanced outs s = s"
  by (induction outs) (simp_all add: note_advanced_def)

lemma cycle_unopened:
  assumes "only_unopened w" and "\<And>v. \<not> en_stopping env v"
  shows "session_cycle env d s w = (Inr (CycleGoesOn (s\<lparr>ss_failures := 0\<rparr>)),
    w\<lparr>wd_ticks := wd_ticks w + LOOP_POLL_INTERVAL_SECONDS (de_config d) * 1000\<rparr>)"
proof -
  obtain outs where outs: "advance env d w = (Inr outs, w)" "fold note_advanced outs s = s"
    using advance_unopened [OF assms(1), of env d] fold_note_idle [of _ s] by blast
  moreover have "length (inFlight (readJournal (wd_journal w))) \<noteq> 0" using assms(1) by (simp add: only_unopened_def)
  ultimately show ?thesis
    using assms(2)
    by (simp add: session_cycle_def session_take_def session_pause_def try_io_def catch_io_def bind_io_def get_io_def
        then_io_def return_io_def readJournal_io_def sleep_io_def Let_def)
qed

text \<open>C21. A record that is in progress without a pull request, which an exception in the middle of an
  issue or a killed runner leaves behind, is never taken up by an unattended session: while the
  records in flight are all of that kind and nobody stops the runner, the session turns for ever,
  calls nothing and takes no issue, although both \<open>advance\<close> and \<open>resumable\<close> mean the next cycle to
  resume such a record.\<close>
theorem unopened_record_stalls:
  assumes "only_unopened w" and "\<And>v. \<not> en_stopping env v"
  shows "\<exists>n. session_run fuel env d s w = (Inr None, w\<lparr>wd_ticks := n\<rparr>)"
  using assms(1)
proof (induction fuel arbitrary: s w)
  case 0
  have "w = w\<lparr>wd_ticks := wd_ticks w\<rparr>" by simp
  then show ?case by (metis return_io_def session_run.simps(1))
next
  case (Suc fuel)
  let ?w = "w\<lparr>wd_ticks := wd_ticks w + LOOP_POLL_INTERVAL_SECONDS (de_config d) * 1000\<rparr>"
  have "only_unopened ?w" using Suc.prems by (simp add: only_unopened_def)
  from Suc.IH [OF this, of "s\<lparr>ss_failures := 0\<rparr>"] show ?case
    using cycle_unopened [OF Suc.prems assms(2), of d s] by (auto simp: bind_io_def)
qed

lemma unopened_record_stalls_witness:
  "\<exists>n. session_run 1000 sample_outside sample_deps (new_session ''t'')
      (fresh_world\<lparr>wd_journal := Some (journal_text \<lparr>jo_runs = [sample_run 1 ''agent/issue-1-a'']\<rparr>)\<rparr>) =
    (Inr None, (fresh_world\<lparr>wd_journal := Some (journal_text \<lparr>jo_runs = [sample_run 1 ''agent/issue-1-a'']\<rparr>)\<rparr>)\<lparr>wd_ticks := n\<rparr>)"
proof (rule unopened_record_stalls)
  have "journal_ok \<lparr>jo_runs = [sample_run 1 ''agent/issue-1-a'']\<rparr>"
    by (simp add: journal_ok_def run_ok_def sample_run_def)
  then show "only_unopened (fresh_world\<lparr>wd_journal := Some (journal_text \<lparr>jo_runs = [sample_run 1 ''agent/issue-1-a'']\<rparr>)\<rparr>)"
    by (simp add: only_unopened_def read_written inFlight_def sample_run_def)
qed (simp add: sample_outside_def)

section \<open>Logs\<close>


section \<open>The files of the runner\<close>

text \<open>C20. Once an issue has ended, published or blocked, the journal on disk has a record of it that says so
  and names the pull request of the outcome, whatever happened to the issue on the way and whatever
  the outside answered.\<close>
theorem work_settles_journal:
  assumes "workIssue env (cli_deps env config policy repository repo branch) i start feedback w = (Inr out, w')"
  shows "\<exists>j r. wd_journal w' = Some (journal_text j) \<and> findRun j (is_number i) = Some r
     \<and> rr_status r = (if io_status out = WorkBlocked then RunBlocked else AwaitingReview)
     \<and> rr_pullRequest r = io_pullRequest out"
  using cli_files.workIssue_settles assms unfolding ends_in_def journal_settles_def by blast

lemma work_settles_journal_witness:
  "\<exists>out w' j r. workIssue sample_outside sample_deps sample_issue 0 None fresh_world = (Inr out, w')
     \<and> wd_journal w' = Some (journal_text j) \<and> findRun j 1 = Some r \<and> rr_status r = AwaitingReview"
proof -
  obtain out w' where out: "workIssue sample_outside sample_deps sample_issue 0 None fresh_world = (Inr out, w')"
    "io_status out = WorkOpened"
    using sample_outcome by blast
  from work_settles_journal [OF out(1)] out show ?thesis by (auto simp: sample_issue_def)
qed

text \<open>C23. A readable lock file stops every command but \<open>status\<close>, also when the process that wrote it is gone:
  the preflight reports it and the command ends with exit code 1 before \<open>acquireLock\<close>, which would take
  over a stale lock, is reached.  Lock and journal stay as they are, so the next start fares no better.\<close>
theorem stale_lock_blocks_start:
  assumes "parseArgs argv = ArgsOk a" and "la_command a \<noteq> CmdStatus" and "readLock (wd_lock w) \<noteq> None"
    and "loop_main fuel env mc config argv w = (Inr r, w')"
  shows "r = Some 1 \<and> wd_lock w' = wd_lock w \<and> wd_journal w' = wd_journal w"
proof -
  let ?f = "\<lambda>repository. case la_repo a of Some r \<Rightarrow> return_io r | None \<Rightarrow> detectRepo env repository"
  have repo: "keeps (same_files v) (?f repository)" for v repository by (intro keep files)
  obtain repository u repo v where "repositoryRoot env (en_cwd env) w = (Inr repository, u)" "?f repository u = (Inr repo, v)"
    and start: "start_command fuel env mc (applyFlags config a) repository repo a v = (Inr r, w')"
    using assms(1,2,4) by (auto simp: loop_main_def elim!: bind_cases)
  then have "same_files w v"
    using files_result [OF files_git(3)] files_result [OF repo] by (fastforce simp: same_files_def)
  then show ?thesis
    using start_refused [OF start] assms(3) by (simp add: same_files_def)
qed

definition locked_world :: world where
  "locked_world = fresh_world\<lparr>wd_lock := Some (lock_text \<lparr>lk_pid = 4, lk_host = ''h'', lk_startedAt = ''t'', lk_command = ''start''\<rparr>)\<rparr>"

definition once_args :: loop_args where
  "once_args = \<lparr>la_command = CmdOnce, la_dryRun = False, la_unattended = False, la_maxIssues = None, la_repo = Some ''o/r'',
     la_positional = []\<rparr>"

definition bare_machine :: machine where
  "bare_machine = \<lparr>mc_alive = (\<lambda>_. False), mc_host = ''h'', mc_pid = 5\<rparr>"

abbreviation bare_outside :: env where
  "bare_outside \<equiv> sample_outside\<lparr>en_which := \<lambda>_ _. None\<rparr>"


lemma bare_refuses:
  "\<exists>x w'. start_command fuel bare_outside mc config repository repo a w = (Inr x, w')"
  unfolding start_command_def preflight_def probeClaude_def probeGh_def which_io_def isClean_def expect_git_def gitIn_def exec_io_def
    bind_io_def return_io_def get_io_def
  by (simp add: sample_outside_def sample_git answered_def assess_preflight_def claude_problems_def Let_def)

lemma bare_root: "\<exists>x w'. repositoryRoot bare_outside cwd w = (Inr x, w')"
  unfolding repositoryRoot_def expect_git_def gitIn_def exec_io_def bind_io_def return_io_def
  by (simp add: sample_outside_def sample_git answered_def Let_def)

lemma stale_lock_blocks_start_witness:
  "\<exists>w'. loop_main 0 bare_outside bare_machine default_config [''once'', ''--repo'', ''o/r''] locked_world = (Inr (Some 1), w')
     \<and> wd_lock w' = wd_lock locked_world"
proof -
  let ?r = "loop_main 0 bare_outside bare_machine default_config [''once'', ''--repo'', ''o/r''] locked_world"
  have args: "parseArgs [''once'', ''--repo'', ''o/r''] = ArgsOk once_args" by code_simp
  obtain root v where root: "repositoryRoot bare_outside (en_cwd bare_outside) locked_world = (Inr root, v)"
    using bare_root by blast
  moreover obtain r w' where "start_command 0 bare_outside bare_machine (applyFlags default_config
      once_args) root ''o/r'' once_args v = (Inr r, w')"
    using bare_refuses by blast
  ultimately have r: "?r = (Inr r, w')"
    by (simp add: once_args_def loop_main_def args bind_io_def return_io_def)
  have "readLock (wd_lock locked_world) \<noteq> None" by (simp add: locked_world_def read_lock_text)
  from stale_lock_blocks_start [OF args _ this r] r show ?thesis by (simp add: once_args_def)
qed

end
