(* ===== verification/Tasks.thy ===== *)
theory Tasks
  imports Prelude
begin

text \<open>
  Computations with a state of any type: the services of the worker and the API are written against
  interfaces, so the state behind an interface (a database, a cache) is a type variable.  An
  asynchronous function that may throw is a function from the state to an error or a value and
  the state afterwards.
\<close>

type_synonym ('s, 'e, 'a) task = "'s \<Rightarrow> ('e + 'a) \<times> 's"

definition return_task :: "'a \<Rightarrow> ('s, 'e, 'a) task" where
  "return_task x s = (Inr x, s)"

definition fail_task :: "'e \<Rightarrow> ('s, 'e, 'a) task" where
  "fail_task e s = (Inl e, s)"

definition bind_task :: "('s, 'e, 'a) task \<Rightarrow> ('a \<Rightarrow> ('s, 'e, 'b) task) \<Rightarrow> ('s, 'e, 'b) task" where
  "bind_task m f s = (case m s of (Inl e, s') \<Rightarrow> (Inl e, s') | (Inr x, s') \<Rightarrow> f x s')"

definition then_task :: "('s, 'e, 'a) task \<Rightarrow> ('s, 'e, 'b) task \<Rightarrow> ('s, 'e, 'b) task" where
  "then_task m k = bind_task m (\<lambda>_. k)"

text \<open>\<open>try ... catch\<close>: the handler gets the error and may throw again.\<close>

definition catch_task :: "('s, 'e, 'a) task \<Rightarrow> ('e \<Rightarrow> ('s, 'd, 'a) task) \<Rightarrow> ('s, 'd, 'a) task" where
  "catch_task m h s = (case m s of (Inl e, s') \<Rightarrow> h e s' | (Inr x, s') \<Rightarrow> (Inr x, s'))"

lemma task_cases:
  assumes "bind_task m f s = (r, s')"
  obtains (err) e where "m s = (Inl e, s')" "r = Inl e" | (ok) x v where "m s = (Inr x, v)" "f x v = (r, s')"
  using assms by (auto simp: bind_task_def split: prod.splits sum.splits)

lemma caught_cases:
  assumes "catch_task m h s = (r, s')"
  obtains (err) e v where "m s = (Inl e, v)" "h e v = (r, s')" | (ok) x where "m s = (Inr x, s')" "r = Inr x"
  using assms by (auto simp: catch_task_def split: prod.splits sum.splits)

lemma task_simps [simp]:
  "return_task x s = (r, s') \<longleftrightarrow> r = Inr x \<and> s' = s"
  "fail_task e s = (r, s') \<longleftrightarrow> r = Inl e \<and> s' = s"
  "bind_task (return_task x) f = f x" "bind_task (fail_task e) f = fail_task e"
  by (auto simp: return_task_def fail_task_def bind_task_def)

end
