(* ===== verification/Articles.thy ===== *)
theory Articles
  imports Tasks "HOL-Library.AList"
begin

text \<open>
  \<open>apps/worker/src/modules/articles/service.ts\<close> and \<open>repository.ts\<close>: which articles of a fetched batch
  are new, which are stored already and which duplicate another article of the batch, and the
  storing of the new ones.
\<close>

subsection \<open>Data\<close>

record article_candidate =
  ac_url :: string
  ac_canonicalUrl :: string
  ac_title :: string
  ac_summary :: "string option"
  ac_author :: "string option"
  ac_imageUrl :: "string option"
  ac_contentHash :: string
  ac_publishedAt :: "int option"

datatype match_reason = ByCanonicalUrl | ByContentHash

record in_batch_duplicate =
  ib_reason :: match_reason
  ib_duplicateOfIndex :: nat

subsection \<open>Duplicates within a batch\<close>

text \<open>
  The parents of the union-find, the two indexes of what was seen, and the duplicates in the order
  in which the code's map iterates over them.
\<close>

type_synonym parents = "nat \<rightharpoonup> nat"

record collapse_state =
  cs_urls :: "string \<rightharpoonup> nat"
  cs_hashes :: "string \<rightharpoonup> nat"
  cs_parent :: parents
  cs_duplicates :: "(nat \<times> in_batch_duplicate) list"

definition collapse_start :: collapse_state where
  "collapse_start = \<lparr>cs_urls = Map.empty, cs_hashes = Map.empty, cs_parent = Map.empty, cs_duplicates = []\<rparr>"

text \<open>\<open>find\<close> follows the parents and shortens the path behind it.  Nothing in it bounds the recursion.\<close>

partial_function (option) find_root :: "nat \<Rightarrow> parents \<Rightarrow> (nat \<times> parents) option" where
  "find_root i p = (case p i of
       None \<Rightarrow> Some (i, p)
     | Some a \<Rightarrow> Option.bind (find_root a p) (\<lambda>(root, p'). Some (root, p'(i \<mapsto> root))))"

definition union :: "nat \<Rightarrow> nat \<Rightarrow> match_reason \<Rightarrow> collapse_state \<Rightarrow> collapse_state option" where
  "union a b why st =
     Option.bind (find_root a (cs_parent st)) (\<lambda>(rootA, p).
     Option.bind (find_root b p) (\<lambda>(rootB, p).
       if rootA = rootB then Some (st\<lparr>cs_parent := p\<rparr>)
       else let winner = min rootA rootB; loser = max rootA rootB
         in Some (st\<lparr>cs_parent := p(loser \<mapsto> winner),
              cs_duplicates := AList.update loser \<lparr>ib_reason = why, ib_duplicateOfIndex = winner\<rparr> (cs_duplicates st)\<rparr>)))"

definition union_seen :: "nat \<Rightarrow> nat option \<Rightarrow> match_reason \<Rightarrow> collapse_state \<Rightarrow> collapse_state option" where
  "union_seen i seen why st = (case seen of None \<Rightarrow> Some st | Some k \<Rightarrow> union i k why st)"

definition collapse_step :: "nat \<Rightarrow> article_candidate \<Rightarrow> collapse_state \<Rightarrow> collapse_state option" where
  "collapse_step i c st =
     (let byUrl = cs_urls st (ac_canonicalUrl c); byHash = cs_hashes st (ac_contentHash c)
      in Option.bind (union_seen i byUrl ByCanonicalUrl st) (\<lambda>st.
         Option.bind (union_seen i byHash ByContentHash st) (\<lambda>st.
           Some (st\<lparr>cs_urls := (cs_urls st)(ac_canonicalUrl c \<mapsto> i),
                    cs_hashes := (cs_hashes st)(ac_contentHash c \<mapsto> i)\<rparr>))))"

fun collapse_scan :: "nat \<Rightarrow> article_candidate list \<Rightarrow> collapse_state \<Rightarrow> collapse_state option" where
  "collapse_scan i [] st = Some st"
| "collapse_scan i (c # cs) st = Option.bind (collapse_step i c st) (collapse_scan (Suc i) cs)"

text \<open>
  The second walk: the representatives, and every duplicate pointed at its final one.  The cast of a
  duplicate that was never recorded is a \<open>None\<close>.
\<close>

fun collapse_settle :: "nat list \<Rightarrow> parents \<Rightarrow> (nat \<times> in_batch_duplicate) list \<Rightarrow>
    (nat list \<times> (nat \<times> in_batch_duplicate) list) option" where
  "collapse_settle [] p dups = Some ([], dups)"
| "collapse_settle (i # is) p dups =
     Option.bind (find_root i p) (\<lambda>(root, p).
       if root = i then map_option (\<lambda>(reps, dups). (i # reps, dups)) (collapse_settle is p dups)
       else Option.bind (map_of dups i) (\<lambda>recorded.
         Option.bind (find_root i p) (\<lambda>(root, p).
           collapse_settle is p (AList.update i (recorded\<lparr>ib_duplicateOfIndex := root\<rparr>) dups))))"

definition collapseInBatchDuplicates ::
  "article_candidate list \<Rightarrow> (nat list \<times> (nat \<times> in_batch_duplicate) list) option" where
  "collapseInBatchDuplicates cs =
     Option.bind (collapse_scan 0 cs collapse_start) (\<lambda>st.
       collapse_settle [0..<length cs] (cs_parent st) (cs_duplicates st))"

subsection \<open>Groups\<close>

definition push_member :: "(nat \<times> in_batch_duplicate) \<Rightarrow> (nat \<rightharpoonup> nat list) \<Rightarrow> (nat \<rightharpoonup> nat list)" where
  "push_member d g = (case g (ib_duplicateOfIndex (snd d)) of
       None \<Rightarrow> g
     | Some ms \<Rightarrow> g(ib_duplicateOfIndex (snd d) \<mapsto> ms @ [fst d]))"

definition groupMembersByRepresentative ::
  "nat list \<Rightarrow> (nat \<times> in_batch_duplicate) list \<Rightarrow> (nat \<rightharpoonup> nat list)" where
  "groupMembersByRepresentative reps dups = fold push_member dups (map_of (map (\<lambda>i. (i, [i])) reps))"

subsection \<open>Stored articles\<close>

record article_query =
  aq_canonicalUrl :: string
  aq_contentHash :: string

record article_match =
  am_id :: string
  am_canonicalUrl :: string
  am_contentHash :: string

record new_article =
  na_sourceId :: string
  na_url :: string
  na_canonicalUrl :: string
  na_title :: string
  na_summary :: "string option"
  na_author :: "string option"
  na_imageUrl :: "string option"
  na_contentHash :: string
  na_publishedAt :: "int option"
  na_fetchedAt :: int

record article = new_article +
  ar_id :: string
  ar_categoryId :: "string option"
  ar_createdAt :: int
  ar_updatedAt :: int

text \<open>An error with the code and the constraint of the database error that caused it.\<close>

record js_error =
  er_message :: string
  er_cause :: "(string option \<times> string option) option"

definition constraint_conflict :: "string \<Rightarrow> js_error \<Rightarrow> bool" where
  "constraint_conflict name e \<longleftrightarrow> er_cause e = Some (Some ''23505'', Some name)"

definition isCanonicalUrlConflict :: "js_error \<Rightarrow> bool" where
  "isCanonicalUrlConflict = constraint_conflict ''articles_canonical_url_unique''"

record 's articles_repository =
  rp_findMatches :: "article_query list \<Rightarrow> ('s, js_error, article_match list) task"
  rp_insert :: "new_article \<Rightarrow> ('s, js_error, article) task"

definition query_of :: "article_candidate \<Rightarrow> article_query" where
  "query_of c = \<lparr>aq_canonicalUrl = ac_canonicalUrl c, aq_contentHash = ac_contentHash c\<rparr>"

definition toNewArticle :: "article_candidate \<Rightarrow> string \<Rightarrow> int \<Rightarrow> new_article" where
  "toNewArticle c sourceId fetchedAt = \<lparr>na_sourceId = sourceId, na_url = ac_url c, na_canonicalUrl = ac_canonicalUrl c,
     na_title = ac_title c, na_summary = ac_summary c, na_author = ac_author c, na_imageUrl = ac_imageUrl c,
     na_contentHash = ac_contentHash c, na_publishedAt = ac_publishedAt c, na_fetchedAt = fetchedAt\<rparr>"

subsection \<open>The service\<close>

datatype existing_reason = Matched match_reason | Race

datatype article_outcome = Inserted article | Existing existing_reason string | DuplicateInBatch in_batch_duplicate

record dedupe_result =
  dr_outcomes :: "(nat \<times> article_candidate \<times> article_outcome) list"
  dr_insertedCount :: nat
  dr_existingCount :: nat
  dr_duplicateInBatchCount :: nat

definition findMatch :: "article_candidate \<Rightarrow> (string \<rightharpoonup> article_match) \<Rightarrow> (string \<rightharpoonup> article_match) \<Rightarrow>
    (article_match \<times> match_reason) option" where
  "findMatch c byUrl byHash = (case byUrl (ac_canonicalUrl c) of
       Some m \<Rightarrow> Some (m, ByCanonicalUrl)
     | None \<Rightarrow> (case byHash (ac_contentHash c) of Some m \<Rightarrow> Some (m, ByContentHash) | None \<Rightarrow> None))"

fun findGroupMatch :: "nat list \<Rightarrow> article_candidate list \<Rightarrow> (string \<rightharpoonup> article_match) \<Rightarrow> (string \<rightharpoonup> article_match) \<Rightarrow>
    (article_match \<times> match_reason) option" where
  "findGroupMatch [] cs byUrl byHash = None"
| "findGroupMatch (i # is) cs byUrl byHash = (case findMatch (cs ! i) byUrl byHash of
       Some found \<Rightarrow> Some found
     | None \<Rightarrow> findGroupMatch is cs byUrl byHash)"

text \<open>The members of a representative's group; every representative has one (\<open>groups_spec\<close>).\<close>

definition members :: "(nat \<rightharpoonup> nat list) \<Rightarrow> nat \<Rightarrow> nat list" where
  "members g i = (case g i of Some ms \<Rightarrow> ms | None \<Rightarrow> [])"

definition insert_article :: "'s articles_repository \<Rightarrow> string \<Rightarrow> int \<Rightarrow> article_candidate \<Rightarrow> ('s, js_error, article_outcome) task" where
  "insert_article repo sourceId fetchedAt c =
     catch_task (bind_task (rp_insert repo (toNewArticle c sourceId fetchedAt)) (\<lambda>a. return_task (Inserted a)))
       (\<lambda>e. if \<not> isCanonicalUrlConflict e then fail_task e
          else bind_task (rp_findMatches repo [query_of c]) (\<lambda>ms. case ms of
              [] \<Rightarrow> fail_task e
            | m # _ \<Rightarrow> return_task (Existing Race (am_id m))))"

text \<open>The match of a group in the answer of the lookup; of matches with the same key the last one is kept.\<close>

definition group_match :: "article_candidate list \<Rightarrow> (nat \<rightharpoonup> nat list) \<Rightarrow> article_match list \<Rightarrow> nat \<Rightarrow>
    (article_match \<times> match_reason) option" where
  "group_match cs g ms i = findGroupMatch (members g i) cs
     (map_of (rev (map (\<lambda>m. (am_canonicalUrl m, m)) ms))) (map_of (rev (map (\<lambda>m. (am_contentHash m, m)) ms)))"

definition resolve_one :: "'s articles_repository \<Rightarrow> string \<Rightarrow> int \<Rightarrow> article_candidate list \<Rightarrow> (nat \<rightharpoonup> nat list) \<Rightarrow>
    article_match list \<Rightarrow> nat \<Rightarrow> ('s, js_error, article_outcome) task" where
  "resolve_one repo sourceId fetchedAt cs g ms i = (case group_match cs g ms i of
       Some (m, why) \<Rightarrow> return_task (Existing (Matched why) (am_id m))
     | None \<Rightarrow> insert_article repo sourceId fetchedAt (cs ! i))"

fun resolve_all :: "(nat \<Rightarrow> ('s, js_error, article_outcome) task) \<Rightarrow> nat list \<Rightarrow> (nat \<rightharpoonup> article_outcome) \<Rightarrow>
    ('s, js_error, nat \<rightharpoonup> article_outcome) task" where
  "resolve_all one [] resolved = return_task resolved"
| "resolve_all one (i # is) resolved = bind_task (one i) (\<lambda>out. resolve_all one is (resolved(i \<mapsto> out)))"

fun outcomes_from :: "nat \<Rightarrow> article_candidate list \<Rightarrow> (nat \<times> in_batch_duplicate) list \<Rightarrow> (nat \<rightharpoonup> article_outcome) \<Rightarrow>
    js_error + (nat \<times> article_candidate \<times> article_outcome) list" where
  "outcomes_from i [] dups resolved = Inr []"
| "outcomes_from i (c # cs) dups resolved =
     (case (case map_of dups i of Some d \<Rightarrow> Some (DuplicateInBatch d) | None \<Rightarrow> resolved i) of
        None \<Rightarrow> Inl \<lparr>er_message = ''no outcome computed for candidate at index '' @ dec i, er_cause = None\<rparr>
      | Some out \<Rightarrow> (case outcomes_from (Suc i) cs dups resolved of
            Inl e \<Rightarrow> Inl e
          | Inr outs \<Rightarrow> Inr ((i, c, out) # outs)))"

fun count_outcome :: "nat \<times> article_candidate \<times> article_outcome \<Rightarrow> dedupe_result \<Rightarrow> dedupe_result" where
  "count_outcome (_, _, Inserted _) r = r\<lparr>dr_insertedCount := dr_insertedCount r + 1\<rparr>"
| "count_outcome (_, _, Existing _ _) r = r\<lparr>dr_existingCount := dr_existingCount r + 1\<rparr>"
| "count_outcome (_, _, DuplicateInBatch _) r = r\<lparr>dr_duplicateInBatchCount := dr_duplicateInBatchCount r + 1\<rparr>"

definition tally :: "(nat \<times> article_candidate \<times> article_outcome) list \<Rightarrow> dedupe_result" where
  "tally outs = fold count_outcome outs
     \<lparr>dr_outcomes = outs, dr_insertedCount = 0, dr_existingCount = 0, dr_duplicateInBatchCount = 0\<rparr>"

definition persist_groups :: "'s articles_repository \<Rightarrow> string \<Rightarrow> int \<Rightarrow> article_candidate list \<Rightarrow>
    nat list \<Rightarrow> (nat \<times> in_batch_duplicate) list \<Rightarrow> ('s, js_error, dedupe_result) task" where
  "persist_groups repo sourceId fetchedAt cs reps dups =
     (let g = groupMembersByRepresentative reps dups
      in bind_task (rp_findMatches repo (concat (map (\<lambda>i. map (\<lambda>m. query_of (cs ! m)) (members g i)) reps))) (\<lambda>ms.
         bind_task (resolve_all (resolve_one repo sourceId fetchedAt cs g ms) reps Map.empty) (\<lambda>resolved.
           case outcomes_from 0 cs dups resolved of
             Inl e \<Rightarrow> fail_task e
           | Inr outs \<Rightarrow> return_task (tally outs))))"

text \<open>\<open>None\<close> is a call that does not come back, which \<open>collapse_spec\<close> excludes.\<close>

definition dedupeAndPersist :: "'s articles_repository \<Rightarrow> string \<Rightarrow> int \<Rightarrow> article_candidate list \<Rightarrow>
    ('s, js_error, dedupe_result) task option" where
  "dedupeAndPersist repo sourceId fetchedAt cs =
     map_option (\<lambda>(reps, dups). persist_groups repo sourceId fetchedAt cs reps dups) (collapseInBatchDuplicates cs)"

subsection \<open>What the union-find computes\<close>

text \<open>
  \<open>forest p R\<close>: every parent lies below its child, and \<open>R\<close> sends an index to the root of its tree.
\<close>

definition forest :: "parents \<Rightarrow> (nat \<Rightarrow> nat) \<Rightarrow> bool" where
  "forest p R \<longleftrightarrow> (\<forall>i. case p i of None \<Rightarrow> R i = i | Some a \<Rightarrow> a < i \<and> R i = R a)"

lemma forest_root: "forest p R \<Longrightarrow> p i = None \<Longrightarrow> R i = i"
  unfolding forest_def by (drule spec [of _ i]) simp

lemma forest_parent: "forest p R \<Longrightarrow> p i = Some a \<Longrightarrow> a < i \<and> R i = R a"
  unfolding forest_def by (drule spec [of _ i]) simp

lemma forest_least: "forest p R \<Longrightarrow> R i \<le> i \<and> p (R i) = None"
proof (induction i rule: less_induct)
  case (less i)
  show ?case
  proof (cases "p i")
    case None
    then show ?thesis using forest_root [OF less.prems None] by simp
  next
    case (Some a)
    then have "a < i" "R i = R a" using forest_parent [OF less.prems] by auto
    then show ?thesis using less.IH [of a] less.prems by auto
  qed
qed

lemma forest_idem [simp]: "forest p R \<Longrightarrow> R (R i) = R i"
  using forest_least [of p R i] forest_root by blast

lemma forest_is_root: "forest p R \<Longrightarrow> R i = i \<longleftrightarrow> p i = None"
  using forest_least [of p R i] forest_root by metis

lemma find_root_forest:
  "forest p R \<Longrightarrow> \<exists>p'. find_root i p = Some (R i, p') \<and> forest p' R \<and> (\<forall>j. p' j = None \<longleftrightarrow> p j = None)"
proof (induction i rule: less_induct)
  case (less i)
  show ?case
  proof (cases "p i")
    case None
    then show ?thesis using less.prems forest_root [OF less.prems None] by (simp add: find_root.simps [of i])
  next
    case (Some a)
    then have a: "a < i" "R i = R a" using forest_parent [OF less.prems] by auto
    from less.IH [OF this(1) less.prems] obtain p' where
      p': "find_root a p = Some (R a, p')" "forest p' R" "\<forall>j. p' j = None \<longleftrightarrow> p j = None" by blast
    have "R a < i" using forest_least [OF less.prems, of a] a(1) by linarith
    then have "forest (p'(i \<mapsto> R a)) R" using p'(2) a(2) by (auto simp: forest_def split: option.splits)
    then show ?thesis using p' Some a(2) by (auto simp: find_root.simps [of i])
  qed
qed

definition merged :: "nat \<Rightarrow> nat \<Rightarrow> (nat \<Rightarrow> nat) \<Rightarrow> nat \<Rightarrow> nat" where
  "merged a b R i = (if R i = max (R a) (R b) then min (R a) (R b) else R i)"

lemma merged_same [simp]: "R a = R b \<Longrightarrow> merged a b R = R"
  by (auto simp: merged_def fun_eq_iff)

lemma merged_joins: "merged a b R a = merged a b R b"
  by (auto simp: merged_def)

lemma merged_keeps: "R i = R j \<Longrightarrow> merged a b R i = merged a b R j"
  by (simp add: merged_def)

lemma forest_merged:
  assumes "forest p R" and "R a \<noteq> R b"
  shows "forest (p(max (R a) (R b) \<mapsto> min (R a) (R b))) (merged a b R)"
proof -
  have root: "R (max (R a) (R b)) = max (R a) (R b)" "R (min (R a) (R b)) = min (R a) (R b)"
    using assms(1) by (auto simp: max_def min_def)
  have ne: "min (R a) (R b) < max (R a) (R b)" using assms(2) by auto
  show ?thesis
    unfolding forest_def
  proof
    fix i
    show "case (p(max (R a) (R b) \<mapsto> min (R a) (R b))) i of None \<Rightarrow> merged a b R i = i
      | Some c \<Rightarrow> c < i \<and> merged a b R i = merged a b R c"
    proof (cases "i = max (R a) (R b)")
      case True
      then show ?thesis using root ne by (auto simp: merged_def)
    next
      case False
      then show ?thesis
        using forest_root [OF assms(1), of i] forest_parent [OF assms(1), of i]
        by (cases "p i") (auto simp: merged_def)
    qed
  qed
qed

text \<open>The state of the scan: a forest, and the recorded duplicates are the indices that are no roots.\<close>

definition collapsing :: "collapse_state \<Rightarrow> (nat \<Rightarrow> nat) \<Rightarrow> bool" where
  "collapsing st R \<longleftrightarrow> forest (cs_parent st) R \<and> dom (map_of (cs_duplicates st)) = {i. R i \<noteq> i}
     \<and> distinct (map fst (cs_duplicates st))"

lemma union_merged:
  assumes "collapsing st R"
  shows "\<exists>st'. union a b why st = Some st' \<and> collapsing st' (merged a b R)
    \<and> cs_urls st' = cs_urls st \<and> cs_hashes st' = cs_hashes st"
proof -
  have f: "forest (cs_parent st) R" and d: "dom (map_of (cs_duplicates st)) = {i. R i \<noteq> i}"
    "distinct (map fst (cs_duplicates st))" using assms by (auto simp: collapsing_def)
  obtain p where p: "find_root a (cs_parent st) = Some (R a, p)" "forest p R" using find_root_forest [OF f] by blast
  obtain q where q: "find_root b p = Some (R b, q)" "forest q R" using find_root_forest [OF p(2)] by blast
  have "{i. merged a b R i \<noteq> i} = insert (max (R a) (R b)) {i. R i \<noteq> i}" if "R a \<noteq> R b"
    using that f by (auto simp: merged_def max_def min_def split: if_splits)
  then show ?thesis
    using p q d forest_merged [OF q(2), of a b]
    by (cases "R a = R b") (auto simp: union_def collapsing_def update_conv' Let_def distinct_update)
qed

text \<open>The specification: two candidates are alike when a key of theirs agrees, and the same article when a
  chain of alike candidates of the batch connects them.\<close>

definition alike :: "article_candidate list \<Rightarrow> nat \<Rightarrow> nat \<Rightarrow> bool" where
  "alike cs i j \<longleftrightarrow> i < length cs \<and> j < length cs
     \<and> (ac_canonicalUrl (cs ! i) = ac_canonicalUrl (cs ! j) \<or> ac_contentHash (cs ! i) = ac_contentHash (cs ! j))"

abbreviation same_article :: "article_candidate list \<Rightarrow> nat \<Rightarrow> nat \<Rightarrow> bool" where
  "same_article cs \<equiv> (alike cs)\<^sup>*\<^sup>*"

lemma same_article_sym: "same_article cs i j \<Longrightarrow> same_article cs j i"
  by (rule sympD [OF symp_rtranclp]) (auto simp: symp_def alike_def)

lemma same_article_merged:
  assumes "\<And>i. same_article cs i (R i)" and "same_article cs a b"
  shows "same_article cs i (merged a b R i)"
proof -
  have "same_article cs (R a) (R b)"
    using same_article_sym [OF assms(1) [of a]] assms(2) assms(1) [of b] by (meson rtranclp_trans)
  then have "same_article cs (max (R a) (R b)) (min (R a) (R b))"
    using same_article_sym by (simp add: max_def min_def)
  then show ?thesis
    using assms(1) [of i] by (auto simp: merged_def intro: rtranclp_trans)
qed

text \<open>An index of the candidates seen so far by one of their keys, up to the trees.\<close>

definition indexed :: "(nat \<Rightarrow> string) \<Rightarrow> nat \<Rightarrow> (string \<rightharpoonup> nat) \<Rightarrow> (nat \<Rightarrow> nat) \<Rightarrow> bool" where
  "indexed key n m R \<longleftrightarrow> (\<forall>u k. m u = Some k \<longrightarrow> k < n \<and> key k = u) \<and> (\<forall>i<n. \<exists>k. m (key i) = Some k \<and> R k = R i)"

lemma indexed_Suc:
  assumes "indexed key n m R" and keeps: "\<And>i j. R i = R j \<Longrightarrow> S i = S j" and joins: "\<And>k. m (key n) = Some k \<Longrightarrow> S k = S n"
  shows "indexed key (Suc n) (m(key n \<mapsto> n)) S"
  unfolding indexed_def
proof (intro conjI allI impI)
  fix i assume i: "i < Suc n"
  show "\<exists>k. (m(key n \<mapsto> n)) (key i) = Some k \<and> S k = S i"
  proof (cases "i = n")
    case False
    then obtain k where k: "m (key i) = Some k" "R k = R i" using assms(1) i unfolding indexed_def by (metis less_SucE)
    then show ?thesis using keeps [OF k(2)] joins [of k] by (cases "key i = key n") auto
  qed simp
next
  fix u k assume "(m(key n \<mapsto> n)) u = Some k"
  then show "k < Suc n" "key k = u" using assms(1) by (auto simp: indexed_def less_Suc_eq split: if_splits)
qed

lemma indexed_same: "indexed key n m R \<Longrightarrow> i < n \<Longrightarrow> j < n \<Longrightarrow> key i = key j \<Longrightarrow> R i = R j"
proof -
  assume m: "indexed key n m R" and ij: "i < n" "j < n" "key i = key j"
  obtain k where "m (key i) = Some k" "R k = R i" using m ij(1) by (auto simp: indexed_def)
  moreover obtain l where "m (key j) = Some l" "R l = R j" using m ij(2) by (auto simp: indexed_def)
  ultimately show "R i = R j" using ij(3) by simp
qed

definition scanned :: "article_candidate list \<Rightarrow> nat \<Rightarrow> collapse_state \<Rightarrow> (nat \<Rightarrow> nat) \<Rightarrow> bool" where
  "scanned cs n st R \<longleftrightarrow> collapsing st R \<and> (\<forall>i. same_article cs i (R i))
     \<and> indexed (\<lambda>i. ac_canonicalUrl (cs ! i)) n (cs_urls st) R \<and> indexed (\<lambda>i. ac_contentHash (cs ! i)) n (cs_hashes st) R"

definition joined :: "nat \<Rightarrow> nat option \<Rightarrow> (nat \<Rightarrow> nat) \<Rightarrow> nat \<Rightarrow> nat" where
  "joined i seen R = (case seen of None \<Rightarrow> R | Some k \<Rightarrow> merged i k R)"

lemma joined_keeps: "R i = R j \<Longrightarrow> joined n seen R i = joined n seen R j"
  by (cases seen) (simp_all add: joined_def merged_def)

lemma joined_joins: "seen = Some k \<Longrightarrow> joined n seen R k = joined n seen R n"
  by (simp add: joined_def merged_joins)

lemma union_seen_joined:
  "collapsing st R \<Longrightarrow> \<exists>st'. union_seen i seen why st = Some st' \<and> collapsing st' (joined i seen R)
    \<and> cs_urls st' = cs_urls st \<and> cs_hashes st' = cs_hashes st"
  using union_merged [of st R i _ why] by (simp add: union_seen_def joined_def split: option.split)

lemma collapse_step_scanned:
  assumes "scanned cs n st R" and n: "n < length cs"
  shows "\<exists>st' R'. collapse_step n (cs ! n) st = Some st' \<and> scanned cs (Suc n) st' R'"
proof -
  let ?c = "cs ! n"
  let ?u = "cs_urls st (ac_canonicalUrl ?c)" and ?h = "cs_hashes st (ac_contentHash ?c)"
  let ?R1 = "joined n ?u R" let ?R2 = "joined n ?h ?R1"
  have inv: "collapsing st R" "\<And>i. same_article cs i (R i)"
    "indexed (\<lambda>i. ac_canonicalUrl (cs ! i)) n (cs_urls st) R" "indexed (\<lambda>i. ac_contentHash (cs ! i)) n (cs_hashes st) R"
    using assms(1) by (auto simp: scanned_def)
  obtain st1 where st1: "union_seen n ?u ByCanonicalUrl st = Some st1" "collapsing st1 ?R1"
    "cs_urls st1 = cs_urls st" "cs_hashes st1 = cs_hashes st" using union_seen_joined [OF inv(1)] by blast
  obtain st2 where st2: "union_seen n ?h ByContentHash st1 = Some st2" "collapsing st2 ?R2"
    "cs_urls st2 = cs_urls st" "cs_hashes st2 = cs_hashes st" using union_seen_joined [OF st1(2)] st1(3,4) by metis
  have alike: "same_article cs n k" if "?u = Some k \<or> ?h = Some k" for k
  proof -
    have "k < n" using that inv(3,4) by (auto simp: indexed_def)
    then show ?thesis using that inv(3,4) n by (intro r_into_rtranclp) (auto simp: indexed_def alike_def)
  qed
  then have sound: "same_article cs i (?R2 i)" for i
    using inv(2) same_article_merged by (auto simp: joined_def split: option.split)
  have "indexed (\<lambda>i. ac_canonicalUrl (cs ! i)) (Suc n) ((cs_urls st)(ac_canonicalUrl ?c \<mapsto> n)) ?R2"
    by (rule indexed_Suc [OF inv(3)]) (auto intro: joined_keeps joined_joins)
  moreover have "indexed (\<lambda>i. ac_contentHash (cs ! i)) (Suc n) ((cs_hashes st)(ac_contentHash ?c \<mapsto> n)) ?R2"
    by (rule indexed_Suc [OF inv(4)]) (auto intro: joined_keeps joined_joins)
  ultimately show ?thesis
    using st1(1) st2 sound
    by (intro exI [of _ "st2\<lparr>cs_urls := (cs_urls st2)(ac_canonicalUrl ?c \<mapsto> n), cs_hashes := (cs_hashes st2)(ac_contentHash ?c \<mapsto> n)\<rparr>"]
        exI [of _ ?R2]) (simp add: collapse_step_def scanned_def collapsing_def)
qed

lemma collapse_scan_scanned:
  "scanned cs n st R \<Longrightarrow> n \<le> length cs \<Longrightarrow>
    \<exists>st' R'. collapse_scan n (drop n cs) st = Some st' \<and> scanned cs (length cs) st' R'"
proof (induction "length cs - n" arbitrary: n st R)
  case (Suc k)
  then have n: "n < length cs" by simp
  from collapse_step_scanned [OF Suc.prems(1) n] obtain st' R' where
    step: "collapse_step n (cs ! n) st = Some st'" "scanned cs (Suc n) st' R'" by blast
  show ?case
    using Suc.hyps(1) [of "Suc n" st' R'] Suc.hyps(2) step n by (simp add: Cons_nth_drop_Suc [symmetric])
qed auto

lemma collapse_scanned:
  obtains st R where "collapse_scan 0 cs collapse_start = Some st" "scanned cs (length cs) st R"
proof -
  have "scanned cs 0 collapse_start id"
    by (simp add: scanned_def collapsing_def forest_def collapse_start_def indexed_def)
  from collapse_scan_scanned [OF this] show ?thesis using that by auto
qed

lemma scanned_same:
  assumes "scanned cs (length cs) st R"
  shows "same_article cs i j \<longleftrightarrow> R i = R j"
proof
  have step: "R i = R j" if "alike cs i j" for i j
    using assms that indexed_same unfolding scanned_def alike_def by blast
  show "R i = R j" if "same_article cs i j"
    using that by (induction rule: rtranclp_induct) (auto dest: step)
  show "R i = R j \<Longrightarrow> same_article cs i j"
    using assms same_article_sym rtranclp_trans unfolding scanned_def by metis
qed

text \<open>The second walk points every duplicate at its root.\<close>

lemma collapse_settle_spec:
  assumes "forest p R" and "dom (map_of dups) = {i. R i \<noteq> i}" and "distinct (map fst dups)"
  shows "\<exists>dups'. collapse_settle is p dups = Some (filter (\<lambda>i. R i = i) is, dups') \<and> distinct (map fst dups')
    \<and> (\<forall>i. map_of dups' i = (if i \<in> set is then map_option (\<lambda>d. d\<lparr>ib_duplicateOfIndex := R i\<rparr>) (map_of dups i) else map_of dups i))"
  using assms
proof (induction "is" arbitrary: p dups)
  case (Cons i rest)
  obtain q where q: "find_root i p = Some (R i, q)" "forest q R" using find_root_forest [OF Cons.prems(1)] by blast
  show ?case
  proof (cases "R i = i")
    case True
    then have "map_of dups i = None" using Cons.prems(2) by blast
    then show ?thesis using Cons.IH [OF q(2) Cons.prems(2,3)] q(1) True by fastforce
  next
    case False
    then obtain d where d: "map_of dups i = Some d" using Cons.prems(2) by blast
    obtain q' where q': "find_root i q = Some (R i, q')" "forest q' R" using find_root_forest [OF q(2)] by blast
    let ?dups = "AList.update i (d\<lparr>ib_duplicateOfIndex := R i\<rparr>) dups"
    have "dom (map_of ?dups) = {i. R i \<noteq> i}" using Cons.prems(2) d by (auto simp: update_conv' dom_def split: if_splits)
    from Cons.IH [OF q'(2) this distinct_update [OF Cons.prems(3)]] obtain dups' where
      "collapse_settle rest q' ?dups = Some (filter (\<lambda>i. R i = i) rest, dups')" "distinct (map fst dups')"
      "\<forall>j. map_of dups' j = (if j \<in> set rest then map_option (\<lambda>d. d\<lparr>ib_duplicateOfIndex := R j\<rparr>) (map_of ?dups j) else map_of ?dups j)"
      by blast
    then show ?thesis using q(1) q'(1) d False by (auto simp: update_conv')
  qed
qed simp

lemma collapse_spec:
  obtains reps dups R where "collapseInBatchDuplicates cs = Some (reps, dups)"
    "\<And>i j. same_article cs i j \<longleftrightarrow> R i = R j" "\<And>i. R i \<le> i" "\<And>i. R (R i) = R i"
    "reps = filter (\<lambda>i. R i = i) [0..<length cs]" "distinct (map fst dups)"
    "\<And>i. map_option ib_duplicateOfIndex (map_of dups i) = (if R i = i then None else Some (R i))"
proof -
  obtain st R where st: "collapse_scan 0 cs collapse_start = Some st" "scanned cs (length cs) st R" by (rule collapse_scanned)
  then have c: "forest (cs_parent st) R" "dom (map_of (cs_duplicates st)) = {i. R i \<noteq> i}" "distinct (map fst (cs_duplicates st))"
    by (auto simp: scanned_def collapsing_def)
  obtain dups where dups: "collapse_settle [0..<length cs] (cs_parent st) (cs_duplicates st) =
      Some (filter (\<lambda>i. R i = i) [0..<length cs], dups)" "distinct (map fst dups)"
    "\<And>i. map_of dups i = (if i \<in> set [0..<length cs]
        then map_option (\<lambda>d. d\<lparr>ib_duplicateOfIndex := R i\<rparr>) (map_of (cs_duplicates st) i) else map_of (cs_duplicates st) i)"
    using collapse_settle_spec [OF c] by blast
  have far: "R i = i" if "\<not> i < length cs" for i
  proof -
    have "same_article cs i (R i)" using st(2) by (simp add: scanned_def)
    then show ?thesis using that by (cases rule: converse_rtranclpE) (auto simp: alike_def)
  qed
  have "map_option ib_duplicateOfIndex (map_of dups i) = (if R i = i then None else Some (R i))" for i
  proof (cases "R i = i")
    case True
    then have "map_of (cs_duplicates st) i = None" using c(2) by blast
    then show ?thesis using True by (simp add: dups(3))
  next
    case False
    then obtain d where "map_of (cs_duplicates st) i = Some d" using c(2) by blast
    then show ?thesis using False far by (auto simp: dups(3))
  qed
  then show ?thesis
    using that [of _ dups R] st(1) dups(1,2) scanned_same [OF st(2)] forest_least [OF c(1)] c(1)
    by (simp add: collapseInBatchDuplicates_def)
qed

text \<open>The reference: the earliest candidate of the batch that is the same article.\<close>

definition earliest :: "article_candidate list \<Rightarrow> nat \<Rightarrow> nat" where
  "earliest cs i = (LEAST j. same_article cs j i)"

lemma root_earliest:
  assumes "\<And>i j. same_article cs i j \<longleftrightarrow> R i = R j" and "\<And>i. R i \<le> (i::nat)" and "\<And>i. R (R i) = R i"
  shows "R i = earliest cs i"
  unfolding earliest_def by (rule Least_equality [symmetric]) (metis assms)+

end
