(* ===== verification/ArticleStore.thy ===== *)
theory ArticleStore
  imports Articles
begin

text \<open>
  \<open>apps/worker/src/modules/articles/repository.ts\<close> over the table of \<open>packages/db/src/schema/articles.ts\<close>,
  the contract the service relies on, and what the service makes of a store that keeps it.
\<close>

subsection \<open>The batch, in terms of the reference\<close>

lemma earliest_facts:
  "same_article cs i j \<longleftrightarrow> earliest cs i = earliest cs j" "earliest cs i \<le> i" "earliest cs (earliest cs i) = earliest cs i"
proof -
  obtain R where R: "\<And>i j. same_article cs i j \<longleftrightarrow> R i = R j" "\<And>i. R i \<le> i" "\<And>i. R (R i) = R i"
    by (rule collapse_spec [of cs]) blast
  have "R = earliest cs" using root_earliest [OF R] by blast
  then show "same_article cs i j \<longleftrightarrow> earliest cs i = earliest cs j" "earliest cs i \<le> i" "earliest cs (earliest cs i) = earliest cs i"
    using R by auto
qed

definition collapsed_to :: "article_candidate list \<Rightarrow> nat list \<Rightarrow> (nat \<times> in_batch_duplicate) list \<Rightarrow> bool" where
  "collapsed_to cs reps dups \<longleftrightarrow> reps = filter (\<lambda>i. earliest cs i = i) [0..<length cs] \<and> distinct (map fst dups)
     \<and> (\<forall>i. map_option ib_duplicateOfIndex (map_of dups i) = (if earliest cs i = i then None else Some (earliest cs i)))"

lemma collapse_collapsed:
  obtains reps dups where "collapseInBatchDuplicates cs = Some (reps, dups)" "collapsed_to cs reps dups"
proof -
  obtain reps dups R where c: "collapseInBatchDuplicates cs = Some (reps, dups)"
    "\<And>i j. same_article cs i j \<longleftrightarrow> R i = R j" "\<And>i. R i \<le> i" "\<And>i. R (R i) = R i"
    "reps = filter (\<lambda>i. R i = i) [0..<length cs]" "distinct (map fst dups)"
    "\<And>i. map_option ib_duplicateOfIndex (map_of dups i) = (if R i = i then None else Some (R i))"
    by (rule collapse_spec [of cs]) blast
  have "R = earliest cs" using root_earliest [of cs R] c(2,3,4) by blast
  then show ?thesis using that c(1,5,6,7) by (simp add: collapsed_to_def)
qed

lemma fold_push:
  "fold push_member dups g =
    (\<lambda>k. map_option (\<lambda>ms. ms @ map fst (filter (\<lambda>d. ib_duplicateOfIndex (snd d) = k) dups)) (g k))"
  by (induction dups arbitrary: g) (auto simp: push_member_def fun_eq_iff option.map_ident split: option.split)

lemma groups_spec:
  assumes "collapsed_to cs reps dups" and "i \<in> set reps"
  shows "set (members (groupMembersByRepresentative reps dups) i) = {j. earliest cs j = i}"
proof -
  have "map_of (map (\<lambda>i. (i, [i])) reps) i = Some [i]" using assms(2) by (simp add: map_of_map_restrict)
  then have "set (members (groupMembersByRepresentative reps dups) i) =
      insert i {j. \<exists>d. (j, d) \<in> set dups \<and> ib_duplicateOfIndex d = i}"
    by (force simp: members_def groupMembersByRepresentative_def fold_push)
  also have "\<dots> = insert i {j. map_option ib_duplicateOfIndex (map_of dups j) = Some i}"
  proof -
    have "distinct (map fst dups)" using assms(1) by (simp add: collapsed_to_def)
    then have "(\<exists>d. (j, d) \<in> set dups \<and> ib_duplicateOfIndex d = i) \<longleftrightarrow> map_option ib_duplicateOfIndex (map_of dups j) = Some i" for j
      using map_of_eq_Some_iff [of dups j] by auto
    then show ?thesis by simp
  qed
  also have "\<dots> = {j. earliest cs j = i}"
    using assms by (auto simp: collapsed_to_def split: if_splits)
  finally show ?thesis .
qed

subsection \<open>Finding a match\<close>

definition matched_by :: "match_reason \<Rightarrow> article \<Rightarrow> article_candidate \<Rightarrow> bool" where
  "matched_by why r c \<longleftrightarrow> (case why of ByCanonicalUrl \<Rightarrow> na_canonicalUrl r = ac_canonicalUrl c
     | ByContentHash \<Rightarrow> na_contentHash r = ac_contentHash c)"

definition row_matches :: "article \<Rightarrow> article_candidate \<Rightarrow> bool" where
  "row_matches r c \<longleftrightarrow> (\<exists>why. matched_by why r c)"

lemma row_matches_iff: "row_matches r c \<longleftrightarrow> na_canonicalUrl r = ac_canonicalUrl c \<or> na_contentHash r = ac_contentHash c"
proof
  show "na_canonicalUrl r = ac_canonicalUrl c \<or> na_contentHash r = ac_contentHash c \<Longrightarrow> row_matches r c"
    unfolding row_matches_def matched_by_def by (metis match_reason.simps(3,4))
  show "row_matches r c \<Longrightarrow> na_canonicalUrl r = ac_canonicalUrl c \<or> na_contentHash r = ac_contentHash c"
    unfolding row_matches_def matched_by_def by (metis (full_types) match_reason.exhaust match_reason.simps(3,4))
qed

definition match_of :: "article \<Rightarrow> article_match" where
  "match_of r = \<lparr>am_id = ar_id r, am_canonicalUrl = na_canonicalUrl r, am_contentHash = na_contentHash r\<rparr>"

definition asked_for :: "article_query list \<Rightarrow> article \<Rightarrow> bool" where
  "asked_for qs r \<longleftrightarrow> na_canonicalUrl r \<in> set (map aq_canonicalUrl qs) \<or> na_contentHash r \<in> set (map aq_contentHash qs)"

lemma last_by_key:
  "map_of (rev (map (\<lambda>m. (key m, m)) ms)) k = Some m \<Longrightarrow> m \<in> set ms \<and> key m = k"
  "map_of (rev (map (\<lambda>m. (key m, m)) ms)) k = None \<longleftrightarrow> k \<notin> key ` set ms"
  by (auto dest: map_of_SomeD simp: map_of_eq_None_iff image_image)

lemma findGroupMatch_Some:
  "findGroupMatch is cs byUrl byHash = Some (m, why) \<Longrightarrow>
    \<exists>j \<in> set is. (case why of ByCanonicalUrl \<Rightarrow> byUrl (ac_canonicalUrl (cs ! j)) | ByContentHash \<Rightarrow> byHash (ac_contentHash (cs ! j))) = Some m"
  by (induction "is") (auto simp: findMatch_def split: option.splits)

lemma findGroupMatch_None:
  "findGroupMatch is cs byUrl byHash = None \<longleftrightarrow>
    (\<forall>j \<in> set is. byUrl (ac_canonicalUrl (cs ! j)) = None \<and> byHash (ac_contentHash (cs ! j)) = None)"
  by (induction "is") (auto simp: findMatch_def split: option.splits)

subsection \<open>What the service decides\<close>

text \<open>
  An outcome is right for candidate \<open>i\<close> of a batch when the rows before were \<open>old\<close> and the rows now are \<open>new\<close>.
\<close>

definition known_article :: "article set \<Rightarrow> article_candidate list \<Rightarrow> nat \<Rightarrow> bool" where
  "known_article S cs i \<longleftrightarrow> (\<exists>r \<in> S. \<exists>j. earliest cs j = earliest cs i \<and> row_matches r (cs ! j))"

definition outcome_right :: "string \<Rightarrow> int \<Rightarrow> article_candidate list \<Rightarrow> article set \<Rightarrow> article set \<Rightarrow> nat \<Rightarrow> article_outcome \<Rightarrow> bool" where
  "outcome_right sourceId fetchedAt cs old new i out \<longleftrightarrow> (case out of
       Inserted a \<Rightarrow> earliest cs i = i \<and> \<not> known_article old cs i \<and> a \<in> new
         \<and> new_article.truncate a = toNewArticle (cs ! i) sourceId fetchedAt
     | Existing (Matched why) key \<Rightarrow> earliest cs i = i
         \<and> (\<exists>r \<in> new. ar_id r = key \<and> (\<exists>j. earliest cs j = i \<and> matched_by why r (cs ! j)))
     | Existing Race key \<Rightarrow> earliest cs i = i \<and> (\<exists>r \<in> new. ar_id r = key \<and> row_matches r (cs ! i))
     | DuplicateInBatch d \<Rightarrow> earliest cs i < i \<and> ib_duplicateOfIndex d = earliest cs i)"

lemma outcome_right_mono:
  "outcome_right sourceId fetchedAt cs old new i out \<Longrightarrow> new \<subseteq> new' \<Longrightarrow> outcome_right sourceId fetchedAt cs old new' i out"
  unfolding outcome_right_def by (fastforce split: article_outcome.splits existing_reason.splits)

lemma outcomes_from_Inr:
  "outcomes_from i cs dups resolved = Inr outs \<Longrightarrow> map fst outs = [i..<i + length cs] \<and> map (fst \<circ> snd) outs = cs
     \<and> (\<forall>(k, c, out) \<in> set outs. (case map_of dups k of Some d \<Rightarrow> Some (DuplicateInBatch d) | None \<Rightarrow> resolved k) = Some out)"
proof (induction cs arbitrary: i outs)
  case (Cons c cs)
  then obtain out rest where r: "(case map_of dups i of Some d \<Rightarrow> Some (DuplicateInBatch d) | None \<Rightarrow> resolved i) = Some out"
    "outcomes_from (Suc i) cs dups resolved = Inr rest" "outs = (i, c, out) # rest"
    by (auto split: option.splits sum.splits)
  have "[i..<i + length (c # cs)] = i # [Suc i..<Suc i + length cs]" by (simp add: upt_rec)
  then show ?case using Cons.IH [OF r(2)] r(1,3) by (auto split: prod.splits)
qed simp

lemma outcomes_from_total:
  "(\<And>k. i \<le> k \<Longrightarrow> k < i + length cs \<Longrightarrow> map_of dups k \<noteq> None \<or> resolved k \<noteq> None) \<Longrightarrow>
    \<exists>outs. outcomes_from i cs dups resolved = Inr outs"
proof (induction cs arbitrary: i)
  case (Cons c cs)
  have "\<exists>outs. outcomes_from (Suc i) cs dups resolved = Inr outs" by (rule Cons.IH, rule Cons.prems) simp_all
  then show ?case using Cons.prems [of i] by (auto split: option.split)
qed simp

definition count_outcomes :: "(article_outcome \<Rightarrow> bool) \<Rightarrow> (nat \<times> article_candidate \<times> article_outcome) list \<Rightarrow> nat" where
  "count_outcomes P outs = length (filter (\<lambda>x. P (snd (snd x))) outs)"

lemma tally_counts:
  "dr_outcomes (tally outs) = outs"
  "dr_insertedCount (tally outs) = count_outcomes (\<lambda>out. \<exists>a. out = Inserted a) outs"
  "dr_existingCount (tally outs) = count_outcomes (\<lambda>out. \<exists>why key. out = Existing why key) outs"
  "dr_duplicateInBatchCount (tally outs) = count_outcomes (\<lambda>out. \<exists>d. out = DuplicateInBatch d) outs"
proof -
  have "dr_outcomes (fold count_outcome outs r) = dr_outcomes r
      \<and> dr_insertedCount (fold count_outcome outs r) = dr_insertedCount r + count_outcomes (\<lambda>out. \<exists>a. out = Inserted a) outs
      \<and> dr_existingCount (fold count_outcome outs r) = dr_existingCount r + count_outcomes (\<lambda>out. \<exists>why key. out = Existing why key) outs
      \<and> dr_duplicateInBatchCount (fold count_outcome outs r) = dr_duplicateInBatchCount r + count_outcomes (\<lambda>out. \<exists>d. out = DuplicateInBatch d) outs" for r
  proof (induction outs arbitrary: r)
    case (Cons x outs)
    then show ?case by (cases x; cases "snd (snd x)") (simp_all add: count_outcomes_def)
  qed (simp add: count_outcomes_def)
  then show "dr_outcomes (tally outs) = outs"
    "dr_insertedCount (tally outs) = count_outcomes (\<lambda>out. \<exists>a. out = Inserted a) outs"
    "dr_existingCount (tally outs) = count_outcomes (\<lambda>out. \<exists>why key. out = Existing why key) outs"
    "dr_duplicateInBatchCount (tally outs) = count_outcomes (\<lambda>out. \<exists>d. out = DuplicateInBatch d) outs"
    by (simp_all add: tally_def)
qed

lemma tally_total: "dr_insertedCount (tally outs) + dr_existingCount (tally outs) + dr_duplicateInBatchCount (tally outs) = length outs"
  unfolding tally_counts
proof (induction outs)
  case (Cons x outs)
  then show ?case by (cases "snd (snd x)") (simp_all add: count_outcomes_def)
qed (simp add: count_outcomes_def)

text \<open>The matches of a group in the answer of a lookup, against the rows the answer was made from.\<close>

lemma group_match_Some:
  assumes "group_match cs g ms i = Some (m, why)" and g: "set (members g i) = {j. earliest cs j = i}"
    and ms: "set ms \<subseteq> match_of ` S"
  shows "\<exists>r \<in> S. ar_id r = am_id m \<and> (\<exists>j. earliest cs j = i \<and> matched_by why r (cs ! j))"
proof -
  let ?u = "map_of (rev (map (\<lambda>m. (am_canonicalUrl m, m)) ms))" and ?h = "map_of (rev (map (\<lambda>m. (am_contentHash m, m)) ms))"
  obtain j where j: "earliest cs j = i"
    "(case why of ByCanonicalUrl \<Rightarrow> ?u (ac_canonicalUrl (cs ! j)) | ByContentHash \<Rightarrow> ?h (ac_contentHash (cs ! j))) = Some m"
    using findGroupMatch_Some assms(1) g unfolding group_match_def by fastforce
  have "m \<in> set ms \<and> (case why of ByCanonicalUrl \<Rightarrow> am_canonicalUrl m = ac_canonicalUrl (cs ! j)
      | ByContentHash \<Rightarrow> am_contentHash m = ac_contentHash (cs ! j))"
    by (cases why) (use j(2) last_by_key(1) [of am_canonicalUrl ms _ m] last_by_key(1) [of am_contentHash ms _ m] in auto)
  then have m: "m \<in> set ms" "case why of ByCanonicalUrl \<Rightarrow> am_canonicalUrl m = ac_canonicalUrl (cs ! j)
      | ByContentHash \<Rightarrow> am_contentHash m = ac_contentHash (cs ! j)" by auto
  then obtain r where r: "r \<in> S" "m = match_of r" using ms by blast
  then have "matched_by why r (cs ! j)" using m(2) by (cases why) (simp_all add: matched_by_def match_of_def)
  then show ?thesis using r j(1) by (intro bexI [of _ r]) (auto simp: match_of_def)
qed

lemma group_match_None:
  assumes "group_match cs g ms i = None" and i: "earliest cs i = i" and g: "set (members g i) = {j. earliest cs j = i}"
    and "\<forall>r \<in> old. \<forall>j. earliest cs j = i \<longrightarrow> row_matches r (cs ! j) \<longrightarrow> match_of r \<in> set ms"
  shows "\<not> known_article old cs i"
proof -
  have "am_canonicalUrl m \<noteq> ac_canonicalUrl (cs ! j) \<and> am_contentHash m \<noteq> ac_contentHash (cs ! j)"
    if "earliest cs j = i" "m \<in> set ms" for j m
    using assms(1) that g unfolding group_match_def findGroupMatch_None last_by_key(2) by force
  then show ?thesis
    using assms(4) i unfolding known_article_def row_matches_iff by (fastforce simp: match_of_def)
qed

subsection \<open>Stores\<close>

text \<open>A call that succeeds, in terms of the rows before and after it.\<close>

definition batch_right :: "string \<Rightarrow> int \<Rightarrow> article_candidate list \<Rightarrow> article set \<Rightarrow> article set \<Rightarrow> dedupe_result \<Rightarrow> bool" where
  "batch_right sourceId fetchedAt cs old new res \<longleftrightarrow> old \<subseteq> new
     \<and> map fst (dr_outcomes res) = [0..<length cs] \<and> map (fst \<circ> snd) (dr_outcomes res) = cs
     \<and> (\<forall>(i, _, out) \<in> set (dr_outcomes res). outcome_right sourceId fetchedAt cs old new i out)"

text \<open>
  What the service relies on: rows are only added, a lookup answers with the rows that match one of its
  queries when it returns, and an insertion that succeeds has stored its row.
\<close>

locale articles_store =
  fixes repo :: "'s articles_repository" and rows :: "'s \<Rightarrow> article list"
  assumes find_grows: "rp_findMatches repo qs s = (r, s') \<Longrightarrow> set (rows s) \<subseteq> set (rows s')"
    and insert_grows: "rp_insert repo na s = (q, s') \<Longrightarrow> set (rows s) \<subseteq> set (rows s')"
    and find_exact: "rp_findMatches repo qs s = (Inr ms, s') \<Longrightarrow> set ms = match_of ` {r \<in> set (rows s'). asked_for qs r}"
    and insert_stored: "rp_insert repo na s = (Inr a, s') \<Longrightarrow> a \<in> set (rows s') \<and> new_article.truncate a = na"
begin

lemma insert_article_right:
  assumes "insert_article repo sourceId fetchedAt (cs ! i) s = (r, s')"
    and "earliest cs i = i" and "\<not> known_article old cs i"
  shows "set (rows s) \<subseteq> set (rows s')"
    and "r = Inr out \<Longrightarrow> outcome_right sourceId fetchedAt cs old (set (rows s')) i out"
proof -
  have "set (rows s) \<subseteq> set (rows s') \<and> (r = Inr out \<longrightarrow> outcome_right sourceId fetchedAt cs old (set (rows s')) i out)"
    using assms(1) unfolding insert_article_def
  proof (rule caught_cases)
    fix e v
    assume failed: "bind_task (rp_insert repo (toNewArticle (cs ! i) sourceId fetchedAt)) (\<lambda>a. return_task (Inserted a)) s = (Inl e, v)"
      and handled: "(if \<not> isCanonicalUrlConflict e then fail_task e
          else bind_task (rp_findMatches repo [query_of (cs ! i)]) (\<lambda>ms. case ms of [] \<Rightarrow> fail_task e | m # _ \<Rightarrow> return_task (Existing Race (am_id m)))) v
        = (r, s')"
    from failed have sv: "set (rows s) \<subseteq> set (rows v)" by (rule task_cases) (auto dest: insert_grows)
    from handled show ?thesis
    proof (cases "isCanonicalUrlConflict e")
      case True
      with handled have "bind_task (rp_findMatches repo [query_of (cs ! i)]) (\<lambda>ms. case ms of [] \<Rightarrow> fail_task e | m # _ \<Rightarrow> return_task (Existing Race (am_id m))) v
        = (r, s')" by simp
      then show ?thesis
      proof (rule task_cases)
        fix ms u
        assume ms: "rp_findMatches repo [query_of (cs ! i)] v = (Inr ms, u)"
          and rest: "(case ms of [] \<Rightarrow> fail_task e | m # _ \<Rightarrow> return_task (Existing Race (am_id m))) u = (r, s')"
        have grow: "set (rows v) \<subseteq> set (rows u)" "u = s'" using find_grows [OF ms] rest by (auto split: list.splits)
        have "outcome_right sourceId fetchedAt cs old (set (rows s')) i (Existing Race (am_id m))" if "m \<in> set ms" for m
          using that find_exact [OF ms] grow(2) assms(2)
          by (auto simp: outcome_right_def match_of_def asked_for_def query_of_def row_matches_iff)
        then show ?thesis using rest sv grow by (cases ms) auto
      qed (use sv find_grows in blast)
    qed (use sv in auto)
  next
    fix x
    assume ok: "bind_task (rp_insert repo (toNewArticle (cs ! i) sourceId fetchedAt)) (\<lambda>a. return_task (Inserted a)) s = (Inr x, s')" "r = Inr x"
    from ok(1) show ?thesis
      by (rule task_cases) (use ok(2) assms(2,3) insert_grows insert_stored in \<open>auto simp: outcome_right_def\<close>)
  qed
  then show "set (rows s) \<subseteq> set (rows s')"
    "r = Inr out \<Longrightarrow> outcome_right sourceId fetchedAt cs old (set (rows s')) i out" by auto
qed

lemma resolve_one_right:
  assumes "resolve_one repo sourceId fetchedAt cs g ms i s = (r, s')" and i: "earliest cs i = i"
    and g: "set (members g i) = {j. earliest cs j = i}"
    and ms: "set ms \<subseteq> match_of ` set (rows s)" and old: "\<forall>r \<in> old. \<forall>j. earliest cs j = i \<longrightarrow> row_matches r (cs ! j) \<longrightarrow> match_of r \<in> set ms"
  shows "set (rows s) \<subseteq> set (rows s')"
    and "r = Inr out \<Longrightarrow> outcome_right sourceId fetchedAt cs old (set (rows s')) i out"
proof -
  have "set (rows s) \<subseteq> set (rows s') \<and> (r = Inr out \<longrightarrow> outcome_right sourceId fetchedAt cs old (set (rows s')) i out)"
  proof (cases "group_match cs g ms i")
    case None
    then have run: "insert_article repo sourceId fetchedAt (cs ! i) s = (r, s')"
      using assms(1) by (simp add: resolve_one_def)
    show ?thesis using insert_article_right [OF run i group_match_None [OF None i g old]] by blast
  next
    case (Some mw)
    obtain m why where mw: "mw = (m, why)" by (cases mw)
    then have found: "s' = s" "r = Inr (Existing (Matched why) (am_id m))"
      using assms(1) Some by (auto simp: resolve_one_def)
    have "outcome_right sourceId fetchedAt cs old (set (rows s')) i (Existing (Matched why) (am_id m))"
      using group_match_Some [OF Some [unfolded mw] g ms] found(1) i by (simp add: outcome_right_def)
    then show ?thesis using found by auto
  qed
  then show "set (rows s) \<subseteq> set (rows s')"
    "r = Inr out \<Longrightarrow> outcome_right sourceId fetchedAt cs old (set (rows s')) i out" by auto
qed

lemma resolve_all_right:
  assumes "\<And>i s r s'. i \<in> set is \<Longrightarrow> V \<subseteq> set (rows s) \<Longrightarrow> one i s = (r, s') \<Longrightarrow> set (rows s) \<subseteq> set (rows s')
      \<and> (\<forall>out. r = Inr out \<longrightarrow> outcome_right sourceId fetchedAt cs old (set (rows s')) i out)"
    and "resolve_all one is m s = (Inr m', s')" and "V \<subseteq> set (rows s)"
  shows "set (rows s) \<subseteq> set (rows s')
    \<and> (\<forall>i \<in> set is. \<exists>out. m' i = Some out \<and> outcome_right sourceId fetchedAt cs old (set (rows s')) i out)
    \<and> (\<forall>i. i \<notin> set is \<longrightarrow> m' i = m i)"
  using assms
proof (induction "is" arbitrary: m s)
  case (Cons i rest)
  from Cons.prems(2) obtain out v where v: "one i s = (Inr out, v)" "resolve_all one rest (m(i \<mapsto> out)) v = (Inr m', s')"
    by (auto elim: task_cases)
  from Cons.prems(1) [OF _ Cons.prems(3) v(1)] have right: "set (rows s) \<subseteq> set (rows v)"
    "outcome_right sourceId fetchedAt cs old (set (rows v)) i out" by auto
  have "set (rows v) \<subseteq> set (rows s')
    \<and> (\<forall>i \<in> set rest. \<exists>out. m' i = Some out \<and> outcome_right sourceId fetchedAt cs old (set (rows s')) i out)
    \<and> (\<forall>j. j \<notin> set rest \<longrightarrow> m' j = (m(i \<mapsto> out)) j)"
  proof (rule Cons.IH [OF _ v(2)])
    show "V \<subseteq> set (rows v)" using Cons.prems(3) right(1) by blast
  qed (rule Cons.prems(1), simp_all)
  then show ?case using right outcome_right_mono by (auto split: if_splits)
qed auto

lemma persist_groups_right:
  assumes c: "collapsed_to cs reps dups" and run: "persist_groups repo sourceId fetchedAt cs reps dups s = (Inr res, s')"
  shows "batch_right sourceId fetchedAt cs (set (rows s)) (set (rows s')) res"
    and "res = tally (dr_outcomes res)"
proof -
  let ?g = "groupMembersByRepresentative reps dups"
  let ?qs = "concat (map (\<lambda>i. map (\<lambda>m. query_of (cs ! m)) (members ?g i)) reps)"
  from run obtain ms v resolved u outs where ms: "rp_findMatches repo ?qs s = (Inr ms, v)"
    and all: "resolve_all (resolve_one repo sourceId fetchedAt cs ?g ms) reps Map.empty v = (Inr resolved, u)"
    and outs: "outcomes_from 0 cs dups resolved = Inr outs" "res = tally outs" "s' = u"
    unfolding persist_groups_def Let_def by (auto elim!: task_cases split: sum.splits)
  have reps: "i \<in> set reps \<longleftrightarrow> i < length cs \<and> earliest cs i = i" for i using c by (auto simp: collapsed_to_def)
  have found: "set ms \<subseteq> match_of ` set (rows v)" using find_exact [OF ms] by auto
  have looked: "match_of r \<in> set ms"
    if "r \<in> set (rows s)" "i \<in> set reps" "earliest cs j = i" "row_matches r (cs ! j)" for r i j
  proof -
    have "query_of (cs ! j) \<in> set ?qs" using that(2,3) groups_spec [OF c that(2)] by auto
    then have "asked_for ?qs r" using that(4) unfolding asked_for_def row_matches_iff by (force simp: query_of_def)
    then show ?thesis using find_exact [OF ms] find_grows [OF ms] that(1) by auto
  qed
  have right: "set (rows v) \<subseteq> set (rows u)
    \<and> (\<forall>i \<in> set reps. \<exists>out. resolved i = Some out \<and> outcome_right sourceId fetchedAt cs (set (rows s)) (set (rows u)) i out)
    \<and> (\<forall>i. i \<notin> set reps \<longrightarrow> resolved i = Map.empty i)"
  proof (rule resolve_all_right [OF _ all, where V = "set (rows v)"])
    fix i x r x'
    assume i: "i \<in> set reps" and x: "set (rows v) \<subseteq> set (rows x)" "resolve_one repo sourceId fetchedAt cs ?g ms i x = (r, x')"
    have "set ms \<subseteq> match_of ` set (rows x)" using found x(1) by blast
    note one = resolve_one_right [OF x(2) _ groups_spec [OF c i] this, of "set (rows s)"]
    show "set (rows x) \<subseteq> set (rows x') \<and>
        (\<forall>out. r = Inr out \<longrightarrow> outcome_right sourceId fetchedAt cs (set (rows s)) (set (rows x')) i out)"
      using one reps [of i] i looked by blast
  qed simp
  have "outcome_right sourceId fetchedAt cs (set (rows s)) (set (rows u)) i out" if "(i, d, out) \<in> set outs" for i d out
  proof (cases "map_of dups i")
    case None
    then have "earliest cs i = i" using c unfolding collapsed_to_def by (metis option.distinct(1) option.map_disc_iff)
    moreover have "i \<in> fst ` set outs" using that by force
    then have "i < length cs" using outcomes_from_Inr [OF outs(1)] by (metis add_0 atLeastLessThan_upt list.set_map lessThan_iff atLeast0LessThan)
    ultimately obtain out' where "resolved i = Some out'" "outcome_right sourceId fetchedAt cs (set (rows s)) (set (rows u)) i out'"
      using right reps by blast
    then show ?thesis using outcomes_from_Inr [OF outs(1)] that None by fastforce
  next
    case (Some x)
    then have "ib_duplicateOfIndex x = earliest cs i" "earliest cs i \<noteq> i"
      using c unfolding collapsed_to_def by (metis option.distinct(1) option.inject option.simps(9))+
    moreover have "out = DuplicateInBatch x" using outcomes_from_Inr [OF outs(1)] that Some by fastforce
    ultimately show ?thesis using earliest_facts(2) [of cs i] by (simp add: outcome_right_def)
  qed
  then show "batch_right sourceId fetchedAt cs (set (rows s)) (set (rows s')) res"
    using outcomes_from_Inr [OF outs(1)] outs(2,3) right find_grows [OF ms]
    by (auto simp: batch_right_def tally_counts)
  show "res = tally (dr_outcomes res)" by (simp add: outs(2) tally_counts)
qed

lemma dedupe_right:
  assumes "dedupeAndPersist repo sourceId fetchedAt cs = Some run" and "run s = (Inr res, s')"
  shows "batch_right sourceId fetchedAt cs (set (rows s)) (set (rows s')) res" "res = tally (dr_outcomes res)"
proof -
  obtain reps dups where "collapseInBatchDuplicates cs = Some (reps, dups)" "collapsed_to cs reps dups"
    by (rule collapse_collapsed)
  then show "batch_right sourceId fetchedAt cs (set (rows s)) (set (rows s')) res" "res = tally (dr_outcomes res)"
    using assms persist_groups_right by (auto simp: dedupeAndPersist_def)
qed

text \<open>After a successful call every candidate is stored, as itself or through a candidate that is the same article.\<close>

lemma dedupe_covers:
  assumes "dedupeAndPersist repo sourceId fetchedAt cs = Some run" and "run s = (Inr res, s')" and i: "i < length cs"
  shows "known_article (set (rows s')) cs i"
proof -
  note right = dedupe_right [OF assms(1,2)]
  have "earliest cs i < length cs" using earliest_facts(2) [of cs i] i by linarith
  then have "earliest cs i \<in> set (map fst (dr_outcomes res))" using right(1) by (simp add: batch_right_def)
  then obtain c out where "(earliest cs i, c, out) \<in> set (dr_outcomes res)" by auto
  then have "outcome_right sourceId fetchedAt cs (set (rows s)) (set (rows s')) (earliest cs i) out"
    using right(1) by (auto simp: batch_right_def)
  then show ?thesis
  proof (cases out)
    case (Inserted a)
    moreover have "na_canonicalUrl a = ac_canonicalUrl (cs ! earliest cs i)"
      if "new_article.truncate a = toNewArticle (cs ! earliest cs i) sourceId fetchedAt"
      using arg_cong [OF that, of na_canonicalUrl] by (simp add: new_article.truncate_def toNewArticle_def)
    ultimately show ?thesis
      using \<open>outcome_right _ _ _ _ _ _ out\<close> earliest_facts(3) [of cs i]
      by (auto simp: outcome_right_def known_article_def row_matches_iff)
  next
    case (Existing why key)
    then show ?thesis
      using \<open>outcome_right _ _ _ _ _ _ out\<close> earliest_facts(3) [of cs i]
      by (cases why) (auto simp: outcome_right_def known_article_def row_matches_def)
  next
    case (DuplicateInBatch d)
    then show ?thesis using \<open>outcome_right _ _ _ _ _ _ out\<close> earliest_facts(3) [of cs i] by (simp add: outcome_right_def)
  qed
qed

text \<open>So the same batch, given again to a store that has only grown since, adds nothing.\<close>

lemma dedupe_again:
  assumes "dedupeAndPersist repo sourceId fetchedAt cs = Some run" and "run s = (Inr res, s')"
    and "dedupeAndPersist repo sourceId' fetchedAt' cs = Some run'" and "run' t = (Inr res', t')"
    and "set (rows s') \<subseteq> set (rows t)"
  shows "dr_insertedCount res' = 0"
proof -
  note right = dedupe_right [OF assms(3,4)]
  have "out \<noteq> Inserted a" if x: "(i, c, out) \<in> set (dr_outcomes res')" for i c out a
  proof
    assume "out = Inserted a"
    then have "\<not> known_article (set (rows t)) cs i"
      using right(1) x by (auto simp: batch_right_def outcome_right_def)
    moreover have "i < length cs"
    proof -
      have "map fst (dr_outcomes res') = [0..<length cs]" using right(1) by (simp add: batch_right_def)
      moreover have "i \<in> set (map fst (dr_outcomes res'))" using x by force
      ultimately show ?thesis by (metis atLeastLessThan_iff set_upt)
    qed
    from dedupe_covers [OF assms(1,2) this] have "known_article (set (rows t)) cs i"
      using assms(5) unfolding known_article_def by blast
    ultimately show False by blast
  qed
  then have "count_outcomes (\<lambda>out. \<exists>a. out = Inserted a) (dr_outcomes res') = 0"
    by (auto simp: count_outcomes_def filter_empty_conv)
  then show ?thesis using right(2) tally_counts(2) by metis
qed

end

subsection \<open>The repository\<close>

text \<open>
  The table \<open>articles\<close> with its unique index on \<open>canonical_url\<close>, reached by one call after another.
  Before a call other processes may have inserted rows, the call may fail, the database chooses
  the identifiers and the order of an answer.
\<close>

record articles_db =
  db_rows :: "article list"
  db_calls :: nat

record db_outside =
  do_others :: "nat \<Rightarrow> new_article list"
  do_failure :: "nat \<Rightarrow> js_error option"
  do_uuid :: "nat \<Rightarrow> string"
  do_now :: "nat \<Rightarrow> int"
  do_rank :: "nat \<Rightarrow> article_match \<Rightarrow> nat"

definition unique_violation :: js_error where
  "unique_violation = \<lparr>er_message = ''duplicate key value violates unique constraint'',
     er_cause = Some (Some ''23505'', Some ''articles_canonical_url_unique'')\<rparr>"

definition new_row :: "db_outside \<Rightarrow> nat \<Rightarrow> new_article \<Rightarrow> article" where
  "new_row w n na = new_article.extend na \<lparr>ar_id = do_uuid w n, ar_categoryId = None, ar_createdAt = do_now w n, ar_updatedAt = do_now w n\<rparr>"

definition url_stored :: "string \<Rightarrow> article list \<Rightarrow> bool" where
  "url_stored u rs \<longleftrightarrow> u \<in> set (map na_canonicalUrl rs)"

definition insert_unless_stored :: "db_outside \<Rightarrow> new_article \<Rightarrow> article list \<Rightarrow> article list" where
  "insert_unless_stored w na rs =
     (if url_stored (na_canonicalUrl na) rs then rs else rs @ [new_row w (length rs) na])"

definition db_call :: "db_outside \<Rightarrow> (articles_db, js_error, unit) task" where
  "db_call w db =
     (let db' = \<lparr>db_rows = fold (insert_unless_stored w) (do_others w (db_calls db)) (db_rows db), db_calls = db_calls db + 1\<rparr>
      in case do_failure w (db_calls db) of Some e \<Rightarrow> (Inl e, db') | None \<Rightarrow> (Inr (), db'))"

definition select_matches :: "article_query list \<Rightarrow> article list \<Rightarrow> article_match list" where
  "select_matches qs rs =
     (let canonicalUrls = map aq_canonicalUrl qs; contentHashes = map aq_contentHash qs
      in map match_of (filter (\<lambda>r. na_canonicalUrl r \<in> set canonicalUrls \<or> na_contentHash r \<in> set contentHashes) rs))"

definition repo_findMatches :: "db_outside \<Rightarrow> article_query list \<Rightarrow> (articles_db, js_error, article_match list) task" where
  "repo_findMatches w qs =
     (if length qs = 0 then return_task []
      else bind_task (db_call w) (\<lambda>_ db.
        (Inr (sort_key (do_rank w (db_calls db)) (select_matches qs (db_rows db))), db)))"

definition repo_insert :: "db_outside \<Rightarrow> new_article \<Rightarrow> (articles_db, js_error, article) task" where
  "repo_insert w na =
     bind_task (db_call w) (\<lambda>_ db.
       if url_stored (na_canonicalUrl na) (db_rows db) then (Inl unique_violation, db)
       else let row = new_row w (length (db_rows db)) na in (Inr row, db\<lparr>db_rows := db_rows db @ [row]\<rparr>))"

definition createArticlesRepository :: "db_outside \<Rightarrow> articles_db articles_repository" where
  "createArticlesRepository w = \<lparr>rp_findMatches = repo_findMatches w, rp_insert = repo_insert w\<rparr>"

lemma others_grow: "set rs \<subseteq> set (fold (insert_unless_stored w) nas rs)"
proof (induction nas arbitrary: rs)
  case (Cons na nas)
  have "set rs \<subseteq> set (insert_unless_stored w na rs)" by (auto simp: insert_unless_stored_def)
  then show ?case using Cons.IH [of "insert_unless_stored w na rs"] by simp
qed simp

lemma db_call_grows: "db_call w db = (r, db') \<Longrightarrow> set (db_rows db) \<subseteq> set (db_rows db')"
  by (auto simp: db_call_def Let_def intro: subsetD [OF others_grow] split: option.splits)

interpretation table: articles_store "createArticlesRepository w" db_rows for w
proof
  show "set (db_rows s) \<subseteq> set (db_rows s')" if "rp_findMatches (createArticlesRepository w) qs s = (r, s')" for qs s r s'
    using that by (auto simp: createArticlesRepository_def repo_findMatches_def Let_def
        elim!: task_cases dest: subsetD [OF db_call_grows] split: if_splits)
  show "set (db_rows s) \<subseteq> set (db_rows s')" if "rp_insert (createArticlesRepository w) na s = (q, s')" for na s q s'
  proof -
    have "bind_task (db_call w) (\<lambda>_ db.
       if url_stored (na_canonicalUrl na) (db_rows db) then (Inl unique_violation, db)
       else let row = new_row w (length (db_rows db)) na in (Inr row, db\<lparr>db_rows := db_rows db @ [row]\<rparr>)) s = (q, s')"
      using that by (simp add: createArticlesRepository_def repo_insert_def)
    then show ?thesis
    proof (rule task_cases)
      fix x v
      assume "db_call w s = (Inr x, v)"
      then have "set (db_rows s) \<subseteq> set (db_rows v)" by (rule db_call_grows)
      moreover assume "(if url_stored (na_canonicalUrl na) (db_rows v) then (Inl unique_violation, v)
         else let row = new_row w (length (db_rows v)) na in (Inr row, v\<lparr>db_rows := db_rows v @ [row]\<rparr>)) = (q, s')"
      ultimately show ?thesis by (auto simp: Let_def split: if_splits)
    qed (rule db_call_grows)
  qed
  show "set ms = match_of ` {r \<in> set (db_rows s'). asked_for qs r}"
    if "rp_findMatches (createArticlesRepository w) qs s = (Inr ms, s')" for qs s ms s'
    using that by (auto simp: createArticlesRepository_def repo_findMatches_def Let_def asked_for_def select_matches_def
        elim!: task_cases split: if_splits)
  show "a \<in> set (db_rows s') \<and> new_article.truncate a = na" if "rp_insert (createArticlesRepository w) na s = (Inr a, s')" for na s a s'
    using that by (auto simp: createArticlesRepository_def repo_insert_def Let_def new_row_def new_article.truncate_def
        new_article.extend_def elim!: task_cases split: if_splits)
qed

end
