(* ===== verification/ArticleQuiet.thy ===== *)
theory ArticleQuiet
  imports ArticleStore
begin

text \<open>
  The service against an abstract store of keys: when no other process writes and the database answers,
  a batch adds to the stored keys exactly those of its unknown articles, one each.
\<close>

subsection \<open>The abstract store\<close>

text \<open>The store as the keys of its rows; a batch appends the keys of the earliest candidate of every unknown article.\<close>

type_synonym keys = "string \<times> string"

definition row_keys :: "article \<Rightarrow> keys" where "row_keys r = (na_canonicalUrl r, na_contentHash r)"

definition candidate_keys :: "article_candidate \<Rightarrow> keys" where
  "candidate_keys c = (ac_canonicalUrl c, ac_contentHash c)"

definition known_keys :: "keys list \<Rightarrow> article_candidate list \<Rightarrow> nat \<Rightarrow> bool" where
  "known_keys K cs i \<longleftrightarrow> (\<exists>(u, h) \<in> set K. \<exists>j. earliest cs j = earliest cs i
     \<and> (u = ac_canonicalUrl (cs ! j) \<or> h = ac_contentHash (cs ! j)))"

definition add_batch :: "article_candidate list \<Rightarrow> keys list \<Rightarrow> keys list" where
  "add_batch cs K = K @ map (\<lambda>i. candidate_keys (cs ! i)) (filter (\<lambda>i. earliest cs i = i \<and> \<not> known_keys K cs i) [0..<length cs])"

lemma known_keys_rows: "known_keys (map row_keys rs) cs i \<longleftrightarrow> known_article (set rs) cs i"
  by (auto simp: known_keys_def known_article_def row_keys_def row_matches_iff)

subsection \<open>A quiet database\<close>

definition quiet :: "db_outside \<Rightarrow> bool" where
  "quiet w \<longleftrightarrow> (\<forall>n. do_others w n = [] \<and> do_failure w n = None)"

lemma quiet_call: "quiet w \<Longrightarrow> db_call w db = (Inr (), db\<lparr>db_calls := db_calls db + 1\<rparr>)"
  by (simp add: quiet_def db_call_def)

lemma quiet_find:
  assumes "quiet w"
  obtains ms db' where "rp_findMatches (createArticlesRepository w) qs db = (Inr ms, db')" "db_rows db' = db_rows db"
  using quiet_call [OF assms]
  by (cases "qs = []") (auto simp: createArticlesRepository_def repo_findMatches_def bind_task_def return_task_def)

lemma quiet_insert:
  assumes "quiet w" and "\<not> url_stored (ac_canonicalUrl c) (db_rows db)"
  obtains row db' where "insert_article (createArticlesRepository w) sourceId fetchedAt c db = (Inr (Inserted row), db')"
    "db_rows db' = db_rows db @ [row]" "row_keys row = candidate_keys c"
proof -
  let ?na = "toNewArticle c sourceId fetchedAt" let ?row = "new_row w (length (db_rows db)) (toNewArticle c sourceId fetchedAt)"
  have "na_canonicalUrl ?na = ac_canonicalUrl c" by (simp add: toNewArticle_def)
  then have "insert_article (createArticlesRepository w) sourceId fetchedAt c db =
      (Inr (Inserted ?row), db\<lparr>db_calls := db_calls db + 1, db_rows := db_rows db @ [?row]\<rparr>)"
    using quiet_call [OF assms(1)] assms(2)
    by (simp add: insert_article_def createArticlesRepository_def repo_insert_def bind_task_def catch_task_def return_task_def Let_def)
  then show ?thesis
    by (rule that) (simp_all add: row_keys_def candidate_keys_def new_row_def toNewArticle_def new_article.extend_def)
qed

lemma quiet_resolve_all:
  assumes w: "quiet w" and ms: "\<And>i. i \<in> set is \<Longrightarrow> group_match cs g ms i = None \<longleftrightarrow> \<not> known_keys K cs i"
    and reps: "\<And>i. i \<in> set is \<Longrightarrow> earliest cs i = i \<and> i < length cs" and "distinct is"
    and fresh: "\<And>i. i \<in> set is \<Longrightarrow> \<not> known_keys K cs i \<Longrightarrow> \<not> url_stored (ac_canonicalUrl (cs ! i)) (db_rows db)"
  shows "\<exists>m' db'. resolve_all (resolve_one (createArticlesRepository w) sourceId fetchedAt cs g ms) is m db = (Inr m', db')
    \<and> map row_keys (db_rows db') = map row_keys (db_rows db) @ map (\<lambda>i. candidate_keys (cs ! i)) (filter (\<lambda>i. \<not> known_keys K cs i) is)
    \<and> dom m' = dom m \<union> set is"
  using assms
proof (induction "is" arbitrary: m db)
  case (Cons i rest)
  show ?case
  proof (cases "group_match cs g ms i")
    case (Some mw)
    obtain n why where mw: "mw = (n, why)" by (cases mw)
    then have one: "resolve_one (createArticlesRepository w) sourceId fetchedAt cs g ms i db = (Inr (Existing (Matched why) (am_id n)), db)"
      using Some by (simp add: resolve_one_def return_task_def)
    have "\<exists>m' db'. resolve_all (resolve_one (createArticlesRepository w) sourceId fetchedAt cs g ms) rest
          (m(i \<mapsto> Existing (Matched why) (am_id n))) db = (Inr m', db')
        \<and> map row_keys (db_rows db') = map row_keys (db_rows db) @ map (\<lambda>i. candidate_keys (cs ! i)) (filter (\<lambda>i. \<not> known_keys K cs i) rest)
        \<and> dom m' = dom (m(i \<mapsto> Existing (Matched why) (am_id n))) \<union> set rest"
      by (rule Cons.IH) (use Cons.prems in auto)
    moreover have "known_keys K cs i" using Some Cons.prems(2) [of i] by auto
    ultimately show ?thesis using one by (auto simp: bind_task_def)
  next
    case None
    then have new: "\<not> known_keys K cs i" using Cons.prems(2) [of i] by simp
    with Cons.prems(5) [of i] have "\<not> url_stored (ac_canonicalUrl (cs ! i)) (db_rows db)" by simp
    then obtain row v where row: "insert_article (createArticlesRepository w) sourceId fetchedAt (cs ! i) db = (Inr (Inserted row), v)"
      "db_rows v = db_rows db @ [row]" "row_keys row = candidate_keys (cs ! i)" by (rule quiet_insert [OF w])
    have other: "ac_canonicalUrl (cs ! j) \<noteq> ac_canonicalUrl (cs ! i)" if "j \<in> set rest" for j
    proof
      assume "ac_canonicalUrl (cs ! j) = ac_canonicalUrl (cs ! i)"
      then have "same_article cs j i" using Cons.prems(3) that by (intro r_into_rtranclp) (auto simp: alike_def)
      then have "j = i" using Cons.prems(3) that earliest_facts(1) [of cs j i] by auto
      then show False using Cons.prems(4) that by simp
    qed
    have "\<exists>m' db'. resolve_all (resolve_one (createArticlesRepository w) sourceId fetchedAt cs g ms) rest (m(i \<mapsto> Inserted row)) v = (Inr m', db')
        \<and> map row_keys (db_rows db') = map row_keys (db_rows v) @ map (\<lambda>i. candidate_keys (cs ! i)) (filter (\<lambda>i. \<not> known_keys K cs i) rest)
        \<and> dom m' = dom (m(i \<mapsto> Inserted row)) \<union> set rest"
    proof (rule Cons.IH [OF w])
      fix j assume j: "j \<in> set rest" "\<not> known_keys K cs j"
      have "na_canonicalUrl row = ac_canonicalUrl (cs ! i)" using row(3) by (simp add: row_keys_def candidate_keys_def)
      then show "\<not> url_stored (ac_canonicalUrl (cs ! j)) (db_rows v)"
        using Cons.prems(5) [of j] j other [OF j(1)] row(2) by (auto simp: url_stored_def)
    qed (use Cons.prems in auto)
    moreover have "resolve_one (createArticlesRepository w) sourceId fetchedAt cs g ms i db = (Inr (Inserted row), v)"
      using None row(1) by (simp add: resolve_one_def)
    ultimately show ?thesis using row(2,3) new by (auto simp: bind_task_def)
  qed
qed (simp add: return_task_def)

lemma quiet_persist:
  assumes w: "quiet w" and c: "collapsed_to cs reps dups"
  shows "\<exists>res db'. persist_groups (createArticlesRepository w) sourceId fetchedAt cs reps dups db = (Inr res, db')
    \<and> map row_keys (db_rows db') = add_batch cs (map row_keys (db_rows db))"
proof -
  let ?repo = "createArticlesRepository w" and ?g = "groupMembersByRepresentative reps dups" and ?K = "map row_keys (db_rows db)"
  let ?qs = "concat (map (\<lambda>i. map (\<lambda>m. query_of (cs ! m)) (members ?g i)) reps)"
  obtain ms v where v: "rp_findMatches ?repo ?qs db = (Inr ms, v)" "db_rows v = db_rows db" by (rule quiet_find [OF w])
  have reps: "reps = filter (\<lambda>i. earliest cs i = i) [0..<length cs]" using c by (simp add: collapsed_to_def)
  then have rep: "earliest cs i = i \<and> i < length cs" if "i \<in> set reps" for i using that by auto
  have match: "group_match cs ?g ms i = None \<longleftrightarrow> \<not> known_keys ?K cs i" if i: "i \<in> set reps" for i
  proof -
    note g = groups_spec [OF c i]
    have looked: "match_of r \<in> set ms" if "r \<in> set (db_rows db)" "earliest cs j = i" "row_matches r (cs ! j)" for r j
    proof -
      have "query_of (cs ! j) \<in> set ?qs" using that(2) i g by auto
      then have "asked_for ?qs r" using that(3) unfolding asked_for_def row_matches_iff by (force simp: query_of_def)
      then show ?thesis using table.find_exact [OF v(1)] v(2) that(1) by auto
    qed
    have "\<not> known_article (set (db_rows db)) cs i" if "group_match cs ?g ms i = None"
      by (rule group_match_None [OF that _ g]) (use rep [OF i] looked in auto)
    moreover have "known_article (set (db_rows db)) cs i" if "group_match cs ?g ms i = Some (m, why)" for m why
    proof -
      have "set ms \<subseteq> match_of ` set (db_rows db)" using table.find_exact [OF v(1)] v(2) by auto
      from group_match_Some [OF that g this] show ?thesis using rep [OF i] by (auto simp: known_article_def row_matches_def)
    qed
    ultimately show ?thesis unfolding known_keys_rows by (cases "group_match cs ?g ms i") auto
  qed
  have fresh: "\<not> url_stored (ac_canonicalUrl (cs ! i)) (db_rows v)" if "i \<in> set reps" "\<not> known_keys ?K cs i" for i
  proof
    assume "url_stored (ac_canonicalUrl (cs ! i)) (db_rows v)"
    then obtain r where "r \<in> set (db_rows db)" "na_canonicalUrl r = ac_canonicalUrl (cs ! i)" using v(2) by (auto simp: url_stored_def)
    then have "known_article (set (db_rows db)) cs i" unfolding known_article_def row_matches_iff by blast
    then show False using that(2) by (simp add: known_keys_rows)
  qed
  have d: "distinct reps" by (simp add: reps)
  have "\<exists>resolved db'. resolve_all (resolve_one ?repo sourceId fetchedAt cs ?g ms) reps Map.empty v = (Inr resolved, db')
    \<and> map row_keys (db_rows db') = map row_keys (db_rows v) @ map (\<lambda>i. candidate_keys (cs ! i)) (filter (\<lambda>i. \<not> known_keys ?K cs i) reps)
    \<and> dom resolved = dom (Map.empty :: nat \<rightharpoonup> article_outcome) \<union> set reps"
    by (rule quiet_resolve_all) (use w match rep d fresh in blast)+
  then obtain resolved db' where all: "resolve_all (resolve_one ?repo sourceId fetchedAt cs ?g ms) reps Map.empty v = (Inr resolved, db')"
    "map row_keys (db_rows db') = map row_keys (db_rows v) @ map (\<lambda>i. candidate_keys (cs ! i)) (filter (\<lambda>i. \<not> known_keys ?K cs i) reps)"
    "dom resolved = dom (Map.empty :: nat \<rightharpoonup> article_outcome) \<union> set reps"
    by (elim exE conjE)
  have "map_of dups i \<noteq> None \<or> resolved i \<noteq> None" if "i < length cs" for i
  proof (cases "earliest cs i = i")
    case True
    then have "i \<in> dom resolved" using all(3) reps that by simp
    then show ?thesis by auto
  next
    case False
    then show ?thesis using c unfolding collapsed_to_def by (metis option.distinct(1) option.map_disc_iff)
  qed
  then obtain outs where "outcomes_from 0 cs dups resolved = Inr outs" using outcomes_from_total [of 0 cs dups resolved] by auto
  then have "persist_groups ?repo sourceId fetchedAt cs reps dups db = (Inr (tally outs), db')"
    using v(1) all(1) by (simp add: persist_groups_def Let_def bind_task_def return_task_def)
  moreover have "filter (\<lambda>i. \<not> known_keys ?K cs i) reps = filter (\<lambda>i. earliest cs i = i \<and> \<not> known_keys ?K cs i) [0..<length cs]"
    by (simp add: reps conj_commute)
  ultimately show ?thesis using all(2) v(2) by (simp add: add_batch_def)
qed

end
