(* ===== verification/FeedParser.thy ===== *)
theory FeedParser
  imports Articles Json RxReplace
begin

text \<open>
  \<open>apps/worker/src/lib/feed-parser.ts\<close>: from the text of a feed to article candidates.  Parsed documents
  are \<open>json\<close> values: an XML element with attributes or children is an object.  The XML library, the
  URL implementation, the hash and the date parser of the platform are the record \<open>feed_platform\<close>.
\<close>

subsection \<open>The platform\<close>

record 'u url_api =
  ua_parse :: "string \<Rightarrow> 'u option"
  ua_base :: "string \<Rightarrow> string \<Rightarrow> 'u option"
  ua_href :: "'u \<Rightarrow> string"
  ua_protocol :: "'u \<Rightarrow> string"
  ua_hostname :: "'u \<Rightarrow> string"
  ua_setHostname :: "string \<Rightarrow> 'u \<Rightarrow> 'u"
  ua_hash :: "'u \<Rightarrow> string"
  ua_setHash :: "string \<Rightarrow> 'u \<Rightarrow> 'u"
  ua_port :: "'u \<Rightarrow> string"
  ua_setPort :: "string \<Rightarrow> 'u \<Rightarrow> 'u"
  ua_keys :: "'u \<Rightarrow> string list"
  ua_delete :: "string \<Rightarrow> 'u \<Rightarrow> 'u"

text \<open>An \<open>xml_check\<close> of \<open>None\<close> is a valid document, else the message of the validator.\<close>

record 'u feed_platform =
  fp_url :: "'u url_api"
  fp_xmlValidate :: "string \<Rightarrow> string option"
  fp_xmlParse :: "string \<Rightarrow> json"
  fp_syntaxMessage :: "string \<Rightarrow> string"
  fp_sha256 :: "string \<Rightarrow> string"
  fp_date :: "string \<Rightarrow> int option"
  fp_nativeText :: "string \<Rightarrow> string"

datatype parse_error_reason = InvalidXml | InvalidJson | UnrecognizedFormat

text \<open>Besides its own error the parser can throw a \<open>RangeError\<close> or a \<open>TypeError\<close> of the language.\<close>

datatype feed_error = FeedParseError parse_error_reason string | RangeError | TypeError

datatype skipped_reason = MissingUrl | MissingTitle

record skipped_entry =
  sk_index :: nat
  sk_reason :: skipped_reason

record parse_feed_result =
  pf_candidates :: "article_candidate list"
  pf_skipped :: "skipped_entry list"

subsection \<open>Text\<close>

definition TITLE_MAX_LENGTH :: nat where "TITLE_MAX_LENGTH = 500"
definition SUMMARY_MAX_LENGTH :: nat where "SUMMARY_MAX_LENGTH = 2000"

definition NAMED_ENTITIES :: "(string \<times> string) list" where
  "NAMED_ENTITIES = [(''amp'', ''&''), (''lt'', ''<''), (''gt'', ''>''), (''quot'', [CHR 0x22]), (''apos'', [CHR 0x27]), (''nbsp'', '' '')]"

text \<open>The members every object inherits and whose names are letters only; each is a function.\<close>

definition INHERITED :: "string list" where
  "INHERITED = [''constructor'', ''hasOwnProperty'', ''isPrototypeOf'', ''propertyIsEnumerable'', ''toLocaleString'', ''toString'', ''valueOf'']"

definition named_entity :: "(string \<Rightarrow> string) \<Rightarrow> string \<Rightarrow> string option" where
  "named_entity native e = (case map_of NAMED_ENTITIES e of
       Some t \<Rightarrow> Some t
     | None \<Rightarrow> if e \<in> set INHERITED then Some (native e) else None)"

text \<open>\<open>Number.parseInt\<close> of digits in a base, as far as it matters: a value of \<open>2^1024 - 2^970\<close> or more is read as
  infinite.  \<open>String.fromCodePoint\<close> throws beyond the last code point.\<close>

definition digits_value :: "int \<Rightarrow> string \<Rightarrow> int" where
  "digits_value base = foldl (\<lambda>n c. base * n + (case hex_val c of Some v \<Rightarrow> int v | None \<Rightarrow> 0)) 0"

definition code_point :: "int \<Rightarrow> string" where
  "code_point n = (if n < 65536 then utf8 (nat n)
     else [char_of (240 + n div 262144), char_of (128 + n div 4096 mod 64), char_of (128 + n div 64 mod 64), char_of (128 + n mod 64)])"

definition numeric_entity :: "string \<Rightarrow> int \<Rightarrow> string option" where
  "numeric_entity matched n =
     (if n \<ge> 2 ^ 1024 - 2 ^ 970 then Some matched
      else if n > 0x10FFFF then None
      else Some (code_point n))"

definition ENTITY :: rx where "ENTITY = re ''&(#x[0-9a-fA-F]+|#%d+|[a-zA-Z]+);''"

text \<open>The replacement of one match; \<open>None\<close> is the \<open>RangeError\<close>.\<close>

definition entity_text :: "(string \<Rightarrow> string) \<Rightarrow> rmatch \<Rightarrow> string option" where
  "entity_text native m =
     (let e = capture m 1
      in if starts_with ''#x'' e \<or> starts_with ''#X'' e then numeric_entity (m_text m) (digits_value 16 (drop 2 e))
         else if starts_with ''#'' e then numeric_entity (m_text m) (digits_value 10 (drop 1 e))
         else (case named_entity native e of Some t \<Rightarrow> Some t | None \<Rightarrow> Some (m_text m)))"

definition decodeEntities :: "(string \<Rightarrow> string) \<Rightarrow> string \<Rightarrow> string option" where
  "decodeEntities native t =
     (if list_all (\<lambda>m. entity_text native m \<noteq> None) (match_all noflags ENTITY t)
      then Some (rx_replace noflags ENTITY (\<lambda>m. case entity_text native m of Some x \<Rightarrow> x | None \<Rightarrow> []) t)
      else None)"

definition HTML_TAG :: rx where "HTML_TAG = re ''<[^>]*>''"
definition SPACES :: rx where "SPACES = re ''%s+''"

definition stripHtmlTags :: "string \<Rightarrow> string" where
  "stripHtmlTags t = rx_replace noflags HTML_TAG (\<lambda>_. '' '') t"

definition sanitizeText :: "(string \<Rightarrow> string) \<Rightarrow> string option \<Rightarrow> nat \<Rightarrow> string option" where
  "sanitizeText native raw maxLength = (case raw of
       None \<Rightarrow> Some []
     | Some t \<Rightarrow> if t = [] then Some [] else map_option (\<lambda>decoded.
           let collapsed = trim (rx_replace noflags SPACES (\<lambda>_. '' '') (stripHtmlTags decoded))
           in if length collapsed > maxLength then take maxLength collapsed else collapsed) (decodeEntities native t))"

subsection \<open>Addresses, hashes and dates\<close>

definition TRACKING_PARAMS :: "string list" where "TRACKING_PARAMS = [''fbclid'', ''gclid'']"
definition TRACKING_PARAM_PREFIX :: string where "TRACKING_PARAM_PREFIX = ''utm_''"

definition is_tracking :: "string \<Rightarrow> bool" where
  "is_tracking k \<longleftrightarrow> starts_with TRACKING_PARAM_PREFIX (to_lower k) \<or> to_lower k \<in> set TRACKING_PARAMS"

definition drop_tracking :: "'u url_api \<Rightarrow> 'u \<Rightarrow> 'u" where
  "drop_tracking U u = foldl (\<lambda>u k. if is_tracking k then ua_delete U k u else u) u (ua_keys U u)"

definition canonicalizeUrl :: "'u url_api \<Rightarrow> string \<Rightarrow> string option" where
  "canonicalizeUrl U raw = (case ua_parse U raw of
       None \<Rightarrow> None
     | Some u \<Rightarrow>
         if ua_protocol U u \<noteq> ''http:'' \<and> ua_protocol U u \<noteq> ''https:'' then None
         else let u = ua_setHostname U (to_lower (ua_hostname U u)) u;
                  u = ua_setHash U [] u;
                  defaultPort = (if ua_protocol U u = ''https:'' then ''443'' else ''80'');
                  u = (if ua_port U u = defaultPort then ua_setPort U [] u else u)
           in Some (ua_href U (drop_tracking U u)))"

definition computeContentHash :: "(string \<Rightarrow> string) \<Rightarrow> string \<Rightarrow> string \<Rightarrow> string" where
  "computeContentHash sha title summary = sha (title @ [CHR 0x0A] @ summary)"

definition BARE_DATETIME_PATTERN :: rx where
  "BARE_DATETIME_PATTERN = re ''^%d{4}-%d{2}-%d{2}T%d{2}:%d{2}:%d{2}(%.%d+)?$''"

definition parseDate :: "(string \<Rightarrow> int option) \<Rightarrow> string option \<Rightarrow> int option" where
  "parseDate date raw = (case raw of
       None \<Rightarrow> None
     | Some t \<Rightarrow>
         let trimmed = trim t
         in if t = [] \<or> trimmed = [] then None
            else date (if rx_test noflags BARE_DATETIME_PATTERN trimmed then trimmed @ ''Z'' else trimmed))"

subsection \<open>Candidates\<close>

record raw_entry =
  re_url :: "string option"
  re_title :: "string option"
  re_summary :: "string option"
  re_author :: "string option"
  re_imageUrl :: "string option"
  re_publishedAt :: "string option"

datatype built_entry = Skipped skipped_reason | Built article_candidate

text \<open>One round of \<open>buildCandidates\<close>; \<open>None\<close> is the \<open>RangeError\<close> of a text.\<close>

definition build_entry :: "'u feed_platform \<Rightarrow> raw_entry \<Rightarrow> built_entry option" where
  "build_entry P raw = (case re_url raw of
       None \<Rightarrow> Some (Skipped MissingUrl)
     | Some url \<Rightarrow>
         if url = [] then Some (Skipped MissingUrl)
         else (case canonicalizeUrl (fp_url P) url of
             None \<Rightarrow> Some (Skipped MissingUrl)
           | Some canonicalUrl \<Rightarrow>
               Option.bind (sanitizeText (fp_nativeText P) (re_title raw) TITLE_MAX_LENGTH) (\<lambda>title.
                 if length title = 0 then Some (Skipped MissingTitle)
                 else Option.bind (sanitizeText (fp_nativeText P) (re_summary raw) SUMMARY_MAX_LENGTH) (\<lambda>summaryText.
                   let summary = (if length summaryText > 0 then Some summaryText else None)
                   in Option.bind (sanitizeText (fp_nativeText P) (re_author raw) TITLE_MAX_LENGTH) (\<lambda>author.
                     Some (Built \<lparr>ac_url = url, ac_canonicalUrl = canonicalUrl, ac_title = title, ac_summary = summary,
                       ac_author = (if length author > 0 then Some author else None), ac_imageUrl = re_imageUrl raw,
                       ac_contentHash = computeContentHash (fp_sha256 P) title (case summary of Some t \<Rightarrow> t | None \<Rightarrow> []),
                       ac_publishedAt = parseDate (fp_date P) (re_publishedAt raw)\<rparr>))))))"

fun add_built :: "nat \<Rightarrow> built_entry \<Rightarrow> parse_feed_result \<Rightarrow> parse_feed_result" where
  "add_built i (Skipped why) r = r\<lparr>pf_skipped := pf_skipped r @ [\<lparr>sk_index = i, sk_reason = why\<rparr>]\<rparr>"
| "add_built i (Built c) r = r\<lparr>pf_candidates := pf_candidates r @ [c]\<rparr>"

fun build_from :: "'u feed_platform \<Rightarrow> (json \<Rightarrow> raw_entry option) \<Rightarrow> nat \<Rightarrow> json list \<Rightarrow> parse_feed_result \<Rightarrow>
    feed_error + parse_feed_result" where
  "build_from P extract i [] r = Inr r"
| "build_from P extract i (entry # rest) r = (case extract entry of
       None \<Rightarrow> Inl TypeError
     | Some raw \<Rightarrow> (case build_entry P raw of
           None \<Rightarrow> Inl RangeError
         | Some b \<Rightarrow> build_from P extract (Suc i) rest (add_built i b r)))"

definition buildCandidates :: "'u feed_platform \<Rightarrow> json list \<Rightarrow> (json \<Rightarrow> raw_entry option) \<Rightarrow> feed_error + parse_feed_result" where
  "buildCandidates P entries extract = build_from P extract 0 entries \<lparr>pf_candidates = [], pf_skipped = []\<rparr>"

subsection \<open>Documents\<close>

text \<open>A member of a value; anything but an object has none of the members the parser asks for.\<close>

definition jfield :: "string \<Rightarrow> json option \<Rightarrow> json option" where
  "jfield k v = Option.bind v (json_field k)"

definition truthy :: "json option \<Rightarrow> bool" where
  "truthy v = (case v of None \<Rightarrow> False | Some JNull \<Rightarrow> False | Some (JBool b) \<Rightarrow> b | Some (JNum n) \<Rightarrow> n \<noteq> 0
     | Some (JStr t) \<Rightarrow> t \<noteq> [] | Some _ \<Rightarrow> True)"

definition toArray :: "json option \<Rightarrow> json list" where
  "toArray v = (case v of None \<Rightarrow> [] | Some JNull \<Rightarrow> [] | Some (JArr xs) \<Rightarrow> xs | Some x \<Rightarrow> [x])"

definition stringField :: "json option \<Rightarrow> string option" where
  "stringField v = (case v of Some (JStr t) \<Rightarrow> Some t | _ \<Rightarrow> None)"

definition attrOf :: "json option \<Rightarrow> string \<Rightarrow> string option" where
  "attrOf node k = stringField (jfield k node)"

definition textOf :: "json option \<Rightarrow> string option" where
  "textOf v = (case v of Some (JStr t) \<Rightarrow> Some t | _ \<Rightarrow> stringField (jfield ''#text'' v))"

definition or_text :: "string option \<Rightarrow> string option \<Rightarrow> string option" where
  "or_text a b = (case a of Some t \<Rightarrow> Some t | None \<Rightarrow> b)"

definition first_of :: "json list \<Rightarrow> json option" where
  "first_of xs = (case xs of [] \<Rightarrow> None | x # _ \<Rightarrow> Some x)"

definition extractMediaThumbnail :: "json option \<Rightarrow> string option" where
  "extractMediaThumbnail node = attrOf (first_of (toArray (jfield ''media:thumbnail'' node))) ''@_url''"

fun enclosure_image :: "json list \<Rightarrow> string option" where
  "enclosure_image [] = None"
| "enclosure_image (e # es) =
     (case attrOf (Some e) ''@_url'' of
        Some url \<Rightarrow>
          if url \<noteq> [] \<and> (case attrOf (Some e) ''@_type'' of None \<Rightarrow> True | Some t \<Rightarrow> starts_with ''image/'' t) then Some url
          else enclosure_image es
      | None \<Rightarrow> enclosure_image es)"

definition extractRssImage :: "json option \<Rightarrow> string option" where
  "extractRssImage item = or_text (enclosure_image (toArray (jfield ''enclosure'' item))) (extractMediaThumbnail item)"

definition rss_entry :: "json \<Rightarrow> raw_entry option" where
  "rss_entry item = (if item = JNull then None else Some
     \<lparr>re_url = textOf (jfield ''link'' (Some item)), re_title = textOf (jfield ''title'' (Some item)),
      re_summary = textOf (jfield ''description'' (Some item)),
      re_author = or_text (textOf (jfield ''author'' (Some item))) (textOf (jfield ''dc:creator'' (Some item))),
      re_imageUrl = extractRssImage (Some item), re_publishedAt = textOf (jfield ''pubDate'' (Some item))\<rparr>)"

definition parseRssItems :: "'u feed_platform \<Rightarrow> json option \<Rightarrow> feed_error + parse_feed_result" where
  "parseRssItems P rss = buildCandidates P (toArray (jfield ''item'' (jfield ''channel'' rss))) rss_entry"

definition hrefOf :: "json option \<Rightarrow> string option" where
  "hrefOf link = (case link of Some (JStr t) \<Rightarrow> Some t | _ \<Rightarrow> attrOf link ''@_href'')"

definition is_alternate :: "json \<Rightarrow> bool" where
  "is_alternate link = (case attrOf (Some link) ''@_rel'' of None \<Rightarrow> True | Some rel \<Rightarrow> rel = ''alternate'')"

definition extractAtomUrl :: "json option \<Rightarrow> string option" where
  "extractAtomUrl entry =
     (let links = toArray (jfield ''link'' entry)
      in or_text (hrefOf (List.find is_alternate links)) (hrefOf (first_of links)))"

definition extractAtomAuthor :: "json option \<Rightarrow> string option" where
  "extractAtomAuthor entry =
     (let first = first_of (toArray (jfield ''author'' entry)) in if truthy first then textOf (jfield ''name'' first) else None)"

definition atom_entry :: "json \<Rightarrow> raw_entry option" where
  "atom_entry e = (if e = JNull then None else Some
     \<lparr>re_url = extractAtomUrl (Some e), re_title = textOf (jfield ''title'' (Some e)),
      re_summary = or_text (textOf (jfield ''summary'' (Some e))) (textOf (jfield ''content'' (Some e))),
      re_author = extractAtomAuthor (Some e), re_imageUrl = extractMediaThumbnail (Some e),
      re_publishedAt = or_text (textOf (jfield ''published'' (Some e))) (textOf (jfield ''updated'' (Some e)))\<rparr>)"

definition parseAtomEntries :: "'u feed_platform \<Rightarrow> json option \<Rightarrow> feed_error + parse_feed_result" where
  "parseAtomEntries P feed = buildCandidates P (toArray (jfield ''entry'' feed)) atom_entry"

definition parseXmlFeedBody :: "'u feed_platform \<Rightarrow> string \<Rightarrow> feed_error + parse_feed_result" where
  "parseXmlFeedBody P body = (case fp_xmlValidate P body of
       Some msg \<Rightarrow> Inl (FeedParseError InvalidXml (''feed body is not valid XML: '' @ msg))
     | None \<Rightarrow>
         let doc = fp_xmlParse P body
         in if truthy (jfield ''rss'' (Some doc)) then parseRssItems P (jfield ''rss'' (Some doc))
            else if truthy (jfield ''feed'' (Some doc)) then parseAtomEntries P (jfield ''feed'' (Some doc))
            else Inl (FeedParseError UnrecognizedFormat ''XML document root is neither <rss> nor <feed>''))"

definition json_entry :: "json \<Rightarrow> raw_entry option" where
  "json_entry e = (if e = JNull then None else
     let authors = (case jfield ''authors'' (Some e) of Some (JArr xs) \<Rightarrow> xs | _ \<Rightarrow> []) in Some
     \<lparr>re_url = stringField (jfield ''url'' (Some e)), re_title = stringField (jfield ''title'' (Some e)),
      re_summary = or_text (stringField (jfield ''summary'' (Some e)))
        (or_text (stringField (jfield ''content_text'' (Some e))) (stringField (jfield ''content_html'' (Some e)))),
      re_author = or_text (stringField (jfield ''name'' (jfield ''author'' (Some e)))) (stringField (jfield ''name'' (first_of authors))),
      re_imageUrl = stringField (jfield ''image'' (Some e)),
      re_publishedAt = or_text (stringField (jfield ''date_published'' (Some e))) (stringField (jfield ''date_modified'' (Some e)))\<rparr>)"

definition parseJsonFeedBody :: "'u feed_platform \<Rightarrow> string \<Rightarrow> feed_error + parse_feed_result" where
  "parseJsonFeedBody P body = (case json_parse body of
       None \<Rightarrow> Inl (FeedParseError InvalidJson (''feed body is not valid JSON: '' @ fp_syntaxMessage P body))
     | Some doc \<Rightarrow>
         if (case doc of JObj _ \<Rightarrow> False | JArr _ \<Rightarrow> False | _ \<Rightarrow> True)
         then Inl (FeedParseError UnrecognizedFormat ''JSON feed body is not an object'')
         else if (case stringField (jfield ''version'' (Some doc)) of None \<Rightarrow> True | Some v \<Rightarrow> \<not> contains ''jsonfeed.org'' v)
         then Inl (FeedParseError UnrecognizedFormat ''JSON body does not declare a JSON Feed version'')
         else buildCandidates P (case jfield ''items'' (Some doc) of Some (JArr xs) \<Rightarrow> xs | _ \<Rightarrow> []) json_entry)"

definition parseFeed :: "'u feed_platform \<Rightarrow> string \<Rightarrow> feed_error + parse_feed_result" where
  "parseFeed P body =
     (let trimmed = trim body in if starts_with ''{'' trimmed then parseJsonFeedBody P trimmed else parseXmlFeedBody P body)"

end
