(* ===== verification/FeedText.thy ===== *)
theory FeedText
  imports FeedParser
begin

text \<open>
  What the parser makes of texts and addresses: a cleaned text has no tag left, a canonical address
  no tracking parameter, and every entry is either a candidate or reported as skipped.
\<close>

subsection \<open>Texts without tags\<close>

text \<open>No \<open><\<close> has a \<open>>\<close> after it.\<close>

definition tag_free :: "string \<Rightarrow> bool" where
  "tag_free t \<longleftrightarrow> CHR ''>'' \<notin> set (dropWhile (\<lambda>c. c \<noteq> CHR ''<'') t)"

lemma tag_free_Cons [simp]: "tag_free (c # t) \<longleftrightarrow> tag_free t \<and> (c = CHR ''<'' \<longrightarrow> CHR ''>'' \<notin> set t)"
  by (auto simp: tag_free_def dest: set_dropWhileD)

lemma tag_free_Nil [simp]: "tag_free []" by (simp add: tag_free_def)

lemma tag_free_append:
  "tag_free (a @ b) \<longleftrightarrow> tag_free a \<and> tag_free b \<and> (CHR ''<'' \<in> set a \<longrightarrow> CHR ''>'' \<notin> set b)"
  by (induction a) auto

lemma tag_free_plain: "CHR ''<'' \<notin> set w \<Longrightarrow> tag_free w"
  by (induction w) auto

lemma HTML_TAG_rx: "HTML_TAG = RSeq (RSet False [CIChar (CHR ''<'')])
    (RSeq (RRep True 0 None (RSet True [CIChar (CHR ''>'')])) (RSet False [CIChar (CHR ''>'')]))"
  by code_simp

lemma SPACES_rx: "SPACES = RRep True 1 None (RSet False [CISpace])"
  by code_simp

lemma tag_starts: "CHR ''>'' \<in> set s \<Longrightarrow> rxm noflags HTML_TAG (b, CHR ''<'' # s, []) \<noteq> []"
proof -
  assume "CHR ''>'' \<in> set s"
  then obtain u v where s: "s = u @ CHR ''>'' # v" "CHR ''>'' \<notin> set u" by (meson split_list_first)
  then have "(rev u @ CHR ''<'' # b, CHR ''>'' # v, []) \<in> set (rxm noflags (RRep True 0 None (RSet True [CIChar (CHR ''>'')])) (CHR ''<'' # b, s, []))"
    unfolding star_class_set by auto
  then have "\<exists>st \<in> set (rxm noflags (RRep True 0 None (RSet True [CIChar (CHR ''>'')])) (CHR ''<'' # b, s, [])). rxm noflags (RSet False [CIChar (CHR ''>'')]) st \<noteq> []"
    by (rule bexI [rotated]) simp
  then show ?thesis unfolding HTML_TAG_rx by (simp add: concat_eq_Nil_conv)
qed

lemma tag_match:
  assumes "st \<in> set (rxm noflags HTML_TAG (b, s, []))"
  shows "\<exists>u. s = CHR ''<'' # u @ CHR ''>'' # fst (snd st)"
proof -
  let ?star = "RRep True 0 None (RSet True [CIChar (CHR ''>'')])" and ?close = "RSet False [CIChar (CHR ''>'')]"
  obtain t where t: "s = CHR ''<'' # t" "st \<in> set (rxm noflags (RSeq ?star ?close) (CHR ''<'' # b, t, []))"
    using assms unfolding HTML_TAG_rx by (cases s) (auto split: if_splits)
  then obtain st' where "st' \<in> set (rxm noflags ?star (CHR ''<'' # b, t, []))" "st \<in> set (rxm noflags ?close st')" by auto
  moreover from this(1) obtain w v where "st' = (rev w @ CHR ''<'' # b, v, [])" "t = w @ v" unfolding star_class_set by blast
  ultimately show ?thesis using t(1) by (cases v) (auto split: if_splits)
qed

text \<open>A blank for every match leaves no tag behind, and brings none into a text that has none.\<close>

lemma set_replace_blank: "set (replace_from k fl r (\<lambda>_. '' '') b s) \<subseteq> insert (CHR '' '') (set s)"
proof (induction k arbitrary: b s)
  case (Suc k)
  show ?case
  proof (cases "find_from fl r b s")
    case (Some m)
    from find_from_passed [OF Some] obtain w where w: "s = w @ m_text m @ m_after m" by blast
    have tail: "set (replace_from k fl r (\<lambda>_. '' '') b' (m_after m)) \<subseteq> insert (CHR '' '') (set s)" for b'
      using Suc.IH [of b' "m_after m"] w by auto
    have "set (replace_from k fl r (\<lambda>_. '' '') b' cs) \<subseteq> insert (CHR '' '') (set s)" if "m_after m = c # cs" for b' c cs
      using Suc.IH [of b' cs] w that by auto
    then show ?thesis using Some w tail by (cases "m_text m"; cases "m_after m") auto
  qed auto
qed auto

lemma replace_blank_tag_free: "tag_free s \<Longrightarrow> tag_free (replace_from k fl r (\<lambda>_. '' '') b s)"
proof (induction k arbitrary: b s)
  case (Suc k)
  show ?case
  proof (cases "find_from fl r b s")
    case None
    then show ?thesis using Suc.prems by simp
  next
    case (Some m)
    from find_from_passed [OF Some] obtain w where w: "s = w @ m_text m @ m_after m" by blast
    have parts: "tag_free w" "tag_free (m_after m)" "CHR ''<'' \<in> set w \<Longrightarrow> CHR ''>'' \<notin> set (m_after m)"
      using Suc.prems by (auto simp: w tag_free_append)
    have late: "CHR ''>'' \<notin> set (replace_from k fl r (\<lambda>_. '' '') b' cs)" if "CHR ''>'' \<notin> set cs" for b' cs
      using set_replace_blank [of k fl r b' cs] that by auto
    show ?thesis
      using Some w parts Suc.IH late
      by (cases "m_text m"; cases "m_after m") (auto simp: tag_free_append)
  qed
qed simp

lemma strip_tag_free: "length s < k \<Longrightarrow> tag_free (replace_from k noflags HTML_TAG (\<lambda>_. '' '') b s)"
proof (induction k arbitrary: b s)
  case (Suc k)
  show ?case
  proof (cases "find_from noflags HTML_TAG b s")
    case None
    have "tag_free v" if "s = u @ v" for u v
      using that
    proof (induction v arbitrary: u)
      case (Cons c v)
      have "rxm noflags HTML_TAG (rev u @ b, c # v, []) = []" by (rule find_from_None [OF None Cons.prems])
      then show ?case using Cons.IH [of "u @ [c]"] Cons.prems tag_starts [of v] by auto
    qed simp
    then show ?thesis using None by simp
  next
    case (Some m)
    from find_from_passed [OF Some] obtain w where w: "s = w @ m_text m @ m_after m"
      "\<forall>u v. w = u @ v \<longrightarrow> v \<noteq> [] \<longrightarrow> rxm noflags HTML_TAG (rev u @ b, v @ m_text m @ m_after m, []) = []" by blast
    obtain st where "st \<in> set (rxm noflags HTML_TAG (m_before m, m_text m @ m_after m, []))" "fst (snd st) = m_after m"
      using find_from_match [OF Some] by blast
    then obtain u where u: "m_text m @ m_after m = CHR ''<'' # u @ CHR ''>'' # m_after m" using tag_match by metis
    then have mt: "m_text m = CHR ''<'' # u @ [CHR ''>'']" by simp
    have "CHR ''<'' \<notin> set w"
    proof
      assume "CHR ''<'' \<in> set w"
      then obtain x y where xy: "w = x @ CHR ''<'' # y" by (meson split_list)
      then have "rxm noflags HTML_TAG (rev x @ b, CHR ''<'' # (y @ m_text m @ m_after m), []) = []" using w(2) by fastforce
      then show False using tag_starts mt by fastforce
    qed
    moreover have "tag_free (replace_from k noflags HTML_TAG (\<lambda>_. '' '') (rev (m_text m) @ m_before m) (m_after m))"
      by (rule Suc.IH) (use Suc.prems w(1) mt in simp)
    ultimately show ?thesis using Some w(1) mt by (simp add: tag_free_append tag_free_plain)
  qed
qed simp

lemma stripHtmlTags_free: "tag_free (stripHtmlTags t)"
  unfolding stripHtmlTags_def rx_replace_def by (rule strip_tag_free) simp

subsection \<open>Cleaned texts\<close>

text \<open>A text of bounded length, without tags, whose only white space is the blank.\<close>

definition clean_text :: "nat \<Rightarrow> string \<Rightarrow> bool" where
  "clean_text n t \<longleftrightarrow> length t \<le> n \<and> tag_free t \<and> list_all (\<lambda>c. is_space c \<longrightarrow> c = CHR '' '') t"

lemma spaces_blank: "\<forall>c \<in> set (rx_replace noflags SPACES (\<lambda>_. '' '') t). is_space c \<longrightarrow> c = CHR '' ''"
proof (rule set_rx_replace)
  fix b :: string and c s
  assume "\<not> (is_space c \<longrightarrow> c = CHR '' '')"
  then have "(rev [c] @ b, s, []) \<in> set (rxm noflags SPACES (b, c # s, []))"
    unfolding SPACES_rx One_nat_def plus_class_set by fastforce
  then show "rxm noflags SPACES (b, c # s, []) \<noteq> []" by auto
next
  fix b s st
  assume "st \<in> set (rxm noflags SPACES (b, s, []))"
  then show "fst (snd st) \<noteq> s" unfolding SPACES_rx One_nat_def plus_class_set by auto
qed simp

lemma trim_piece: "\<exists>a b. s = a @ trim s @ b"
proof -
  have "\<exists>a. t = a @ trim_start t" for t by (metis takeWhile_dropWhile_id trim_start_def)
  then obtain a b where "s = a @ trim_start s" "rev (trim_start s) = b @ trim_start (rev (trim_start s))" by metis
  then have "s = a @ rev (trim_start (rev (trim_start s))) @ rev b" by (metis rev_append rev_rev_ident)
  then show ?thesis unfolding trim_def by blast
qed

lemma sanitizeText_clean:
  assumes "sanitizeText native raw n = Some t"
  shows "clean_text n t"
proof -
  have piece: "tag_free x \<and> (\<forall>c \<in> set x. is_space c \<longrightarrow> c = CHR '' '')"
    if "tag_free y" "\<forall>c \<in> set y. is_space c \<longrightarrow> c = CHR '' ''" "y = a @ x @ b" for x y a b
    using that by (auto simp: tag_free_append)
  have collapsed: "tag_free (trim y) \<and> (\<forall>c \<in> set (trim y). is_space c \<longrightarrow> c = CHR '' '')"
    if y: "y = rx_replace noflags SPACES (\<lambda>_. '' '') (stripHtmlTags d)" for y d
  proof -
    obtain a b where "y = a @ trim y @ b" using trim_piece by blast
    moreover have "tag_free y" using stripHtmlTags_free [of d] unfolding y rx_replace_def by (rule replace_blank_tag_free)
    ultimately show ?thesis using spaces_blank [of "stripHtmlTags d"] y piece by metis
  qed
  show ?thesis
  proof (cases "raw = None \<or> raw = Some []")
    case True
    then show ?thesis using assms by (auto simp: sanitizeText_def clean_text_def)
  next
    case False
    then obtain d where t: "t = (let y = trim (rx_replace noflags SPACES (\<lambda>_. '' '') (stripHtmlTags d)) in if length y > n then take n y else y)"
      using assms by (auto simp: sanitizeText_def split: if_splits) blast
    let ?y = "trim (rx_replace noflags SPACES (\<lambda>_. '' '') (stripHtmlTags d))"
    have "?y = [] @ take n ?y @ drop n ?y" by simp
    from piece [OF _ _ this] have "tag_free (take n ?y) \<and> (\<forall>c \<in> set (take n ?y). is_space c \<longrightarrow> c = CHR '' '')"
      using collapsed [OF refl, of d] by blast
    then show ?thesis
      using collapsed [OF refl, of d] by (auto simp: t Let_def clean_text_def list_all_iff)
  qed
qed

subsection \<open>Entries\<close>

text \<open>What holds of a candidate.\<close>

definition candidate_ok :: "'u feed_platform \<Rightarrow> article_candidate \<Rightarrow> bool" where
  "candidate_ok P c \<longleftrightarrow> canonicalizeUrl (fp_url P) (ac_url c) = Some (ac_canonicalUrl c)
     \<and> ac_title c \<noteq> [] \<and> clean_text TITLE_MAX_LENGTH (ac_title c)
     \<and> (case ac_summary c of None \<Rightarrow> True | Some t \<Rightarrow> t \<noteq> [] \<and> clean_text SUMMARY_MAX_LENGTH t)
     \<and> (case ac_author c of None \<Rightarrow> True | Some t \<Rightarrow> t \<noteq> [] \<and> clean_text TITLE_MAX_LENGTH t)
     \<and> ac_contentHash c = fp_sha256 P (ac_title c @ [CHR 0x0A] @ (case ac_summary c of None \<Rightarrow> [] | Some t \<Rightarrow> t))"

lemma build_entry_ok:
  assumes "build_entry P raw = Some (Built c)"
  shows "candidate_ok P c"
  using assms unfolding build_entry_def candidate_ok_def
  by (auto simp: Let_def computeContentHash_def dest: sanitizeText_clean split: option.splits if_splits bind_splits)

text \<open>The result of a list of built entries.\<close>

fun built_result :: "nat \<Rightarrow> built_entry list \<Rightarrow> parse_feed_result" where
  "built_result i [] = \<lparr>pf_candidates = [], pf_skipped = []\<rparr>"
| "built_result i (Skipped why # bs) = (built_result (Suc i) bs)\<lparr>pf_skipped := \<lparr>sk_index = i, sk_reason = why\<rparr> # pf_skipped (built_result (Suc i) bs)\<rparr>"
| "built_result i (Built c # bs) = (built_result (Suc i) bs)\<lparr>pf_candidates := c # pf_candidates (built_result (Suc i) bs)\<rparr>"

lemma build_from_result:
  "build_from P extract i entries r = Inr r' \<Longrightarrow>
    \<exists>bs. map (\<lambda>e. Option.bind (extract e) (build_entry P)) entries = map Some bs
      \<and> pf_candidates r' = pf_candidates r @ pf_candidates (built_result i bs)
      \<and> pf_skipped r' = pf_skipped r @ pf_skipped (built_result i bs)"
proof (induction entries arbitrary: i r)
  case (Cons e rest)
  then obtain raw b where b: "extract e = Some raw" "build_entry P raw = Some b" "build_from P extract (Suc i) rest (add_built i b r) = Inr r'"
    by (auto split: option.splits)
  from Cons.IH [OF b(3)] obtain bs where
    "map (\<lambda>e. Option.bind (extract e) (build_entry P)) rest = map Some bs"
    "pf_candidates r' = pf_candidates (add_built i b r) @ pf_candidates (built_result (Suc i) bs)"
    "pf_skipped r' = pf_skipped (add_built i b r) @ pf_skipped (built_result (Suc i) bs)" by blast
  then show ?case using b(1,2) by (intro exI [of _ "b # bs"]) (cases b; simp)
qed auto

lemma built_result_counts:
  "length (pf_candidates (built_result i bs)) + length (pf_skipped (built_result i bs)) = length bs"
  "sorted (map sk_index (pf_skipped (built_result i bs))) \<and> distinct (map sk_index (pf_skipped (built_result i bs)))
    \<and> (\<forall>s \<in> set (pf_skipped (built_result i bs)). i \<le> sk_index s \<and> sk_index s < i + length bs)"
  "c \<in> set (pf_candidates (built_result i bs)) \<Longrightarrow> Built c \<in> set bs"
  by (induction i bs rule: built_result.induct) fastforce+

lemma buildCandidates_ok:
  assumes "buildCandidates P entries extract = Inr r"
  shows "length (pf_candidates r) + length (pf_skipped r) = length entries"
    and "sorted (map sk_index (pf_skipped r)) \<and> distinct (map sk_index (pf_skipped r))"
    and "\<forall>s \<in> set (pf_skipped r). sk_index s < length entries"
    and "\<forall>c \<in> set (pf_candidates r). candidate_ok P c"
proof -
  obtain bs where bs: "map (\<lambda>e. Option.bind (extract e) (build_entry P)) entries = map Some bs"
    "pf_candidates r = pf_candidates (built_result 0 bs)" "pf_skipped r = pf_skipped (built_result 0 bs)"
    using build_from_result [OF assms [unfolded buildCandidates_def]] by auto
  have "length bs = length entries" using arg_cong [OF bs(1), of length] by simp
  then show "length (pf_candidates r) + length (pf_skipped r) = length entries"
    "sorted (map sk_index (pf_skipped r)) \<and> distinct (map sk_index (pf_skipped r))"
    "\<forall>s \<in> set (pf_skipped r). sk_index s < length entries"
    using built_result_counts(1,2) [of 0 bs] bs(2,3) by auto
  show "\<forall>c \<in> set (pf_candidates r). candidate_ok P c"
  proof
    fix c assume "c \<in> set (pf_candidates r)"
    then have "Some (Built c) \<in> set (map (\<lambda>e. Option.bind (extract e) (build_entry P)) entries)"
      using built_result_counts(3) [of c 0 bs] bs(1,2) by simp
    then obtain e where "Option.bind (extract e) (build_entry P) = Some (Built c)" by auto
    then show "candidate_ok P c" by (auto simp: bind_eq_Some_conv intro: build_entry_ok)
  qed
qed

text \<open>One text that cannot be decoded takes the whole feed with it.\<close>

lemma build_from_aborts:
  assumes "build_entry P raw = None" and "extract e = Some raw" and "\<And>x. x \<in> set before \<Longrightarrow> extract x \<noteq> None"
  shows "build_from P extract i (before @ e # after) r = Inl RangeError"
  using assms(3)
proof (induction before arbitrary: i r)
  case (Cons x before)
  then obtain y where "extract x = Some y" by fastforce
  then show ?case using Cons by (cases "build_entry P y") auto
qed (use assms(1,2) in simp)

subsection \<open>Addresses\<close>

text \<open>
  The documented behaviour of \<open>URL\<close> that the canonical address rests on: a setter changes its own
  component only, and \<open>searchParams.delete\<close> removes every parameter of the name.
\<close>

definition url_laws :: "'u url_api \<Rightarrow> bool" where
  "url_laws U \<longleftrightarrow> (\<forall>u x.
     ua_protocol U (ua_setHostname U x u) = ua_protocol U u \<and> ua_protocol U (ua_setHash U x u) = ua_protocol U u
   \<and> ua_protocol U (ua_setPort U x u) = ua_protocol U u \<and> ua_protocol U (ua_delete U x u) = ua_protocol U u
   \<and> ua_hash U (ua_setHash U [] u) = [] \<and> ua_hash U (ua_setPort U x u) = ua_hash U u \<and> ua_hash U (ua_delete U x u) = ua_hash U u
   \<and> ua_port U (ua_setPort U [] u) = [] \<and> ua_port U (ua_delete U x u) = ua_port U u
   \<and> ua_keys U (ua_delete U x u) = filter (\<lambda>k. k \<noteq> x) (ua_keys U u))"

lemma drop_tracking_facts:
  assumes "url_laws U"
  shows "ua_protocol U (drop_tracking U u) = ua_protocol U u" "ua_hash U (drop_tracking U u) = ua_hash U u"
    "ua_port U (drop_tracking U u) = ua_port U u" "ua_keys U (drop_tracking U u) = filter (\<lambda>k. \<not> is_tracking k) (ua_keys U u)"
proof -
  let ?f = "\<lambda>u k. if is_tracking k then ua_delete U k u else u"
  have step: "ua_protocol U (foldl ?f u ks) = ua_protocol U u \<and> ua_hash U (foldl ?f u ks) = ua_hash U u
      \<and> ua_port U (foldl ?f u ks) = ua_port U u
      \<and> ua_keys U (foldl ?f u ks) = filter (\<lambda>k. \<not> (is_tracking k \<and> k \<in> set ks)) (ua_keys U u)" for ks
  proof (induction ks arbitrary: u)
    case (Cons k ks)
    have "ua_protocol U (ua_delete U k u) = ua_protocol U u" "ua_hash U (ua_delete U k u) = ua_hash U u"
      "ua_port U (ua_delete U k u) = ua_port U u" "ua_keys U (ua_delete U k u) = filter (\<lambda>x. x \<noteq> k) (ua_keys U u)"
      using assms by (simp_all add: url_laws_def)
    then show ?case by (auto simp: Cons.IH intro!: filter_cong)
  qed simp
  show "ua_protocol U (drop_tracking U u) = ua_protocol U u" "ua_hash U (drop_tracking U u) = ua_hash U u"
    "ua_port U (drop_tracking U u) = ua_port U u" "ua_keys U (drop_tracking U u) = filter (\<lambda>k. \<not> is_tracking k) (ua_keys U u)"
    using step [of "ua_keys U u"] by (auto simp: drop_tracking_def intro!: filter_cong)
qed

lemma canonicalizeUrl_clean:
  assumes laws: "url_laws U" and "canonicalizeUrl U raw = Some c"
  shows "\<exists>u. c = ua_href U u \<and> ua_protocol U u \<in> {''http:'', ''https:''} \<and> ua_hash U u = []
    \<and> ua_port U u \<noteq> (if ua_protocol U u = ''https:'' then ''443'' else ''80'') \<and> list_all (\<lambda>k. \<not> is_tracking k) (ua_keys U u)"
proof -
  obtain u where u: "ua_parse U raw = Some u" "ua_protocol U u \<in> {''http:'', ''https:''}"
    using assms(2) by (auto simp: canonicalizeUrl_def Let_def split: option.splits if_splits)
  let ?v = "ua_setHash U [] (ua_setHostname U (to_lower (ua_hostname U u)) u)"
  let ?d = "if ua_protocol U u = ''https:'' then ''443'' else ''80''"
  let ?w = "if ua_port U ?v = ?d then ua_setPort U [] ?v else ?v"
  have v: "ua_protocol U ?v = ua_protocol U u" "ua_hash U ?v = []" using laws by (simp_all add: url_laws_def)
  have w: "ua_protocol U ?w = ua_protocol U u" "ua_hash U ?w = []" "ua_port U ?w \<noteq> ?d"
    using laws v by (auto simp: url_laws_def)
  have "c = ua_href U (drop_tracking U ?w)"
    using assms(2) u v(1) by (auto simp: canonicalizeUrl_def Let_def split: if_splits)
  then show ?thesis
    using w u(2) drop_tracking_facts [OF laws, of ?w] by (intro exI [of _ "drop_tracking U ?w"]) (auto simp: list_all_iff)
qed

end
