(* ===== verification/FeedFetcher.thy ===== *)
theory FeedFetcher
  imports FeedParser Git
begin

text \<open>
  \<open>apps/worker/src/lib/feed-fetcher.ts\<close>: fetching one feed.  The network is a function of the requests
  made so far and the next one; the requests are the trace.
\<close>

subsection \<open>Requests and responses\<close>

record fetch_request =
  rq_url :: string
  rq_headers :: "(string \<times> string) list"

text \<open>
  A body is the chunks the stream yields, then its end or an error; \<open>None\<close> is a response without a stream.
  The text of a body is its bytes: what \<open>TextDecoder\<close> does to a byte order mark or to malformed
  UTF-8 is not modelled.
\<close>

record fetch_response =
  rs_status :: nat
  rs_header :: "string \<Rightarrow> string option"
  rs_chunks :: "string list option"
  rs_broken :: "string option"
  rs_text :: string

record fetch_failure =
  ff_timedOut :: bool
  ff_message :: string

type_synonym network = "fetch_request list \<Rightarrow> fetch_request \<Rightarrow> fetch_failure + fetch_response"

datatype fetch_reason = InvalidScheme | Timeout | Network | TooManyRedirects | Oversized | HttpError

text \<open>Besides its own error \<open>fetchFeed\<close> can throw what the platform throws.\<close>

datatype fetch_error = FeedFetchError (fe_reason: fetch_reason) (fe_retryable: bool) (fe_message: string) (fe_status: "nat option")
  | PlatformError (fe_message: string)

record fetch_options =
  fo_url :: string
  fo_etag :: "string option"
  fo_lastModified :: "string option"
  fo_timeoutMs :: nat
  fo_maxBytes :: nat
  fo_maxRedirects :: nat
  fo_userAgent :: string

definition DEFAULT_USER_AGENT :: string where
  "DEFAULT_USER_AGENT = ''Newsdeck-Collector/1.0 (+https://github.com/eastasann/space-elysiajs-orpc)''"

definition fetch_defaults :: fetch_options where
  "fetch_defaults = \<lparr>fo_url = [], fo_etag = None, fo_lastModified = None, fo_timeoutMs = 10000, fo_maxBytes = 5000000,
     fo_maxRedirects = 5, fo_userAgent = DEFAULT_USER_AGENT\<rparr>"

datatype fetch_result = NotModified | Fetched (fr_body: string) (fr_contentType: "string option")
  (fr_etag: "string option") (fr_lastModified: "string option")

subsection \<open>Addresses and bodies\<close>

definition in_quotes :: "string \<Rightarrow> string" where "in_quotes t = [CHR 0x22] @ t @ [CHR 0x22]"

definition assertHttpUrl :: "'u url_api \<Rightarrow> string \<Rightarrow> fetch_error + string" where
  "assertHttpUrl U raw = (case ua_parse U raw of
       None \<Rightarrow> Inl (FeedFetchError InvalidScheme False (in_quotes raw @ '' is not a valid URL'') None)
     | Some u \<Rightarrow>
         if ua_protocol U u \<noteq> ''http:'' \<and> ua_protocol U u \<noteq> ''https:''
         then Inl (FeedFetchError InvalidScheme False
           (''refusing non-http(s) scheme '' @ in_quotes (ua_protocol U u) @ '' for '' @ in_quotes raw) None)
         else Inr (ua_href U u))"

definition oversized :: "string \<Rightarrow> fetch_error" where "oversized msg = FeedFetchError Oversized False msg None"

fun read_chunks :: "nat \<Rightarrow> string option \<Rightarrow> nat \<Rightarrow> string list \<Rightarrow> string list \<Rightarrow> fetch_error + string" where
  "read_chunks maxBytes broken got chunks [] = (case broken of
       Some msg \<Rightarrow> Inl (PlatformError msg)
     | None \<Rightarrow> Inr (concat chunks))"
| "read_chunks maxBytes broken got chunks (v # vs) =
     (if got + length v > maxBytes
      then Inl (oversized (''response exceeded the '' @ dec maxBytes @ '' byte limit''))
      else read_chunks maxBytes broken (got + length v) (chunks @ [v]) vs)"

text \<open>\<open>Number\<close> of a header that is absent is 0, of one that is no number not finite; a content length is written in digits.\<close>

definition declared_length :: "fetch_response \<Rightarrow> int option" where
  "declared_length r = (case rs_header r ''content-length'' of None \<Rightarrow> Some 0 | Some t \<Rightarrow> js_number t)"

definition readBoundedBody :: "fetch_response \<Rightarrow> nat \<Rightarrow> fetch_error + string" where
  "readBoundedBody r maxBytes =
     (if (case declared_length r of Some n \<Rightarrow> n > int maxBytes | None \<Rightarrow> False)
      then Inl (oversized (''declared content-length '' @ dec (nat (case declared_length r of Some n \<Rightarrow> n | None \<Rightarrow> 0))
         @ '' exceeds the '' @ dec maxBytes @ '' byte limit''))
      else (case rs_chunks r of
          None \<Rightarrow> Inr (rs_text r)
        | Some chunks \<Rightarrow> read_chunks maxBytes (rs_broken r) 0 [] chunks))"

subsection \<open>The loop over redirects\<close>

definition request_for :: "fetch_options \<Rightarrow> string \<Rightarrow> fetch_request" where
  "request_for opt url = \<lparr>rq_url = url, rq_headers =
     [(''User-Agent'', fo_userAgent opt),
      (''Accept'', ''application/rss+xml, application/atom+xml, application/xml, text/xml, */*'')]
     @ (case fo_etag opt of Some t \<Rightarrow> if t = [] then [] else [(''If-None-Match'', t)] | None \<Rightarrow> [])
     @ (case fo_lastModified opt of Some t \<Rightarrow> if t = [] then [] else [(''If-Modified-Since'', t)] | None \<Rightarrow> [])\<rparr>"

definition http_error :: "bool \<Rightarrow> string \<Rightarrow> nat \<Rightarrow> fetch_error" where
  "http_error retry url status =
     FeedFetchError HttpError retry (''feed responded '' @ dec status @ '' for '' @ in_quotes url) (Some status)"

definition fetch_failed :: "fetch_options \<Rightarrow> string \<Rightarrow> fetch_failure \<Rightarrow> fetch_error" where
  "fetch_failed opt url f =
     (if ff_timedOut f
      then FeedFetchError Timeout True (''request to '' @ in_quotes url @ '' timed out after '' @ dec (fo_timeoutMs opt) @ ''ms'') None
      else FeedFetchError Network True (''request to '' @ in_quotes url @ '' failed: '' @ ff_message f) None)"

text \<open>A redirect is resolved against the address it came from; the platform throws when that fails.\<close>

definition next_url :: "'u url_api \<Rightarrow> string \<Rightarrow> string \<Rightarrow> fetch_error + string" where
  "next_url U location url = (case ua_base U location url of
       None \<Rightarrow> Inl (PlatformError (in_quotes location @ '' cannot be parsed as a URL.''))
     | Some u \<Rightarrow> assertHttpUrl U (ua_href U u))"

definition final_response :: "fetch_options \<Rightarrow> string \<Rightarrow> fetch_response \<Rightarrow> fetch_error + fetch_result" where
  "final_response opt url r =
     (if rs_status r = 404 \<or> rs_status r = 410 then Inl (http_error False url (rs_status r))
      else if rs_status r \<ge> 500 then Inl (http_error True url (rs_status r))
      else if \<not> (200 \<le> rs_status r \<and> rs_status r < 300) then Inl (http_error False url (rs_status r))
      else (case readBoundedBody r (fo_maxBytes opt) of
          Inl e \<Rightarrow> Inl e
        | Inr body \<Rightarrow> Inr (Fetched body (rs_header r ''content-type'') (rs_header r ''etag'') (rs_header r ''last-modified''))))"

definition no_location :: "string \<Rightarrow> nat \<Rightarrow> fetch_error" where
  "no_location url status = FeedFetchError HttpError False
     (''redirect from '' @ in_quotes url @ '' carried no Location header (status '' @ dec status @ '')'') (Some status)"

definition too_many :: "fetch_options \<Rightarrow> nat \<Rightarrow> fetch_error" where
  "too_many opt status = FeedFetchError TooManyRedirects False
     (in_quotes (fo_url opt) @ '' exceeded '' @ dec (fo_maxRedirects opt) @ '' redirects'') (Some status)"

function fetch_from :: "'u url_api \<Rightarrow> network \<Rightarrow> fetch_options \<Rightarrow> nat \<Rightarrow> string \<Rightarrow> fetch_request list \<Rightarrow>
    (fetch_error + fetch_result) \<times> fetch_request list" where
  "fetch_from U net opt redirectCount url trace =
     (let req = request_for opt url; trace' = trace @ [req]
      in case net trace req of
           Inl f \<Rightarrow> (Inl (fetch_failed opt url f), trace')
         | Inr r \<Rightarrow>
             if rs_status r = 304 then (Inr NotModified, trace')
             else if 300 \<le> rs_status r \<and> rs_status r < 400 then
               (case rs_header r ''location'' of
                  None \<Rightarrow> (Inl (no_location url (rs_status r)), trace')
                | Some location \<Rightarrow>
                    if location = [] then (Inl (no_location url (rs_status r)), trace')
                    else if redirectCount \<ge> fo_maxRedirects opt then (Inl (too_many opt (rs_status r)), trace')
                    else (case next_url U location url of
                        Inl e \<Rightarrow> (Inl e, trace')
                      | Inr url' \<Rightarrow> fetch_from U net opt (Suc redirectCount) url' trace'))
             else (final_response opt url r, trace'))"
  by pat_completeness auto
termination
  by (relation "measure (\<lambda>(U, net, opt, redirectCount, url, trace). fo_maxRedirects opt - redirectCount)") auto

declare fetch_from.simps [simp del]

definition fetchFeed :: "'u url_api \<Rightarrow> network \<Rightarrow> fetch_options \<Rightarrow> (fetch_error + fetch_result) \<times> fetch_request list" where
  "fetchFeed U net opt = (case assertHttpUrl U (fo_url opt) of
       Inl e \<Rightarrow> (Inl e, [])
     | Inr url \<Rightarrow> fetch_from U net opt 0 url [])"

subsection \<open>What is requested\<close>

text \<open>An address that may be requested: it is written from a parsed one with an http scheme.\<close>

definition http_address :: "'u url_api \<Rightarrow> string \<Rightarrow> bool" where
  "http_address U a \<longleftrightarrow> (\<exists>raw u. ua_parse U raw = Some u \<and> ua_protocol U u \<in> {''http:'', ''https:''} \<and> a = ua_href U u)"

lemma assertHttpUrl_address: "assertHttpUrl U raw = Inr a \<Longrightarrow> http_address U a"
  by (auto simp: assertHttpUrl_def http_address_def split: option.splits if_splits)

lemma request_for_url [simp]: "rq_url (request_for opt url) = url" by (simp add: request_for_def)

lemma fetch_from_requests:
  assumes "fetch_from U net opt k url trace = (r, trace')" and "http_address U url" and "k \<le> fo_maxRedirects opt"
  shows "\<exists>reqs. trace' = trace @ reqs \<and> length reqs \<le> fo_maxRedirects opt - k + 1
    \<and> list_all (\<lambda>q. http_address U (rq_url q) \<and> q = request_for opt (rq_url q)) reqs"
  using assms
proof (induction U net opt k url trace rule: fetch_from.induct)
  case (1 U net opt k url trace)
  let ?one = "trace' = trace @ [request_for opt url]"
  have one: ?case if ?one
    using that "1.prems"(2) by (intro exI [of _ "[request_for opt url]"]) simp
  show ?case
  proof (cases "net trace (request_for opt url)")
    case (Inl f)
    then have ?one using "1.prems"(1) by (simp add: fetch_from.simps [of U net opt k url] Let_def)
    then show ?thesis by (rule one)
  next
    case (Inr x)
    show ?thesis
    proof (cases "\<exists>location url'. rs_status x \<noteq> 304 \<and> 300 \<le> rs_status x \<and> rs_status x < 400 \<and> rs_header x ''location'' = Some location
        \<and> location \<noteq> [] \<and> k < fo_maxRedirects opt \<and> next_url U location url = Inr url'")
      case False
      then have ?one
        using "1.prems"(1) Inr by (auto simp: fetch_from.simps [of U net opt k url] Let_def not_le split: if_splits option.splits sum.splits)
      then show ?thesis by (rule one)
    next
      case True
      then obtain location url' where go: "rs_status x \<noteq> 304" "300 \<le> rs_status x" "rs_status x < 400"
        "rs_header x ''location'' = Some location" "location \<noteq> []" "k < fo_maxRedirects opt" "next_url U location url = Inr url'" by blast
      have "fetch_from U net opt (Suc k) url' (trace @ [request_for opt url]) = (r, trace')"
        using "1.prems"(1) Inr go by (simp add: fetch_from.simps [of U net opt k url] Let_def)
      moreover have "http_address U url'"
        using go(7) by (auto simp: next_url_def intro: assertHttpUrl_address split: option.splits)
      ultimately obtain reqs where "trace' = (trace @ [request_for opt url]) @ reqs" "length reqs \<le> fo_maxRedirects opt - Suc k + 1"
        "list_all (\<lambda>q. http_address U (rq_url q) \<and> q = request_for opt (rq_url q)) reqs"
        using "1.IH" [OF refl refl Inr go(1) _ go(4,5) _ go(7)] go(2,3,6) by auto
      then show ?thesis
        using "1.prems"(2) go(6) by (intro exI [of _ "request_for opt url # reqs"]) auto
    qed
  qed
qed

subsection \<open>How a fetch ends\<close>

definition fetch_end :: "'u url_api \<Rightarrow> network \<Rightarrow> fetch_options \<Rightarrow> fetch_error + fetch_result \<Rightarrow> bool" where
  "fetch_end U net opt res \<longleftrightarrow> res = Inr NotModified \<or> (\<exists>url f. res = Inl (fetch_failed opt url f))
     \<or> (\<exists>url status. 300 \<le> status \<and> status < 400 \<and> (res = Inl (no_location url status) \<or> res = Inl (too_many opt status)))
     \<or> (\<exists>location url e. next_url U location url = Inl e \<and> res = Inl e)
     \<or> (\<exists>trace url r. net trace (request_for opt url) = Inr r \<and> \<not> (300 \<le> rs_status r \<and> rs_status r < 400)
         \<and> res = final_response opt url r)"

lemma fetch_from_end: "fetch_from U net opt k url trace = (res, trace') \<Longrightarrow> fetch_end U net opt res"
proof (induction U net opt k url trace rule: fetch_from.induct)
  case (1 U net opt k url trace)
  show ?case
  proof (cases "net trace (request_for opt url)")
    case (Inl f)
    then have "res = Inl (fetch_failed opt url f)" using "1.prems" by (simp add: fetch_from.simps [of U net opt k url] Let_def)
    then show ?thesis by (auto simp: fetch_end_def)
  next
    case (Inr x)
    show ?thesis
    proof (cases "rs_status x \<noteq> 304 \<and> 300 \<le> rs_status x \<and> rs_status x < 400")
      case False
      then have "res = Inr NotModified \<or> \<not> (300 \<le> rs_status x \<and> rs_status x < 400) \<and> res = final_response opt url x"
        using "1.prems" Inr by (auto simp: fetch_from.simps [of U net opt k url] Let_def split: if_splits)
      then show ?thesis using Inr unfolding fetch_end_def by blast
    next
      case True
      show ?thesis
      proof (cases "\<exists>location url'. rs_header x ''location'' = Some location \<and> location \<noteq> [] \<and> k < fo_maxRedirects opt
          \<and> next_url U location url = Inr url'")
        case False
        then have "res = Inl (no_location url (rs_status x)) \<or> res = Inl (too_many opt (rs_status x))
            \<or> (\<exists>location e. next_url U location url = Inl e \<and> res = Inl e)"
          using "1.prems" Inr True
          by (auto simp: fetch_from.simps [of U net opt k url] Let_def not_le split: if_splits option.splits sum.splits)
        then show ?thesis using True unfolding fetch_end_def by blast
      next
        case go: True
        then obtain location url' where l: "rs_header x ''location'' = Some location" "location \<noteq> []" "k < fo_maxRedirects opt"
          "next_url U location url = Inr url'" by blast
        then have "fetch_from U net opt (Suc k) url' (trace @ [request_for opt url]) = (res, trace')"
          using "1.prems" Inr True by (simp add: fetch_from.simps [of U net opt k url] Let_def)
        then show ?thesis
          using "1.IH" [OF refl refl Inr _ _ l(1,2) _ l(4)] True l(3) by auto
      qed
    qed
  qed
qed

lemma assertHttpUrl_error: "assertHttpUrl U raw = Inl e \<Longrightarrow> \<exists>msg. e = FeedFetchError InvalidScheme False msg None"
  by (auto simp: assertHttpUrl_def split: option.splits if_splits)

lemma fetchFeed_end:
  assumes "fetchFeed U net opt = (res, trace)"
  shows "(\<exists>msg. res = Inl (FeedFetchError InvalidScheme False msg None)) \<or> fetch_end U net opt res"
  using assms assertHttpUrl_error [of U "fo_url opt"] fetch_from_end
  by (fastforce simp: fetchFeed_def split: sum.splits)

lemma read_chunks_bounded: "read_chunks maxBytes broken got chunks vs = Inr body \<Longrightarrow> got = length (concat chunks) \<Longrightarrow> got \<le> maxBytes \<Longrightarrow>
    length body \<le> maxBytes \<and> body = concat chunks @ concat vs \<and> broken = None"
  by (induction maxBytes broken got chunks vs rule: read_chunks.induct) (auto split: if_splits option.splits)

lemma read_chunks_error: "read_chunks maxBytes broken got chunks vs = Inl e \<Longrightarrow>
    (\<exists>msg. e = oversized msg) \<or> (\<exists>msg. broken = Some msg \<and> e = PlatformError msg)"
  by (induction maxBytes broken got chunks vs rule: read_chunks.induct) (auto split: if_splits option.splits)

lemma readBoundedBody_error:
  "readBoundedBody r n = Inl e \<Longrightarrow> (\<exists>msg. e = oversized msg) \<or> (\<exists>msg. rs_broken r = Some msg \<and> e = PlatformError msg)"
  unfolding readBoundedBody_def by (auto dest: read_chunks_error split: if_splits option.splits)

text \<open>The one thing a caller asks of an error.\<close>

definition transient :: "fetch_error \<Rightarrow> bool" where
  "transient e \<longleftrightarrow> (case e of
       FeedFetchError why _ _ status \<Rightarrow> why = Timeout \<or> why = Network
         \<or> why = HttpError \<and> (case status of Some n \<Rightarrow> 500 \<le> n | None \<Rightarrow> False)
     | PlatformError _ \<Rightarrow> True)"

definition retried :: "fetch_error \<Rightarrow> bool" where
  "retried e \<longleftrightarrow> (case e of FeedFetchError _ retryable _ _ \<Rightarrow> retryable | PlatformError _ \<Rightarrow> True)"

lemma fetch_end_retried:
  assumes "fetch_end U net opt (Inl e)"
  shows "retried e \<longleftrightarrow> transient e"
proof -
  have final: "retried e \<longleftrightarrow> transient e" if "final_response opt url r = Inl e" "\<not> (300 \<le> rs_status r \<and> rs_status r < 400)" for url r
    using that by (auto simp: final_response_def http_error_def retried_def transient_def oversized_def
        dest!: readBoundedBody_error split: if_splits sum.splits)
  have next_one: "retried e \<longleftrightarrow> transient e" if "next_url U location url = Inl e" for location url
    using that assertHttpUrl_error [of U] by (fastforce simp: next_url_def retried_def transient_def split: option.splits)
  show ?thesis
  proof -
    consider (failed) url f where "e = fetch_failed opt url f"
      | (redirect) url status where "300 \<le> status" "status < 400" "e = no_location url status \<or> e = too_many opt status"
      | (address) location url where "next_url U location url = Inl e"
      | (response) url r where "final_response opt url r = Inl e" "\<not> (300 \<le> rs_status r \<and> rs_status r < 400)"
      using assms unfolding fetch_end_def by (metis Inl_Inr_False sum.inject(1))
    then show ?thesis
      by cases (auto simp: fetch_failed_def no_location_def too_many_def retried_def transient_def dest: final next_one)
  qed
qed

end
