(* ===== verification/SourcesFetch.thy ===== *)
theory SourcesFetch
  imports FeedFetcher
begin

text \<open>
  The table \<open>sources\<close> (\<open>packages/db/src/schema/sources.ts\<close>), the worker's access to it
  (\<open>apps/worker/src/modules/sources/repository.ts\<close>) and the job that fetches a source
  (\<open>apps/worker/src/handlers/sources-fetch.ts\<close>).
\<close>

subsection \<open>The table\<close>

record source_row =
  so_id :: string
  so_name :: string
  so_feedUrl :: string
  so_siteUrl :: "string option"
  so_isActive :: bool
  so_etag :: "string option"
  so_lastModified :: "string option"
  so_lastFetchedAt :: "int option"
  so_lastError :: "string option"
  so_createdAt :: int
  so_updatedAt :: int

text \<open>
  One call after another reaches the database; before each other processes may have changed the
  table, as far as the primary key and the unique index on \<open>feed_url\<close> let them, and the call may fail.
\<close>

record sources_db =
  sd_rows :: "source_row list"
  sd_calls :: nat

record sources_outside =
  sx_others :: "nat \<Rightarrow> source_row list \<Rightarrow> source_row list"
  sx_failure :: "nat \<Rightarrow> string option"
  sx_now :: "nat \<Rightarrow> int"
  sx_uuid :: "nat \<Rightarrow> string"

definition index_holds :: "source_row list \<Rightarrow> bool" where
  "index_holds rs \<longleftrightarrow> distinct (map so_id rs) \<and> distinct (map so_feedUrl rs)"

text \<open>An outage has no code and no constraint.\<close>

definition outage :: "string \<Rightarrow> js_error" where "outage msg = \<lparr>er_message = msg, er_cause = None\<rparr>"

definition sources_call :: "sources_outside \<Rightarrow> (sources_db, js_error, nat) task" where
  "sources_call w db =
     (let rs = sx_others w (sd_calls db) (sd_rows db);
          db' = \<lparr>sd_rows = (if index_holds rs then rs else sd_rows db), sd_calls = sd_calls db + 1\<rparr>
      in case sx_failure w (sd_calls db) of Some msg \<Rightarrow> (Inl (outage msg), db') | None \<Rightarrow> (Inr (sd_calls db), db'))"

definition select_source :: "(source_row \<Rightarrow> bool) \<Rightarrow> source_row list \<Rightarrow> source_row option" where
  "select_source p rs = List.find p rs"

text \<open>\<open>UPDATE ... WHERE id = ... RETURNING\<close>; \<open>id\<close> is the primary key.\<close>

definition update_source :: "string \<Rightarrow> (source_row \<Rightarrow> source_row) \<Rightarrow> source_row list \<Rightarrow> source_row list" where
  "update_source key f = map (\<lambda>r. if so_id r = key then f r else r)"

subsection \<open>The worker's repository\<close>

record fetch_target =
  ft_id :: string
  ft_feedUrl :: string
  ft_etag :: "string option"
  ft_lastModified :: "string option"

text \<open>A field that is omitted is \<open>None\<close>, one that is \<open>null\<close> is \<open>Some None\<close>.\<close>

record fetch_outcome =
  fu_etag :: "string option option"
  fu_lastModified :: "string option option"
  fu_lastError :: "string option"

record 's fetch_repository =
  sr_findFetchTarget :: "string \<Rightarrow> ('s, js_error, fetch_target option) task"
  sr_recordFetchOutcome :: "string \<Rightarrow> fetch_outcome \<Rightarrow> ('s, js_error, unit) task"

definition target_of :: "source_row \<Rightarrow> fetch_target" where
  "target_of r = \<lparr>ft_id = so_id r, ft_feedUrl = so_feedUrl r, ft_etag = so_etag r, ft_lastModified = so_lastModified r\<rparr>"

definition record_outcome :: "int \<Rightarrow> fetch_outcome \<Rightarrow> source_row \<Rightarrow> source_row" where
  "record_outcome now out r = r\<lparr>so_lastFetchedAt := Some now, so_lastError := fu_lastError out,
     so_etag := (case fu_etag out of Some e \<Rightarrow> e | None \<Rightarrow> so_etag r),
     so_lastModified := (case fu_lastModified out of Some m \<Rightarrow> m | None \<Rightarrow> so_lastModified r),
     so_updatedAt := now\<rparr>"

definition findFetchTarget :: "sources_outside \<Rightarrow> string \<Rightarrow> (sources_db, js_error, fetch_target option) task" where
  "findFetchTarget w key = bind_task (sources_call w) (\<lambda>_ db.
     (Inr (map_option target_of (select_source (\<lambda>r. so_id r = key) (sd_rows db))), db))"

definition recordFetchOutcome :: "sources_outside \<Rightarrow> string \<Rightarrow> fetch_outcome \<Rightarrow> (sources_db, js_error, unit) task" where
  "recordFetchOutcome w key out = bind_task (sources_call w) (\<lambda>n db.
     (Inr (), db\<lparr>sd_rows := update_source key (record_outcome (sx_now w n) out) (sd_rows db)\<rparr>))"

definition worker_repository :: "sources_outside \<Rightarrow> sources_db fetch_repository" where
  "worker_repository w = \<lparr>sr_findFetchTarget = findFetchTarget w, sr_recordFetchOutcome = recordFetchOutcome w\<rparr>"

subsection \<open>The job\<close>

record fetch_payload =
  py_sourceId :: string
  py_requestId :: "string option"

text \<open>What the handler throws: an \<open>UnrecoverableError\<close>, the error of the fetch, or one of the database.\<close>

datatype job_error = Unrecoverable string | FetchFailed fetch_error | StoreFailed js_error

definition error_message :: "job_error \<Rightarrow> string" where
  "error_message e = (case e of Unrecoverable t \<Rightarrow> t | FetchFailed f \<Rightarrow> fe_message f | StoreFailed d \<Rightarrow> er_message d)"

definition store_task :: "('s, js_error, 'a) task \<Rightarrow> ('s, job_error, 'a) task" where
  "store_task m = catch_task (\<lambda>s. m s) (\<lambda>e. fail_task (StoreFailed e))"

definition fetch_options_for :: "fetch_target \<Rightarrow> fetch_options" where
  "fetch_options_for t = fetch_defaults\<lparr>fo_url := ft_feedUrl t, fo_etag := ft_etag t, fo_lastModified := ft_lastModified t\<rparr>"

definition permanent :: "job_error \<Rightarrow> bool" where
  "permanent e = (case e of FetchFailed (FeedFetchError _ retryable _ _) \<Rightarrow> \<not> retryable | _ \<Rightarrow> False)"

definition record_success :: "'s fetch_repository \<Rightarrow> fetch_target \<Rightarrow> fetch_result \<Rightarrow> ('s, job_error, unit) task" where
  "record_success repo t res = store_task (sr_recordFetchOutcome repo (ft_id t) (case res of
       NotModified \<Rightarrow> \<lparr>fu_etag = None, fu_lastModified = None, fu_lastError = None\<rparr>
     | Fetched _ _ etag lastModified \<Rightarrow> \<lparr>fu_etag = Some etag, fu_lastModified = Some lastModified, fu_lastError = None\<rparr>))"

definition record_failure :: "'s fetch_repository \<Rightarrow> fetch_target \<Rightarrow> job_error \<Rightarrow> ('s, job_error, unit) task" where
  "record_failure repo t e =
     then_task (store_task (sr_recordFetchOutcome repo (ft_id t)
         \<lparr>fu_etag = None, fu_lastModified = None, fu_lastError = Some (error_message e)\<rparr>))
       (fail_task (if permanent e then Unrecoverable (error_message e) else e))"

definition fetch_source :: "'u url_api \<Rightarrow> network \<Rightarrow> 's fetch_repository \<Rightarrow> fetch_payload \<Rightarrow> ('s, job_error, unit) task" where
  "fetch_source U net repo payload =
     bind_task (store_task (sr_findFetchTarget repo (py_sourceId payload))) (\<lambda>source. case source of
         None \<Rightarrow> fail_task (Unrecoverable (''no source with id '' @ in_quotes (py_sourceId payload) @ '' exists''))
       | Some t \<Rightarrow> catch_task
           (case fst (fetchFeed U net (fetch_options_for t)) of
              Inl e \<Rightarrow> fail_task (FetchFailed e)
            | Inr res \<Rightarrow> record_success repo t res)
           (record_failure repo t))"

subsection \<open>A job on a database that answers\<close>

definition sources_quiet :: "sources_outside \<Rightarrow> bool" where
  "sources_quiet w \<longleftrightarrow> (\<forall>n rs. sx_others w n rs = rs \<and> sx_failure w n = None)"

text \<open>The row after a fetch that ended with a result.\<close>

definition fetched_row :: "int \<Rightarrow> fetch_error + fetch_result \<Rightarrow> source_row \<Rightarrow> source_row" where
  "fetched_row now res r = (case res of
       Inl e \<Rightarrow> r\<lparr>so_lastFetchedAt := Some now, so_lastError := Some (fe_message e), so_updatedAt := now\<rparr>
     | Inr NotModified \<Rightarrow> r\<lparr>so_lastFetchedAt := Some now, so_lastError := None, so_updatedAt := now\<rparr>
     | Inr (Fetched _ _ etag lastModified) \<Rightarrow> r\<lparr>so_lastFetchedAt := Some now, so_lastError := None,
         so_etag := etag, so_lastModified := lastModified, so_updatedAt := now\<rparr>)"

lemma recorded_row:
  "record_outcome now \<lparr>fu_etag = None, fu_lastModified = None, fu_lastError = Some (fe_message e)\<rparr> = fetched_row now (Inl e)"
  "record_outcome now \<lparr>fu_etag = None, fu_lastModified = None, fu_lastError = None\<rparr> = fetched_row now (Inr NotModified)"
  "record_outcome now \<lparr>fu_etag = Some etag, fu_lastModified = Some lastModified, fu_lastError = None\<rparr> =
     fetched_row now (Inr (Fetched body contentType etag lastModified))"
  by (rule ext, simp add: record_outcome_def fetched_row_def)+

lemma fetch_source_quiet:
  assumes w: "sources_quiet w" and found: "select_source (\<lambda>r. so_id r = py_sourceId payload) (sd_rows db) = Some row"
    and fetch: "fetchFeed U net (fetch_options_for (target_of row)) = (res, trace)"
  shows "fetch_source U net (worker_repository w) payload db =
    ((case res of Inr _ \<Rightarrow> Inr () | Inl e \<Rightarrow> Inl (if retried e then FetchFailed e else Unrecoverable (fe_message e))),
     \<lparr>sd_rows = update_source (so_id row) (fetched_row (sx_now w (Suc (sd_calls db))) res) (sd_rows db), sd_calls = sd_calls db + 2\<rparr>)"
proof -
  have call: "sources_call w d = (Inr (sd_calls d), d\<lparr>sd_calls := sd_calls d + 1\<rparr>)" for d
    using w by (simp add: sources_quiet_def sources_call_def)
  have "store_task (sr_findFetchTarget (worker_repository w) (py_sourceId payload)) db =
      (Inr (Some (target_of row)), db\<lparr>sd_calls := sd_calls db + 1\<rparr>)"
    using found by (simp add: store_task_def catch_task_def worker_repository_def findFetchTarget_def bind_task_def call)
  then have target: "fetch_source U net (worker_repository w) payload db =
      catch_task (case res of Inl e \<Rightarrow> fail_task (FetchFailed e) | Inr x \<Rightarrow> record_success (worker_repository w) (target_of row) x)
        (record_failure (worker_repository w) (target_of row)) (db\<lparr>sd_calls := sd_calls db + 1\<rparr>)"
    using fetch by (simp add: fetch_source_def bind_task_def)
  have store: "store_task (sr_recordFetchOutcome (worker_repository w) key out) d =
      (Inr (), \<lparr>sd_rows = update_source key (record_outcome (sx_now w (sd_calls d)) out) (sd_rows d), sd_calls = sd_calls d + 1\<rparr>)" for key out d
    by (simp add: store_task_def catch_task_def worker_repository_def recordFetchOutcome_def bind_task_def call)
  have key: "ft_id (target_of row) = so_id row" by (simp add: target_of_def)
  show ?thesis
  proof (cases res)
    case (Inl e)
    have "error_message (FetchFailed e) = fe_message e" "permanent (FetchFailed e) = (\<not> retried e)"
      by (cases e; simp add: error_message_def permanent_def retried_def)+
    then show ?thesis
      unfolding target using Inl
      by (simp add: catch_task_def fail_task_def record_failure_def then_task_def bind_task_def store key recorded_row)
  next
    case (Inr x)
    then show ?thesis
      unfolding target by (cases x) (simp_all add: catch_task_def record_success_def store key recorded_row(2) recorded_row(3) [symmetric])
  qed
qed

end
