(* ===== verification/SourcesService.thy ===== *)
theory SourcesService
  imports SourcesFetch
begin

text \<open>
  The sources of the API: \<open>apps/api/src/modules/sources/repository.ts\<close>, \<open>service.ts\<close> and \<open>router.ts\<close>.
\<close>

subsection \<open>Repository\<close>

definition DEFAULT_PAGE_SIZE :: int where "DEFAULT_PAGE_SIZE = 20"
definition MAX_PAGE_SIZE :: int where "MAX_PAGE_SIZE = 100"

record list_options =
  lo_page :: "int option"
  lo_pageSize :: "int option"

record list_page =
  lp_items :: "source_row list"
  lp_total :: nat

record create_input =
  ci_name :: string
  ci_feedUrl :: string
  ci_siteUrl :: "string option"

text \<open>A field of a patch that is absent leaves the column; \<open>siteUrl\<close> can also be set to \<open>null\<close>.\<close>

record source_patch =
  pa_name :: "string option"
  pa_feedUrl :: "string option"
  pa_siteUrl :: "string option option"

record 's sources_repository =
  sp_list :: "list_options \<Rightarrow> ('s, js_error, list_page) task"
  sp_findById :: "string \<Rightarrow> ('s, js_error, source_row option) task"
  sp_findByFeedUrl :: "string \<Rightarrow> ('s, js_error, source_row option) task"
  sp_insert :: "create_input \<Rightarrow> ('s, js_error, source_row) task"
  sp_update :: "string \<Rightarrow> source_patch \<Rightarrow> ('s, js_error, source_row option) task"
  sp_deactivate :: "string \<Rightarrow> ('s, js_error, source_row option) task"

text \<open>\<open>ORDER BY created_at, id\<close>, with the order of the database on identifiers as the order of the text.\<close>

fun text_less :: "string \<Rightarrow> string \<Rightarrow> bool" where
  "text_less _ [] = False"
| "text_less [] (_ # _) = True"
| "text_less (a # s) (b # t) = ((of_char a :: nat) < of_char b \<or> a = b \<and> text_less s t)"

definition row_before :: "source_row \<Rightarrow> source_row \<Rightarrow> bool" where
  "row_before a b \<longleftrightarrow> so_createdAt a < so_createdAt b
     \<or> so_createdAt a = so_createdAt b \<and> text_less (so_id a) (so_id b)"

definition ordered_rows :: "source_row list \<Rightarrow> source_row list" where
  "ordered_rows rs = sort_by (\<lambda>a b. \<not> row_before b a) rs"

definition page_size :: "list_options \<Rightarrow> int" where
  "page_size o' = min (max (case lo_pageSize o' of Some n \<Rightarrow> n | None \<Rightarrow> DEFAULT_PAGE_SIZE) 1) MAX_PAGE_SIZE"

definition page_number :: "list_options \<Rightarrow> int" where
  "page_number o' = max (case lo_page o' of Some n \<Rightarrow> n | None \<Rightarrow> 1) 1"

definition page_of :: "int \<Rightarrow> int \<Rightarrow> 'a list \<Rightarrow> 'a list" where
  "page_of n page rs = take (nat n) (drop (nat ((page - 1) * n)) rs)"

definition db_list :: "sources_outside \<Rightarrow> list_options \<Rightarrow> (sources_db, js_error, list_page) task" where
  "db_list w o' =
     bind_task (bind_task (sources_call w) (\<lambda>_ db. (Inr (page_of (page_size o') (page_number o') (ordered_rows (sd_rows db))), db))) (\<lambda>items.
     bind_task (sources_call w) (\<lambda>_ db. (Inr \<lparr>lp_items = items, lp_total = length (sd_rows db)\<rparr>, db)))"

definition db_find :: "sources_outside \<Rightarrow> (source_row \<Rightarrow> bool) \<Rightarrow> (sources_db, js_error, source_row option) task" where
  "db_find w p = bind_task (sources_call w) (\<lambda>_ db. (Inr (select_source p (sd_rows db)), db))"

definition feed_url_violation :: js_error where
  "feed_url_violation = \<lparr>er_message = ''duplicate key value violates unique constraint'',
     er_cause = Some (Some ''23505'', Some ''sources_feed_url_unique'')\<rparr>"

definition key_violation :: js_error where
  "key_violation = \<lparr>er_message = ''duplicate key value violates unique constraint'',
     er_cause = Some (Some ''23505'', Some ''sources_pkey'')\<rparr>"

text \<open>The database refuses rows that break an index.\<close>

definition write_rows :: "source_row list \<Rightarrow> 'a \<Rightarrow> (sources_db, js_error, 'a) task" where
  "write_rows rs x db =
     (if \<not> distinct (map so_id rs) then (Inl key_violation, db)
      else if \<not> distinct (map so_feedUrl rs) then (Inl feed_url_violation, db)
      else (Inr x, db\<lparr>sd_rows := rs\<rparr>))"

definition new_source :: "int \<Rightarrow> string \<Rightarrow> create_input \<Rightarrow> source_row" where
  "new_source now key i = \<lparr>so_id = key, so_name = ci_name i, so_feedUrl = ci_feedUrl i, so_siteUrl = ci_siteUrl i,
     so_isActive = True, so_etag = None, so_lastModified = None, so_lastFetchedAt = None, so_lastError = None,
     so_createdAt = now, so_updatedAt = now\<rparr>"

definition db_insert :: "sources_outside \<Rightarrow> create_input \<Rightarrow> (sources_db, js_error, source_row) task" where
  "db_insert w i = bind_task (sources_call w) (\<lambda>n db.
     let row = new_source (sx_now w n) (sx_uuid w n) i in write_rows (sd_rows db @ [row]) row db)"

definition patched :: "int \<Rightarrow> source_patch \<Rightarrow> source_row \<Rightarrow> source_row" where
  "patched now p r = r\<lparr>so_name := (case pa_name p of Some n \<Rightarrow> n | None \<Rightarrow> so_name r),
     so_feedUrl := (case pa_feedUrl p of Some u \<Rightarrow> u | None \<Rightarrow> so_feedUrl r),
     so_siteUrl := (case pa_siteUrl p of Some u \<Rightarrow> u | None \<Rightarrow> so_siteUrl r), so_updatedAt := now\<rparr>"

definition db_change :: "sources_outside \<Rightarrow> string \<Rightarrow> (int \<Rightarrow> source_row \<Rightarrow> source_row) \<Rightarrow> (sources_db, js_error, source_row option) task" where
  "db_change w key f = bind_task (sources_call w) (\<lambda>n db.
     let rs = update_source key (f (sx_now w n)) (sd_rows db) in write_rows rs (select_source (\<lambda>r. so_id r = key) rs) db)"

definition createSourcesRepository :: "sources_outside \<Rightarrow> sources_db sources_repository" where
  "createSourcesRepository w = \<lparr>sp_list = db_list w, sp_findById = (\<lambda>key. db_find w (\<lambda>r. so_id r = key)),
     sp_findByFeedUrl = (\<lambda>u. db_find w (\<lambda>r. so_feedUrl r = u)), sp_insert = db_insert w,
     sp_update = (\<lambda>key p. db_change w key (\<lambda>now. patched now p)),
     sp_deactivate = (\<lambda>key. db_change w key (\<lambda>now r. r\<lparr>so_isActive := False, so_updatedAt := now\<rparr>))\<rparr>"

subsection \<open>Service\<close>

datatype service_error = FeedUrlConflict string | InvalidFeedUrl string | SourceNotFound string | Database js_error

definition isFeedUrlConflict :: "js_error \<Rightarrow> bool" where
  "isFeedUrlConflict = constraint_conflict ''sources_feed_url_unique''"

definition db_task :: "('s, js_error, 'a) task \<Rightarrow> ('s, service_error, 'a) task" where
  "db_task m = catch_task m (\<lambda>e. fail_task (Database e))"

text \<open>The URL schema of the library is the argument \<open>valid\<close>.\<close>

definition assertValidFeedUrl :: "(string \<Rightarrow> bool) \<Rightarrow> string \<Rightarrow> ('s, service_error, unit) task" where
  "assertValidFeedUrl valid u = (if \<not> valid u then fail_task (InvalidFeedUrl u) else return_task ())"

definition service_create :: "(string \<Rightarrow> bool) \<Rightarrow> 's sources_repository \<Rightarrow> create_input \<Rightarrow> ('s, service_error, source_row) task" where
  "service_create valid repo i =
     then_task (assertValidFeedUrl valid (ci_feedUrl i))
     (bind_task (db_task (sp_findByFeedUrl repo (ci_feedUrl i))) (\<lambda>existing.
       if existing \<noteq> None then fail_task (FeedUrlConflict (ci_feedUrl i))
       else catch_task (sp_insert repo i)
         (\<lambda>e. if isFeedUrlConflict e then fail_task (FeedUrlConflict (ci_feedUrl i)) else fail_task (Database e))))"

definition check_new_url :: "(string \<Rightarrow> bool) \<Rightarrow> 's sources_repository \<Rightarrow> string \<Rightarrow> source_patch \<Rightarrow> ('s, service_error, unit) task" where
  "check_new_url valid repo key p = (case pa_feedUrl p of
       None \<Rightarrow> return_task ()
     | Some u \<Rightarrow> then_task (assertValidFeedUrl valid u)
         (bind_task (db_task (sp_findByFeedUrl repo u)) (\<lambda>existing. case existing of
             Some r \<Rightarrow> if so_id r \<noteq> key then fail_task (FeedUrlConflict u) else return_task ()
           | None \<Rightarrow> return_task ())))"

definition update_caught :: "'s sources_repository \<Rightarrow> string \<Rightarrow> source_patch \<Rightarrow> ('s, service_error, source_row option) task" where
  "update_caught repo key p = catch_task (sp_update repo key p)
     (\<lambda>e. case pa_feedUrl p of
         Some u \<Rightarrow> if isFeedUrlConflict e then fail_task (FeedUrlConflict u) else fail_task (Database e)
       | None \<Rightarrow> fail_task (Database e))"

definition present :: "string \<Rightarrow> source_row option \<Rightarrow> ('s, service_error, source_row) task" where
  "present key r = (case r of None \<Rightarrow> fail_task (SourceNotFound key) | Some x \<Rightarrow> return_task x)"

definition service_update :: "(string \<Rightarrow> bool) \<Rightarrow> 's sources_repository \<Rightarrow> string \<Rightarrow> source_patch \<Rightarrow> ('s, service_error, source_row) task" where
  "service_update valid repo key p =
     then_task (check_new_url valid repo key p) (bind_task (update_caught repo key p) (present key))"

definition service_deactivate :: "'s sources_repository \<Rightarrow> string \<Rightarrow> ('s, service_error, source_row) task" where
  "service_deactivate repo key = bind_task (db_task (sp_deactivate repo key)) (present key)"

definition service_list :: "'s sources_repository \<Rightarrow> list_options \<Rightarrow> ('s, service_error, list_page) task" where
  "service_list repo o' = db_task (sp_list repo o')"

definition service_get :: "'s sources_repository \<Rightarrow> string \<Rightarrow> ('s, service_error, source_row option) task" where
  "service_get repo key = db_task (sp_findById repo key)"

subsection \<open>Router\<close>

text \<open>The errors a procedure declares; what it does not declare passes through.\<close>

record declared_errors =
  dc_conflict :: bool
  dc_notFound :: bool

datatype rpc_error = RpcConflict string string | RpcNotFound string string | RpcUnhandled service_error

definition withDomainErrors :: "declared_errors \<Rightarrow> ('s, service_error, 'a) task \<Rightarrow> ('s, rpc_error, 'a) task" where
  "withDomainErrors d m = catch_task m (\<lambda>e. case e of
       FeedUrlConflict u \<Rightarrow> fail_task (if dc_conflict d
         then RpcConflict (''a source with feed url '' @ in_quotes u @ '' already exists'') u else RpcUnhandled e)
     | SourceNotFound key \<Rightarrow> fail_task (if dc_notFound d
         then RpcNotFound (''no source with id '' @ in_quotes key @ '' exists'') key else RpcUnhandled e)
     | _ \<Rightarrow> fail_task (RpcUnhandled e))"

definition route_create :: "(string \<Rightarrow> bool) \<Rightarrow> 's sources_repository \<Rightarrow> create_input \<Rightarrow> ('s, rpc_error, source_row) task" where
  "route_create valid repo i = withDomainErrors \<lparr>dc_conflict = True, dc_notFound = False\<rparr> (service_create valid repo i)"

definition route_update :: "(string \<Rightarrow> bool) \<Rightarrow> 's sources_repository \<Rightarrow> string \<Rightarrow> source_patch \<Rightarrow> ('s, rpc_error, source_row) task" where
  "route_update valid repo key p = withDomainErrors \<lparr>dc_conflict = True, dc_notFound = True\<rparr> (service_update valid repo key p)"

definition route_deactivate :: "'s sources_repository \<Rightarrow> string \<Rightarrow> ('s, rpc_error, source_row) task" where
  "route_deactivate repo key = withDomainErrors \<lparr>dc_conflict = False, dc_notFound = True\<rparr> (service_deactivate repo key)"

subsection \<open>What the service makes of a store\<close>

text \<open>Every way in which an operation can end, and what each end says about the rows.\<close>

definition create_end :: "(string \<Rightarrow> bool) \<Rightarrow> (js_error \<Rightarrow> bool) \<Rightarrow> create_input \<Rightarrow> source_row list \<Rightarrow> service_error + source_row \<Rightarrow> bool" where
  "create_end valid fault i rs r \<longleftrightarrow> (case r of
       Inr x \<Rightarrow> valid (ci_feedUrl i) \<and> x \<in> set rs \<and> so_name x = ci_name i \<and> so_feedUrl x = ci_feedUrl i
         \<and> so_siteUrl x = ci_siteUrl i \<and> so_isActive x
     | Inl (InvalidFeedUrl u) \<Rightarrow> u = ci_feedUrl i \<and> \<not> valid u
     | Inl (FeedUrlConflict u) \<Rightarrow> u = ci_feedUrl i \<and> list_ex (\<lambda>x. so_feedUrl x = u) rs
     | Inl (SourceNotFound _) \<Rightarrow> False
     | Inl (Database e) \<Rightarrow> fault e)"

definition update_end :: "(string \<Rightarrow> bool) \<Rightarrow> (js_error \<Rightarrow> bool) \<Rightarrow> string \<Rightarrow> source_patch \<Rightarrow> source_row list \<Rightarrow> service_error + source_row \<Rightarrow> bool" where
  "update_end valid fault key p rs r \<longleftrightarrow> (case r of
       Inr x \<Rightarrow> x \<in> set rs \<and> so_id x = key \<and> (\<exists>now old. so_id old = key \<and> x = patched now p old)
         \<and> (case pa_feedUrl p of Some u \<Rightarrow> valid u | None \<Rightarrow> True)
     | Inl (InvalidFeedUrl u) \<Rightarrow> pa_feedUrl p = Some u \<and> \<not> valid u
     | Inl (FeedUrlConflict u) \<Rightarrow> pa_feedUrl p = Some u \<and> list_ex (\<lambda>x. so_feedUrl x = u \<and> so_id x \<noteq> key) rs
     | Inl (SourceNotFound k) \<Rightarrow> k = key \<and> list_all (\<lambda>x. so_id x \<noteq> key) rs
     | Inl (Database e) \<Rightarrow> fault e)"

definition deactivate_end :: "(js_error \<Rightarrow> bool) \<Rightarrow> string \<Rightarrow> source_row list \<Rightarrow> service_error + source_row \<Rightarrow> bool" where
  "deactivate_end fault key rs r \<longleftrightarrow> (case r of
       Inr x \<Rightarrow> x \<in> set rs \<and> so_id x = key \<and> \<not> so_isActive x
     | Inl (SourceNotFound k) \<Rightarrow> k = key \<and> list_all (\<lambda>x. so_id x \<noteq> key) rs
     | Inl (Database e) \<Rightarrow> fault e
     | Inl _ \<Rightarrow> False)"

text \<open>
  What the service relies on: the store keeps its invariant, a lookup answers for the rows there are when
  it returns, an operation that succeeds has done what it says, and an error is the unique index on
  \<open>feed_url\<close> or a \<open>fault\<close>, which is none of the service's business.
\<close>

locale sources_store =
  fixes repo :: "'s sources_repository" and rows :: "'s \<Rightarrow> source_row list" and invar :: "'s \<Rightarrow> bool"
    and fault :: "js_error \<Rightarrow> bool"
  assumes no_conflict: "fault e \<Longrightarrow> \<not> isFeedUrlConflict e"
    and find_law: "sp_findByFeedUrl repo u s = (r, s') \<Longrightarrow> invar s \<Longrightarrow> invar s' \<and> (case r of
        Inl e \<Rightarrow> fault e
      | Inr None \<Rightarrow> list_all (\<lambda>x. so_feedUrl x \<noteq> u) (rows s')
      | Inr (Some x) \<Rightarrow> x \<in> set (rows s') \<and> so_feedUrl x = u)"
    and insert_law: "sp_insert repo i s = (q, s') \<Longrightarrow> invar s \<Longrightarrow> invar s' \<and> (case q of
        Inl e \<Rightarrow> fault e \<or> isFeedUrlConflict e \<and> list_ex (\<lambda>y. so_feedUrl y = ci_feedUrl i) (rows s')
      | Inr x \<Rightarrow> x \<in> set (rows s') \<and> so_name x = ci_name i \<and> so_feedUrl x = ci_feedUrl i \<and> so_siteUrl x = ci_siteUrl i
          \<and> so_isActive x)"
    and update_law: "sp_update repo key p s = (r, s') \<Longrightarrow> invar s \<Longrightarrow> invar s' \<and> (case r of
        Inl e \<Rightarrow> fault e \<or> isFeedUrlConflict e
          \<and> (\<exists>u. pa_feedUrl p = Some u \<and> list_ex (\<lambda>x. so_feedUrl x = u \<and> so_id x \<noteq> key) (rows s'))
      | Inr None \<Rightarrow> list_all (\<lambda>x. so_id x \<noteq> key) (rows s')
      | Inr (Some x) \<Rightarrow> x \<in> set (rows s') \<and> so_id x = key \<and> (\<exists>now old. so_id old = key \<and> x = patched now p old))"
    and deactivate_law: "sp_deactivate repo key s = (r, s') \<Longrightarrow> invar s \<Longrightarrow> invar s' \<and> (case r of
        Inl e \<Rightarrow> fault e
      | Inr None \<Rightarrow> list_all (\<lambda>x. so_id x \<noteq> key) (rows s')
      | Inr (Some x) \<Rightarrow> x \<in> set (rows s') \<and> so_id x = key \<and> \<not> so_isActive x)"
begin

lemma create_ends:
  assumes "service_create valid repo i s = (r, s')" and "invar s"
  shows "invar s' \<and> create_end valid fault i (rows s') r"
  using assms unfolding service_create_def then_task_def assertValidFeedUrl_def db_task_def
  by (auto elim!: task_cases caught_cases simp: create_end_def list_ex_iff no_conflict split: if_splits option.splits
      dest!: find_law insert_law) blast

lemma check_ends:
  assumes "check_new_url valid repo key p s = (r, s')" and "invar s"
  shows "invar s' \<and> (case r of Inl e \<Rightarrow> update_end valid fault key p (rows s') (Inl e)
    | Inr _ \<Rightarrow> (case pa_feedUrl p of Some u \<Rightarrow> valid u | None \<Rightarrow> True))"
  using assms unfolding check_new_url_def then_task_def assertValidFeedUrl_def db_task_def
  by (auto elim!: task_cases caught_cases simp: update_end_def list_ex_iff split: if_splits option.splits
      dest!: find_law)

lemma change_ends:
  assumes "bind_task (update_caught repo key p) (present key) s = (r, s')"
    and "case pa_feedUrl p of Some u \<Rightarrow> valid u | None \<Rightarrow> True" and "invar s"
  shows "invar s' \<and> update_end valid fault key p (rows s') r"
  using assms unfolding update_caught_def present_def
  by (auto elim!: task_cases caught_cases simp: update_end_def list_ex_iff no_conflict split: if_splits option.splits
      dest!: update_law)

lemma update_ends:
  assumes "service_update valid repo key p s = (r, s')" and "invar s"
  shows "invar s' \<and> update_end valid fault key p (rows s') r"
  using assms(1) unfolding service_update_def then_task_def
proof (rule task_cases)
  fix e assume "check_new_url valid repo key p s = (Inl e, s')" "r = Inl e"
  then show ?thesis using check_ends [OF _ assms(2)] by fastforce
next
  fix x v assume "check_new_url valid repo key p s = (Inr x, v)" "bind_task (update_caught repo key p) (present key) v = (r, s')"
  then show ?thesis using check_ends [OF _ assms(2)] change_ends by fastforce
qed

lemma deactivate_ends:
  assumes "service_deactivate repo key s = (r, s')" and "invar s"
  shows "invar s' \<and> deactivate_end fault key (rows s') r"
  using assms unfolding service_deactivate_def db_task_def present_def
  by (auto elim!: task_cases caught_cases simp: deactivate_end_def split: option.splits dest!: deactivate_law)

end

subsection \<open>The table keeps the contract\<close>

definition table_fault :: "sources_outside \<Rightarrow> js_error \<Rightarrow> bool" where
  "table_fault w e \<longleftrightarrow> (\<exists>n msg. sx_failure w n = Some msg \<and> e = outage msg) \<or> e = key_violation"

lemma sources_call_law:
  "sources_call w db = (r, db') \<Longrightarrow> index_holds (sd_rows db) \<Longrightarrow> index_holds (sd_rows db') \<and> (case r of Inl e \<Rightarrow> table_fault w e | Inr _ \<Rightarrow> True)"
  unfolding table_fault_def by (auto simp: sources_call_def Let_def split: option.splits if_splits; blast)

lemma select_source_law:
  "case select_source p rs of None \<Rightarrow> list_all (\<lambda>x. \<not> p x) rs | Some x \<Rightarrow> x \<in> set rs \<and> p x"
  by (auto simp: select_source_def list_all_iff find_None_iff find_Some_iff split: option.split)

lemma write_rows_law:
  "write_rows rs x db = (r, db') \<Longrightarrow> index_holds (sd_rows db) \<Longrightarrow> index_holds (sd_rows db') \<and> (case r of
      Inl e \<Rightarrow> db' = db \<and> (e = key_violation \<and> \<not> distinct (map so_id rs) \<or> e = feed_url_violation \<and> \<not> distinct (map so_feedUrl rs))
    | Inr y \<Rightarrow> y = x \<and> sd_rows db' = rs)"
  by (auto simp: write_rows_def index_holds_def split: if_splits)

lemma update_ids: "(\<And>r. so_id (f r) = so_id r) \<Longrightarrow> map so_id (update_source key f rs) = map so_id rs"
  by (simp add: update_source_def)

lemma update_conflict:
  assumes "index_holds rs" and "\<not> distinct (map so_feedUrl (update_source key (patched now p) rs))"
  obtains u x where "pa_feedUrl p = Some u" "x \<in> set rs" "so_feedUrl x = u" "so_id x \<noteq> key"
proof (cases "pa_feedUrl p")
  case None
  then have "map so_feedUrl (update_source key (patched now p) rs) = map so_feedUrl rs"
    by (simp add: update_source_def patched_def)
  then show ?thesis using assms by (simp add: index_holds_def)
next
  case (Some u)
  have "\<exists>x \<in> set rs. so_feedUrl x = u \<and> so_id x \<noteq> key"
  proof (rule ccontr)
    assume free: "\<not> ?thesis"
    let ?f = "\<lambda>r. if so_id r = key then u else so_feedUrl r"
    have "map so_feedUrl (update_source key (patched now p) rs) = map ?f rs"
      using Some by (simp add: update_source_def patched_def)
    moreover have "inj_on ?f (set rs)"
      using assms(1) free unfolding index_holds_def distinct_map inj_on_def by metis
    ultimately show False using assms by (simp add: index_holds_def distinct_map)
  qed
  then show ?thesis using that Some by blast
qed

lemma db_change_law:
  assumes "db_change w key f s = (r, s')" and "index_holds (sd_rows s)" and ids: "\<And>now r. so_id (f now r) = so_id r"
  shows "index_holds (sd_rows s') \<and> (case r of
      Inl e \<Rightarrow> table_fault w e \<or> e = feed_url_violation \<and> (\<exists>now. \<not> distinct (map so_feedUrl (update_source key (f now) (sd_rows s'))))
    | Inr None \<Rightarrow> list_all (\<lambda>x. so_id x \<noteq> key) (sd_rows s')
    | Inr (Some x) \<Rightarrow> x \<in> set (sd_rows s') \<and> so_id x = key \<and> (\<exists>now old. so_id old = key \<and> x = f now old))"
  using assms(1) unfolding db_change_def
proof (rule task_cases)
  fix e assume "sources_call w s = (Inl e, s')" "r = Inl e"
  then show ?thesis using sources_call_law assms(2) by fastforce
next
  fix n v
  assume "sources_call w s = (Inr n, v)"
  then have v: "index_holds (sd_rows v)" using sources_call_law assms(2) by fastforce
  let ?rs = "update_source key (f (sx_now w n)) (sd_rows v)"
  assume "(let rs = update_source key (f (sx_now w n)) (sd_rows v) in write_rows rs (select_source (\<lambda>r. so_id r = key) rs) v) = (r, s')"
  then have run: "write_rows ?rs (select_source (\<lambda>r. so_id r = key) ?rs) v = (r, s')" by (simp add: Let_def)
  note law = write_rows_law [OF run v]
  show ?thesis
  proof (cases r)
    case (Inl e)
    have "map so_id ?rs = map so_id (sd_rows v)" by (rule update_ids) (rule ids)
    then have "distinct (map so_id ?rs)" using v by (simp add: index_holds_def)
    then show ?thesis using law Inl by auto
  next
    case (Inr y)
    then have y: "y = select_source (\<lambda>r. so_id r = key) ?rs" "sd_rows s' = ?rs" using law by auto
    show ?thesis
    proof (cases y)
      case None
      then show ?thesis using law Inr y select_source_law [of "\<lambda>r. so_id r = key" ?rs] by auto
    next
      case (Some x)
      then have x: "x \<in> set ?rs" "so_id x = key" using y(1) select_source_law [of "\<lambda>r. so_id r = key" ?rs] by auto
      then obtain old where "x = (if so_id old = key then f (sx_now w n) old else old)"
        unfolding update_source_def set_map by blast
      then have "so_id old = key \<and> x = f (sx_now w n) old" using x(2) ids by (cases "so_id old = key") auto
      moreover have "r = Inr (Some x)" using Inr Some by simp
      moreover have "index_holds (sd_rows s')" using law by simp
      ultimately show ?thesis using x y(2) unfolding sum.case option.case by auto
    qed
  qed
qed

interpretation api_table: sources_store "createSourcesRepository w" sd_rows "\<lambda>db. index_holds (sd_rows db)" "table_fault w" for w
proof
  show "\<not> isFeedUrlConflict e" if "table_fault w e" for e
    using that by (auto simp: table_fault_def outage_def key_violation_def isFeedUrlConflict_def constraint_conflict_def)
  show "index_holds (sd_rows s') \<and> (case r of Inl e \<Rightarrow> table_fault w e | Inr None \<Rightarrow> list_all (\<lambda>x. so_feedUrl x \<noteq> u) (sd_rows s')
      | Inr (Some x) \<Rightarrow> x \<in> set (sd_rows s') \<and> so_feedUrl x = u)"
    if "sp_findByFeedUrl (createSourcesRepository w) u s = (r, s')" "index_holds (sd_rows s)" for u s r s'
    using that select_source_law [of "\<lambda>r. so_feedUrl r = u"]
    by (fastforce simp: createSourcesRepository_def db_find_def elim!: task_cases dest!: sources_call_law split: option.splits)
  show "index_holds (sd_rows s') \<and> (case q of
        Inl e \<Rightarrow> table_fault w e \<or> isFeedUrlConflict e \<and> list_ex (\<lambda>y. so_feedUrl y = ci_feedUrl i) (sd_rows s')
      | Inr x \<Rightarrow> x \<in> set (sd_rows s') \<and> so_name x = ci_name i \<and> so_feedUrl x = ci_feedUrl i \<and> so_siteUrl x = ci_siteUrl i
          \<and> so_isActive x)"
    if "sp_insert (createSourcesRepository w) i s = (q, s')" "index_holds (sd_rows s)" for i s q s'
    using that
    by (auto simp: createSourcesRepository_def db_insert_def Let_def new_source_def table_fault_def isFeedUrlConflict_def
        constraint_conflict_def feed_url_violation_def list_ex_iff index_holds_def
        elim!: task_cases dest!: sources_call_law write_rows_law split: sum.splits) blast
  show "index_holds (sd_rows s') \<and> (case r of
        Inl e \<Rightarrow> table_fault w e \<or> isFeedUrlConflict e
          \<and> (\<exists>u. pa_feedUrl p = Some u \<and> list_ex (\<lambda>x. so_feedUrl x = u \<and> so_id x \<noteq> key) (sd_rows s'))
      | Inr None \<Rightarrow> list_all (\<lambda>x. so_id x \<noteq> key) (sd_rows s')
      | Inr (Some x) \<Rightarrow> x \<in> set (sd_rows s') \<and> so_id x = key \<and> (\<exists>now old. so_id old = key \<and> x = patched now p old))"
    if run: "sp_update (createSourcesRepository w) key p s = (r, s')" and inv: "index_holds (sd_rows s)" for key p s r s'
  proof -
    have "db_change w key (\<lambda>now. patched now p) s = (r, s')" using run by (simp add: createSourcesRepository_def)
    moreover have "so_id (patched now p r) = so_id r" for now r by (simp add: patched_def)
    ultimately have law: "index_holds (sd_rows s') \<and> (case r of
        Inl e \<Rightarrow> table_fault w e \<or> e = feed_url_violation
          \<and> (\<exists>now. \<not> distinct (map so_feedUrl (update_source key (patched now p) (sd_rows s'))))
      | Inr None \<Rightarrow> list_all (\<lambda>x. so_id x \<noteq> key) (sd_rows s')
      | Inr (Some x) \<Rightarrow> x \<in> set (sd_rows s') \<and> so_id x = key \<and> (\<exists>now old. so_id old = key \<and> x = patched now p old))"
      using db_change_law [OF _ inv] by blast
    show ?thesis
    proof (cases r)
      case (Inl e)
      show ?thesis
      proof (cases "table_fault w e")
        case True
        then show ?thesis using law Inl by simp
      next
        case False
        then obtain now where now: "e = feed_url_violation" "\<not> distinct (map so_feedUrl (update_source key (patched now p) (sd_rows s')))"
          using law Inl by auto
        have "index_holds (sd_rows s')" using law by simp
        from update_conflict [OF this now(2)] obtain u x where
          "pa_feedUrl p = Some u" "x \<in> set (sd_rows s')" "so_feedUrl x = u" "so_id x \<noteq> key" by blast
        moreover have "isFeedUrlConflict e" by (simp add: now(1) feed_url_violation_def isFeedUrlConflict_def constraint_conflict_def)
        ultimately show ?thesis using Inl \<open>index_holds (sd_rows s')\<close> by (auto simp: list_ex_iff)
      qed
    qed (use law in \<open>auto split: option.splits\<close>)
  qed
  show "index_holds (sd_rows s') \<and> (case r of Inl e \<Rightarrow> table_fault w e | Inr None \<Rightarrow> list_all (\<lambda>x. so_id x \<noteq> key) (sd_rows s')
      | Inr (Some x) \<Rightarrow> x \<in> set (sd_rows s') \<and> so_id x = key \<and> \<not> so_isActive x)"
    if run: "sp_deactivate (createSourcesRepository w) key s = (r, s')" and inv: "index_holds (sd_rows s)" for key s r s'
  proof -
    let ?f = "\<lambda>now r. r\<lparr>so_isActive := False, so_updatedAt := now\<rparr>"
    have "db_change w key ?f s = (r, s')" using run by (simp add: createSourcesRepository_def)
    from db_change_law [OF this inv] have law: "index_holds (sd_rows s') \<and> (case r of
        Inl e \<Rightarrow> table_fault w e \<or> e = feed_url_violation \<and> (\<exists>now. \<not> distinct (map so_feedUrl (update_source key (?f now) (sd_rows s'))))
      | Inr None \<Rightarrow> list_all (\<lambda>x. so_id x \<noteq> key) (sd_rows s')
      | Inr (Some x) \<Rightarrow> x \<in> set (sd_rows s') \<and> so_id x = key \<and> (\<exists>now old. so_id old = key \<and> x = ?f now old))" by simp
    have "map so_feedUrl (update_source key (?f now) rs) = map so_feedUrl rs" for now rs
      by (simp add: update_source_def)
    then have "distinct (map so_feedUrl (update_source key (?f now) (sd_rows s')))" for now
      using law by (simp add: index_holds_def)
    note unique = this
    show ?thesis
    proof (cases r)
      case (Inl e)
      then show ?thesis using law unique by simp
    next
      case (Inr y)
      show ?thesis
      proof (cases y)
        case None
        then show ?thesis using law Inr by simp
      next
        case (Some x)
        then obtain now old where "x = ?f now old" using law Inr by auto
        then have "\<not> so_isActive x" by simp
        then show ?thesis using law Inr Some by simp
      qed
    qed
  qed
qed

end
