(* ===== verification/WorkerProperties.thy ===== *)
theory WorkerProperties
  imports ArticleQuiet FeedText SourcesService
begin

text \<open>
  The properties of the worker and of the sources of the API: the articles of a batch, the parser,
  the fetch with its job, and the operations on sources.
\<close>

subsection \<open>A batch\<close>

definition sample_candidate :: "string \<Rightarrow> string \<Rightarrow> article_candidate" where
  "sample_candidate u h = \<lparr>ac_url = u, ac_canonicalUrl = u, ac_title = ''t'', ac_summary = None, ac_author = None,
     ac_imageUrl = None, ac_contentHash = h, ac_publishedAt = None\<rparr>"

text \<open>The third candidate joins the first two; the fourth is stored already.\<close>

definition sample_batch :: "article_candidate list" where
  "sample_batch = [sample_candidate ''u1'' ''h1'', sample_candidate ''u2'' ''h2'', sample_candidate ''u2'' ''h1'',
     sample_candidate ''u3'' ''h3'']"

definition sample_world :: db_outside where
  "sample_world = \<lparr>do_others = (\<lambda>_. []), do_failure = (\<lambda>_. None), do_uuid = (\<lambda>n. replicate n (CHR ''i'')),
     do_now = int, do_rank = (\<lambda>_ _. 0)\<rparr>"

definition sample_store :: articles_db where
  "sample_store = \<lparr>db_rows = [new_row sample_world 0 (toNewArticle (sample_candidate ''u3'' ''h9'') ''s'' 0)], db_calls = 0\<rparr>"

lemma sample_quiet: "quiet sample_world" by (simp add: quiet_def sample_world_def)

lemma sample_collapsed:
  "collapseInBatchDuplicates sample_batch = Some ([0, 3],
     [(2, \<lparr>ib_reason = ByCanonicalUrl, ib_duplicateOfIndex = 0\<rparr>), (1, \<lparr>ib_reason = ByContentHash, ib_duplicateOfIndex = 0\<rparr>)])"
  by (simp add: sample_batch_def sample_candidate_def collapseInBatchDuplicates_def collapse_start_def collapse_step_def
      union_seen_def union_def find_root.simps Let_def upt_rec)

lemma sample_persisted:
  "case persist_groups (createArticlesRepository sample_world) ''s'' 7 sample_batch [0, 3]
       [(2, \<lparr>ib_reason = ByCanonicalUrl, ib_duplicateOfIndex = 0\<rparr>), (1, \<lparr>ib_reason = ByContentHash, ib_duplicateOfIndex = 0\<rparr>)] sample_store of
     (Inr res, db') \<Rightarrow> dr_insertedCount res = 1 \<and> length (db_rows db') = 2 | _ \<Rightarrow> False"
  by code_simp

lemma sample_run:
  obtains run res db' where "dedupeAndPersist (createArticlesRepository sample_world) ''s'' 7 sample_batch = Some run"
    "run sample_store = (Inr res, db')" "dr_insertedCount res = 1"
  using sample_persisted that by (auto simp: dedupeAndPersist_def sample_collapsed split: prod.splits sum.splits)

text \<open>C24. The walk over a batch returns: its union-find reaches a root for every candidate.  Call two
  candidates the same article when a chain of candidates with equal canonical addresses or equal
  content hashes links them.  Then the representatives are the candidates that are the earliest of their article,
  in order, and every other candidate is recorded as a duplicate of the earliest one.
\<close>

theorem collapse_components:
  "\<exists>reps dups. collapseInBatchDuplicates cs = Some (reps, dups)
     \<and> reps = filter (\<lambda>i. earliest cs i = i) [0..<length cs]
     \<and> (\<forall>i. map_option ib_duplicateOfIndex (map_of dups i) = (if earliest cs i = i then None else Some (earliest cs i)))"
proof -
  obtain reps dups where "collapseInBatchDuplicates cs = Some (reps, dups)" "collapsed_to cs reps dups"
    by (rule collapse_collapsed)
  then show ?thesis by (auto simp: collapsed_to_def)
qed

text \<open>C25. What a successful call reports, whatever other processes insert meanwhile: one outcome per
  candidate, in order.  An inserted article is the earliest of its article, is now a row with its fields, and
  no row from before the call matches it or a duplicate of it; an existing one names a row that
  matches, for the given reason; a duplicate names the earliest.  The counts add up, and afterwards
  every candidate is stored as itself or as one that is the same article.
\<close>

theorem batch_outcomes:
  assumes "dedupeAndPersist (createArticlesRepository w) sourceId fetchedAt cs = Some run"
    and "run db = (Inr res, db')"
  shows "batch_right sourceId fetchedAt cs (set (db_rows db)) (set (db_rows db')) res
    \<and> dr_insertedCount res + dr_existingCount res + dr_duplicateInBatchCount res = length cs
    \<and> list_all (known_article (set (db_rows db')) cs) [0..<length cs]"
proof (intro conjI)
  note right = table.dedupe_right [OF assms]
  show "batch_right sourceId fetchedAt cs (set (db_rows db)) (set (db_rows db')) res" by (rule right(1))
  show "dr_insertedCount res + dr_existingCount res + dr_duplicateInBatchCount res = length cs"
  proof -
    have "map fst (dr_outcomes res) = [0..<length cs]" using right(1) by (simp add: batch_right_def)
    then have "length (dr_outcomes res) = length cs" by (metis length_map diff_zero length_upt)
    then show ?thesis using tally_total [of "dr_outcomes res"] right(2) by metis
  qed
  show "list_all (known_article (set (db_rows db')) cs) [0..<length cs]"
    using table.dedupe_covers [OF assms] by (simp add: list_all_iff)
qed

theorem batch_outcomes_witness:
  "\<exists>res (db' :: articles_db). batch_right ''s'' 7 sample_batch (set (db_rows sample_store)) (set (db_rows db')) res \<and> dr_insertedCount res = 1"
proof (rule sample_run)
  fix run res db'
  assume run: "dedupeAndPersist (createArticlesRepository sample_world) ''s'' 7 sample_batch = Some run"
    "run sample_store = (Inr res, db')" and "dr_insertedCount res = 1"
  then show ?thesis using batch_outcomes [OF run] by blast
qed

text \<open>C26. Fetching again is harmless: the same batch given to the store later, when rows may have been
  added but none removed, inserts nothing, for whichever source and at whichever time.
\<close>

theorem batch_again:
  assumes "dedupeAndPersist (createArticlesRepository w) sourceId fetchedAt cs = Some run"
    and "run db = (Inr res, db')"
    and "dedupeAndPersist (createArticlesRepository w) sourceId' fetchedAt' cs = Some run'"
    and "run' later = (Inr res', later')"
    and "set (db_rows db') \<subseteq> set (db_rows later)"
  shows "dr_insertedCount res' = 0"
  using assms by (rule table.dedupe_again)

text \<open>C27. Against the store of keys: on a database that answers and that nobody else writes to, the call
  succeeds and the pairs of canonical address and content hash in the table are those before
  followed by the pairs of the unknown articles of the batch, the earliest candidate for each, in order.
\<close>

theorem batch_refines:
  assumes "quiet w"
  shows "\<exists>run res db'. dedupeAndPersist (createArticlesRepository w) sourceId fetchedAt cs = Some run
    \<and> run db = (Inr res, db')
    \<and> map row_keys (db_rows db') = add_batch cs (map row_keys (db_rows db))"
proof -
  obtain reps dups where "collapseInBatchDuplicates cs = Some (reps, dups)" "collapsed_to cs reps dups"
    by (rule collapse_collapsed)
  then show ?thesis
    using quiet_persist [OF assms, of cs reps dups sourceId fetchedAt db] by (simp add: dedupeAndPersist_def)
qed

theorem batch_refines_witness:
  "\<exists>run res db'. dedupeAndPersist (createArticlesRepository sample_world) ''s'' 7 sample_batch = Some run
    \<and> run sample_store = (Inr res, db')
    \<and> map row_keys (db_rows db') = add_batch sample_batch (map row_keys (db_rows sample_store))"
  using batch_refines [OF sample_quiet] by blast

theorem batch_again_witness:
  "\<exists>run db' res later'. dedupeAndPersist (createArticlesRepository sample_world) ''s'' 7 sample_batch = Some run
    \<and> run db' = (Inr res, later') \<and> dr_insertedCount res = 0"
proof (rule sample_run)
  fix run res db'
  assume run: "dedupeAndPersist (createArticlesRepository sample_world) ''s'' 7 sample_batch = Some run"
    "run sample_store = (Inr res, db')"
  obtain reps dups where c: "collapseInBatchDuplicates sample_batch = Some (reps, dups)" "collapsed_to sample_batch reps dups"
    by (rule collapse_collapsed)
  then have "run = persist_groups (createArticlesRepository sample_world) ''s'' 7 sample_batch reps dups"
    using run(1) by (simp add: dedupeAndPersist_def)
  then obtain res' later' where again: "run db' = (Inr res', later')"
    using quiet_persist [OF sample_quiet c(2)] by blast
  show ?thesis using batch_again [OF run run(1) again subset_refl] run(1) again by blast
qed

subsection \<open>The parser\<close>

text \<open>A URL implementation on parsed addresses, and a platform whose XML parser knows two documents.\<close>

record sample_url =
  su_protocol :: string
  su_hostname :: string
  su_port :: string
  su_path :: string
  su_keys :: "string list"
  su_hash :: string

definition sample_href :: "sample_url \<Rightarrow> string" where
  "sample_href u = su_protocol u @ ''//'' @ su_hostname u @ (if su_port u = [] then [] else '':'' @ su_port u) @ su_path u
     @ concat (map (\<lambda>k. ''&'' @ k) (su_keys u)) @ su_hash u"

definition sample_address :: sample_url where
  "sample_address = \<lparr>su_protocol = ''http:'', su_hostname = ''e.org'', su_port = ''80'', su_path = ''/a'',
     su_keys = [''utm_Source'', ''page'', ''FBCLID''], su_hash = ''#top''\<rparr>"

definition sample_urls :: "sample_url url_api" where
  "sample_urls = \<lparr>ua_parse = (\<lambda>t. if t = sample_href sample_address then Some sample_address else None),
     ua_base = (\<lambda>t _. if t = sample_href sample_address then Some sample_address else None),
     ua_href = sample_href, ua_protocol = su_protocol, ua_hostname = su_hostname,
     ua_setHostname = (\<lambda>x u. u\<lparr>su_hostname := x\<rparr>), ua_hash = su_hash, ua_setHash = (\<lambda>x u. u\<lparr>su_hash := x\<rparr>),
     ua_port = su_port, ua_setPort = (\<lambda>x u. u\<lparr>su_port := x\<rparr>), ua_keys = su_keys,
     ua_delete = (\<lambda>x u. u\<lparr>su_keys := filter (\<lambda>k. k \<noteq> x) (su_keys u)\<rparr>)\<rparr>"

definition sample_item :: "string \<Rightarrow> json" where
  "sample_item t = JObj [(''link'', JStr (sample_href sample_address)), (''title'', JStr t)]"

definition sample_items :: "string \<Rightarrow> json list" where
  "sample_items body = [sample_item ''a <b>bold</b>  title'', JStr ''no entry'',
     sample_item (if body = ''<good/>'' then ''&lt;&#65;'' else ''&#1114112;''), JNull]"

definition sample_platform :: "sample_url feed_platform" where
  "sample_platform = \<lparr>fp_url = sample_urls, fp_xmlValidate = (\<lambda>_. None),
     fp_xmlParse = (\<lambda>body. JObj [(''rss'', JObj [(''channel'', JObj [(''item'',
       JArr (if body = ''<good/>'' then butlast (sample_items body) else sample_items body))])])]),
     fp_syntaxMessage = (\<lambda>_. []), fp_sha256 = rev, fp_date = (\<lambda>_. None), fp_nativeText = (\<lambda>_. ''function'')\<rparr>"


text \<open>The entries of a document, in order.\<close>

definition feed_entries :: "'u feed_platform \<Rightarrow> string \<Rightarrow> json list" where
  "feed_entries P body =
     (if starts_with ''{'' (trim body)
      then (case jfield ''items'' (json_parse (trim body)) of Some (JArr xs) \<Rightarrow> xs | _ \<Rightarrow> [])
      else let doc = Some (fp_xmlParse P body)
        in if FeedParser.truthy (jfield ''rss'' doc) then toArray (jfield ''item'' (jfield ''channel'' (jfield ''rss'' doc)))
           else toArray (jfield ''entry'' (jfield ''feed'' doc)))"

lemma parseFeed_entries:
  assumes "parseFeed P body = Inr r"
  shows "\<exists>f. buildCandidates P (feed_entries P body) f = Inr r"
  using assms unfolding parseFeed_def feed_entries_def
  by (auto simp: Let_def parseJsonFeedBody_def parseXmlFeedBody_def parseRssItems_def parseAtomEntries_def
      split: if_splits option.splits) 

text \<open>C28. What a parsed feed holds, for every format: a candidate's title is not empty, has at most 500
  characters, no tag and no white space but blanks, and so for a summary of at most 2000 and an author; its
  canonical address comes from its address and its hash from the cleaned texts.  Every entry of the
  document is a candidate or is reported, once and by its index, as skipped.
\<close>

theorem parsed_feed_ok:
  assumes "parseFeed P body = Inr r"
  shows "list_all (candidate_ok P) (pf_candidates r)
    \<and> length (pf_candidates r) + length (pf_skipped r) = length (feed_entries P body)
    \<and> distinct (map sk_index (pf_skipped r)) \<and> list_all (\<lambda>s. sk_index s < length (feed_entries P body)) (pf_skipped r)"
proof -
  obtain f where "buildCandidates P (feed_entries P body) f = Inr r"
    using parseFeed_entries [OF assms] by blast
  from buildCandidates_ok [OF this] show ?thesis by (simp add: list_all_iff)
qed

lemma sample_parsed:
  "parseFeed sample_platform ''<good/>'' = Inr r \<Longrightarrow> map ac_title (pf_candidates r) = [''a bold title'', ''<A''] \<and> length (pf_skipped r) = 1"
  "\<exists>r. parseFeed sample_platform ''<good/>'' = Inr r"
proof -
  have "case parseFeed sample_platform ''<good/>'' of Inl _ \<Rightarrow> False
    | Inr r \<Rightarrow> map ac_title (pf_candidates r) = [''a bold title'', ''<A''] \<and> length (pf_skipped r) = 1"
    by code_simp
  then show "parseFeed sample_platform ''<good/>'' = Inr r \<Longrightarrow> map ac_title (pf_candidates r) = [''a bold title'', ''<A''] \<and> length (pf_skipped r) = 1"
    "\<exists>r. parseFeed sample_platform ''<good/>'' = Inr r"
    by (auto split: sum.splits)
qed

theorem parsed_feed_ok_witness:
  "\<exists>r. parseFeed sample_platform ''<good/>'' = Inr r \<and> list_all (candidate_ok sample_platform) (pf_candidates r)
    \<and> map ac_title (pf_candidates r) = [''a bold title'', ''<A''] \<and> length (pf_skipped r) = 1"
proof -
  obtain r where "parseFeed sample_platform ''<good/>'' = Inr r" using sample_parsed(2) by blast
  then show ?thesis using parsed_feed_ok sample_parsed(1) by blast
qed







subsection \<open>The fetch\<close>

definition bounded_result :: "network \<Rightarrow> fetch_options \<Rightarrow> fetch_error + fetch_result \<Rightarrow> bool" where
  "bounded_result net opt res \<longleftrightarrow> (case res of
       Inr (Fetched body _ _ _) \<Rightarrow> (\<exists>trace url r. net trace (request_for opt url) = Inr r \<and> 200 \<le> rs_status r \<and> rs_status r < 300
         \<and> (case rs_chunks r of None \<Rightarrow> body = rs_text r | Some chunks \<Rightarrow> body = concat chunks \<and> length body \<le> fo_maxBytes opt))
     | _ \<Rightarrow> True)"

lemma final_response_bounded:
  assumes "final_response opt url r = Inr (Fetched body contentType etag lastModified)"
  shows "200 \<le> rs_status r \<and> rs_status r < 300
    \<and> (case rs_chunks r of None \<Rightarrow> body = rs_text r | Some chunks \<Rightarrow> body = concat chunks \<and> length body \<le> fo_maxBytes opt)"
  using assms read_chunks_bounded [of "fo_maxBytes opt" _ 0 "[]"]
  by (auto simp: final_response_def readBoundedBody_def split: if_splits sum.splits option.splits)

text \<open>C31. A fetch requests at most one address more than the redirects it allows, each written from a
  parsed http or https address, and each request carries the headers of the options and nothing else.  A
  body it returns is that of a successful response and, when it was streamed, no longer than the limit.
\<close>

theorem fetch_bounded:
  assumes "fetchFeed U net opt = (res, trace)"
  shows "length trace \<le> fo_maxRedirects opt + 1
    \<and> list_all (\<lambda>q. http_address U (rq_url q) \<and> q = request_for opt (rq_url q)) trace \<and> bounded_result net opt res"
proof -
  have "bounded_result net opt res"
  proof (cases "\<exists>body contentType etag lastModified. res = Inr (Fetched body contentType etag lastModified)")
    case True
    then obtain body contentType etag lastModified where res: "res = Inr (Fetched body contentType etag lastModified)" by blast
    then have "fetch_end U net opt res" using fetchFeed_end [OF assms] by auto
    then obtain trace url r where r: "net trace (request_for opt url) = Inr r"
      "final_response opt url r = Inr (Fetched body contentType etag lastModified)"
      unfolding fetch_end_def res by auto
    show ?thesis unfolding res bounded_result_def using r(1) final_response_bounded [OF r(2)] by auto
  qed (auto simp: bounded_result_def split: sum.split fetch_result.split)
  then show ?thesis
    using assms fetch_from_requests [of U net opt 0 _ "[]"] assertHttpUrl_address [of U]
    by (fastforce simp: fetchFeed_def split: sum.splits)
qed

definition sample_network :: network where
  "sample_network trace req = (if trace = [] then Inr \<lparr>rs_status = 302, rs_header = [''location'' \<mapsto> sample_href sample_address],
       rs_chunks = None, rs_broken = None, rs_text = []\<rparr>
     else Inr \<lparr>rs_status = (if length trace = 1 then 200 else 503), rs_header = [''etag'' \<mapsto> ''e1''],
       rs_chunks = Some [''<r'', ''ss/>''], rs_broken = None, rs_text = []\<rparr>)"

definition sample_options :: fetch_options where
  "sample_options = \<lparr>fo_url = sample_href sample_address, fo_etag = Some ''e0'', fo_lastModified = None, fo_timeoutMs = 5,
     fo_maxBytes = 6, fo_maxRedirects = 1, fo_userAgent = ''agent''\<rparr>"

lemma sample_fetch:
  "fetchFeed sample_urls sample_network sample_options = (Inr (Fetched ''<rss/>'' None (Some ''e1'') None),
     [request_for sample_options (sample_href sample_address), request_for sample_options (sample_href sample_address)])"
  by (simp add: fetchFeed_def assertHttpUrl_def sample_options_def sample_urls_def sample_href_def sample_address_def fetch_from.simps sample_network_def
      next_url_def final_response_def readBoundedBody_def declared_length_def Let_def)

theorem fetch_bounded_witness:
  "length (snd (fetchFeed sample_urls sample_network sample_options)) \<le> 2
    \<and> bounded_result sample_network sample_options (Inr (Fetched ''<rss/>'' None (Some ''e1'') None))"
  using fetch_bounded [OF sample_fetch] unfolding sample_fetch by simp

text \<open>C32. The job that fetches a source, on a database that answers: it records the time and the outcome in the
  row of the source and in no other, the validators only when there is a new body and the message
  only when the fetch failed; it succeeds when the fetch does, and when not it is retried for a timeout, a
  network error, a status of 500 or more and an error of the platform, and given up for everything else.
\<close>

theorem fetch_job_exact:
  assumes "sources_quiet w" and "select_source (\<lambda>r. so_id r = py_sourceId payload) (sd_rows db) = Some row"
    and "fetchFeed U net (fetch_options_for (target_of row)) = (res, trace)"
  shows "fetch_source U net (worker_repository w) payload db =
    ((case res of Inr _ \<Rightarrow> Inr () | Inl e \<Rightarrow> Inl (if transient e then FetchFailed e else Unrecoverable (fe_message e))),
     \<lparr>sd_rows = update_source (so_id row) (fetched_row (sx_now w (Suc (sd_calls db))) res) (sd_rows db), sd_calls = sd_calls db + 2\<rparr>)"
proof -
  have "retried e \<longleftrightarrow> transient e" if "res = Inl e" for e
    using fetchFeed_end [OF assms(3)] fetch_end_retried that by (fastforce simp: retried_def transient_def)
  then show ?thesis unfolding fetch_source_quiet [OF assms] by (simp split: sum.split)
qed

definition sample_row :: "string \<Rightarrow> string \<Rightarrow> source_row" where
  "sample_row key u = \<lparr>so_id = key, so_name = ''n'', so_feedUrl = u, so_siteUrl = None, so_isActive = True, so_etag = None,
     so_lastModified = None, so_lastFetchedAt = None, so_lastError = None, so_createdAt = 0, so_updatedAt = 0\<rparr>"

definition sample_sources :: sources_db where
  "sample_sources = \<lparr>sd_rows = [sample_row ''a'' ''http://a'', sample_row ''b'' (sample_href sample_address)], sd_calls = 0\<rparr>"

definition sample_outside :: sources_outside where
  "sample_outside = \<lparr>sx_others = (\<lambda>_ rs. rs), sx_failure = (\<lambda>_. None), sx_now = (\<lambda>n. 100 + int n), sx_uuid = (\<lambda>n. replicate n (CHR ''u''))\<rparr>"

definition failing_network :: network where
  "failing_network trace req = Inl \<lparr>ff_timedOut = True, ff_message = []\<rparr>"

theorem fetch_job_exact_witness:
  "fst (fetch_source sample_urls failing_network (worker_repository sample_outside) \<lparr>py_sourceId = ''b'', py_requestId = None\<rparr> sample_sources)
    = Inl (FetchFailed (fetch_failed (fetch_options_for (target_of (sample_row ''b'' (sample_href sample_address))))
        (sample_href sample_address) \<lparr>ff_timedOut = True, ff_message = []\<rparr>))"
proof -
  let ?row = "sample_row ''b'' (sample_href sample_address)" and ?f = "\<lparr>ff_timedOut = True, ff_message = []\<rparr>"
  have quiet: "sources_quiet sample_outside" by (simp add: sources_quiet_def sample_outside_def)
  have found: "select_source (\<lambda>r. so_id r = py_sourceId \<lparr>py_sourceId = ''b'', py_requestId = None\<rparr>) (sd_rows sample_sources) = Some ?row"
    by (simp add: select_source_def sample_sources_def sample_row_def)
  have "fetchFeed sample_urls failing_network (fetch_options_for (target_of ?row)) =
      (Inl (fetch_failed (fetch_options_for (target_of ?row)) (sample_href sample_address) ?f),
       [request_for (fetch_options_for (target_of ?row)) (sample_href sample_address)])"
    by (simp add: fetchFeed_def assertHttpUrl_def sample_urls_def fetch_options_for_def target_of_def sample_row_def
        sample_address_def fetch_from.simps failing_network_def Let_def)
  from fetch_job_exact [OF quiet found this] show ?thesis by (simp add: fetch_failed_def transient_def)
qed

subsection \<open>The sources of the API\<close>

text \<open>C33. Every way in which the creation of a source ends, whatever other processes do to the table and
  whether or not the database fails: the table keeps its unique indexes, a source that is returned is
  stored, active and as asked for, an address is refused only when it is not valid or some source
  has it at the end, and any other error is an outage of the database or a clash of identifiers.
\<close>

theorem create_source_ends:
  assumes "service_create valid (createSourcesRepository w) i db = (r, db')" and "index_holds (sd_rows db)"
  shows "index_holds (sd_rows db') \<and> create_end valid (table_fault w) i (sd_rows db') r"
  using assms by (rule api_table.create_ends)

lemma sample_holds: "index_holds (sd_rows sample_sources)"
  by (simp add: index_holds_def sample_sources_def sample_row_def sample_href_def sample_address_def)

lemma sample_created:
  "fst (service_create (\<lambda>_. True) (createSourcesRepository sample_outside) \<lparr>ci_name = ''c'', ci_feedUrl = ''http://a'', ci_siteUrl = None\<rparr> sample_sources)
    = Inl (FeedUrlConflict ''http://a'')"
  by code_simp

theorem create_source_ends_witness:
  "create_end (\<lambda>_. True) (table_fault sample_outside) \<lparr>ci_name = ''c'', ci_feedUrl = ''http://a'', ci_siteUrl = None\<rparr>
     (sd_rows (snd (service_create (\<lambda>_. True) (createSourcesRepository sample_outside)
       \<lparr>ci_name = ''c'', ci_feedUrl = ''http://a'', ci_siteUrl = None\<rparr> sample_sources)))
     (Inl (FeedUrlConflict ''http://a''))"
  using create_source_ends [OF prod.collapse [symmetric] sample_holds] sample_created by metis




end
