(* ===== verification/Requests.thy ===== *)
theory Requests
  imports Json RxReplace
begin

text \<open>
  What a process makes of its environment and of the headers of a request: \<open>packages/config/src\<close>,
  the integer settings of the \<open>env.ts\<close> files, \<open>packages/logger/src/request-id.ts\<close>,
  \<open>packages/auth/src\<close> and \<open>apps/api/src/rpc/identity.ts\<close>.
\<close>

subsection \<open>Numbers\<close>

text \<open>
  \<open>Number\<close> of a text, when it is an integer: blanks around it, a sign, a fraction and an exponent, or
  a base with its prefix.  The rounding of a numeral that is not a double is not modelled.
\<close>

definition scaled :: "nat \<Rightarrow> int \<Rightarrow> int option" where
  "scaled m e =
     (if e \<ge> 0 then (if m \<noteq> 0 \<and> e > 400 then None else Some (int m * 10 ^ nat e))
      else if m = 0 then Some 0
      else if nat (- e) \<le> length (dec m) \<and> m mod 10 ^ nat (- e) = 0 then Some (int (m div 10 ^ nat (- e))) else None)"

definition exponent :: "string \<Rightarrow> int option" where
  "exponent t = (case t of
       [] \<Rightarrow> Some 0
     | c # r \<Rightarrow>
         if c \<noteq> CHR ''e'' \<and> c \<noteq> CHR ''E'' then None
         else let neg = starts_with ''-'' r; d = (if neg \<or> starts_with ''+'' r then tl r else r)
           in if d \<noteq> [] \<and> list_all is_digit d then Some (if neg then - int (undec d) else int (undec d)) else None)"

definition decimal :: "string \<Rightarrow> int option" where
  "decimal t =
     (let (a, r) = digits t; (b, r) = (if starts_with ''.'' r then digits (tl r) else ([], r))
      in if a = [] \<and> b = [] then None
         else Option.bind (exponent r) (\<lambda>e. scaled (undec (a @ b)) (e - int (length b))))"

definition based :: "nat \<Rightarrow> string \<Rightarrow> int option" where
  "based base t =
     (if t \<noteq> [] \<and> list_all (\<lambda>c. case hex_val c of Some v \<Rightarrow> v < base | None \<Rightarrow> False) t
      then Some (foldl (\<lambda>n c. int base * n + (case hex_val c of Some v \<Rightarrow> int v | None \<Rightarrow> 0)) 0 t)
      else None)"

definition integer_value :: "string \<Rightarrow> int option" where
  "integer_value s =
     (let t = trim s
      in Option.bind
        (if t = [] then Some 0
         else if starts_with ''0x'' (to_lower t) then based 16 (drop 2 t)
         else if starts_with ''0o'' (to_lower t) then based 8 (drop 2 t)
         else if starts_with ''0b'' (to_lower t) then based 2 (drop 2 t)
         else if starts_with ''-'' t then map_option uminus (decimal (tl t))
         else decimal (if starts_with ''+'' t then tl t else t))
        (\<lambda>n. if \<bar>n\<bar> \<ge> 2 ^ 1024 - 2 ^ 970 then None else Some n))"

subsection \<open>Settings\<close>

record integer_setting =
  is_name :: string
  is_default :: int
  is_min :: int
  is_max :: int

definition integerFromEnv :: "integer_setting \<Rightarrow> string option \<Rightarrow> string + int" where
  "integerFromEnv o' raw = (case raw of
       None \<Rightarrow> Inr (is_default o')
     | Some v \<Rightarrow>
         if trim v = [] then Inr (is_default o')
         else (case integer_value v of
             None \<Rightarrow> Inl ''must be an integer''
           | Some n \<Rightarrow>
               if n < is_min o' \<or> n > is_max o'
               then Inl (''must be between '' @ json_int (is_min o') @ '' and '' @ json_int (is_max o'))
               else Inr n))"

definition stringList :: "string list \<Rightarrow> string option \<Rightarrow> string list" where
  "stringList def raw = (case raw of
       None \<Rightarrow> def
     | Some v \<Rightarrow> if trim v = [] then def else filter (\<lambda>e. length e > 0) (map trim (split_on (CHR '','') v)))"

definition setting :: "string \<Rightarrow> int \<Rightarrow> int \<Rightarrow> int \<Rightarrow> integer_setting" where
  "setting name def mn mx = \<lparr>is_name = name, is_default = def, is_min = mn, is_max = mx\<rparr>"

definition database_settings :: "integer_setting list" where
  "database_settings = [setting ''DATABASE_MAX_CONNECTIONS'' 10 1 100]"

definition queue_settings :: "integer_setting list" where
  "queue_settings = [setting ''WORKER_CONCURRENCY'' 4 1 64, setting ''WORKER_HEARTBEAT_INTERVAL_SECONDS'' 10 1 3600]"

definition worker_settings :: "integer_setting list" where
  "worker_settings = setting ''WORKER_PORT'' 3002 1 65535 # queue_settings @ database_settings"

definition api_settings :: "integer_setting list" where
  "api_settings = setting ''API_PORT'' 3001 1 65535 # database_settings"

text \<open>\<open>parseEnv\<close> for the integer settings of a schema: every issue is reported, as the name and the message.\<close>

definition environment_error :: "(string list \<times> string) list \<Rightarrow> string" where
  "environment_error issues = ''Invalid environment configuration:'' @ [CHR 0x0A] @
     unlines (map (\<lambda>(path, msg). ''  - '' @ (if join ''.'' path = [] then ''(root)'' else join ''.'' path) @ '': '' @ msg) issues)"

definition parse_integers :: "integer_setting list \<Rightarrow> (string \<rightharpoonup> string) \<Rightarrow> string + (string \<times> int) list" where
  "parse_integers ss env =
     (let issues = concat (map (\<lambda>o'. case integerFromEnv o' (env (is_name o')) of Inl msg \<Rightarrow> [([is_name o'], msg)] | Inr _ \<Rightarrow> []) ss)
      in if issues \<noteq> [] then Inl (environment_error issues)
         else Inr (concat (map (\<lambda>o'. case integerFromEnv o' (env (is_name o')) of Inl _ \<Rightarrow> [] | Inr n \<Rightarrow> [(is_name o', n)]) ss)))"

lemma integerFromEnv_range:
  "integerFromEnv o' raw = Inr n \<Longrightarrow> is_min o' \<le> is_default o' \<Longrightarrow> is_default o' \<le> is_max o' \<Longrightarrow> is_min o' \<le> n \<and> n \<le> is_max o'"
  by (auto simp: integerFromEnv_def split: option.splits if_splits)

subsection \<open>Request identifiers\<close>

definition REQUEST_ID_HEADER :: string where "REQUEST_ID_HEADER = ''x-request-id''"
definition REQUEST_ID_PATTERN :: rx where "REQUEST_ID_PATTERN = re ''^[A-Za-z0-9._-]{8,128}$''"

type_synonym headers = "string \<rightharpoonup> string"

definition readRequestId :: "string \<Rightarrow> headers \<Rightarrow> string" where
  "readRequestId fresh h = (case h REQUEST_ID_HEADER of
       Some c \<Rightarrow> if rx_test noflags REQUEST_ID_PATTERN c then c else fresh
     | None \<Rightarrow> fresh)"

definition id_char :: "char \<Rightarrow> bool" where
  "id_char c \<longleftrightarrow> is_upper c \<or> is_lower c \<or> is_digit c \<or> c \<in> {CHR ''.'', CHR ''_'', CHR ''-''}"

lemma rep_match_single:
  "st' \<in> set (rep_match f g (step_char p) mn (Some mx) (b, s, cap)) \<Longrightarrow> mn \<le> mx \<Longrightarrow>
    \<exists>w r. s = w @ r \<and> st' = (rev w @ b, r, cap) \<and> list_all p w \<and> mn \<le> length w \<and> length w \<le> mx"
proof (induction f arbitrary: mn mx b s)
  case (Suc f)
  show ?case
  proof (cases "mx = 0 \<or> mn = 0 \<and> st' = (b, s, cap)")
    case True
    then show ?thesis using Suc.prems by (intro exI [of _ "[]"] exI [of _ s]) (auto split: if_splits)
  next
    case False
    then obtain c t where s: "s = c # t" "p c"
      "st' \<in> set (rep_match f g (step_char p) (mn - 1) (Some (mx - 1)) (c # b, t, cap))"
      using Suc.prems(1) by (cases s) (auto simp: Let_def split: if_splits)
    have "mn - 1 \<le> mx - 1" using Suc.prems(2) by simp
    from Suc.IH [OF s(3) this] obtain w r where
      "t = w @ r" "st' = (rev w @ c # b, r, cap)" "list_all p w" "mn - 1 \<le> length w" "length w \<le> mx - 1" by blast
    then show ?thesis using s(1,2) False Suc.prems(2) by (intro exI [of _ "c # w"] exI [of _ r]) auto
  qed
qed simp

lemma rxm_rep_single: "rxm noflags (RRep g mn mx (RSet False is)) st =
    rep_match (Suc (mn + length (fst (snd st)))) g (step_char (class_match False is)) mn mx st"
  unfolding rxm.simps by (simp del: rep_match.simps)

lemma REQUEST_ID_rx: "REQUEST_ID_PATTERN = RSeq RBol (RSeq (RRep True 8 (Some 128) (RSet False
    [CIRange (CHR ''A'') (CHR ''Z''), CIRange (CHR ''a'') (CHR ''z''), CIRange (CHR ''0'') (CHR ''9''), CIChar (CHR ''.''),
     CIChar (CHR ''_''), CIChar (CHR ''-'')])) REol)"
  by code_simp

lemma readRequestId_safe:
  "readRequestId fresh h = fresh \<or> h REQUEST_ID_HEADER = Some (readRequestId fresh h)
    \<and> 8 \<le> length (readRequestId fresh h) \<and> length (readRequestId fresh h) \<le> 128 \<and> list_all id_char (readRequestId fresh h)"
proof (cases "\<exists>c. h REQUEST_ID_HEADER = Some c \<and> rx_test noflags REQUEST_ID_PATTERN c")
  case True
  then obtain c where c: "h REQUEST_ID_HEADER = Some c" "rx_test noflags REQUEST_ID_PATTERN c" by blast
  let ?is = "[CIRange (CHR ''A'') (CHR ''Z''), CIRange (CHR ''a'') (CHR ''z''), CIRange (CHR ''0'') (CHR ''9''), CIChar (CHR ''.''),
     CIChar (CHR ''_''), CIChar (CHR ''-'')]"
  obtain st where st: "st \<in> set (rxm noflags (RRep True 8 (Some 128) (RSet False ?is)) ([], c, []))" "rxm noflags REol st \<noteq> []"
    using c(2) unfolding REQUEST_ID_rx rx_test_anchored by (auto simp: concat_eq_Nil_conv)
  then have "st \<in> set (rep_match (Suc (8 + length c)) True (step_char (class_match False ?is)) 8 (Some 128) ([], c, []))"
    unfolding rxm_rep_single by (simp only: fst_conv snd_conv)
  from rep_match_single [OF this] obtain w r where w: "c = w @ r" "st = (rev w, r, [])" "list_all (class_match False ?is) w"
    "8 \<le> length w" "length w \<le> 128" by auto
  then have "r = []" using st(2) by (auto split: if_splits)
  moreover have "class_match False ?is x \<Longrightarrow> id_char x" for x
    by (auto simp: class_match_def id_char_def is_upper_def is_lower_def is_digit_def)
  ultimately show ?thesis using w c by (auto simp: readRequestId_def list_all_iff)
qed (auto simp: readRequestId_def split: option.split)

subsection \<open>Callers\<close>

definition BEARER_PREFIX :: rx where "BEARER_PREFIX = re ''^Bearer%s+(.+)$''"

definition readBearerToken :: "headers \<Rightarrow> string option" where
  "readBearerToken h = (case h ''authorization'' of
       None \<Rightarrow> None
     | Some v \<Rightarrow> map_option trim (exec_group flag_i BEARER_PREFIX 1 (trim v)))"

record auth_identity =
  ai_provider :: string
  ai_providerUserId :: string
  ai_email :: "string option"
  ai_displayName :: "string option"

text \<open>A provider verifies a token; it may also fail, when the service behind it does.\<close>

record auth_provider =
  ap_name :: string
  ap_verifyToken :: "string \<Rightarrow> string + auth_identity option"

definition LOCAL_PROVIDER_NAME :: string where "LOCAL_PROVIDER_NAME = ''local''"

record local_options =
  lp_signingKey :: string
  lp_issuer :: string
  lp_audience :: string

definition asNonEmptyString :: "json option \<Rightarrow> string option" where
  "asNonEmptyString v = (case v of Some (JStr t) \<Rightarrow> if length (trim t) > 0 then Some (trim t) else None | _ \<Rightarrow> None)"

text \<open>\<open>jwtVerify\<close> of the library for HS256, a key, an issuer and an audience is the argument \<open>jwt\<close>; \<open>None\<close> when it throws.\<close>

definition verify_local :: "(string \<Rightarrow> local_options \<Rightarrow> string \<Rightarrow> json option) \<Rightarrow> local_options \<Rightarrow> string \<Rightarrow> string + auth_identity option" where
  "verify_local jwt o' token = (case jwt ''HS256'' o' token of
       None \<Rightarrow> Inr None
     | Some payload \<Rightarrow> (case asNonEmptyString (json_field ''sub'' payload) of
           None \<Rightarrow> Inr None
         | Some subject \<Rightarrow> Inr (Some \<lparr>ai_provider = LOCAL_PROVIDER_NAME, ai_providerUserId = subject,
             ai_email = asNonEmptyString (json_field ''email'' payload),
             ai_displayName = asNonEmptyString (json_field ''name'' payload)\<rparr>)))"

definition createLocalAuthProvider :: "(string \<Rightarrow> local_options \<Rightarrow> string \<Rightarrow> json option) \<Rightarrow> local_options \<Rightarrow> auth_provider" where
  "createLocalAuthProvider jwt o' = \<lparr>ap_name = LOCAL_PROVIDER_NAME, ap_verifyToken = verify_local jwt o'\<rparr>"

definition resolveIdentity :: "headers \<Rightarrow> auth_provider \<Rightarrow> auth_identity option" where
  "resolveIdentity h p = (case readBearerToken h of
       None \<Rightarrow> None
     | Some token \<Rightarrow> (case ap_verifyToken p token of Inl _ \<Rightarrow> None | Inr r \<Rightarrow> r))"

end
