(* ===== verification/SystemStatus.thy ===== *)
theory SystemStatus
  imports Requests
begin

text \<open>
  What a replica reports about itself: the probes of \<open>packages/db/src/health.ts\<close> and
  \<open>packages/jobs/src/connection.ts\<close>, the heartbeat of \<open>packages/jobs/src/heartbeat.ts\<close>, the depth of the queue,
  \<open>apps/api/src/modules/system\<close> and the routes \<open>/health\<close> and \<open>/ready\<close> of \<open>apps/api/src/server.ts\<close>.
\<close>

subsection \<open>Replies\<close>

text \<open>
  A promise: it never settles, or it does so after some milliseconds, with a value or with an error and
  its message, if it has one.
\<close>

datatype 'a reply = Never | Reply nat 'a | Fails nat "string option"

fun then_reply :: "(nat \<Rightarrow> 'a \<Rightarrow> 'b) \<Rightarrow> 'a reply \<Rightarrow> 'b reply" where
  "then_reply f Never = Never"
| "then_reply f (Reply ms x) = Reply ms (f ms x)"
| "then_reply f (Fails ms msg) = Fails ms msg"

text \<open>\<open>Promise.all\<close>: the earliest error rejects it, else it waits for both.\<close>

fun both :: "'a reply \<Rightarrow> 'b reply \<Rightarrow> ('a \<times> 'b) reply" where
  "both (Reply a x) (Reply b y) = Reply (max a b) (x, y)"
| "both (Fails a msg) (Fails b msg') = (if a \<le> b then Fails a msg else Fails b msg')"
| "both (Fails a msg) _ = Fails a msg"
| "both _ (Fails b msg) = Fails b msg"
| "both _ _ = Never"

text \<open>\<open>Promise.race\<close> against a timer; what settles at the very millisecond of the timer comes too late.\<close>

definition raced :: "nat \<Rightarrow> 'a reply \<Rightarrow> nat \<times> (string option + 'a)" where
  "raced timeoutMs r = (let late = (timeoutMs, Inl (Some (''timed out after '' @ dec timeoutMs @ ''ms''))) in case r of
       Never \<Rightarrow> late
     | Reply ms x \<Rightarrow> if ms < timeoutMs then (ms, Inr x) else late
     | Fails ms msg \<Rightarrow> if ms < timeoutMs then (ms, Inl msg) else late)"

subsection \<open>Probes\<close>

record probe_result =
  pr_ok :: bool
  pr_latencyMs :: nat
  pr_detail :: "string option"

definition PROBE_TIMEOUT_MS :: nat where "PROBE_TIMEOUT_MS = 2000"

definition probe_failed :: "nat \<Rightarrow> string \<Rightarrow> string option \<Rightarrow> probe_result" where
  "probe_failed ms unknown msg = \<lparr>pr_ok = False, pr_latencyMs = ms, pr_detail = Some (case msg of Some m \<Rightarrow> m | None \<Rightarrow> unknown)\<rparr>"

definition probeDatabase :: "unit reply \<Rightarrow> probe_result" where
  "probeDatabase r = (case raced PROBE_TIMEOUT_MS r of
       (ms, Inr _) \<Rightarrow> \<lparr>pr_ok = True, pr_latencyMs = ms, pr_detail = None\<rparr>
     | (ms, Inl msg) \<Rightarrow> probe_failed ms ''unknown database error'' msg)"

definition probeRedis :: "string reply \<Rightarrow> probe_result" where
  "probeRedis r = (case raced PROBE_TIMEOUT_MS r of
       (ms, Inr pong) \<Rightarrow>
         if pong \<noteq> ''PONG'' then probe_failed ms [] (Some ''unexpected PING reply'')
         else \<lparr>pr_ok = True, pr_latencyMs = ms, pr_detail = None\<rparr>
     | (ms, Inl msg) \<Rightarrow> probe_failed ms ''unknown redis error'' msg)"

text \<open>A probe settles with its result.\<close>

definition probed :: "probe_result \<Rightarrow> probe_result reply" where "probed p = Reply (pr_latencyMs p) p"

subsection \<open>The heartbeat\<close>

text \<open>The keys of Redis with the time at which they expire.\<close>

type_synonym redis = "string \<rightharpoonup> string \<times> int"

definition redis_set_ex :: "string \<Rightarrow> string \<Rightarrow> int \<Rightarrow> int \<Rightarrow> redis \<Rightarrow> redis" where
  "redis_set_ex k v seconds now r = r(k \<mapsto> (v, now + 1000 * seconds))"

definition redis_get :: "string \<Rightarrow> int \<Rightarrow> redis \<Rightarrow> string option" where
  "redis_get k now r = (case r k of Some (v, expires) \<Rightarrow> if now < expires then Some v else None | None \<Rightarrow> None)"

definition DEFAULT_JOBS_NAMESPACE :: string where "DEFAULT_JOBS_NAMESPACE = ''newsdeck''"

definition heartbeatKey :: "string \<Rightarrow> string" where "heartbeatKey ns = ns @ '':worker:heartbeat''"

definition HEARTBEAT_TTL_SECONDS :: int where "HEARTBEAT_TTL_SECONDS = 90"

record heartbeat_record =
  hr_instanceId :: string
  hr_observedAt :: string
  hr_ageSeconds :: int

text \<open>The dates of the language: the ISO text of a time and the time of a text.\<close>

record dates =
  da_iso :: "int \<Rightarrow> string"
  da_parse :: "string \<Rightarrow> int option"

definition publishWorkerHeartbeat :: "dates \<Rightarrow> string \<Rightarrow> string \<Rightarrow> int \<Rightarrow> redis \<Rightarrow> redis" where
  "publishWorkerHeartbeat D ns instanceId now r =
     (let payload = json_compact (JObj [(''instanceId'', JStr instanceId), (''observedAt'', JStr (da_iso D now))])
      in redis_set_ex (heartbeatKey ns) payload HEARTBEAT_TTL_SECONDS now r)"

definition rounded_div :: "int \<Rightarrow> int \<Rightarrow> int" where "rounded_div a b = (2 * a + b) div (2 * b)"

definition read_heartbeat :: "dates \<Rightarrow> int \<Rightarrow> string option \<Rightarrow> heartbeat_record option" where
  "read_heartbeat D now raw =
     Option.bind raw (\<lambda>t. Option.bind (json_parse t) (\<lambda>parsed.
       case (json_field ''instanceId'' parsed, json_field ''observedAt'' parsed) of
         (Some (JStr i), Some (JStr at')) \<Rightarrow>
           map_option (\<lambda>ms. \<lparr>hr_instanceId = i, hr_observedAt = at', hr_ageSeconds = max 0 (rounded_div (now - ms) 1000)\<rparr>) (da_parse D at')
       | _ \<Rightarrow> None))"

definition readWorkerHeartbeat :: "dates \<Rightarrow> string \<Rightarrow> int \<Rightarrow> redis \<Rightarrow> heartbeat_record option" where
  "readWorkerHeartbeat D ns now r = read_heartbeat D now (redis_get (heartbeatKey ns) now r)"

lemma heartbeat_read:
  assumes "da_parse D (da_iso D t) = Some t" and "t \<le> now"
  shows "readWorkerHeartbeat D ns now (publishWorkerHeartbeat D ns i t r) =
    (if now < t + 90000 then Some \<lparr>hr_instanceId = i, hr_observedAt = da_iso D t, hr_ageSeconds = rounded_div (now - t) 1000\<rparr> else None)"
proof -
  let ?v = "JObj [(''instanceId'', JStr i), (''observedAt'', JStr (da_iso D t))]"
  have "json_parse (json_compact ?v) = Some ?v" by (rule json_parse_stringify) simp
  moreover have "0 \<le> rounded_div (now - t) 1000" using assms(2) by (simp add: rounded_div_def)
  ultimately show ?thesis
    using assms(1) by (simp add: readWorkerHeartbeat_def publishWorkerHeartbeat_def redis_set_ex_def redis_get_def
        read_heartbeat_def json_field_def HEARTBEAT_TTL_SECONDS_def Let_def del: stringify.simps)
qed

subsection \<open>The status of a replica\<close>

record queue_depth =
  qd_name :: string
  qd_waiting :: nat
  qd_active :: nat
  qd_completed :: nat
  qd_failed :: nat
  qd_delayed :: nat

definition readQueueDepth :: "string \<Rightarrow> (string \<rightharpoonup> nat) reply \<Rightarrow> queue_depth reply" where
  "readQueueDepth name = then_reply (\<lambda>_ counts. let n = (\<lambda>k. case counts k of Some n \<Rightarrow> n | None \<Rightarrow> 0) in
     \<lparr>qd_name = name, qd_waiting = n ''waiting'', qd_active = n ''active'', qd_completed = n ''completed'',
      qd_failed = n ''failed'', qd_delayed = n ''delayed''\<rparr>)"

text \<open>What a call finds: the replies of the database and of Redis, and the time of the call.\<close>

record system_world =
  sw_select :: "unit reply"
  sw_ping :: "string reply"
  sw_counts :: "(string \<rightharpoonup> nat) reply"
  sw_heartbeat :: "string option reply"
  sw_now :: int

record system_dependencies =
  sy_instanceId :: string
  sy_startedAt :: int
  sy_queue :: string

record system_status =
  st_service :: string
  st_instanceId :: string
  st_uptimeSeconds :: int
  st_database :: probe_result
  st_redis :: probe_result
  st_queue :: queue_depth
  st_worker :: "heartbeat_record option"
  st_requestId :: string

definition getStatus :: "dates \<Rightarrow> system_dependencies \<Rightarrow> system_world \<Rightarrow> string \<Rightarrow> system_status reply" where
  "getStatus D deps w requestId =
     then_reply (\<lambda>ms (database, redis, queue, worker).
       \<lparr>st_service = ''api'', st_instanceId = sy_instanceId deps,
        st_uptimeSeconds = rounded_div (sw_now w + int ms - sy_startedAt deps) 1000,
        st_database = database, st_redis = redis, st_queue = queue, st_worker = worker, st_requestId = requestId\<rparr>)
       (both (probed (probeDatabase (sw_select w))) (both (probed (probeRedis (sw_ping w)))
         (both (readQueueDepth (sy_queue deps) (sw_counts w))
           (then_reply (\<lambda>ms raw. read_heartbeat D (sw_now w + int ms) raw) (sw_heartbeat w)))))"

definition isReady :: "system_world \<Rightarrow> bool reply" where
  "isReady w = then_reply (\<lambda>_ (database, redis). pr_ok database \<and> pr_ok redis)
     (both (probed (probeDatabase (sw_select w))) (probed (probeRedis (sw_ping w))))"

text \<open>The routes: the status code and the body.\<close>

definition health_route :: "system_dependencies \<Rightarrow> int \<Rightarrow> nat \<times> json" where
  "health_route deps now = (200, JObj [(''status'', JStr ''ok''), (''service'', JStr ''api''), (''instanceId'', JStr (sy_instanceId deps)),
     (''uptimeSeconds'', JNum (rounded_div (now - sy_startedAt deps) 1000))])"

definition ready_route :: "system_dependencies \<Rightarrow> system_world \<Rightarrow> (nat \<times> json) reply" where
  "ready_route deps w = then_reply (\<lambda>_ ready. (if ready then 200 else 503,
     JObj [(''status'', JStr (if ready then ''ready'' else ''unready'')), (''instanceId'', JStr (sy_instanceId deps))])) (isReady w)"

definition error_route :: "bool \<Rightarrow> nat \<times> json" where
  "error_route notFound = (if notFound then 404 else 500, JObj [(''error'', JStr (if notFound then ''not_found'' else ''internal_error''))])"

subsection \<open>When they answer\<close>

lemma raced_bounds: "fst (raced t r) \<le> t"
  by (auto simp: raced_def Let_def split: reply.splits)

lemma probe_latency: "pr_latencyMs (probeDatabase r) \<le> 2000" "pr_latencyMs (probeRedis q) \<le> 2000"
  using raced_bounds [of PROBE_TIMEOUT_MS r] raced_bounds [of PROBE_TIMEOUT_MS q]
  by (auto simp: probeDatabase_def probeRedis_def probe_failed_def PROBE_TIMEOUT_MS_def split: prod.splits sum.splits)

text \<open>A dependency that answers in time.\<close>

definition answers :: "'a reply \<Rightarrow> 'a \<Rightarrow> bool" where
  "answers r x \<longleftrightarrow> (\<exists>ms. r = Reply ms x \<and> ms < 2000)"

lemma probe_ok: "pr_ok (probeDatabase r) \<longleftrightarrow> answers r ()" "pr_ok (probeRedis q) \<longleftrightarrow> answers q ''PONG''"
  by (auto simp: probeDatabase_def probeRedis_def probe_failed_def PROBE_TIMEOUT_MS_def raced_def Let_def answers_def
      split: reply.splits prod.splits sum.splits if_splits)

lemma isReady_exact:
  "\<exists>ms. ms \<le> 2000 \<and> isReady w = Reply ms (answers (sw_select w) () \<and> answers (sw_ping w) ''PONG'')"
  using probe_latency by (simp add: isReady_def probed_def probe_ok)

text \<open>The status waits for the queue and the heartbeat, whose calls have no timer.\<close>

definition replies :: "'a reply \<Rightarrow> bool" where "replies r \<longleftrightarrow> (\<exists>ms x. r = Reply ms x)"

lemma replies_then [simp]: "replies (then_reply f r) \<longleftrightarrow> replies r"
  by (cases r) (auto simp: replies_def)

lemma replies_both [simp]: "replies (both r q) \<longleftrightarrow> replies r \<and> replies q"
  by (cases r; cases q) (auto simp: replies_def)

lemma replies_probed [simp]: "replies (probed p)"
  by (auto simp: replies_def probed_def)

lemma getStatus_replies: "replies (getStatus D deps w requestId) \<longleftrightarrow> replies (sw_counts w) \<and> replies (sw_heartbeat w)"
  by (simp add: getStatus_def readQueueDepth_def)

lemma getStatus_checks:
  assumes "getStatus D deps w requestId = Reply ms s"
  shows "st_database s = probeDatabase (sw_select w)" "st_redis s = probeRedis (sw_ping w)"
proof -
  obtain a counts b raw where "sw_counts w = Reply a counts" "sw_heartbeat w = Reply b raw"
    using getStatus_replies [of D deps w requestId] assms by (auto simp: replies_def)
  then show "st_database s = probeDatabase (sw_select w)" "st_redis s = probeRedis (sw_ping w)"
    using assms by (auto simp: getStatus_def probed_def readQueueDepth_def)
qed

lemma getStatus_worker:
  assumes "getStatus D deps w requestId = Reply ms s" and "sw_heartbeat w = Reply b raw"
  shows "st_worker s = read_heartbeat D (sw_now w + int b) raw"
proof -
  obtain a counts where "sw_counts w = Reply a counts"
    using getStatus_replies [of D deps w requestId] assms(1) by (auto simp: replies_def)
  then show ?thesis using assms by (auto simp: getStatus_def probed_def readQueueDepth_def)
qed

end
