(* ===== verification/WorkerJobs.thy ===== *)
theory WorkerJobs
  imports SystemStatus SourcesFetch
begin

text \<open>
  The worker as it takes jobs from the queue: the payloads of \<open>packages/jobs/src/definitions.ts\<close>, the handlers with
  their registry (\<open>apps/worker/src/handlers\<close>) and the processor (\<open>apps/worker/src/processor.ts\<close>).
\<close>

subsection \<open>State and outside\<close>

record worker_state =
  wk_sources :: sources_db
  wk_redis :: redis

text \<open>What a job meets: the database, the network, and Redis, which may refuse a command.\<close>

record worker_world =
  wo_sources :: sources_outside
  wo_network :: network
  wo_dates :: dates
  wo_now :: int
  wo_redisDown :: "string option"

definition on_sources :: "(sources_db, 'e, 'a) task \<Rightarrow> (worker_state, 'e, 'a) task" where
  "on_sources m s = (case m (wk_sources s) of (r, db) \<Rightarrow> (r, s\<lparr>wk_sources := db\<rparr>))"

datatype process_error = UnknownJobError string | InvalidJobPayloadError string string
  | JobFailed job_error | RedisFailed string

subsection \<open>Payloads\<close>

text \<open>An optional member may be absent but not \<open>null\<close>.\<close>

definition optional_text :: "json option \<Rightarrow> string option option" where
  "optional_text v = (case v of None \<Rightarrow> Some None | Some (JStr t) \<Rightarrow> Some (Some t) | _ \<Rightarrow> None)"

definition heartbeat_payload :: "json \<Rightarrow> string option option" where
  "heartbeat_payload v = (case v of JObj _ \<Rightarrow> optional_text (json_field ''requestId'' v) | _ \<Rightarrow> None)"

definition fetch_payload_of :: "json \<Rightarrow> fetch_payload option" where
  "fetch_payload_of v = (case (v, json_field ''sourceId'' v) of
       (JObj _, Some (JStr key)) \<Rightarrow>
         if key = [] then None
         else map_option (\<lambda>r. \<lparr>py_sourceId = key, py_requestId = r\<rparr>) (optional_text (json_field ''requestId'' v))
     | _ \<Rightarrow> None)"

subsection \<open>Handlers\<close>

record job_handler =
  jh_name :: string
  jh_accepts :: "json \<Rightarrow> bool"
  jh_process :: "worker_world \<Rightarrow> string \<Rightarrow> json \<Rightarrow> (worker_state, process_error, unit) task"

definition createHeartbeatHandler :: "string \<Rightarrow> job_handler" where
  "createHeartbeatHandler ns = \<lparr>jh_name = ''system.heartbeat'', jh_accepts = (\<lambda>v. heartbeat_payload v \<noteq> None),
     jh_process = (\<lambda>w instanceId v s. case wo_redisDown w of
         Some msg \<Rightarrow> (Inl (RedisFailed msg), s)
       | None \<Rightarrow> (Inr (), s\<lparr>wk_redis := publishWorkerHeartbeat (wo_dates w) ns instanceId (wo_now w) (wk_redis s)\<rparr>))\<rparr>"

definition createSourcesFetchHandler :: "'u url_api \<Rightarrow> job_handler" where
  "createSourcesFetchHandler U = \<lparr>jh_name = ''sources.fetch'', jh_accepts = (\<lambda>v. fetch_payload_of v \<noteq> None),
     jh_process = (\<lambda>w instanceId v. case fetch_payload_of v of
         None \<Rightarrow> return_task ()
       | Some p \<Rightarrow> catch_task (on_sources (fetch_source U (wo_network w) (worker_repository (wo_sources w)) p))
           (\<lambda>e. fail_task (JobFailed e)))\<rparr>"

type_synonym registry = "string \<rightharpoonup> job_handler"

fun register_all :: "job_handler list \<Rightarrow> registry \<Rightarrow> string + registry" where
  "register_all [] r = Inr r"
| "register_all (h # hs) r =
     (if r (jh_name h) \<noteq> None then Inl (''Duplicate job handler registered for '' @ in_quotes (jh_name h))
      else register_all hs (r(jh_name h \<mapsto> h)))"

definition createHandlerRegistry :: "job_handler list \<Rightarrow> string + registry" where
  "createHandlerRegistry hs = register_all hs Map.empty"

definition worker_registry :: "'u url_api \<Rightarrow> string + registry" where
  "worker_registry U = createHandlerRegistry [createHeartbeatHandler DEFAULT_JOBS_NAMESPACE, createSourcesFetchHandler U]"

subsection \<open>The processor\<close>

record queued_job =
  qj_name :: string
  qj_data :: json

text \<open>The text of the validator for a refused payload is the argument \<open>issues\<close>.\<close>

definition process_job :: "registry \<Rightarrow> (string \<Rightarrow> json \<Rightarrow> string) \<Rightarrow> string \<Rightarrow> worker_world \<Rightarrow> queued_job \<Rightarrow>
    (worker_state, process_error, unit) task" where
  "process_job reg issues instanceId w job = (case reg (qj_name job) of
       None \<Rightarrow> fail_task (UnknownJobError (''No handler registered for job '' @ in_quotes (qj_name job)))
     | Some h \<Rightarrow>
         if \<not> jh_accepts h (qj_data job)
         then fail_task (InvalidJobPayloadError (qj_name job) (''Invalid payload for job '' @ in_quotes (qj_name job) @ '': '' @ issues (qj_name job) (qj_data job)))
         else jh_process h w instanceId (qj_data job))"

subsection \<open>What a job does\<close>

lemma register_names:
  "register_all hs r = Inr r' \<Longrightarrow> distinct (map jh_name hs) \<and> (\<forall>h \<in> set hs. r (jh_name h) = None)
    \<and> r' = (\<lambda>n. case List.find (\<lambda>h. jh_name h = n) hs of Some h \<Rightarrow> Some h | None \<Rightarrow> r n)"
proof (induction hs arbitrary: r)
  case (Cons h hs)
  then have new: "r (jh_name h) = None" and rest: "register_all hs (r(jh_name h \<mapsto> h)) = Inr r'" by (auto split: if_splits)
  note IH = Cons.IH [OF rest]
  have "jh_name x \<noteq> jh_name h" if "x \<in> set hs" for x using IH that by force
  moreover from this have "List.find (\<lambda>x. jh_name x = jh_name h) hs = None" by (simp add: find_None_iff)
  ultimately show ?case using IH new by (force simp: fun_eq_iff split: option.split)
qed auto

lemma register_duplicate: "\<not> distinct (map jh_name hs) \<Longrightarrow> \<exists>msg. register_all hs r = Inl msg"
  using register_names [of hs r] by (cases "register_all hs r") auto

lemma worker_registry_exact:
  "worker_registry U = Inr [''system.heartbeat'' \<mapsto> createHeartbeatHandler DEFAULT_JOBS_NAMESPACE, ''sources.fetch'' \<mapsto> createSourcesFetchHandler U]"
  by (simp add: worker_registry_def createHandlerRegistry_def createHeartbeatHandler_def createSourcesFetchHandler_def)

text \<open>A job of the worker, written out.\<close>

lemma process_cases:
  assumes "worker_registry U = Inr reg"
  shows "process_job reg issues instanceId w job s =
    (if qj_name job = ''system.heartbeat'' \<and> heartbeat_payload (qj_data job) \<noteq> None
     then (case wo_redisDown w of
        Some msg \<Rightarrow> (Inl (RedisFailed msg), s)
      | None \<Rightarrow> (Inr (), s\<lparr>wk_redis := publishWorkerHeartbeat (wo_dates w) DEFAULT_JOBS_NAMESPACE instanceId (wo_now w) (wk_redis s)\<rparr>))
     else (case (if qj_name job = ''sources.fetch'' then fetch_payload_of (qj_data job) else None) of
        Some p \<Rightarrow> (case fetch_source U (wo_network w) (worker_repository (wo_sources w)) p (wk_sources s) of
            (Inl e, db) \<Rightarrow> (Inl (JobFailed e), s\<lparr>wk_sources := db\<rparr>)
          | (Inr _, db) \<Rightarrow> (Inr (), s\<lparr>wk_sources := db\<rparr>))
      | None \<Rightarrow> (Inl (if qj_name job \<in> {''system.heartbeat'', ''sources.fetch''}
            then InvalidJobPayloadError (qj_name job) (''Invalid payload for job '' @ in_quotes (qj_name job) @ '': '' @ issues (qj_name job) (qj_data job))
            else UnknownJobError (''No handler registered for job '' @ in_quotes (qj_name job))), s)))"
proof -
  have reg: "reg = [''system.heartbeat'' \<mapsto> createHeartbeatHandler DEFAULT_JOBS_NAMESPACE, ''sources.fetch'' \<mapsto> createSourcesFetchHandler U]"
    using assms by (simp add: worker_registry_exact)
  consider (beat) "qj_name job = ''system.heartbeat''" | (fetch) "qj_name job = ''sources.fetch''"
    | (other) "qj_name job \<noteq> ''system.heartbeat''" "qj_name job \<noteq> ''sources.fetch''" by blast
  then show ?thesis
  proof cases
    case beat
    then show ?thesis by (simp add: reg process_job_def createHeartbeatHandler_def fail_task_def)
  next
    case fetch
    then show ?thesis
      by (cases "fetch_payload_of (qj_data job)")
        (simp_all add: reg process_job_def createSourcesFetchHandler_def fail_task_def catch_task_def on_sources_def split: prod.split sum.split)
  next
    case other
    then show ?thesis by (simp add: reg process_job_def fail_task_def)
  qed
qed

end
