(* ===== verification/LoadBalancing.thy ===== *)
theory LoadBalancing
  imports Requests "HOL-Library.AList"
begin

text \<open>
  \<open>scripts/verify-load-balancing.ts\<close>: sampling the two pools behind the proxy and the verdict, and the
  sampling of \<open>apps/admin/src/components/LoadBalancingProbe.tsx\<close>.
\<close>

subsection \<open>Options\<close>

record lb_options =
  lb_baseUrl :: string
  lb_adminUrl :: string
  lb_requests :: int

definition lb_defaults :: lb_options where
  "lb_defaults = \<lparr>lb_baseUrl = ''http://localhost:8080'', lb_adminUrl = ''http://localhost:8081'', lb_requests = 20\<rparr>"

definition lb_option :: "string \<Rightarrow> string \<Rightarrow> lb_options \<Rightarrow> string + lb_options" where
  "lb_option flag v o' =
     (if flag = ''--base-url'' then Inr (o'\<lparr>lb_baseUrl := v\<rparr>)
      else if flag = ''--admin-url'' then Inr (o'\<lparr>lb_adminUrl := v\<rparr>)
      else if flag = ''--requests'' then
        (case integer_value v of
           Some n \<Rightarrow> if n < 1 then Inl ''--requests must be a positive integer'' else Inr (o'\<lparr>lb_requests := n\<rparr>)
         | None \<Rightarrow> Inl ''--requests must be a positive integer'')
      else Inr o')"

text \<open>Every word is looked at as a flag, the value of the one before it too; the last word has no value.\<close>

fun lb_parse :: "string list \<Rightarrow> lb_options \<Rightarrow> string + lb_options" where
  "lb_parse (flag # v # rest) o' = (case lb_option flag v o' of Inl e \<Rightarrow> Inl e | Inr o'' \<Rightarrow> lb_parse (v # rest) o'')"
| "lb_parse _ o' = Inr o'"

definition parseOptions :: "string list \<Rightarrow> string + lb_options" where
  "parseOptions argv = lb_parse argv lb_defaults"

subsection \<open>Sampling\<close>

type_synonym tallies = "(string \<times> nat) list"

definition count_value :: "string \<Rightarrow> tallies \<Rightarrow> tallies" where
  "count_value v counts = AList.update v ((case map_of counts v of Some n \<Rightarrow> n | None \<Rightarrow> 0) + 1) counts"

definition tally_values :: "string list \<Rightarrow> tallies" where
  "tally_values vs = fold count_value vs []"

text \<open>A response, or nothing when \<open>fetch\<close> throws.\<close>

record lb_response =
  lr_ok :: bool
  lr_upstream :: "string option"
  lr_body :: string

record pool_result =
  po_upstreams :: tallies
  po_instances :: tallies
  po_failures :: nat

record pool_sample =
  ps_upstreams :: "string list"
  ps_instances :: "string list"
  ps_failures :: nat

text \<open>The reader of a response fails with \<open>None\<close>.\<close>

definition sample_one :: "(lb_response \<Rightarrow> string option option) \<Rightarrow> lb_response option \<Rightarrow> pool_sample \<Rightarrow> pool_sample" where
  "sample_one readInstance response s = (case response of
       None \<Rightarrow> s\<lparr>ps_failures := ps_failures s + 1\<rparr>
     | Some r \<Rightarrow>
         if \<not> lr_ok r then s\<lparr>ps_failures := ps_failures s + 1\<rparr>
         else let s = s\<lparr>ps_upstreams := ps_upstreams s @ (case lr_upstream r of Some u \<Rightarrow> [u] | None \<Rightarrow> [])\<rparr>
           in (case readInstance r of
               None \<Rightarrow> s\<lparr>ps_failures := ps_failures s + 1\<rparr>
             | Some i \<Rightarrow> s\<lparr>ps_instances := ps_instances s @ (case i of Some x \<Rightarrow> [x] | None \<Rightarrow> [])\<rparr>))"

definition samplePool :: "(nat \<Rightarrow> lb_response option) \<Rightarrow> nat \<Rightarrow> (lb_response \<Rightarrow> string option option) \<Rightarrow> pool_result" where
  "samplePool net requests readInstance =
     (let s = fold (\<lambda>i. sample_one readInstance (net i)) [0..<requests] \<lparr>ps_upstreams = [], ps_instances = [], ps_failures = 0\<rparr>
      in \<lparr>po_upstreams = tally_values (ps_upstreams s), po_instances = tally_values (ps_instances s), po_failures = ps_failures s\<rparr>)"

definition read_api_instance :: "lb_response \<Rightarrow> string option option" where
  "read_api_instance r = (case json_parse (lr_body r) of
       None \<Rightarrow> None
     | Some JNull \<Rightarrow> None
     | Some body \<Rightarrow> Some (case json_field ''instanceId'' body of Some (JStr i) \<Rightarrow> Some i | _ \<Rightarrow> None))"

definition read_web_instance :: "lb_response \<Rightarrow> string option option" where
  "read_web_instance r = Some None"

subsection \<open>The report\<close>

definition pad_end :: "nat \<Rightarrow> string \<Rightarrow> string" where
  "pad_end n t = t @ replicate (n - length t) (CHR '' '')"

text \<open>The order of \<open>localeCompare\<close> is an argument.\<close>

definition render_counts :: "(string \<Rightarrow> string \<Rightarrow> bool) \<Rightarrow> string \<Rightarrow> tallies \<Rightarrow> string" where
  "render_counts before title counts = [CHR 0x0A] @ ''  '' @ title @ [CHR 0x0A] @
     (if length counts = 0 then ''    (no responses)'' @ [CHR 0x0A]
      else concat (map (\<lambda>(name, n). ''    '' @ pad_end 28 name @ '' '' @ dec n @ [CHR 0x0A])
        (sort_by (\<lambda>a b. before (fst a) (fst b)) counts)))"

definition failure_line :: "nat \<Rightarrow> string" where
  "failure_line n = (if n > 0 then ''    failures: '' @ dec n @ [CHR 0x0A] else [])"

definition lb_problems :: "pool_result \<Rightarrow> pool_result \<Rightarrow> string list" where
  "lb_problems api web =
     (if po_failures api > 0 then [dec (po_failures api) @ '' API request(s) failed''] else [])
     @ (if po_failures web > 0 then [dec (po_failures web) @ '' web request(s) failed''] else [])
     @ (if length (po_instances api) < 2
        then [''API answered from '' @ dec (length (po_instances api)) @ '' instance(s); expected at least 2''] else [])
     @ (if length (po_upstreams web) < 2
        then [''web answered from '' @ dec (length (po_upstreams web)) @ '' upstream(s); expected at least 2''] else [])"

definition ellipsis :: string where "ellipsis = [CHR 0xE2, CHR 0x80, CHR 0xA6]"

text \<open>The text that is printed and the exit code; bad options throw.\<close>

definition verify_load_balancing :: "(string \<Rightarrow> string \<Rightarrow> bool) \<Rightarrow> (string \<Rightarrow> nat \<Rightarrow> lb_response option) \<Rightarrow> string list \<Rightarrow> string + string \<times> nat" where
  "verify_load_balancing before net argv = (case parseOptions argv of
       Inl e \<Rightarrow> Inl e
     | Inr o' \<Rightarrow>
         let n = nat (lb_requests o');
             api = samplePool (net (lb_baseUrl o' @ ''/api/health'')) n read_api_instance;
             web = samplePool (net (lb_baseUrl o' @ ''/'')) n read_web_instance;
             report = ''Sampling '' @ dec n @ '' requests per pool'' @ ellipsis @ [CHR 0x0A]
               @ [CHR 0x0A] @ ''API pool (browser -> proxy -> API)''
               @ render_counts before ''by nginx upstream'' (po_upstreams api)
               @ render_counts before ''by API-reported instanceId'' (po_instances api) @ failure_line (po_failures api)
               @ [CHR 0x0A] @ ''Web pool (browser -> proxy -> SSR server)''
               @ render_counts before ''by nginx upstream'' (po_upstreams web) @ failure_line (po_failures web);
             problems = lb_problems api web
         in Inr (if length problems > 0
           then (report @ [CHR 0x0A] @ ''FAILED:'' @ [CHR 0x0A] @ unlines (map (\<lambda>l. ''  - '' @ l) problems) @ [CHR 0x0A], 1)
           else (report @ [CHR 0x0A] @ ''OK: both pools distributed requests across multiple instances.'' @ [CHR 0x0A], 0)))"

subsection \<open>The probe of the admin application\<close>

definition SAMPLE_SIZE :: nat where "SAMPLE_SIZE = 20"

text \<open>A call of \<open>system.status\<close> answers with an instance or throws.\<close>

definition probe_instances :: "(nat \<Rightarrow> string option) \<Rightarrow> tallies \<times> nat" where
  "probe_instances status = fold (\<lambda>i (counts, failures). case status i of
       Some inst \<Rightarrow> (count_value inst counts, failures)
     | None \<Rightarrow> (counts, failures + 1)) [0..<SAMPLE_SIZE] ([], 0)"

subsection \<open>What the verdict says\<close>

lemma count_value_keys: "set (map fst (count_value v c)) = insert v (set (map fst c))" "distinct (map fst c) \<Longrightarrow> distinct (map fst (count_value v c))"
  unfolding count_value_def by (auto simp: update_keys simp del: set_map)

lemma tally_fold: "distinct (map fst c) \<Longrightarrow> set (map fst (fold count_value vs c)) = set vs \<union> set (map fst c) \<and> distinct (map fst (fold count_value vs c))"
  by (induction vs arbitrary: c) (simp_all del: set_map add: count_value_keys)

lemma tally_size: "length (tally_values vs) = card (set vs)"
proof -
  have "set (map fst (tally_values vs)) = set vs \<and> distinct (map fst (tally_values vs))"
    using tally_fold [of "[]" vs] by (simp add: tally_values_def)
  then have "card (set vs) = length (map fst (tally_values vs))" by (metis distinct_card)
  then show ?thesis by simp
qed

text \<open>A request that counts: answered, and read when it is read.\<close>

definition good_reply :: "(lb_response \<Rightarrow> string option option) \<Rightarrow> lb_response option \<Rightarrow> bool" where
  "good_reply readInstance r \<longleftrightarrow> (case r of None \<Rightarrow> False | Some x \<Rightarrow> lr_ok x \<and> readInstance x \<noteq> None)"

definition instance_of :: "(lb_response \<Rightarrow> string option option) \<Rightarrow> lb_response option \<Rightarrow> string set" where
  "instance_of readInstance r = (case r of None \<Rightarrow> {} | Some x \<Rightarrow> if lr_ok x then (case readInstance x of Some (Some i) \<Rightarrow> {i} | _ \<Rightarrow> {}) else {})"

definition upstream_of :: "lb_response option \<Rightarrow> string set" where
  "upstream_of r = (case r of None \<Rightarrow> {} | Some x \<Rightarrow> if lr_ok x then (case lr_upstream x of Some u \<Rightarrow> {u} | _ \<Rightarrow> {}) else {})"

lemma sample_fold:
  "ps_failures (fold (\<lambda>i. sample_one f (net i)) is s) = ps_failures s + length (filter (\<lambda>i. \<not> good_reply f (net i)) is)
    \<and> set (ps_instances (fold (\<lambda>i. sample_one f (net i)) is s)) = set (ps_instances s) \<union> (\<Union>i \<in> set is. instance_of f (net i))
    \<and> set (ps_upstreams (fold (\<lambda>i. sample_one f (net i)) is s)) = set (ps_upstreams s) \<union> (\<Union>i \<in> set is. upstream_of (net i))"
proof (induction "is" arbitrary: s)
  case (Cons i rest)
  have "ps_failures (sample_one f (net i) s) = ps_failures s + (if good_reply f (net i) then 0 else 1)"
    "set (ps_instances (sample_one f (net i) s)) = set (ps_instances s) \<union> instance_of f (net i)"
    "set (ps_upstreams (sample_one f (net i) s)) = set (ps_upstreams s) \<union> upstream_of (net i)"
    by (auto simp: sample_one_def good_reply_def instance_of_def upstream_of_def Let_def split: option.splits)
  then show ?case using Cons.IH [of "sample_one f (net i) s"] by auto
qed simp

lemma samplePool_facts:
  "po_failures (samplePool net n f) = length (filter (\<lambda>i. \<not> good_reply f (net i)) [0..<n])"
  "length (po_instances (samplePool net n f)) = card (\<Union>i < n. instance_of f (net i))"
  "length (po_upstreams (samplePool net n f)) = card (\<Union>i < n. upstream_of (net i))"
  using sample_fold [of f net "[0..<n]"] by (simp_all add: samplePool_def Let_def tally_size atLeast0LessThan)

lemma verdict:
  assumes "parseOptions argv = Inr o'" and "verify_load_balancing before net argv = Inr (report, code)"
  shows "code = 0 \<longleftrightarrow> (\<forall>i < nat (lb_requests o'). good_reply read_api_instance (net (lb_baseUrl o' @ ''/api/health'') i)
        \<and> good_reply read_web_instance (net (lb_baseUrl o' @ ''/'') i))
      \<and> 2 \<le> card (\<Union>i < nat (lb_requests o'). instance_of read_api_instance (net (lb_baseUrl o' @ ''/api/health'') i))
      \<and> 2 \<le> card (\<Union>i < nat (lb_requests o'). upstream_of (net (lb_baseUrl o' @ ''/'') i))"
proof -
  let ?n = "nat (lb_requests o')"
  let ?api = "samplePool (net (lb_baseUrl o' @ ''/api/health'')) ?n read_api_instance" and ?web = "samplePool (net (lb_baseUrl o' @ ''/'')) ?n read_web_instance"
  have "code = 0 \<longleftrightarrow> lb_problems ?api ?web = []"
    using assms by (auto simp: verify_load_balancing_def Let_def split: if_splits)
  then show ?thesis
    by (auto simp: lb_problems_def samplePool_facts filter_empty_conv not_less)
qed

end
