(* ===== verification/AdminSources.thy ===== *)
theory AdminSources
  imports SourcesService
begin

text \<open>
  The sources page of the administration, \<open>apps/admin/src/routes/sources.tsx\<close>, with the input schemas of
  \<open>packages/api-contract/src/sources/schemas.ts\<close>: the state of its forms and of its table, what the
  handlers make of it and what they send.  The rendering is left out but for what it disables.
\<close>

subsection \<open>Validation\<close>

record field_errors =
  fe_name :: "string option"
  fe_feedUrl :: "string option"
  fe_siteUrl :: "string option"

definition no_errors :: field_errors where
  "no_errors = \<lparr>fe_name = None, fe_feedUrl = None, fe_siteUrl = None\<rparr>"

definition or_else :: "'a option \<Rightarrow> 'a \<Rightarrow> 'a option" where
  "or_else old x = (case old of None \<Rightarrow> Some x | Some y \<Rightarrow> Some y)"

text \<open>An issue of the validator: the path to the member and the message.\<close>

type_synonym field_issue = "string list \<times> string"

definition add_issue :: "field_issue \<Rightarrow> field_errors \<Rightarrow> field_errors" where
  "add_issue i e = (case fst i of
       [] \<Rightarrow> e
     | key # _ \<Rightarrow>
         if key = ''name'' then e\<lparr>fe_name := or_else (fe_name e) (snd i)\<rparr>
         else if key = ''feedUrl'' then e\<lparr>fe_feedUrl := or_else (fe_feedUrl e) (snd i)\<rparr>
         else if key = ''siteUrl'' then e\<lparr>fe_siteUrl := or_else (fe_siteUrl e) (snd i)\<rparr>
         else e)"

definition fieldErrorsFrom :: "field_issue list \<Rightarrow> field_errors" where
  "fieldErrorsFrom issues = fold add_issue issues no_errors"

definition normalizeSiteUrl :: "string \<Rightarrow> string option" where
  "normalizeSiteUrl v = (if trim v = [] then None else Some v)"

text \<open>The URL rule of the library and its messages are arguments.\<close>

record validator =
  va_url :: "string \<Rightarrow> bool"
  va_tooShort :: string
  va_badUrl :: string

definition source_issues :: "validator \<Rightarrow> string \<Rightarrow> string \<Rightarrow> field_issue list" where
  "source_issues V name feedUrl =
     (if length name < 1 then [([''name''], va_tooShort V)] else [])
     @ (if \<not> va_url V feedUrl then [([''feedUrl''], va_badUrl V)] else [])"

subsection \<open>A form\<close>

text \<open>The fields and the messages of the form for a new source and of the form of a row.\<close>

record source_form =
  sf_name :: string
  sf_feedUrl :: string
  sf_siteUrl :: string
  sf_fieldErrors :: field_errors
  sf_formError :: "string option"
  sf_pending :: bool

datatype source_input = Name string | FeedUrl string | SiteUrl string

fun type_into :: "source_input \<Rightarrow> 'a source_form_scheme \<Rightarrow> 'a source_form_scheme" where
  "type_into (Name t) f = f\<lparr>sf_name := t\<rparr>"
| "type_into (FeedUrl t) f = f\<lparr>sf_feedUrl := t\<rparr>"
| "type_into (SiteUrl t) f = f\<lparr>sf_siteUrl := t\<rparr>"

definition clear_errors :: "'a source_form_scheme \<Rightarrow> 'a source_form_scheme" where
  "clear_errors f = f\<lparr>sf_fieldErrors := no_errors, sf_formError := None\<rparr>"

definition create_form :: source_form where
  "create_form = \<lparr>sf_name = [], sf_feedUrl = [], sf_siteUrl = [], sf_fieldErrors = no_errors, sf_formError = None, sf_pending = False\<rparr>"

text \<open>A submission, with the request it sends; the button is disabled while a request is pending.\<close>

definition submit_form :: "validator \<Rightarrow> 'a source_form_scheme \<Rightarrow> 'a source_form_scheme \<times> bool" where
  "submit_form V f =
     (if sf_pending f then (f, False)
      else let issues = source_issues V (sf_name f) (sf_feedUrl f)
        in if issues \<noteq> [] then (f\<lparr>sf_fieldErrors := fieldErrorsFrom issues, sf_formError := None\<rparr>, False)
           else ((clear_errors f)\<lparr>sf_pending := True\<rparr>, True))"

definition create_submit :: "validator \<Rightarrow> source_form \<Rightarrow> source_form \<times> create_input option" where
  "create_submit V f = (case submit_form V f of (f', sent) \<Rightarrow>
     (f', if sent then Some \<lparr>ci_name = sf_name f, ci_feedUrl = sf_feedUrl f, ci_siteUrl = normalizeSiteUrl (sf_siteUrl f)\<rparr> else None))"

definition refused :: "string \<Rightarrow> rpc_error \<Rightarrow> 'a source_form_scheme \<Rightarrow> 'a source_form_scheme" where
  "refused msg e f = (case e of
       RpcConflict _ _ \<Rightarrow> f\<lparr>sf_fieldErrors := no_errors\<lparr>fe_feedUrl := Some ''A source with this feed URL already exists.''\<rparr>, sf_formError := None\<rparr>
     | _ \<Rightarrow> f\<lparr>sf_fieldErrors := no_errors, sf_formError := Some msg\<rparr>)"

definition create_settled :: "rpc_error + source_row \<Rightarrow> source_form \<Rightarrow> source_form" where
  "create_settled r f = (case r of
       Inr _ \<Rightarrow> create_form
     | Inl e \<Rightarrow> (refused ''Could not add the source. Try again.'' e f)\<lparr>sf_pending := False\<rparr>)"

subsection \<open>A row\<close>

record row_form = source_form +
  rf_isEditing :: bool

text \<open>The fields take the values of the source when the row appears, and again when the user cancels.\<close>

definition site_text :: "source_row \<Rightarrow> string" where
  "site_text r = (case so_siteUrl r of Some u \<Rightarrow> u | None \<Rightarrow> [])"

definition fields_of :: "source_row \<Rightarrow> 'a source_form_scheme \<Rightarrow> 'a source_form_scheme" where
  "fields_of r f = f\<lparr>sf_name := so_name r, sf_feedUrl := so_feedUrl r, sf_siteUrl := site_text r\<rparr>"

definition row_mount :: "source_row \<Rightarrow> row_form" where
  "row_mount r = fields_of r (source_form.extend create_form \<lparr>rf_isEditing = False\<rparr>)"

definition row_edit :: "row_form \<Rightarrow> row_form" where "row_edit f = f\<lparr>rf_isEditing := True\<rparr>"

definition row_cancel :: "source_row \<Rightarrow> row_form \<Rightarrow> row_form" where
  "row_cancel r f = (clear_errors (fields_of r f))\<lparr>rf_isEditing := False\<rparr>"

text \<open>Saving sends every field, changed or not, for the source the row shows now.\<close>

definition row_save :: "validator \<Rightarrow> source_row \<Rightarrow> row_form \<Rightarrow> row_form \<times> (string \<times> source_patch) option" where
  "row_save V r f = (case submit_form V f of (f', sent) \<Rightarrow>
     (f', if sent then Some (so_id r, \<lparr>pa_name = Some (sf_name f), pa_feedUrl = Some (sf_feedUrl f),
        pa_siteUrl = Some (normalizeSiteUrl (sf_siteUrl f))\<rparr>) else None))"

definition row_saved :: "rpc_error + source_row \<Rightarrow> row_form \<Rightarrow> row_form" where
  "row_saved r f = (case r of
       Inr _ \<Rightarrow> (clear_errors f)\<lparr>rf_isEditing := False, sf_pending := False\<rparr>
     | Inl e \<Rightarrow> (refused ''Could not save the source. Try again.'' e f)\<lparr>sf_pending := False\<rparr>)"

definition row_deactivated :: "rpc_error + source_row \<Rightarrow> row_form \<Rightarrow> row_form" where
  "row_deactivated r f = (case r of
       Inr _ \<Rightarrow> f\<lparr>sf_formError := None\<rparr>
     | Inl _ \<Rightarrow> f\<lparr>sf_formError := Some ''Could not deactivate the source. Try again.''\<rparr>)"

subsection \<open>The table\<close>

definition PAGE_SIZE :: int where "PAGE_SIZE = 20"

definition total_pages :: "nat \<Rightarrow> int" where
  "total_pages n = max 1 ((int n + PAGE_SIZE - 1) div PAGE_SIZE)"

definition page_request :: "int \<Rightarrow> list_options" where
  "page_request page = \<lparr>lo_page = Some page, lo_pageSize = Some PAGE_SIZE\<rparr>"

datatype page_click = Previous | Next

fun turn_page :: "nat \<Rightarrow> page_click \<Rightarrow> int \<Rightarrow> int" where
  "turn_page n Previous page = (if page \<le> 1 then page else page - 1)"
| "turn_page n Next page = (if page \<ge> total_pages n then page else page + 1)"

text \<open>What the table shows of a page, when the request succeeds.\<close>

definition page_shown :: "sources_outside \<Rightarrow> sources_db \<Rightarrow> int \<Rightarrow> source_row list option" where
  "page_shown w db page = (case fst (service_list (createSourcesRepository w) (page_request page) db) of
       Inr p \<Rightarrow> Some (lp_items p) | Inl _ \<Rightarrow> None)"

subsection \<open>Pages\<close>

lemma pages_prefix: "concat (map (\<lambda>i. take n (drop (i * n) xs)) [0..<k]) = take (k * n) xs"
  by (induction k) (simp_all add: take_add add.commute [of n])

lemma quiet_page:
  assumes "sources_quiet w" and "1 \<le> page"
  shows "page_shown w db page = Some (take 20 (drop (nat ((page - 1) * 20)) (ordered_rows (sd_rows db))))"
proof -
  have call: "sources_call w d = (Inr (sd_calls d), d\<lparr>sd_calls := sd_calls d + 1\<rparr>)" for d
    using assms(1) by (simp add: sources_quiet_def sources_call_def)
  have "page_size (page_request page) = 20" "page_number (page_request page) = page"
    using assms(2) by (simp_all add: page_size_def page_number_def page_request_def PAGE_SIZE_def MAX_PAGE_SIZE_def)
  then show ?thesis
    by (simp add: page_shown_def service_list_def db_task_def catch_task_def createSourcesRepository_def db_list_def
        bind_task_def call page_of_def)
qed

lemma turn_in_range: "1 \<le> page \<Longrightarrow> page \<le> total_pages n \<Longrightarrow> 1 \<le> turn_page n c page \<and> turn_page n c page \<le> total_pages n"
  by (cases c) auto

lemma all_pages:
  assumes "sources_quiet w"
  shows "concat (map (\<lambda>page. case page_shown w db page of Some rs \<Rightarrow> rs | None \<Rightarrow> []) [1..total_pages (length (sd_rows db))]) = ordered_rows (sd_rows db)"
proof -
  let ?rs = "ordered_rows (sd_rows db)" and ?k = "nat (total_pages (length (sd_rows db)))"
  have "[1..int k] = map (\<lambda>i. int i + 1) [0..<k]" for k
    by (induction k) (simp_all add: upto_rec2 add.commute)
  moreover have "0 \<le> total_pages (length (sd_rows db))" by (simp add: total_pages_def)
  ultimately have "[1..total_pages (length (sd_rows db))] = map (\<lambda>i. int i + 1) [0..<?k]" by (metis int_nat_eq)
  then have "concat (map (\<lambda>page. case page_shown w db page of Some rs \<Rightarrow> rs | None \<Rightarrow> []) [1..total_pages (length (sd_rows db))])
      = concat (map (\<lambda>i. take 20 (drop (i * 20) ?rs)) [0..<?k])"
    by (simp add: comp_def quiet_page [OF assms] nat_mult_distrib)
  also have "\<dots> = take (?k * 20) ?rs" by (rule pages_prefix)
  also have "\<dots> = ?rs"
  proof -
    have "length (sd_rows db) \<le> ?k * 20" unfolding total_pages_def PAGE_SIZE_def by linarith
    then show ?thesis by (simp add: ordered_rows_def)
  qed
  finally show ?thesis .
qed

subsection \<open>Submissions\<close>

lemma create_submit_exact:
  "create_submit V f = (if sf_pending f then (f, None)
     else if sf_name f \<noteq> [] \<and> va_url V (sf_feedUrl f)
     then ((clear_errors f)\<lparr>sf_pending := True\<rparr>,
       Some \<lparr>ci_name = sf_name f, ci_feedUrl = sf_feedUrl f, ci_siteUrl = normalizeSiteUrl (sf_siteUrl f)\<rparr>)
     else (f\<lparr>sf_fieldErrors := \<lparr>fe_name = (if sf_name f = [] then Some (va_tooShort V) else None),
         fe_feedUrl = (if va_url V (sf_feedUrl f) then None else Some (va_badUrl V)), fe_siteUrl = None\<rparr>, sf_formError := None\<rparr>, None))"
  by (auto simp: create_submit_def submit_form_def source_issues_def fieldErrorsFrom_def add_issue_def no_errors_def or_else_def Let_def)

lemma row_save_exact:
  "snd (row_save V r f) = (if \<not> sf_pending f \<and> sf_name f \<noteq> [] \<and> va_url V (sf_feedUrl f)
     then Some (so_id r, \<lparr>pa_name = Some (sf_name f), pa_feedUrl = Some (sf_feedUrl f), pa_siteUrl = Some (normalizeSiteUrl (sf_siteUrl f))\<rparr>)
     else None)"
  by (auto simp: row_save_def submit_form_def source_issues_def Let_def)

text \<open>A row that appeared for \<open>a\<close> and shows \<open>b\<close> now: saving without typing asks for the values of \<open>a\<close>.\<close>

lemma stale_save:
  assumes "so_name a \<noteq> []" and "va_url V (so_feedUrl a)"
  shows "snd (row_save V b (row_edit (row_mount a))) =
    Some (so_id b, \<lparr>pa_name = Some (so_name a), pa_feedUrl = Some (so_feedUrl a), pa_siteUrl = Some (normalizeSiteUrl (site_text a))\<rparr>)"
  using assms by (simp add: row_save_exact row_edit_def row_mount_def fields_of_def create_form_def source_form.extend_def)

end
