(* ===== verification/ApiProperties.thy ===== *)
theory ApiProperties
  imports WorkerJobs LoadBalancing AdminSources
begin

text \<open>
  The properties that join the processes: a job in the worker, the status the API reports of it, and the
  page on which the administration edits sources.
\<close>

subsection \<open>Jobs\<close>

definition job_refused :: "(string \<Rightarrow> json \<Rightarrow> string) \<Rightarrow> queued_job \<Rightarrow> process_error" where
  "job_refused issues job =
     (if qj_name job \<in> {''system.heartbeat'', ''sources.fetch''}
      then InvalidJobPayloadError (qj_name job) (''Invalid payload for job '' @ in_quotes (qj_name job) @ '': '' @ issues (qj_name job) (qj_data job))
      else UnknownJobError (''No handler registered for job '' @ in_quotes (qj_name job)))"

text \<open>C36. The registry of the worker can be built, and then a job does one of three things.  A heartbeat with a
  valid payload publishes the heartbeat, unless Redis refuses, and touches nothing else; a fetch with a
  valid payload changes the sources as the handler does and leaves Redis alone; every other job fails, as
  unknown or with the issues of its payload, and changes nothing.\<close>

theorem job_effects:
  "\<exists>reg. worker_registry U = Inr reg \<and> process_job reg issues instanceId w job s =
    (if qj_name job = ''system.heartbeat'' \<and> heartbeat_payload (qj_data job) \<noteq> None
     then (case wo_redisDown w of
        Some msg \<Rightarrow> (Inl (RedisFailed msg), s)
      | None \<Rightarrow> (Inr (), s\<lparr>wk_redis := publishWorkerHeartbeat (wo_dates w) DEFAULT_JOBS_NAMESPACE instanceId (wo_now w) (wk_redis s)\<rparr>))
     else (case (if qj_name job = ''sources.fetch'' then fetch_payload_of (qj_data job) else None) of
        Some p \<Rightarrow> (case fetch_source U (wo_network w) (worker_repository (wo_sources w)) p (wk_sources s) of
            (Inl e, db) \<Rightarrow> (Inl (JobFailed e), s\<lparr>wk_sources := db\<rparr>)
          | (Inr _, db) \<Rightarrow> (Inr (), s\<lparr>wk_sources := db\<rparr>))
      | None \<Rightarrow> (Inl (job_refused issues job), s)))"
proof -
  obtain reg where reg: "worker_registry U = Inr reg" using worker_registry_exact by blast
  show ?thesis
    by (rule exI [of _ reg]) (rule conjI [OF reg], unfold job_refused_def, rule process_cases [OF reg])
qed

subsection \<open>The heartbeat\<close>

text \<open>C37. The round trip the heartbeat is there to prove: when the worker has processed a heartbeat job, the
  status of any API instance that reads the key within 90 seconds names the worker, the time and the age
  in seconds, and one that reads it later reports no worker.\<close>

theorem heartbeat_reported:
  assumes "da_parse D (da_iso D t) = Some t"
    and "worker_registry U = Inr reg" and "heartbeat_payload v \<noteq> None" and "wo_redisDown w = None"
    and "wo_now w = t" and "wo_dates w = D"
    and "process_job reg issues instanceId w \<lparr>qj_name = ''system.heartbeat'', qj_data = v\<rparr> s = (r, s')"
    and "sw_heartbeat x = Reply ms (redis_get (heartbeatKey DEFAULT_JOBS_NAMESPACE) (sw_now x + int ms) (wk_redis s'))"
    and "t \<le> sw_now x" and "getStatus D deps x requestId = Reply total_ms status"
  shows "st_worker status = (if sw_now x + int ms < t + 90000
    then Some \<lparr>hr_instanceId = instanceId, hr_observedAt = da_iso D t, hr_ageSeconds = rounded_div (sw_now x + int ms - t) 1000\<rparr> else None)"
proof -
  let ?at = "sw_now x + int ms"
  have "wk_redis s' = publishWorkerHeartbeat D DEFAULT_JOBS_NAMESPACE instanceId t (wk_redis s)"
    using assms(3-7) process_cases [OF assms(2)] by auto
  then have "st_worker status = readWorkerHeartbeat D DEFAULT_JOBS_NAMESPACE ?at
      (publishWorkerHeartbeat D DEFAULT_JOBS_NAMESPACE instanceId t (wk_redis s))"
    unfolding readWorkerHeartbeat_def using getStatus_worker [OF assms(10,8)] by simp
  moreover have "t \<le> ?at" using assms(9) by simp
  ultimately show ?thesis using heartbeat_read [of D t ?at DEFAULT_JOBS_NAMESPACE instanceId "wk_redis s"] assms(1) by simp
qed

definition sample_dates :: dates where
  "sample_dates = \<lparr>da_iso = (\<lambda>ms. replicate (nat (ms div 1000)) (CHR ''s'')), da_parse = (\<lambda>t. Some (1000 * int (length t)))\<rparr>"

definition sample_job_world :: worker_world where
  "sample_job_world = \<lparr>wo_sources = \<lparr>sx_others = (\<lambda>_ rs. rs), sx_failure = (\<lambda>_. None), sx_now = int, sx_uuid = (\<lambda>_. [])\<rparr>,
     wo_network = (\<lambda>_ _. Inl \<lparr>ff_timedOut = False, ff_message = []\<rparr>), wo_dates = sample_dates, wo_now = 5000, wo_redisDown = None\<rparr>"

definition sample_jobs :: worker_state where
  "sample_jobs = \<lparr>wk_sources = \<lparr>sd_rows = [], sd_calls = 0\<rparr>, wk_redis = Map.empty\<rparr>"

definition sample_redis :: redis where
  "sample_redis = publishWorkerHeartbeat sample_dates DEFAULT_JOBS_NAMESPACE ''worker-1'' 5000 Map.empty"

definition sample_replies :: system_world where
  "sample_replies = \<lparr>sw_select = Never, sw_ping = Reply 3 ''PONG'', sw_counts = Reply 4 [''waiting'' \<mapsto> 2],
     sw_heartbeat = Reply 7 (redis_get (heartbeatKey DEFAULT_JOBS_NAMESPACE) (17000 + int 7) sample_redis), sw_now = 17000\<rparr>"

definition sample_system :: system_dependencies where
  "sample_system = \<lparr>sy_instanceId = ''api-1'', sy_startedAt = 0, sy_queue = ''system''\<rparr>"

theorem heartbeat_reported_witness:
  "\<exists>total_ms status. getStatus sample_dates sample_system sample_replies ''r'' = Reply total_ms status
    \<and> st_worker status = Some \<lparr>hr_instanceId = ''worker-1'', hr_observedAt = ''sssss'', hr_ageSeconds = 12\<rparr>"
proof -
  let ?reg = "[''system.heartbeat'' \<mapsto> createHeartbeatHandler DEFAULT_JOBS_NAMESPACE,
      ''sources.fetch'' \<mapsto> createSourcesFetchHandler (undefined :: unit url_api)]"
  let ?s = "sample_jobs\<lparr>wk_redis := sample_redis\<rparr>" and ?D = "sample_dates"
  obtain total_ms status where status: "getStatus ?D sample_system sample_replies ''r'' = Reply total_ms status"
    using getStatus_replies [of ?D sample_system sample_replies "''r''"] by (auto simp: replies_def sample_replies_def)
  have dates: "da_parse ?D (da_iso ?D 5000) = Some 5000" by (simp add: sample_dates_def)
  have job: "process_job ?reg (\<lambda>_ _. []) ''worker-1'' sample_job_world \<lparr>qj_name = ''system.heartbeat'', qj_data = JObj []\<rparr> sample_jobs = (Inr (), ?s)"
    by (simp add: process_job_def createHeartbeatHandler_def heartbeat_payload_def optional_text_def json_field_def
        sample_job_world_def sample_jobs_def sample_redis_def)
  have reply: "sw_heartbeat sample_replies = Reply 7 (redis_get (heartbeatKey DEFAULT_JOBS_NAMESPACE) (sw_now sample_replies + int 7) (wk_redis ?s))"
    by (simp add: sample_replies_def)
  have "st_worker status = (if sw_now sample_replies + int 7 < 5000 + 90000
    then Some \<lparr>hr_instanceId = ''worker-1'', hr_observedAt = da_iso ?D 5000, hr_ageSeconds = rounded_div (sw_now sample_replies + int 7 - 5000) 1000\<rparr> else None)"
    by (rule heartbeat_reported [OF dates worker_registry_exact _ _ _ _ job reply _ status])
      (simp_all add: sample_job_world_def sample_replies_def heartbeat_payload_def optional_text_def json_field_def)
  moreover have "da_iso ?D 5000 = ''sssss''" by (simp add: sample_dates_def numeral_eq_Suc)
  ultimately show ?thesis using status by (simp add: sample_replies_def rounded_div_def)
qed

text \<open>
  A worker whose next run but one comes \<open>2 * i\<close> seconds later is read as alive at all times between
  only when \<open>i\<close> is at most 45; the settings allow 3600.
\<close>

lemma heartbeat_gap:
  assumes "\<And>t. da_parse D (da_iso D t) = Some t" and "0 < i"
  shows "(\<forall>now. t \<le> now \<and> now < t + 2 * i * 1000 \<longrightarrow> readWorkerHeartbeat D ns now (publishWorkerHeartbeat D ns inst t r) \<noteq> None) \<longleftrightarrow> i \<le> 45"
    (is "?alive \<longleftrightarrow> _")
proof
  assume alive: ?alive
  show "i \<le> 45"
  proof (rule ccontr)
    assume "\<not> i \<le> 45"
    then have "readWorkerHeartbeat D ns (t + 90000) (publishWorkerHeartbeat D ns inst t r) \<noteq> None" using alive by simp
    then show False using heartbeat_read [of D t "t + 90000" ns inst r] assms(1) by simp
  qed
next
  assume "i \<le> 45"
  then show ?alive using heartbeat_read [of D t _ ns inst r] assms(1) by auto
qed

subsection \<open>Status and readiness\<close>

text \<open>C38. Readiness answers within two seconds whatever the dependencies do, and with 200 exactly when the
  database and Redis answered in time.  The status does not: it needs the queue and the heartbeat, whose
  calls have no timer, so it answers if and only if Redis answers both, while a silent database only shows
  as a failed check.\<close>

theorem status_waits:
  "(\<exists>ms body. ready_route deps w = Reply ms (if answers (sw_select w) () \<and> answers (sw_ping w) ''PONG'' then 200 else 503, body) \<and> ms \<le> 2000)
   \<and> (replies (getStatus D deps w requestId) \<longleftrightarrow> replies (sw_counts w) \<and> replies (sw_heartbeat w))
   \<and> (getStatus D deps w requestId = Reply ms s \<longrightarrow> pr_ok (st_database s) = answers (sw_select w) () \<and> pr_ok (st_redis s) = answers (sw_ping w) ''PONG'')"
proof (intro conjI impI)
  obtain at_ms where "at_ms \<le> 2000" "isReady w = Reply at_ms (answers (sw_select w) () \<and> answers (sw_ping w) ''PONG'')"
    using isReady_exact by blast
  then show "\<exists>ms body. ready_route deps w = Reply ms (if answers (sw_select w) () \<and> answers (sw_ping w) ''PONG'' then 200 else 503, body) \<and> ms \<le> 2000"
    by (auto simp: ready_route_def)
  show "replies (getStatus D deps w requestId) \<longleftrightarrow> replies (sw_counts w) \<and> replies (sw_heartbeat w)" by (rule getStatus_replies)
  assume "getStatus D deps w requestId = Reply ms s"
  then show "pr_ok (st_database s) = answers (sw_select w) ()" "pr_ok (st_redis s) = answers (sw_ping w) ''PONG''"
    by (simp_all add: getStatus_checks probe_ok)
qed

theorem status_waits_witness:
  "replies (getStatus sample_dates sample_system sample_replies ''r'')
    \<and> \<not> replies (getStatus sample_dates sample_system (sample_replies\<lparr>sw_counts := Never\<rparr>) ''r'')
    \<and> (\<exists>ms s. getStatus sample_dates sample_system sample_replies ''r'' = Reply ms s \<and> \<not> pr_ok (st_database s) \<and> pr_ok (st_redis s))"
proof -
  note one = status_waits [of sample_system sample_replies sample_dates "''r''"]
  have r: "replies (getStatus sample_dates sample_system sample_replies ''r'')"
    using one by (auto simp: replies_def sample_replies_def)
  then obtain ms s where s: "getStatus sample_dates sample_system sample_replies ''r'' = Reply ms s" by (auto simp: replies_def)
  have "\<not> answers (sw_select sample_replies) ()" "answers (sw_ping sample_replies) ''PONG''"
    by (auto simp: answers_def sample_replies_def)
  then show ?thesis
    using one [of ms s] s r status_waits [of sample_system "sample_replies\<lparr>sw_counts := Never\<rparr>" sample_dates "''r''"]
    by (auto simp: replies_def)
qed

subsection \<open>The sources page\<close>

text \<open>C39. Turning pages from the first one stays within the pages there are, and over them the table shows
  every source once, in the order of creation: the page size of the table and of the API agree.\<close>

theorem admin_pages_cover:
  assumes "sources_quiet w"
  shows "concat (map (\<lambda>page. case page_shown w db page of Some rs \<Rightarrow> rs | None \<Rightarrow> []) [1..total_pages (length (sd_rows db))]) = ordered_rows (sd_rows db)
    \<and> mset (ordered_rows (sd_rows db)) = mset (sd_rows db)
    \<and> fold (turn_page (length (sd_rows db))) clicks 1 \<in> {1..total_pages (length (sd_rows db))}"
proof (intro conjI)
  show "concat (map (\<lambda>page. case page_shown w db page of Some rs \<Rightarrow> rs | None \<Rightarrow> []) [1..total_pages (length (sd_rows db))]) = ordered_rows (sd_rows db)"
    by (rule all_pages [OF assms])
  show "mset (ordered_rows (sd_rows db)) = mset (sd_rows db)" by (simp add: ordered_rows_def mset_sort_by)
  have "1 \<le> p \<Longrightarrow> p \<le> total_pages n \<Longrightarrow> fold (turn_page n) cs p \<in> {1..total_pages n}" for n p cs
    by (induction cs arbitrary: p) (use turn_in_range in auto)
  then show "fold (turn_page (length (sd_rows db))) clicks 1 \<in> {1..total_pages (length (sd_rows db))}"
    by (simp add: total_pages_def)
qed

definition numbered_row :: "nat \<Rightarrow> source_row" where
  "numbered_row n = \<lparr>so_id = dec n, so_name = ''n'', so_feedUrl = ''http://'' @ dec n, so_siteUrl = None, so_isActive = True, so_etag = None,
     so_lastModified = None, so_lastFetchedAt = None, so_lastError = None, so_createdAt = int n, so_updatedAt = 0\<rparr>"

theorem admin_pages_cover_witness:
  "\<exists>first. page_shown (wo_sources sample_job_world) \<lparr>sd_rows = map numbered_row [0..<25], sd_calls = 0\<rparr> 1 = Some first \<and> length first = 20
    \<and> fold (turn_page 25) [Next, Next, Next] 1 \<in> {1..2}"
proof -
  have quiet: "sources_quiet (wo_sources sample_job_world)" by (simp add: sources_quiet_def sample_job_world_def)
  let ?db = "\<lparr>sd_rows = map numbered_row [0..<25], sd_calls = 0\<rparr>"
  have "fold (turn_page 25) [Next, Next, Next] 1 \<in> {1..2}"
    using admin_pages_cover [OF quiet, of ?db "[Next, Next, Next]"] by (simp add: total_pages_def PAGE_SIZE_def)
  then show ?thesis using quiet_page [OF quiet, of 1 ?db] by (auto simp: ordered_rows_def)
qed

text \<open>C40. A change by someone else is lost: when a row that appeared with the values of \<open>a\<close> comes to show \<open>b\<close>
  and the user opens the form and saves without typing, the request asks for the name and the addresses of
  \<open>a\<close>, and a service on a quiet database writes them over those of \<open>b\<close>.\<close>

theorem stale_edit_reverts:
  assumes "so_name a \<noteq> []" and "va_url V (so_feedUrl a)" and "so_id b = so_id a"
    and "snd (row_save V b (row_edit (row_mount a))) = Some (key, p)"
    and "service_update valid (createSourcesRepository w) key p db = (Inr row, db')" and "index_holds (sd_rows db)"
  shows "so_id row = so_id b \<and> so_name row = so_name a \<and> so_feedUrl row = so_feedUrl a \<and> row \<in> set (sd_rows db')"
proof -
  have p: "key = so_id b" "p = \<lparr>pa_name = Some (so_name a), pa_feedUrl = Some (so_feedUrl a), pa_siteUrl = Some (normalizeSiteUrl (site_text a))\<rparr>"
    using assms(4) stale_save [where V = V and b = b, OF assms(1,2)] by auto
  have "update_end valid (table_fault w) key p (sd_rows db') (Inr row)"
    using api_table.update_ends [OF assms(5)] assms(6) by blast
  then obtain now old where "row \<in> set (sd_rows db')" "so_id row = key" "row = patched now p old"
    unfolding update_end_def by auto
  then show ?thesis by (simp add: p patched_def)
qed

theorem stale_edit_reverts_witness:
  "\<exists>row db'. service_update (\<lambda>_. True) (createSourcesRepository (wo_sources sample_job_world)) ''7''
      \<lparr>pa_name = Some ''n'', pa_feedUrl = Some ''http://7'', pa_siteUrl = Some None\<rparr>
      \<lparr>sd_rows = [(numbered_row 7)\<lparr>so_name := ''renamed''\<rparr>], sd_calls = 0\<rparr> = (Inr row, db') \<and> so_name row = ''n''"
proof -
  let ?a = "numbered_row 7" and ?V = "\<lparr>va_url = (\<lambda>_. True), va_tooShort = [], va_badUrl = []\<rparr>"
  let ?b = "?a\<lparr>so_name := ''renamed''\<rparr>" let ?db = "\<lparr>sd_rows = [?b], sd_calls = 0\<rparr>" and ?w = "wo_sources sample_job_world"
  let ?p = "\<lparr>pa_name = Some ''n'', pa_feedUrl = Some ''http://7'', pa_siteUrl = Some None\<rparr>"
  have saved: "snd (row_save ?V ?b (row_edit (row_mount ?a))) = Some (''7'', ?p)" by code_simp
  have "isl (fst (service_update (\<lambda>_. True) (createSourcesRepository ?w) ''7'' ?p ?db)) = False" by code_simp
  then obtain row db' where run: "service_update (\<lambda>_. True) (createSourcesRepository ?w) ''7'' ?p ?db = (Inr row, db')"
    by (metis isl_def prod.collapse sum.exhaust)
  have "so_name row = so_name ?a"
    using stale_edit_reverts [OF _ _ _ saved run] by (simp add: index_holds_def numbered_row_def)
  then show ?thesis using run by (auto simp: numbered_row_def)
qed

end
