(* ===== verification/Subprocess.thy ===== *)
theory Subprocess
  imports Effects
begin

text \<open>
  The life of one subprocess in \<open>run\<close> of \<open>tooling/local-runner/src/exec.ts\<close>: the two timers, the signals
  they send, and the three promises that the function awaits.  The rest of the runner sees the answer
  of a run that has returned (\<open>en_exec\<close>); here it is when it returns.
\<close>

subsection \<open>State and handlers\<close>

datatype sent_signal = SIGTERM | SIGKILL

text \<open>
  A timer is the time at which it is due.  The promises are the exit code of the child and the texts of
  its output, which are there when every process that holds the pipe has closed it.
\<close>

record running =
  rn_now :: nat
  rn_timeout :: "nat option"
  rn_hardKill :: "nat option"
  rn_timedOut :: bool
  rn_signals :: "sent_signal list"
  rn_exited :: "nat option"
  rn_stdout :: "string option"
  rn_stderr :: "string option"
  rn_result :: "run_result option"

definition spawned :: "call \<Rightarrow> running" where
  "spawned c = \<lparr>rn_now = 0, rn_timeout = cl_timeoutMs c, rn_hardKill = None, rn_timedOut = False, rn_signals = [],
     rn_exited = None, rn_stdout = None, rn_stderr = None, rn_result = None\<rparr>"

definition HARD_KILL_MS :: nat where "HARD_KILL_MS = 10000"

definition timeout_fires :: "running \<Rightarrow> running" where
  "timeout_fires s = s\<lparr>rn_timeout := None, rn_timedOut := True, rn_signals := rn_signals s @ [SIGTERM],
     rn_hardKill := Some (rn_now s + HARD_KILL_MS)\<rparr>"

definition hard_kill_fires :: "running \<Rightarrow> running" where
  "hard_kill_fires s = s\<lparr>rn_hardKill := None, rn_signals := rn_signals s @ [SIGKILL]\<rparr>"

text \<open>What follows the \<open>await\<close>, once all three promises are there.\<close>

definition settled :: "running \<Rightarrow> running" where
  "settled s = (case (rn_stdout s, rn_stderr s, rn_exited s) of
     (Some out, Some err, Some code) \<Rightarrow> s\<lparr>rn_timeout := None, rn_hardKill := None,
        rn_result := Some \<lparr>res_code = code, res_stdout = out, res_stderr = err, res_timedOut = rn_timedOut s\<rparr>\<rparr>
   | _ \<Rightarrow> s)"

subsection \<open>Steps\<close>

text \<open>
  Time passes up to the next timer, which then fires before more time passes; after a \<open>SIGKILL\<close> the child
  ends before more time passes, whatever else it ignores.  The system closes the pipes at any time, also
  long after the child has ended: another process may hold them.
\<close>

inductive child_step :: "running \<Rightarrow> running \<Rightarrow> bool" where
  passes: "rn_result s = None \<Longrightarrow> rn_now s \<le> t \<Longrightarrow> (\<forall>d \<in> set_option (rn_timeout s). t \<le> d) \<Longrightarrow>
    (\<forall>d \<in> set_option (rn_hardKill s). t \<le> d) \<Longrightarrow> (SIGKILL \<in> set (rn_signals s) \<Longrightarrow> rn_exited s \<noteq> None) \<Longrightarrow>
    child_step s (s\<lparr>rn_now := t\<rparr>)"
| deadline: "rn_timeout s = Some (rn_now s) \<Longrightarrow> child_step s (timeout_fires s)"
| hard_kill: "rn_hardKill s = Some (rn_now s) \<Longrightarrow> child_step s (hard_kill_fires s)"
| exits: "rn_exited s = None \<Longrightarrow> child_step s (settled (s\<lparr>rn_exited := Some code\<rparr>))"
| closes_stdout: "rn_stdout s = None \<Longrightarrow> child_step s (settled (s\<lparr>rn_stdout := Some out\<rparr>))"
| closes_stderr: "rn_stderr s = None \<Longrightarrow> child_step s (settled (s\<lparr>rn_stderr := Some err\<rparr>))"

inductive run_reaches :: "call \<Rightarrow> running \<Rightarrow> bool" where
  start: "run_reaches c (spawned c)"
| step: "run_reaches c s \<Longrightarrow> child_step s s' \<Longrightarrow> run_reaches c s'"

inductive_simps child_step_iff: "child_step s s'"

subsection \<open>What holds throughout\<close>

definition awaited :: "running \<Rightarrow> bool" where
  "awaited s \<longleftrightarrow> rn_exited s = None \<or> rn_stdout s = None \<or> rn_stderr s = None"

text \<open>The promises and the result, and the three stages of the timers: armed, after the deadline, after the kill.\<close>

definition promises_ok :: "running \<Rightarrow> bool" where
  "promises_ok s \<longleftrightarrow> (rn_result s = None \<longleftrightarrow> awaited s)
     \<and> (\<forall>r. rn_result s = Some r \<longrightarrow> res_timedOut r = rn_timedOut s \<and> rn_exited s = Some (res_code r))
     \<and> (rn_result s \<noteq> None \<longrightarrow> rn_timeout s = None \<and> rn_hardKill s = None)"

definition armed :: "nat option \<Rightarrow> running \<Rightarrow> bool" where
  "armed d s \<longleftrightarrow> \<not> rn_timedOut s \<and> rn_signals s = [] \<and> rn_hardKill s = None
     \<and> (rn_result s = None \<longrightarrow> rn_timeout s = d) \<and> (\<forall>t. d = Some t \<longrightarrow> rn_now s \<le> t)"

definition warned :: "nat \<Rightarrow> running \<Rightarrow> bool" where
  "warned t s \<longleftrightarrow> rn_timedOut s \<and> rn_signals s = [SIGTERM] \<and> rn_timeout s = None
     \<and> (rn_result s = None \<longrightarrow> rn_hardKill s = Some (t + HARD_KILL_MS)) \<and> t \<le> rn_now s \<and> rn_now s \<le> t + HARD_KILL_MS"

definition killed :: "nat \<Rightarrow> running \<Rightarrow> bool" where
  "killed t s \<longleftrightarrow> rn_timedOut s \<and> rn_signals s = [SIGTERM, SIGKILL] \<and> rn_timeout s = None \<and> rn_hardKill s = None
     \<and> t + HARD_KILL_MS \<le> rn_now s \<and> (rn_exited s = None \<longrightarrow> rn_now s = t + HARD_KILL_MS)"

definition run_stage :: "nat option \<Rightarrow> running \<Rightarrow> bool" where
  "run_stage d s \<longleftrightarrow> armed d s \<or> (\<exists>t. d = Some t \<and> (warned t s \<or> killed t s))"

lemma settled_simps [simp]:
  "rn_now (settled s) = rn_now s" "rn_timedOut (settled s) = rn_timedOut s" "rn_signals (settled s) = rn_signals s"
  "rn_exited (settled s) = rn_exited s" "rn_stdout (settled s) = rn_stdout s" "rn_stderr (settled s) = rn_stderr s"
  "rn_timeout (settled s) = (if awaited s then rn_timeout s else None)"
  "rn_hardKill (settled s) = (if awaited s then rn_hardKill s else None)"
  by (auto simp: settled_def awaited_def split: option.splits)

lemma settled_result:
  "rn_result (settled s) = (if awaited s then rn_result s else
     Some \<lparr>res_code = the (rn_exited s), res_stdout = the (rn_stdout s), res_stderr = the (rn_stderr s), res_timedOut = rn_timedOut s\<rparr>)"
  by (auto simp: settled_def awaited_def split: option.splits)

lemma awaited_settled [simp]: "awaited (settled s) = awaited s" by (simp add: awaited_def)

lemma promises_settled: "rn_result s = None \<Longrightarrow> promises_ok (settled s)"
  by (auto simp: promises_ok_def settled_result awaited_def)

text \<open>A promise that is fulfilled changes nothing about the timers but may end the run.\<close>

lemma stage_settled:
  assumes "run_stage d s" and "rn_result s = None" and "rn_result s' = None"
    and "rn_now s' = rn_now s" "rn_timedOut s' = rn_timedOut s" "rn_signals s' = rn_signals s"
    and "rn_timeout s' = rn_timeout s" "rn_hardKill s' = rn_hardKill s" and "rn_exited s \<noteq> None \<Longrightarrow> rn_exited s' \<noteq> None"
  shows "run_stage d (settled s')"
proof -
  have "armed d s \<Longrightarrow> armed d (settled s')" using assms(2-) by (simp add: armed_def settled_result)
  moreover have "warned t s \<Longrightarrow> warned t (settled s')" for t using assms(2-) by (simp add: warned_def settled_result)
  moreover have "killed t s \<Longrightarrow> killed t (settled s')" for t using assms(2-) by (auto simp: killed_def)
  ultimately show ?thesis using assms(1) unfolding run_stage_def by blast
qed

lemma stage_passes:
  assumes "run_stage d s" "rn_result s = None" "rn_now s \<le> t" "\<forall>x \<in> set_option (rn_timeout s). t \<le> x"
    and "\<forall>x \<in> set_option (rn_hardKill s). t \<le> x" "SIGKILL \<in> set (rn_signals s) \<Longrightarrow> rn_exited s \<noteq> None"
  shows "run_stage d (s\<lparr>rn_now := t\<rparr>)"
proof -
  have "armed d s \<Longrightarrow> armed d (s\<lparr>rn_now := t\<rparr>)" using assms(2-) by (simp add: armed_def)
  moreover have "warned x s \<Longrightarrow> warned x (s\<lparr>rn_now := t\<rparr>)" for x using assms(2-) by (simp add: warned_def)
  moreover have "killed x s \<Longrightarrow> killed x (s\<lparr>rn_now := t\<rparr>)" for x using assms(2-) by (auto simp: killed_def)
  ultimately show ?thesis using assms(1) unfolding run_stage_def by blast
qed

lemma stage_timeout:
  assumes "run_stage d s" and "rn_timeout s = Some (rn_now s)" and "rn_result s = None"
  shows "run_stage d (timeout_fires s)"
proof -
  have "armed d s" using assms(1,2) by (auto simp: run_stage_def warned_def killed_def)
  then have "d = Some (rn_now s) \<and> warned (rn_now s) (timeout_fires s)"
    using assms(2,3) by (simp add: armed_def warned_def timeout_fires_def)
  then show ?thesis unfolding run_stage_def by blast
qed

lemma stage_hard_kill:
  assumes "run_stage d s" and "rn_hardKill s = Some (rn_now s)" and "rn_result s = None"
  shows "run_stage d (hard_kill_fires s)"
proof -
  obtain t where "d = Some t" "warned t s" using assms(1,2) by (auto simp: run_stage_def armed_def killed_def)
  then have "d = Some t \<and> killed t (hard_kill_fires s)"
    using assms(2,3) by (simp add: warned_def killed_def hard_kill_fires_def)
  then show ?thesis unfolding run_stage_def by blast
qed

lemma child_step_inv: "child_step s s' \<Longrightarrow> promises_ok s \<Longrightarrow> run_stage d s \<Longrightarrow> promises_ok s' \<and> run_stage d s'"
proof (induction rule: child_step.induct)
  case (passes s t)
  then show ?case using stage_passes by (auto simp: promises_ok_def awaited_def)
next
  case (deadline s)
  then have "rn_result s = None" by (auto simp: promises_ok_def)
  then show ?case using deadline stage_timeout by (auto simp: promises_ok_def awaited_def timeout_fires_def)
next
  case (hard_kill s)
  then have "rn_result s = None" by (auto simp: promises_ok_def)
  then show ?case using hard_kill stage_hard_kill by (auto simp: promises_ok_def awaited_def hard_kill_fires_def)
next
  case (exits s code)
  then have "rn_result s = None" by (auto simp: promises_ok_def awaited_def)
  then show ?case using exits by (intro conjI promises_settled stage_settled [of d s]) simp_all
next
  case (closes_stdout s out)
  then have "rn_result s = None" by (auto simp: promises_ok_def awaited_def)
  then show ?case using closes_stdout by (intro conjI promises_settled stage_settled [of d s]) simp_all
next
  case (closes_stderr s err)
  then have "rn_result s = None" by (auto simp: promises_ok_def awaited_def)
  then show ?case using closes_stderr by (intro conjI promises_settled stage_settled [of d s]) simp_all
qed

lemma run_reaches_inv: "run_reaches c s \<Longrightarrow> promises_ok s \<and> run_stage (cl_timeoutMs c) s"
proof (induction rule: run_reaches.induct)
  case (start c)
  then show ?case by (simp add: promises_ok_def run_stage_def armed_def spawned_def awaited_def)
next
  case (step c s s')
  then show ?case using child_step_inv by blast
qed

subsection \<open>Who holds the runner\<close>

lemma reaches_pass:
  assumes "run_reaches c s" "rn_result s = None" "rn_now s \<le> t" "\<forall>d \<in> set_option (rn_timeout s). t \<le> d"
    "\<forall>d \<in> set_option (rn_hardKill s). t \<le> d" "SIGKILL \<in> set (rn_signals s) \<Longrightarrow> rn_exited s \<noteq> None"
  shows "run_reaches c (s\<lparr>rn_now := t\<rparr>)"
  using assms run_reaches.step child_step.passes by blast

text \<open>
  A child that ends at once while another process keeps its output open: what the run has come to at
  time \<open>n\<close>.
\<close>

lemma orphaned_output:
  assumes "cl_timeoutMs c = Some t"
  shows "\<exists>s. run_reaches c s \<and> rn_now s = n \<and> rn_exited s = Some 0 \<and> rn_result s = None"
proof -
  let ?s0 = "(spawned c)\<lparr>rn_exited := Some 0\<rparr>"
  have s0: "run_reaches c ?s0"
    using run_reaches.step [OF start [of c] exits, of 0] by (simp add: settled_def spawned_def)
  have early: "run_reaches c (?s0\<lparr>rn_now := m\<rparr>)" if "m \<le> t" for m
    by (rule reaches_pass [OF s0]) (use that assms in \<open>simp_all add: spawned_def\<close>)
  let ?s1 = "timeout_fires (?s0\<lparr>rn_now := t\<rparr>)"
  have s1: "run_reaches c ?s1"
    by (rule run_reaches.step [OF early deadline]) (use assms in \<open>simp_all add: spawned_def\<close>)
  have late: "run_reaches c (?s1\<lparr>rn_now := m\<rparr>)" if "t \<le> m" "m \<le> t + HARD_KILL_MS" for m
    by (rule reaches_pass [OF s1]) (use that in \<open>simp_all add: spawned_def timeout_fires_def\<close>)
  let ?s2 = "hard_kill_fires (?s1\<lparr>rn_now := t + HARD_KILL_MS\<rparr>)"
  have s2: "run_reaches c ?s2"
    by (rule run_reaches.step [OF late hard_kill]) (simp_all add: spawned_def timeout_fires_def)
  have gone: "run_reaches c (?s2\<lparr>rn_now := m\<rparr>)" if "t + HARD_KILL_MS \<le> m" for m
    by (rule reaches_pass [OF s2]) (use that in \<open>simp_all add: spawned_def timeout_fires_def hard_kill_fires_def\<close>)
  consider "n \<le> t" | "t \<le> n" "n \<le> t + HARD_KILL_MS" | "t + HARD_KILL_MS \<le> n" by linarith
  then show ?thesis
  proof cases
    case 1
    show ?thesis by (rule exI [of _ "?s0\<lparr>rn_now := n\<rparr>"]) (use early [OF 1] in \<open>simp add: spawned_def\<close>)
  next
    case 2
    show ?thesis by (rule exI [of _ "?s1\<lparr>rn_now := n\<rparr>"]) (use late [OF 2] in \<open>simp add: spawned_def timeout_fires_def\<close>)
  next
    case 3
    show ?thesis
      by (rule exI [of _ "?s2\<lparr>rn_now := n\<rparr>"]) (use gone [OF 3] in \<open>simp add: spawned_def timeout_fires_def hard_kill_fires_def\<close>)
  qed
qed

text \<open>C35. The time limit of a subprocess bounds the child but not the run.  Ten seconds after the limit the child
  is gone, whatever it ignores, and only its output can keep the run from returning; a result says
  \<open>timedOut\<close> exactly when a signal was sent.  But while another process holds the output, the run has not
  returned at any time, though the child has ended successfully.\<close>

theorem deadline_ends_child_only:
  assumes "run_reaches c s" and "cl_timeoutMs c = Some t"
  shows "(rn_exited s = None \<longrightarrow> rn_now s \<le> t + 10000)
    \<and> (rn_now s > t + 10000 \<and> rn_result s = None \<longrightarrow> rn_stdout s = None \<or> rn_stderr s = None)
    \<and> (\<forall>r. rn_result s = Some r \<longrightarrow> (res_timedOut r \<longleftrightarrow> SIGTERM \<in> set (rn_signals s)))
    \<and> (\<forall>n. \<exists>s'. run_reaches c s' \<and> rn_now s' = n \<and> rn_exited s' = Some 0 \<and> rn_result s' = None)"
proof -
  have inv: "promises_ok s" "run_stage (Some t) s" using run_reaches_inv [OF assms(1)] assms(2) by auto
  have child: "rn_exited s = None \<longrightarrow> rn_now s \<le> t + 10000"
    using inv(2) by (auto simp: run_stage_def armed_def warned_def killed_def HARD_KILL_MS_def)
  moreover have "rn_now s > t + 10000 \<and> rn_result s = None \<longrightarrow> rn_stdout s = None \<or> rn_stderr s = None"
    using inv(1) child by (auto simp: promises_ok_def awaited_def)
  moreover have "rn_timedOut s \<longleftrightarrow> SIGTERM \<in> set (rn_signals s)"
    using inv(2) by (auto simp: run_stage_def armed_def warned_def killed_def)
  then have "\<forall>r. rn_result s = Some r \<longrightarrow> (res_timedOut r \<longleftrightarrow> SIGTERM \<in> set (rn_signals s))"
    using inv(1) by (auto simp: promises_ok_def)
  ultimately show ?thesis using orphaned_output [OF assms(2)] by blast
qed

definition sample_step_call :: call where
  "sample_step_call = \<lparr>cl_command = ''bun'', cl_args = [''run'', ''test''], cl_cwd = None, cl_stdin = None,
     cl_timeoutMs = Some 1200000, cl_profile = ProfBase\<rparr>"

theorem deadline_ends_child_only_witness:
  "\<exists>s. run_reaches sample_step_call s \<and> rn_now s = 86400000 \<and> rn_exited s = Some 0 \<and> rn_result s = None
    \<and> (rn_stdout s = None \<or> rn_stderr s = None)"
proof -
  have limit: "cl_timeoutMs sample_step_call = Some 1200000" by (simp add: sample_step_call_def)
  obtain s where s: "run_reaches sample_step_call s" "rn_now s = 86400000" "rn_exited s = Some 0" "rn_result s = None"
    using deadline_ends_child_only [OF start limit] by blast
  then show ?thesis using deadline_ends_child_only [OF s(1) limit] by auto
qed

end
