(* ===== verification/Spec2Isabelle.thy ===== *)
theory Spec2Isabelle
  imports LoopProperties SessionProperties WorkerProperties ApiProperties LoopReport Subprocess
begin

text \<open>
  A model of this repository, a news collector developed by an agent loop: the control plane under
  \<open>tooling/loop\<close>, which decides what happens to a pull request, the local runner under
  \<open>tooling/local-runner\<close>, which works on issues unattended, and the collector itself, whose worker, API
  and administration are under \<open>apps\<close> and \<open>packages\<close>.

  \<^bold>\<open>The program.\<close>  \<open>bin/select-issue.ts\<close> picks an issue, \<open>bin/classify-risk.ts\<close> says how much verification
  a change needs, and \<open>bin/evaluate-pr.ts\<close> decides about a pull request: it reads the diff, the
  policy, the reviews of independent agents and the comment in which the loop keeps its state,
  adds the findings of deterministic checks, and answers with a decision, a new comment and labels.
  The runner claims an issue, drives a coding agent in a worktree, verifies and reviews the change,
  opens a pull request and leaves the merge to GitHub; a journal file, a lock file and a budget are
  its own state.

  The worker takes jobs from a queue: a heartbeat is written to Redis, where the status of the API reads
  it, and a fetch loads a feed, parses it into candidates, collapses their duplicates and inserts the
  unknown ones.  The API lists and changes the sources of feeds, and the administration has a page for it.

  \<^bold>\<open>Theories.\<close>
  \<^item> \<open>Prelude\<close>, \<open>Regexp\<close>, \<open>RxReplace\<close>, \<open>Json\<close>: strings, JavaScript regular expressions (a backtracking matcher
    with an interpreter of the source syntax), replacement, JSON printing and parsing.
  \<^item> \<open>Policy\<close> (\<open>policy.ts\<close>), \<open>Glob\<close> (\<open>glob.ts\<close>), \<open>Diff\<close> (\<open>diff.ts\<close>), \<open>Detect\<close> (\<open>detect.ts\<close>), \<open>Review\<close>
    (\<open>review.ts\<close>), \<open>Checks\<close> (\<open>checks/\<close>), \<open>ControlPlane\<close> (\<open>control-plane.ts\<close>), \<open>Risk\<close> (\<open>risk.ts\<close>): what is read
    off a change.
  \<^item> \<open>Aggregate\<close> (\<open>aggregate.ts\<close>), \<open>MergeGate\<close> (\<open>merge-gate.ts\<close>), \<open>LoopState\<close> (\<open>state.ts\<close>, \<open>recurrence.ts\<close>),
    \<open>Eligibility\<close> (\<open>eligibility.ts\<close>, \<open>dependencies.ts\<close>), \<open>Summary\<close> (\<open>summary.ts\<close>), \<open>Evaluate\<close> (\<open>bin/\<close>): what is
    decided.  \<open>Rounds\<close> is the life of one pull request as a relation over evaluations, \<open>Samples\<close> the
    concrete inputs of the witnesses, \<open>LoopProperties\<close> the properties of these parts.
  \<^item> \<open>LoopReport\<close>: the prompt for a reviewer (\<open>bin/review-prompt.ts\<close>) and what the runner's commands print.
  \<^item> \<open>Branch\<close> (\<open>branch.ts\<close>), \<open>RunnerConfig\<close> (\<open>config.ts\<close>, \<open>budget.ts\<close>, \<open>backoff.ts\<close>), \<open>Journal\<close> (\<open>journal.ts\<close>, and the
    locales of stores with a key), \<open>RunSummary\<close> (\<open>summary.ts\<close>), \<open>Redact\<close> (\<open>redact.ts\<close>, \<open>report.ts\<close>), \<open>Lock\<close>
    (\<open>lock.ts\<close>), \<open>Effects\<close> (\<open>exec.ts\<close>, and the computations the runner is written in), with their
    properties in \<open>RunnerProperties\<close>.  \<open>Subprocess\<close> is the life of one subprocess in \<open>run\<close>, with its timers.
  \<^item> \<open>Verify\<close> (\<open>verify.ts\<close>), \<open>Git\<close> (\<open>git.ts\<close>), \<open>Github\<close> (\<open>github.ts\<close>), \<open>Claude\<close> (\<open>prompts.ts\<close>, \<open>claude.ts\<close>, \<open>agent.ts\<close>,
    \<open>claude-agent.ts\<close>), \<open>Preflight\<close> (\<open>preflight.ts\<close>, \<open>review-command.ts\<close>): the adapters of the runner.  \<open>Orchestrator\<close>
    and \<open>Session\<close> (\<open>orchestrator.ts\<close>) compose them, \<open>LoopCommand\<close> (\<open>bin/loop.ts\<close>) is the command line.
  \<^item> \<open>RunnerCalls\<close> has the locales of clients of GitHub and of agents, with what such a client may call;
    \<open>RunnerOutcome\<close> follows an issue to its pull request, \<open>RunnerFiles\<close> and \<open>RunnerJournal\<close> say who writes the
    journal and what is left in it, \<open>LogRedaction\<close> what redaction does to a log, \<open>RunnerSamples\<close> is an
    outside for complete runs.  The properties are in \<open>RunnerSafety\<close> and \<open>SessionProperties\<close>.
  \<^item> \<open>Tasks\<close>: computations over a state of any type.  \<open>Articles\<close> (\<open>modules/articles\<close> of the worker), \<open>ArticleStore\<close>
    (its repository over the table, with other writers between the calls), \<open>ArticleQuiet\<close> (the refinement of
    a store of keys), \<open>FeedParser\<close> with \<open>FeedText\<close> (\<open>lib/feed-parser.ts\<close>), \<open>FeedFetcher\<close> (\<open>lib/feed-fetcher.ts\<close>),
    \<open>SourcesFetch\<close> (\<open>handlers/sources-fetch.ts\<close>), \<open>SourcesService\<close> (\<open>modules/sources\<close> of the API), with their
    properties in \<open>WorkerProperties\<close>.
  \<^item> \<open>Requests\<close> (settings, request ids, tokens), \<open>SystemStatus\<close> (\<open>modules/system\<close> of the API with the probes and
    the heartbeat of \<open>packages\<close>), \<open>WorkerJobs\<close> (\<open>processor.ts\<close> and the handlers), \<open>LoadBalancing\<close>
    (\<open>scripts/verify-load-balancing.ts\<close>), \<open>AdminSources\<close> (\<open>routes/sources.tsx\<close> of the administration), with their
    properties in \<open>ApiProperties\<close>.

  \<^bold>\<open>Interfaces.\<close>  Where the code is written against an interface, its promises are a locale, interpreted on
  the model of the code that provides it: \<open>per_file_check\<close> (the deterministic checks), \<open>keyed_store\<close> and
  \<open>complete_store\<close> (journal and session summary), \<open>github_client\<close> with \<open>runner_client\<close> and the clients that
  extend it (the dependencies \<open>cli_deps\<close> of the command line), \<open>articles_store\<close> and \<open>sources_store\<close> (the
  repositories over the database).

  \<^bold>\<open>Groups of properties.\<close>  C1 to C4 join diff, policy, reviews and stored state into the decision about a pull
  request.  \<open>LoopProperties\<close> has the parts of that decision, \<open>RunnerProperties\<close>, \<open>RunnerSafety\<close> and \<open>SessionProperties\<close>
  what the runner may do, what a published change went through and where a session gets stuck,
  \<open>WorkerProperties\<close> the way of a feed into the database and the operations on sources, \<open>ApiProperties\<close> the
  jobs, the status and the page on which sources are edited.

  \<^bold>\<open>Conventions.\<close>  A TypeScript interface is a record, a union of literals a datatype, \<open>null\<close> and
  \<open>undefined\<close> are \<open>None\<close>, an exception is \<open>None\<close> or the left of a sum.  A string is a list of bytes:
  characters outside ASCII are written out in UTF-8 and lengths count bytes.  Numbers the code only
  counts with are \<open>nat\<close>, times are \<open>int\<close> in milliseconds.  Letter case and white
  space are those of ASCII.  What is not under \<open>src/\<close> is an argument: the zod schemas
  (\<open>ev_safeParseState\<close> and its kin), \<open>localeCompare\<close>, Unicode normalisation (\<open>nfkd\<close>), the clock, process
  liveness, the answer of every subprocess that returns (\<open>en_exec\<close>), the network, the parser of XML,
  addresses (\<open>url_api\<close>), hashes and dates.  A database is its table with what other writers do between
  two calls and which call fails; a promise of the status is a reply with its time, or never settles.

  \<^bold>\<open>Fuel.\<close>  The regular expression matcher repeats a subexpression at most once per remaining character
  and once more, since an iteration that consumes nothing ends the repetition, as the language
  prescribes.  The parser of JSON has fuel; \<open>json_parse_stringify\<close> shows that the fuel it is given is enough
  for every printed value.  The inheritance of tiers (\<open>collect\<close>) and the roots of duplicates (\<open>find_root\<close>) are
  walks that may not end: they are partial functions into an option, and \<open>collect_total\<close> and
  \<open>find_root_forest\<close> show when they return.  The loop over redirects terminates by a measure.  An unattended
  session may go on for ever: \<open>session_run\<close> has fuel, and without an end within it the result is \<open>None\<close>.

  \<^bold>\<open>Not modelled.\<close>  Rendering: the components of the web front end and of the administration, except the
  state and the handlers of the sources page.  The start-up and shutdown of the processes, signal
  handlers, log lines, the mounting of routes, and re-exports.  Schemas that only declare (zod, drizzle,
  the contract of the API), the libraries behind them (the job queue, the client of the database, the
  verification of tokens), migrations, seeds and end-to-end tests.
\<close>

section \<open>The decision about a pull request\<close>

text \<open>C1. A pull request that the evaluation merges automatically has, whatever the reviews, the diff and
  the comments say: enough independent reviews for its risk tier, every one of them approving; no
  deterministic finding of blocking severity; no fork, no human hold; and no weakened protection
  unless a human approved.\<close>
theorem auto_merge_end_to_end:
  assumes "evaluate_pr ev policy proposed ctx dt ro = Some e" and "o_decision (e_outcome e) = AutoMerge"
  shows "reviewersForRisk policy (ra_risk (e_risk e)) \<le> length (agentReviews ev ro)
    \<and> (\<forall>r \<in> set (agentReviews ev ro). r_status r = Approve)
    \<and> (\<forall>f \<in> set (runDeterministicChecks (ev_localeCompare ev) (parseUnifiedDiff dt)).
         f_severity f < pol_blockingSeverity policy)
    \<and> \<not> ec_isFork ctx \<and> HUMAN_HOLD_LABEL \<notin> set (ec_labels ctx @ ec_issueLabels ctx)
    \<and> (weakenedProtections policy proposed (parseUnifiedDiff dt) = [] \<or> ec_humanApprovals ctx > 0)"
  using auto_merge_evidence [OF assms] by blast

lemma sample_merges:
  "\<exists>e. evaluate_pr sample_env sample_policy None sample_context sample_diff (Some ''r.json'') = Some e
    \<and> o_decision (e_outcome e) = AutoMerge"
proof -
  have "map_option (\<lambda>e. o_decision (e_outcome e))
      (evaluate_pr sample_env sample_policy None sample_context sample_diff (Some ''r.json'')) = Some AutoMerge"
    by code_simp
  then show ?thesis by (auto simp: map_option_case split: option.splits)
qed

lemma auto_merge_end_to_end_witness:
  "list_all (\<lambda>r. r_status r = Approve) (agentReviews sample_env (Some ''r.json''))
   \<and> reviewersForRisk sample_policy Low \<le> length (agentReviews sample_env (Some ''r.json''))"
proof -
  obtain e where "evaluate_pr sample_env sample_policy None sample_context sample_diff (Some ''r.json'') = Some e"
    "o_decision (e_outcome e) = AutoMerge"
    using sample_merges by blast
  from auto_merge_end_to_end [OF this] show ?thesis
    by (simp add: list_all_iff reviewersForRisk_def sample_policy_def sample_tier_def)
qed




text \<open>C3. \<open>decideMerge\<close> answers an automatic merge exactly when the pull request is no draft, not held by
  a person and no fork, its protections are not weakened (or a human approved), enough reviews are
  there and all approve without a blocking finding, tier verification neither failed nor was
  unavailable, and every required check that the loop does not publish itself has settled well.\<close>
theorem auto_merge_iff:
  "o_decision (decideMerge g) = AutoMerge \<longleftrightarrow>
     \<not> g_isDraft g \<and> g_humanHold g \<noteq> Some True \<and> \<not> g_isFork g
   \<and> (weakened g = [] \<or> g_humanApprovals g > 0)
   \<and> length (g_reviews g) \<ge> g_requiredReviewers g
   \<and> list_all (\<lambda>r. r_status r = Approve \<and> list_all (\<lambda>f. f_severity f < g_blockingSeverity g) (r_findings r)) (g_reviews g)
   \<and> tier_unavailable g = [] \<and> tier_failed g = []
   \<and> list_all (check_settled g) (withoutSelfPublishedChecks (g_requiredChecks g))"
  unfolding decideMerge_auto mergeable_def list_all_iff ..

text \<open>A fix round is dispatched exactly when the decision is that changes are requested, and then a
  review attempt is still left, nothing needs a human and the reviews reached a verdict.\<close>
theorem fix_round_guarded:
  assumes "o_shouldDispatchFix (decideMerge g)"
  shows "o_decision (decideMerge g) = ChangesRequested \<and> g_reviewAttempts g < g_maxReviewAttempts g
    \<and> \<not> g_isDraft g \<and> \<not> g_isFork g \<and> g_humanHold g \<noteq> Some True
    \<and> ag_status (gate_aggregate g) \<noteq> Blocked \<and> tier_unavailable g = []"
  using assms unfolding decideMerge_dispatch by (auto simp: decideMerge_decision Let_def not_le split: if_splits)

lemma fix_round_guarded_witness: "g_reviewAttempts sample_gate < g_maxReviewAttempts sample_gate"
proof -
  have "o_shouldDispatchFix (decideMerge sample_gate)" by code_simp
  then show ?thesis using fix_round_guarded by blast
qed




end
